(* ===== verification/JS_Prelude.thy ===== *)
theory JS_Prelude
  imports Main "HOL-Library.Word"
begin

text \<open>
  What every component of the development shares: the parts of the JavaScript
  language that the TypeScript sources use on strings and arrays, the simplification
  collections of the development and the generic lemmas on them.

  A JavaScript string is a sequence of 16-bit code units, so \<open>jstring\<close> is
  \<^typ>\<open>16 word list\<close>: \<open>length\<close>, \<open>slice\<close> and indexing count code units here as they
  do in the source.  \<open>js\<close> embeds an ASCII literal.
\<close>

named_theorems js_eval \<open>equations that evaluate string operations on literals\<close>
named_theorems js_string \<open>laws of the string and array operations\<close>

section \<open>Strings\<close>

type_synonym jchar = "16 word"
type_synonym jstring = "jchar list"

definition u16 :: "char \<Rightarrow> jchar" where
  "u16 c = of_nat (of_char c)"

definition js :: "string \<Rightarrow> jstring" where
  "js s = map u16 s"

lemma of_char_less: "(of_char c :: nat) < 256"
  by (metis of_char_mod_256 mod_less_divisor zero_less_numeral)

lemma unat_u16: "unat (u16 c) = of_char c"
proof -
  have "(of_char c :: nat) < 256" by (rule of_char_less)
  then have "(of_char c :: nat) < 65536" by (rule less_trans) simp
  then show ?thesis
    by (simp add: u16_def unat_of_nat take_bit_eq_mod del: of_nat_of_char)
qed

lemma u16_eq_iff [simp]: "u16 c = u16 d \<longleftrightarrow> c = d"
proof
  assume "u16 c = u16 d"
  then have "(of_char c :: nat) = of_char d" by (metis unat_u16)
  then show "c = d" by simp
qed simp

lemma js_eq_iff [simp]: "js s = js t \<longleftrightarrow> s = t"
  by (simp add: js_def inj_on_def inj_map_eq_map)

lemma js_Nil_iff [simp]: "js s = [] \<longleftrightarrow> s = []" "[] = js s \<longleftrightarrow> s = []"
  by (simp_all add: js_def)

lemma length_js [simp]: "length (js s) = length s"
  by (simp add: js_def)

lemma js_Nil [js_eval]: "js [] = []"
  by (simp add: js_def)

lemma js_Cons [js_eval]: "js (c # s) = u16 c # js s"
  by (simp add: js_def)

lemma u16_eq_numeral [js_eval]: "u16 c = numeral n \<longleftrightarrow> of_char c = (unat (numeral n :: jchar))"
  by (metis unat_u16 unsigned_word_eqI)

lemma numeral_eq_u16 [js_eval]: "numeral n = u16 c \<longleftrightarrow> of_char c = (unat (numeral n :: jchar))"
  by (metis u16_eq_numeral)

subsection \<open>White space, \<open>trim\<close>\<close>

text \<open>
  The characters that \<open>String.prototype.trim\<close> removes and that \<open>\\s\<close> matches: the
  white space and line terminators of ECMAScript.
\<close>

definition is_ws :: "jchar \<Rightarrow> bool" where
  "is_ws c \<longleftrightarrow> (let n = unat c in
     9 \<le> n \<and> n \<le> 13 \<or> n = 32 \<or> n = 160 \<or> n = 5760 \<or> 8192 \<le> n \<and> n \<le> 8202 \<or>
     n = 8232 \<or> n = 8233 \<or> n = 8239 \<or> n = 8287 \<or> n = 12288 \<or> n = 65279)"

lemma is_ws_u16 [js_eval]:
  "is_ws (u16 c) \<longleftrightarrow> (let n = of_char c :: nat in 9 \<le> n \<and> n \<le> 13 \<or> n = 32 \<or> n = 160)"
proof -
  have "(of_char c :: nat) < 256" by (rule of_char_less)
  then have "(of_char c :: nat) \<le> 255" by linarith
  then show ?thesis unfolding is_ws_def unat_u16 Let_def by presburger
qed

definition jtrim :: "jstring \<Rightarrow> jstring" where
  "jtrim s = rev (dropWhile is_ws (rev (dropWhile is_ws s)))"

definition trimmed :: "jstring \<Rightarrow> bool" where
  "trimmed s \<longleftrightarrow> s = [] \<or> \<not> is_ws (hd s) \<and> \<not> is_ws (last s)"

lemma jtrim_Nil [simp]: "jtrim [] = []"
  by (simp add: jtrim_def)

lemma trimmed_jtrim [simp]: "trimmed (jtrim s)"
proof (cases "jtrim s = []")
  case True
  then show ?thesis by (simp add: trimmed_def)
next
  case False
  let ?d = "dropWhile is_ws s"
  let ?r = "dropWhile is_ws (rev ?d)"
  from False have r: "?r \<noteq> []" by (simp add: jtrim_def)
  then have d: "?d \<noteq> []" by force
  from r have "\<not> is_ws (hd ?r)" by (rule hd_dropWhile)
  moreover have "last (jtrim s) = hd ?r" using r by (simp add: jtrim_def last_rev)
  moreover have "hd (jtrim s) = hd ?d"
  proof -
    obtain us where "rev ?d = us @ ?r" by (metis takeWhile_dropWhile_id)
    then have "?d = rev ?r @ rev us" by (metis rev_append rev_rev_ident)
    then show ?thesis using r by (metis hd_append2 jtrim_def rev_is_Nil_conv)
  qed
  moreover have "\<not> is_ws (hd ?d)" using d by (rule hd_dropWhile)
  ultimately show ?thesis by (simp add: trimmed_def)
qed

lemma jtrim_trimmed [js_string]: "trimmed s \<Longrightarrow> jtrim s = s"
proof -
  assume t: "trimmed s"
  show "jtrim s = s"
  proof (cases "s = []")
    case False
    with t have "dropWhile is_ws s = s"
      by (metis dropWhile_eq_self_iff trimmed_def)
    moreover from False t have "dropWhile is_ws (rev s) = rev s"
      by (metis dropWhile_eq_self_iff hd_rev trimmed_def)
    ultimately show ?thesis by (simp add: jtrim_def)
  qed simp
qed

lemma jtrim_idem [simp]: "jtrim (jtrim s) = jtrim s"
  by (rule jtrim_trimmed) simp

lemma set_jtrim: "set (jtrim s) \<subseteq> set s"
  unfolding jtrim_def by (metis set_dropWhileD set_rev subsetI)

lemma jtrim_no_ws [js_string]: "list_all (\<lambda>c. \<not> is_ws c) s \<Longrightarrow> jtrim s = s"
  by (rule jtrim_trimmed) (auto simp: trimmed_def list_all_iff)

lemma length_jtrim_le: "length (jtrim s) \<le> length s"
  using length_dropWhile_le [of is_ws "rev (dropWhile is_ws s)"] length_dropWhile_le [of is_ws s]
  by (simp add: jtrim_def)

subsection \<open>\<open>startsWith\<close>, \<open>indexOf\<close>, \<open>includes\<close>, \<open>slice\<close>\<close>

definition starts_with :: "'a list \<Rightarrow> 'a list \<Rightarrow> bool" where
  "starts_with p s \<longleftrightarrow> take (length p) s = p"

lemma starts_with_append [simp]: "starts_with p (p @ s)"
  by (simp add: starts_with_def)

lemma starts_withE: "starts_with p s \<Longrightarrow> s = p @ drop (length p) s"
  by (metis append_take_drop_id starts_with_def)

definition ends_with :: "'a list \<Rightarrow> 'a list \<Rightarrow> bool" where
  "ends_with p s \<longleftrightarrow> starts_with (rev p) (rev s)"

text \<open>\<open>s.indexOf(p)\<close>, \<open>None\<close> standing for \<open>-1\<close>.\<close>

fun index_of :: "'a list \<Rightarrow> 'a list \<Rightarrow> nat option" where
  "index_of p [] = (if p = [] then Some 0 else None)"
| "index_of p (c # s) =
     (if starts_with p (c # s) then Some 0 else map_option Suc (index_of p s))"

definition str_includes :: "'a list \<Rightarrow> 'a list \<Rightarrow> bool" where
  "str_includes p s \<longleftrightarrow> index_of p s \<noteq> None"

lemma index_of_SomeD:
  "index_of p s = Some i \<Longrightarrow>
     s = take i s @ p @ drop (i + length p) s \<and> i + length p \<le> length s"
proof (induction p s arbitrary: i rule: index_of.induct)
  case (2 p c s)
  show ?case
  proof (cases "starts_with p (c # s)")
    case True
    with 2 have "i = 0" by simp
    moreover from True have "c # s = p @ drop (length p) (c # s)" by (rule starts_withE)
    ultimately show ?thesis by (metis add_0 append_Nil length_append le_add1 take0)
  next
    case False
    with 2 show ?thesis by auto
  qed
qed (auto split: if_splits)

lemma index_of_prefix: "index_of p s = None \<or> index_of p s = Some i \<Longrightarrow> p \<noteq> [] \<Longrightarrow>
     index_of p s = None \<Longrightarrow> \<not> (\<exists>u v. s = u @ p @ v)"
proof (induction p s rule: index_of.induct)
  case (2 p c s)
  then have no: "\<not> starts_with p (c # s)" and IH: "\<not> (\<exists>u v. s = u @ p @ v)"
    by (auto split: if_splits)
  show ?case
  proof (intro notI, elim exE)
    fix u v assume "c # s = u @ p @ v"
    with no IH show False by (cases u) auto
  qed
qed auto

lemma str_includes_iff: "str_includes p s \<longleftrightarrow> (\<exists>u v. s = u @ p @ v)"
proof
  assume "str_includes p s"
  then obtain i where "index_of p s = Some i" by (auto simp: str_includes_def)
  from index_of_SomeD[OF this] show "\<exists>u v. s = u @ p @ v" by blast
next
  assume ex: "\<exists>u v. s = u @ p @ v"
  show "str_includes p s"
  proof (cases "p = []")
    case True
    then show ?thesis by (cases s) (auto simp: str_includes_def starts_with_def)
  next
    case False
    with ex show ?thesis using index_of_prefix[of p s 0] by (auto simp: str_includes_def)
  qed
qed

text \<open>
  A pattern whose first character does not come back in it, as a tag does not: its first
  occurrence is found right after a text that does not hold it.
\<close>

lemma index_of_first:
  assumes "c \<notin> set q"
  shows "\<not> str_includes (c # q) v \<Longrightarrow> index_of (c # q) (v @ c # q @ rest) = Some (length v)"
proof (induction v)
  case Nil
  then show ?case by (simp add: starts_with_def)
next
  case (Cons x v)
  let ?w = "x # v"
  have "\<not> starts_with (c # q) (?w @ c # q @ rest)"
  proof
    assume *: "starts_with (c # q) (?w @ c # q @ rest)"
    show False
    proof (cases "length (c # q) \<le> length ?w")
      case True
      with * have "starts_with (c # q) ?w" by (simp add: starts_with_def)
      then have "str_includes (c # q) ?w" by (metis append_Nil starts_withE str_includes_iff)
      with Cons.prems show False by simp
    next
      case False
      then have len: "length v < length q" by simp
      have "(c # q) ! length ?w = (?w @ c # q @ rest) ! length ?w"
        using * len unfolding starts_with_def
        by (metis False not_le_imp_less nth_take)
      also have "\<dots> = c" by (metis nth_append_length)
      finally have "q ! length v = c" by simp
      with len assms show False by (metis nth_mem)
    qed
  qed
  moreover from Cons.prems have "\<not> str_includes (c # q) v"
    by (metis append_Cons str_includes_iff)
  ultimately show ?case using Cons.IH by simp
qed

lemma str_includes_append [simp]: "str_includes p (u @ p @ v)"
  by (auto simp: str_includes_iff)

text \<open>\<open>s.slice(-n)\<close> for a positive \<open>n\<close>: the last \<open>n\<close> code units.\<close>

definition slice_last :: "nat \<Rightarrow> 'a list \<Rightarrow> 'a list" where
  "slice_last n s = drop (length s - n) s"

lemma length_slice_last [simp]: "length (slice_last n s) = min n (length s)"
  by (simp add: slice_last_def)

lemma slice_last_id [simp]: "length s \<le> n \<Longrightarrow> slice_last n s = s"
  by (simp add: slice_last_def)

subsection \<open>\<open>split\<close> and \<open>join\<close>\<close>

fun split_on :: "'a \<Rightarrow> 'a list \<Rightarrow> 'a list list" where
  "split_on c [] = [[]]"
| "split_on c (x # xs) =
     (if x = c then [] # split_on c xs
      else (case split_on c xs of [] \<Rightarrow> [[x]] | y # ys \<Rightarrow> (x # y) # ys))"

fun join :: "'a list \<Rightarrow> 'a list list \<Rightarrow> 'a list" where
  "join sep [] = []"
| "join sep [x] = x"
| "join sep (x # y # zs) = x @ sep @ join sep (y # zs)"

lemma split_on_neq_Nil [simp]: "split_on c xs \<noteq> []"
  by (induction xs) (auto split: list.splits)

lemma split_on_append: "c \<notin> set x \<Longrightarrow> split_on c (x @ c # xs) = x # split_on c xs"
  by (induction x) (auto split: list.splits)

lemma split_on_id [simp]: "c \<notin> set x \<Longrightarrow> split_on c x = [x]"
  by (induction x) auto

lemma split_on_join [js_string]:
  "xs \<noteq> [] \<Longrightarrow> \<forall>x\<in>set xs. c \<notin> set x \<Longrightarrow> split_on c (join [c] xs) = xs"
  by (induction "[c]" xs rule: join.induct) (auto simp: split_on_append)

lemma join_split_on [js_string]: "join [c] (split_on c xs) = xs"
proof (induction xs)
  case (Cons x xs)
  obtain y ys where "split_on c xs = y # ys"
    by (metis neq_Nil_conv split_on_neq_Nil)
  with Cons show ?case by (cases ys) auto
qed simp

lemma set_split_on: "v \<in> set (split_on c xs) \<Longrightarrow> set v \<subseteq> set xs"
proof (induction xs arbitrary: v)
  case (Cons x xs)
  then show ?case by (auto split: if_splits list.splits) (metis (no_types) list.set_intros subsetD)+
qed simp

lemma split_on_sep: "x \<in> set (split_on c xs) \<Longrightarrow> c \<notin> set x"
proof (induction xs arbitrary: x)
  case (Cons a xs)
  then show ?case by (auto split: if_splits list.splits)
qed simp

section \<open>Arrays, sets, nullable values\<close>

text \<open>\<open>Array.from(new Set(xs))\<close>: the first occurrence of each element, in order.\<close>

fun uniq :: "'a list \<Rightarrow> 'a list" where
  "uniq [] = []"
| "uniq (x # xs) = x # filter (\<lambda>y. y \<noteq> x) (uniq xs)"

lemma set_uniq [simp]: "set (uniq xs) = set xs"
  by (induction xs) auto

lemma distinct_uniq [simp]: "distinct (uniq xs)"
  by (induction xs) auto

lemma uniq_Nil_iff [simp]: "uniq xs = [] \<longleftrightarrow> xs = []"
  by (cases xs) auto

lemma uniq_distinct [simp]: "distinct xs \<Longrightarrow> uniq xs = xs"
  by (induction xs) (auto simp: filter_id_conv)

text \<open>
  \<open>xs.sort(cmp)\<close>, a stable sort; \<open>after a b\<close> says that the comparison of \<open>a\<close> and
  \<open>b\<close> is positive.
\<close>

fun sort_insert :: "('a \<Rightarrow> 'a \<Rightarrow> bool) \<Rightarrow> 'a \<Rightarrow> 'a list \<Rightarrow> 'a list" where
  "sort_insert after x [] = [x]"
| "sort_insert after x (y # ys) = (if after x y then y # sort_insert after x ys else x # y # ys)"

definition js_sort :: "('a \<Rightarrow> 'a \<Rightarrow> bool) \<Rightarrow> 'a list \<Rightarrow> 'a list" where
  "js_sort after xs = foldr (sort_insert after) xs []"

lemma set_sort_insert [simp]: "set (sort_insert after x xs) = insert x (set xs)"
  by (induction xs) auto

lemma set_js_sort [simp]: "set (js_sort after xs) = set xs"
  unfolding js_sort_def by (induction xs) auto

lemma sort_insert_key:
  "\<forall>y \<in> set ys. after x y \<longleftrightarrow> key y < key x \<Longrightarrow> sort_insert after x ys = insort_key key x ys"
  for key :: "'a \<Rightarrow> 'b :: linorder"
  by (induction ys) (auto simp: not_less)

lemma js_sort_key [js_string]:
  fixes key :: "'a \<Rightarrow> 'b :: linorder"
  assumes "\<forall>x \<in> set xs. \<forall>y \<in> set xs. after x y \<longleftrightarrow> key y < key x"
  shows "js_sort after xs = sort_key key xs"
  using assms
proof (induction xs)
  case (Cons x xs)
  then have "js_sort after xs = sort_key key xs" by simp
  moreover have "sort_insert after x (sort_key key xs) = insort_key key x (sort_key key xs)"
    using Cons.prems by (intro sort_insert_key) simp
  ultimately show ?case by (simp add: js_sort_def)
qed (simp add: js_sort_def)

text \<open>\<open>a ?? b\<close> on a value that may be \<open>null\<close> or \<open>undefined\<close>.\<close>

definition nullish :: "'a option \<Rightarrow> 'a \<Rightarrow> 'a" where
  "nullish a b = (case a of None \<Rightarrow> b | Some x \<Rightarrow> x)"

lemma nullish_simps [simp]: "nullish None b = b" "nullish (Some a) b = a"
  by (simp_all add: nullish_def)

text \<open>\<open>a || b\<close> on strings: the empty string is falsy.\<close>

definition str_or :: "'a list \<Rightarrow> 'a list \<Rightarrow> 'a list" where
  "str_or a b = (if a = [] then b else a)"

section \<open>Decimal numerals\<close>

definition is_digit :: "jchar \<Rightarrow> bool" where
  "is_digit c \<longleftrightarrow> 48 \<le> unat c \<and> unat c \<le> 57"

lemma is_digit_u16 [js_eval]: "is_digit (u16 c) \<longleftrightarrow> 48 \<le> (of_char c :: nat) \<and> (of_char c :: nat) \<le> 57"
  by (simp add: is_digit_def unat_u16)

definition digit_val :: "jchar \<Rightarrow> nat" where
  "digit_val c = unat c - 48"

definition digit_char :: "nat \<Rightarrow> jchar" where
  "digit_char n = of_nat (48 + n)"

text \<open>\<open>Number.parseInt(s, 10)\<close> on a string of decimal digits, and \<open>String(n)\<close>.\<close>

definition parse_dec :: "jstring \<Rightarrow> nat" where
  "parse_dec s = foldl (\<lambda>n c. 10 * n + digit_val c) 0 s"

fun show_nat :: "nat \<Rightarrow> jstring" where
  "show_nat n = (if n < 10 then [digit_char n] else show_nat (n div 10) @ [digit_char (n mod 10)])"

declare show_nat.simps [simp del]
lemmas show_nat_eval [js_eval] = show_nat.simps

definition show_int :: "int \<Rightarrow> jstring" where
  "show_int n = (if n < 0 then js ''-'' @ show_nat (nat (- n)) else show_nat (nat n))"

lemma unat_digit_char: "n < 10 \<Longrightarrow> unat (digit_char n) = 48 + n"
  by (simp add: digit_char_def unat_of_nat take_bit_eq_mod del: of_nat_add)

lemma digit_val_char [simp]: "n < 10 \<Longrightarrow> digit_val (digit_char n) = n"
  by (simp add: digit_val_def unat_digit_char)

lemma is_digit_char [simp]: "n < 10 \<Longrightarrow> is_digit (digit_char n)"
  by (simp add: is_digit_def unat_digit_char)

lemma show_nat_neq_Nil [simp]: "show_nat n \<noteq> []"
  by (subst show_nat.simps) simp

lemma show_nat_digits: "c \<in> set (show_nat n) \<Longrightarrow> is_digit c"
proof (induction n rule: show_nat.induct)
  case (1 n)
  then show ?case by (subst (asm) (2) show_nat.simps) (auto split: if_splits)
qed

lemma parse_dec_show_nat [simp]: "parse_dec (show_nat n) = n"
proof (induction n rule: show_nat.induct)
  case (1 n)
  show ?case
  proof (cases "n < 10")
    case True
    then show ?thesis by (subst show_nat.simps) (simp add: parse_dec_def)
  next
    case False
    with 1 have "parse_dec (show_nat (n div 10)) = n div 10" by simp
    with False show ?thesis by (subst show_nat.simps) (simp add: parse_dec_def)
  qed
qed

lemma is_digit_not_ws: "is_digit c \<Longrightarrow> \<not> is_ws c"
  by (auto simp: is_digit_def is_ws_def Let_def)

end
