(* ===== verification/JS_Number.thy ===== *)
theory JS_Number
  imports Complex_Main "HOL-Library.Log_Nat" JS_Prelude
begin

text \<open>
  JavaScript numbers: IEEE 754 binary64.  A finite number is the rational it denotes;
  the arithmetic operations compute the exact rational result and round it to nearest,
  ties to even (\<open>rnd\<close>).  The sign of zero is not represented: no modelled code
  observes it.  The main lemma is exactness on the safe integers.
\<close>

datatype jnum = NaN | PInf | NInf | Fin rat

section \<open>Rounding to binary64\<close>

definition round_even :: "rat \<Rightarrow> int" where
  "round_even x =
     (let f = \<lfloor>x\<rfloor>; r = x - of_int f in
      if r < 1 / 2 then f else if 1 / 2 < r then f + 1 else if even f then f else f + 1)"

lemma round_even_of_int [simp]: "round_even (of_int n) = n"
  by (simp add: round_even_def)

text \<open>\<open>2\<close> to an integer power, and the binary exponent of a positive rational.\<close>

definition pow2 :: "int \<Rightarrow> rat" where
  "pow2 e = (if 0 \<le> e then 2 ^ nat e else 1 / 2 ^ nat (- e))"

definition ilog2 :: "rat \<Rightarrow> int" where
  "ilog2 a =
     (let (n, d) = quotient_of a; l = bitlen n - bitlen d
      in if pow2 l \<le> a then l else l - 1)"

definition ulp_exp :: "rat \<Rightarrow> int" where
  "ulp_exp a = max (ilog2 a - 52) (- 1074)"

definition rnd :: "rat \<Rightarrow> jnum" where
  "rnd q =
     (if q = 0 then Fin 0
      else let e = ulp_exp \<bar>q\<bar>; v = of_int (round_even (\<bar>q\<bar> / pow2 e)) * pow2 e
           in if 2 ^ 1024 \<le> v then (if 0 < q then PInf else NInf)
              else Fin (if 0 < q then v else - v))"

lemma pow2_pos [simp]: "0 < pow2 e"
  by (simp add: pow2_def)

lemma pow2_neq_0 [simp]: "pow2 e \<noteq> 0"
  by (simp add: pow2_def)

text \<open>A number that is a whole number of units in the last place is not rounded.\<close>

lemma rnd_exact:
  assumes "\<bar>q\<bar> / pow2 (ulp_exp \<bar>q\<bar>) = of_int m" and "\<bar>q\<bar> < 2 ^ 1024"
  shows "rnd q = Fin q"
proof -
  have "of_int (round_even (\<bar>q\<bar> / pow2 (ulp_exp \<bar>q\<bar>))) * pow2 (ulp_exp \<bar>q\<bar>) = \<bar>q\<bar>"
  proof -
    have "\<bar>q\<bar> = of_int m * pow2 (ulp_exp \<bar>q\<bar>)"
      using assms(1) by (simp add: divide_eq_eq)
    with assms(1) show ?thesis by simp
  qed
  with assms(2) show ?thesis by (auto simp: rnd_def Let_def)
qed

section \<open>Rounding error\<close>

lemma pow2_power_int: "pow2 e = power_int 2 e"
  by (auto simp: pow2_def power_int_def inverse_eq_divide power_divide)

lemma pow2_add: "pow2 (a + b) = pow2 a * pow2 b"
  unfolding pow2_power_int by (rule power_int_add) simp

lemma pow2_mono: "a \<le> b \<Longrightarrow> pow2 a \<le> pow2 b"
  unfolding pow2_power_int by (rule power_int_increasing) simp_all

lemma round_even_error: "\<bar>of_int (round_even x) - x\<bar> \<le> 1 / 2"
proof -
  obtain f where f: "\<lfloor>x\<rfloor> = f" by simp
  then have "of_int f \<le> x" "x < of_int f + 1" by linarith+
  then show ?thesis by (auto simp: round_even_def f Let_def abs_if)
qed

lemma pow2_ilog2_le:
  assumes "0 < a"
  shows "pow2 (ilog2 a) \<le> a"
proof -
  obtain n d where q: "quotient_of a = (n, d)" by force
  then have d: "0 < d" and a: "a = of_int n / of_int d"
    by (simp_all add: quotient_of_denom_pos quotient_of_div)
  with assms have n: "0 < n" by (simp add: zero_less_divide_iff)
  let ?l = "bitlen n - bitlen d"
  have "2 ^ nat (bitlen n - 1) \<le> n" using bitlen_bounds[OF n] by blast
  then have n': "pow2 (bitlen n - 1) \<le> of_int n"
    using n by (simp add: pow2_def bitlen_def floorlog_def)
  have "d < 2 ^ nat (bitlen d)" using bitlen_bounds[OF d] by blast
  then have d': "of_int d < pow2 (bitlen d)"
    by (simp add: pow2_def bitlen_nonneg)
  have "pow2 (?l - 1) * of_int d \<le> pow2 (?l - 1) * pow2 (bitlen d)"
    using d' by (intro mult_left_mono) (simp_all add: less_imp_le)
  also have "\<dots> = pow2 (bitlen n - 1)" by (simp flip: pow2_add)
  finally have "pow2 (?l - 1) * of_int d \<le> of_int n" using n' by simp
  then have "pow2 (?l - 1) \<le> a" using d a by (simp add: pos_le_divide_eq)
  then show ?thesis by (simp add: ilog2_def q Let_def)
qed

lemma ulp_le:
  assumes "0 < a" and "a \<le> 4"
  shows "pow2 (ulp_exp a) \<le> 1 / 2 ^ 50"
proof -
  have "pow2 (ilog2 a - 52) = pow2 (ilog2 a) * pow2 (- 52)" using pow2_add[of "ilog2 a" "- 52"] by simp
  also have "\<dots> \<le> 4 * pow2 (- 52)"
    using pow2_ilog2_le[OF assms(1)] assms(2) by (intro mult_right_mono) (simp_all add: less_imp_le)
  finally have "pow2 (ilog2 a - 52) \<le> 1 / 2 ^ 50" by (simp add: pow2_def)
  moreover have "pow2 (- 1074) \<le> 1 / 2 ^ 50" using pow2_mono[of "- 1074" "- 50"] by (simp add: pow2_def)
  ultimately show ?thesis by (simp add: ulp_exp_def max_def)
qed

text \<open>A small number is rounded to one that differs from it by at most half an ulp.\<close>

lemma rnd_close:
  assumes "\<bar>q\<bar> \<le> 4"
  obtains v where "rnd q = Fin v" and "\<bar>v - q\<bar> \<le> 1 / 2 ^ 51"
proof (cases "q = 0")
  case True
  then show ?thesis by (intro that[of 0]) (simp_all add: rnd_def)
next
  case False
  let ?u = "pow2 (ulp_exp \<bar>q\<bar>)"
  let ?v = "of_int (round_even (\<bar>q\<bar> / ?u)) * ?u"
  have u: "?u \<le> 1 / 2 ^ 50" using False assms by (intro ulp_le) simp_all
  have "?v - \<bar>q\<bar> = (of_int (round_even (\<bar>q\<bar> / ?u)) - \<bar>q\<bar> / ?u) * ?u" by (simp add: left_diff_distrib)
  then have "\<bar>?v - \<bar>q\<bar>\<bar> = \<bar>of_int (round_even (\<bar>q\<bar> / ?u)) - \<bar>q\<bar> / ?u\<bar> * ?u"
    by (metis abs_mult abs_of_pos pow2_pos)
  also have "\<dots> \<le> 1 / 2 * ?u" using round_even_error by (intro mult_right_mono) (simp_all add: less_imp_le)
  also have "\<dots> \<le> 1 / 2 ^ 51" using u by simp
  finally have err: "\<bar>?v - \<bar>q\<bar>\<bar> \<le> 1 / 2 ^ 51" .
  moreover have "(1 :: rat) / 2 ^ 51 \<le> 1" by simp
  ultimately have "?v \<le> 5" using assms by linarith
  moreover have "(5 :: rat) < 2 ^ 1024" by simp
  ultimately have "?v < 2 ^ 1024" by linarith
  then have "rnd q = Fin (if 0 < q then ?v else - ?v)" using False by (simp add: rnd_def Let_def)
  then show ?thesis by (rule that) (use err in \<open>auto simp: abs_if split: if_splits\<close>)
qed

section \<open>Safe integers\<close>

definition max_safe :: int where "max_safe = 2 ^ 53"

lemma bitlen_1 [simp]: "bitlen 1 = 1"
  by (simp add: bitlen_def floorlog_def)

lemma ilog2_of_int_less:
  assumes "0 < n" and "n < 2 ^ k"
  shows "ilog2 (of_int n) < int k"
proof -
  have "bitlen n \<le> int k"
    using assms by (simp add: bitlen_le_iff_power)
  then show ?thesis
    by (simp add: ilog2_def Let_def)
qed

lemma ilog2_pow53: "ilog2 (of_int (2 ^ 53)) = 53"
proof -
  have "bitlen (1 * 2 ^ 53 :: int) = 54"
    by (subst bitlen_pow2) simp_all
  then have "bitlen (2 ^ 53 :: int) = 54" by (simp only: mult_1)
  moreover have "quotient_of (of_int (2 ^ 53)) = (2 ^ 53, 1)"
    by (metis Rat.of_int_def quotient_of_int)
  ultimately show ?thesis by (simp only: ilog2_def) (simp add: pow2_def)
qed

lemma pow2_nonpos: "e \<le> 0 \<Longrightarrow> of_int n / pow2 e = of_int (n * 2 ^ nat (- e))"
  by (cases "e = 0") (auto simp: pow2_def)

text \<open>
  Integers up to \<open>2\<^sup>53\<close> in absolute value are numbers, so arithmetic whose exact
  result is such an integer does not round.
\<close>

lemma rnd_of_int:
  assumes "\<bar>n\<bar> \<le> max_safe"
  shows "rnd (of_int n) = Fin (of_int n)"
proof (cases "n = 0")
  case True
  then show ?thesis by (simp add: rnd_def)
next
  case False
  let ?a = "\<bar>n\<bar>"
  have abs: "\<bar>of_int n :: rat\<bar> = of_int ?a" by simp
  have "\<exists>m. (of_int ?a :: rat) / pow2 (ulp_exp (of_int ?a)) = of_int m"
  proof (cases "?a = 2 ^ 53")
    case True
    then have "ulp_exp (of_int ?a) = 1" by (simp only: ulp_exp_def ilog2_pow53)
    then have "(of_int ?a :: rat) / pow2 (ulp_exp (of_int ?a)) = of_int (2 ^ 52)"
      using True by (simp add: pow2_def)
    then show ?thesis ..
  next
    case ne: False
    with assms False have "0 < ?a" and "?a < 2 ^ 53" by (auto simp: max_safe_def)
    then have "ilog2 (of_int ?a) < int 53" by (rule ilog2_of_int_less)
    then have "ulp_exp (of_int ?a) \<le> 0" by (simp add: ulp_exp_def)
    then show ?thesis by (metis pow2_nonpos)
  qed
  then obtain m where "\<bar>of_int n :: rat\<bar> / pow2 (ulp_exp \<bar>of_int n\<bar>) = of_int m"
    using abs by metis
  moreover have "\<bar>of_int n :: rat\<bar> < 2 ^ 1024"
  proof -
    have "(of_int ?a :: rat) \<le> of_int (2 ^ 53)"
      using assms unfolding max_safe_def by (simp only: of_int_le_iff)
    then show ?thesis by simp
  qed
  ultimately show ?thesis by (rule rnd_exact)
qed

section \<open>Operations\<close>

fun jneg :: "jnum \<Rightarrow> jnum" where
  "jneg NaN = NaN"
| "jneg PInf = NInf"
| "jneg NInf = PInf"
| "jneg (Fin a) = Fin (- a)"

fun jadd :: "jnum \<Rightarrow> jnum \<Rightarrow> jnum" where
  "jadd NaN _ = NaN"
| "jadd _ NaN = NaN"
| "jadd (Fin a) (Fin b) = rnd (a + b)"
| "jadd PInf NInf = NaN"
| "jadd NInf PInf = NaN"
| "jadd PInf _ = PInf"
| "jadd NInf _ = NInf"
| "jadd (Fin _) x = x"

definition jsub :: "jnum \<Rightarrow> jnum \<Rightarrow> jnum" where
  "jsub a b = jadd a (jneg b)"

text \<open>\<open>a / b\<close> for a finite non-zero divisor.\<close>

fun jdiv_fin :: "jnum \<Rightarrow> rat \<Rightarrow> jnum" where
  "jdiv_fin NaN d = NaN"
| "jdiv_fin PInf d = (if 0 < d then PInf else NInf)"
| "jdiv_fin NInf d = (if 0 < d then NInf else PInf)"
| "jdiv_fin (Fin a) d = rnd (a / d)"

fun jabs :: "jnum \<Rightarrow> jnum" where
  "jabs (Fin a) = Fin \<bar>a\<bar>"
| "jabs NInf = PInf"
| "jabs x = x"

text \<open>Comparisons with \<open>NaN\<close> are false.\<close>

fun jlt :: "jnum \<Rightarrow> jnum \<Rightarrow> bool" where
  "jlt (Fin a) (Fin b) = (a < b)"
| "jlt NaN _ = False"
| "jlt _ NaN = False"
| "jlt NInf b = (b \<noteq> NInf)"
| "jlt (Fin _) PInf = True"
| "jlt _ _ = False"

definition jle :: "jnum \<Rightarrow> jnum \<Rightarrow> bool" where
  "jle a b \<longleftrightarrow> jlt a b \<or> (a = b \<and> a \<noteq> NaN)"

definition jmax :: "jnum \<Rightarrow> jnum \<Rightarrow> jnum" where
  "jmax a b = (if a = NaN \<or> b = NaN then NaN else if jlt a b then b else a)"

definition jmin :: "jnum \<Rightarrow> jnum \<Rightarrow> jnum" where
  "jmin a b = (if a = NaN \<or> b = NaN then NaN else if jlt b a then b else a)"

definition isFinite :: "jnum \<Rightarrow> bool" where
  "isFinite a \<longleftrightarrow> (case a of Fin _ \<Rightarrow> True | _ \<Rightarrow> False)"

definition isInteger :: "jnum \<Rightarrow> bool" where
  "isInteger a \<longleftrightarrow> (case a of Fin q \<Rightarrow> q = of_int \<lfloor>q\<rfloor> | _ \<Rightarrow> False)"

fun jceil :: "jnum \<Rightarrow> jnum" where
  "jceil (Fin a) = Fin (of_int \<lceil>a\<rceil>)"
| "jceil x = x"

fun jtrunc :: "jnum \<Rightarrow> jnum" where
  "jtrunc (Fin a) = Fin (of_int (if a < 0 then \<lceil>a\<rceil> else \<lfloor>a\<rfloor>))"
| "jtrunc x = x"

text \<open>A number is falsy when it is zero or \<open>NaN\<close>.\<close>

definition num_truthy :: "jnum \<Rightarrow> bool" where
  "num_truthy a \<longleftrightarrow> a \<noteq> NaN \<and> a \<noteq> Fin 0"

definition jint :: "int \<Rightarrow> jnum" where
  "jint n = Fin (of_int n)"

lemma isFinite_jint [simp]: "isFinite (jint n)"
  by (simp add: isFinite_def jint_def)

lemma isInteger_jint [simp]: "isInteger (jint n)"
  by (simp add: isInteger_def jint_def)

lemma jlt_jint [simp]: "jlt (jint a) (jint b) \<longleftrightarrow> a < b"
  by (simp add: jint_def)

lemma jle_jint [simp]: "jle (jint a) (jint b) \<longleftrightarrow> a \<le> b"
  by (auto simp: jle_def jint_def)

lemma jint_eq_iff [simp]: "jint a = jint b \<longleftrightarrow> a = b"
  by (simp add: jint_def)

lemma num_truthy_jint [simp]: "num_truthy (jint n) \<longleftrightarrow> n \<noteq> 0"
  by (simp add: num_truthy_def jint_def)

lemma jmax_jint [simp]: "jmax (jint a) (jint b) = jint (max a b)"
  by (auto simp: jmax_def jint_def)

lemma jadd_jint: "\<bar>a + b\<bar> \<le> max_safe \<Longrightarrow> jadd (jint a) (jint b) = jint (a + b)"
  using rnd_of_int[of "a + b"] by (simp add: jint_def)

lemma jsub_jint: "\<bar>a - b\<bar> \<le> max_safe \<Longrightarrow> jsub (jint a) (jint b) = jint (a - b)"
  using rnd_of_int[of "a - b"] by (simp add: jsub_def jint_def)

lemma jabs_jint [simp]: "jabs (jint n) = jint \<bar>n\<bar>"
  by (simp add: jint_def)

lemma jsub_neq_NaN: "a \<noteq> NaN \<Longrightarrow> isFinite b \<Longrightarrow> jsub a b \<noteq> NaN"
  by (cases a; cases b) (auto simp: jsub_def isFinite_def rnd_def Let_def)

lemma jle_jmax_0: "jle (jint 0) (jmax (jint 0) a) \<longleftrightarrow> a \<noteq> NaN"
  by (cases a) (auto simp: jle_def jmax_def jint_def)

lemma jmax_neq_NaN: "jmax a b \<noteq> NaN \<longleftrightarrow> a \<noteq> NaN \<and> b \<noteq> NaN"
  by (auto simp: jmax_def)

lemma jlt_irrefl [simp]: "\<not> jlt a a"
  by (cases a) auto

lemma jlt_trans: "jlt a b \<Longrightarrow> jlt b c \<Longrightarrow> jlt a c"
  by (cases a; cases b; cases c) auto

lemma jle_not_lt: "jle a b \<Longrightarrow> \<not> jlt b a"
  by (cases a; cases b) (auto simp: jle_def)

end
