(* ===== verification/JS_Value.thy ===== *)
theory JS_Value
  imports JS_Number
begin

text \<open>
  Values of unknown type: what \<open>JSON.parse\<close> returns, what a server response or a
  stored entry holds before the code has checked it.  An object is the list of its own
  properties; \<open>getp\<close> is a property read, which gives \<open>undefined\<close> for a property the
  value does not have (names of \<open>Object.prototype\<close> are not represented).
\<close>

datatype jsval =
    JUndef
  | JNull
  | JBool bool
  | JNum jnum
  | JStr jstring
  | JArr "jsval list"
  | JObj "(jstring \<times> jsval) list"

definition getp :: "jsval \<Rightarrow> jstring \<Rightarrow> jsval" where
  "getp v k =
     (case v of JObj ps \<Rightarrow> (case map_of ps k of Some x \<Rightarrow> x | None \<Rightarrow> JUndef) | _ \<Rightarrow> JUndef)"

abbreviation fld :: "jsval \<Rightarrow> string \<Rightarrow> jsval" where
  "fld v k \<equiv> getp v (js k)"

text \<open>\<open>v?.[0]\<close> and the like: an element of an array, \<open>undefined\<close> out of range.\<close>

definition getidx :: "jsval \<Rightarrow> nat \<Rightarrow> jsval" where
  "getidx v i = (case v of JArr xs \<Rightarrow> (if i < length xs then xs ! i else JUndef) | _ \<Rightarrow> JUndef)"

fun truthy :: "jsval \<Rightarrow> bool" where
  "truthy JUndef = False"
| "truthy JNull = False"
| "truthy (JBool b) = b"
| "truthy (JNum n) = num_truthy n"
| "truthy (JStr s) = (s \<noteq> [])"
| "truthy (JArr _) = True"
| "truthy (JObj _) = True"

fun is_object :: "jsval \<Rightarrow> bool" where
  "is_object JNull = True"
| "is_object (JArr _) = True"
| "is_object (JObj _) = True"
| "is_object _ = False"

fun is_string :: "jsval \<Rightarrow> bool" where
  "is_string (JStr _) = True"
| "is_string _ = False"

fun is_number :: "jsval \<Rightarrow> bool" where
  "is_number (JNum _) = True"
| "is_number _ = False"

fun is_boolean :: "jsval \<Rightarrow> bool" where
  "is_boolean (JBool _) = True"
| "is_boolean _ = False"

fun is_array :: "jsval \<Rightarrow> bool" where
  "is_array (JArr _) = True"
| "is_array _ = False"

text \<open>\<open>a || b\<close> on values.\<close>

definition or_else :: "jsval \<Rightarrow> jsval \<Rightarrow> jsval" where
  "or_else a b = (if truthy a then a else b)"

text \<open>Total selectors, used only where the code has checked the type.\<close>

fun the_str :: "jsval \<Rightarrow> jstring" where
  "the_str (JStr s) = s"
| "the_str _ = []"

fun the_num :: "jsval \<Rightarrow> jnum" where
  "the_num (JNum n) = n"
| "the_num _ = NaN"

fun the_bool :: "jsval \<Rightarrow> bool" where
  "the_bool (JBool b) = b"
| "the_bool _ = False"

fun the_arr :: "jsval \<Rightarrow> jsval list" where
  "the_arr (JArr xs) = xs"
| "the_arr _ = []"

lemma ex_bool [simp]: "\<exists>b::bool. b" "\<exists>b::bool. \<not> b"
  by auto

lemma is_string_conv [simp]: "is_string v \<longleftrightarrow> (\<exists>s. v = JStr s)"
  by (cases v) auto

lemma is_number_conv [simp]: "is_number v \<longleftrightarrow> (\<exists>n. v = JNum n)"
  by (cases v) auto

lemma is_boolean_conv [simp]: "is_boolean v \<longleftrightarrow> (\<exists>b. v = JBool b)"
  by (cases v) auto

lemma is_array_conv [simp]: "is_array v \<longleftrightarrow> (\<exists>xs. v = JArr xs)"
  by (cases v) auto

lemma getp_JObj_Nil [simp]: "getp (JObj []) k = JUndef"
  by (simp add: getp_def)

lemma getp_JObj_Cons [simp]:
  "getp (JObj ((k', v) # ps)) k = (if k = k' then v else getp (JObj ps) k)"
  by (simp add: getp_def)

lemma getp_other [simp]:
  "getp JUndef k = JUndef" "getp JNull k = JUndef" "getp (JBool b) k = JUndef"
  "getp (JNum n) k = JUndef" "getp (JStr s) k = JUndef" "getp (JArr xs) k = JUndef"
  by (simp_all add: getp_def)

section \<open>Objects as property lists\<close>

text \<open>\<open>o[k] = v\<close>: an existing property keeps its place, a new one is added at the end.\<close>

fun put :: "'k \<Rightarrow> 'v \<Rightarrow> ('k \<times> 'v) list \<Rightarrow> ('k \<times> 'v) list" where
  "put k v [] = [(k, v)]"
| "put k v ((k', w) # ps) = (if k = k' then (k, v) # ps else (k', w) # put k v ps)"

definition remove_key :: "'k \<Rightarrow> ('k \<times> 'v) list \<Rightarrow> ('k \<times> 'v) list" where
  "remove_key k ps = filter (\<lambda>(k', _). k' \<noteq> k) ps"

text \<open>\<open>{...a, ...b}\<close>\<close>

definition spread :: "('k \<times> 'v) list \<Rightarrow> ('k \<times> 'v) list \<Rightarrow> ('k \<times> 'v) list" where
  "spread a b = fold (\<lambda>(k, v). put k v) b a"

lemma map_of_put [simp]: "map_of (put k v ps) = (map_of ps)(k \<mapsto> v)"
  by (induction ps) (auto simp: fun_eq_iff)

lemma map_of_remove_key [simp]: "map_of (remove_key k ps) = (map_of ps)(k := None)"
  by (induction ps) (auto simp: remove_key_def fun_eq_iff)

lemma keys_put: "map fst (put k v ps) = (if k \<in> fst ` set ps then map fst ps else map fst ps @ [k])"
proof (induction ps)
  case (Cons p ps)
  then show ?case by (cases p) auto
qed simp

lemma keys_put_distinct [simp]: "distinct (map fst ps) \<Longrightarrow> distinct (map fst (put k v ps))"
  by (simp add: keys_put)

lemma keys_remove: "map fst (remove_key k ps) = filter (\<lambda>k'. k' \<noteq> k) (map fst ps)"
  by (induction ps) (auto simp: remove_key_def)

lemma keys_remove_distinct [simp]: "distinct (map fst ps) \<Longrightarrow> distinct (map fst (remove_key k ps))"
  by (simp add: keys_remove)

lemma fst_set_put [simp]: "fst ` set (put k v ps) = insert k (fst ` set ps)"
  by (simp flip: dom_map_of_conv_image_fst)

lemma fst_set_remove [simp]: "fst ` set (remove_key k ps) = fst ` set ps - {k}"
  by (auto simp flip: dom_map_of_conv_image_fst)

lemma in_put:
  "distinct (map fst ps) \<Longrightarrow> (k', w) \<in> set (put k v ps) \<Longrightarrow> (k', w) = (k, v) \<or> k' \<noteq> k \<and> (k', w) \<in> set ps"
  by (induction ps) (auto split: if_splits simp: rev_image_eqI)

lemma keys_filter_distinct [simp]: "distinct (map fst ps) \<Longrightarrow> distinct (map fst (filter P ps))"
  by (induction ps) auto

lemma map_of_filter_keys [simp]:
  "map_of (filter (\<lambda>(k, _). P k) ps) k = (if P k then map_of ps k else None)"
  by (induction ps) auto

end
