(* ===== verification/Auth_Store.thy ===== *)
theory Auth_Store
  imports JS_Value
begin

text \<open>
  The authentication slice of the web client, \<open>web/src/stores/auth-store.ts\<close>: the
  records it holds, the setters of the zustand store as functions on the state, and
  the invariant that ties the access token, its expiry and the login session together.
\<close>

named_theorems auth_simps \<open>definitions of the authentication store and session\<close>

section \<open>Data\<close>

datatype AuthBootstrapState = BIdle | BChecking | BComplete

text \<open>
  \<open>AuthUser\<close>: the three required fields, and all properties of the object (the
  optional ones included) as the store keeps them.
\<close>

record AuthUser =
  user_id :: jnum
  username :: jstring
  role :: jnum
  user_props :: "(jstring \<times> jsval) list"

record LoginSession =
  sid :: jstring
  current :: bool
  login_method :: jstring
  ip :: jstring
  user_agent :: jstring
  created_at :: jnum
  last_active_at :: jnum
  expires_at :: jnum

record AuthBundle =
  access_token :: jstring
  token_type :: jstring
  access_expires_at :: jnum
  bundle_user :: AuthUser
  bundle_session :: LoginSession

record AuthState =
  user :: "AuthUser option"
  accessToken :: "jstring option"
  accessExpiresAt :: "jnum option"
  session :: "LoginSession option"
  pending2FAFlowToken :: "jstring option"
  pending2FASMSAvailable :: bool
  bootstrapState :: AuthBootstrapState

section \<open>The store's operations\<close>

definition initialAuth :: AuthState where
  "initialAuth =
     \<lparr>user = None, accessToken = None, accessExpiresAt = None, session = None,
      pending2FAFlowToken = None, pending2FASMSAvailable = False, bootstrapState = BIdle\<rparr>"

definition setBundle :: "AuthBundle \<Rightarrow> AuthState \<Rightarrow> AuthState" where
  "setBundle bundle auth =
     auth\<lparr>user := Some (bundle_user bundle),
          accessToken := Some (access_token bundle),
          accessExpiresAt := Some (access_expires_at bundle),
          session := Some (bundle_session bundle),
          pending2FAFlowToken := None,
          pending2FASMSAvailable := False,
          bootstrapState := BComplete\<rparr>"

definition setUser :: "AuthUser option \<Rightarrow> AuthState \<Rightarrow> AuthState" where
  "setUser u auth = auth\<lparr>user := u\<rparr>"

text \<open>\<open>Boolean(token && smsAvailable)\<close>: \<open>null\<close> and the empty string are falsy.\<close>

definition setPending2FAFlowToken :: "jstring option \<Rightarrow> bool \<Rightarrow> AuthState \<Rightarrow> AuthState" where
  "setPending2FAFlowToken tok smsAvailable auth =
     auth\<lparr>pending2FAFlowToken := tok,
          pending2FASMSAvailable := (tok \<noteq> None \<and> tok \<noteq> Some [] \<and> smsAvailable)\<rparr>"

definition setBootstrapState :: "AuthBootstrapState \<Rightarrow> AuthState \<Rightarrow> AuthState" where
  "setBootstrapState b auth = auth\<lparr>bootstrapState := b\<rparr>"

definition reset :: "AuthBootstrapState \<Rightarrow> AuthState \<Rightarrow> AuthState" where
  "reset b auth =
     auth\<lparr>user := None, accessToken := None, accessExpiresAt := None, session := None,
          pending2FAFlowToken := None, pending2FASMSAvailable := False, bootstrapState := b\<rparr>"

lemmas store_defs [auth_simps] =
  initialAuth_def setBundle_def setUser_def setPending2FAFlowToken_def setBootstrapState_def
  reset_def

section \<open>The store's invariant\<close>

text \<open>
  The token, its expiry and the session come and go together, and the SMS alternative
  is offered only for a second-factor flow that is in progress.
\<close>

definition store_wf :: "AuthState \<Rightarrow> bool" where
  "store_wf auth \<longleftrightarrow>
     (accessToken auth = None \<longleftrightarrow> session auth = None) \<and>
     (accessExpiresAt auth = None \<longleftrightarrow> session auth = None) \<and>
     (pending2FASMSAvailable auth \<longrightarrow>
        pending2FAFlowToken auth \<noteq> None \<and> pending2FAFlowToken auth \<noteq> Some [])"

lemma store_wf_ops [simp, intro]:
  "store_wf initialAuth"
  "store_wf auth \<Longrightarrow> store_wf (setBundle b auth)"
  "store_wf auth \<Longrightarrow> store_wf (setUser u auth)"
  "store_wf auth \<Longrightarrow> store_wf (setPending2FAFlowToken t sms auth)"
  "store_wf auth \<Longrightarrow> store_wf (setBootstrapState bs auth)"
  "store_wf auth \<Longrightarrow> store_wf (reset bs auth)"
  by (auto simp: store_wf_def auth_simps)

lemma session_ops [simp]:
  "session (setBundle b auth) = Some (bundle_session b)"
  "session (setUser u auth) = session auth"
  "session (setPending2FAFlowToken t sms auth) = session auth"
  "session (setBootstrapState bs auth) = session auth"
  "session (reset bs auth) = None"
  by (simp_all add: auth_simps)

end
