(* ===== verification/Auth_Sync.thy ===== *)
theory Auth_Sync
  imports Auth_Store
begin

text \<open>
  Cross-tab synchronisation, \<open>web/src/lib/auth-session-sync.ts\<close>.  Tabs exchange
  events over a \<open>BroadcastChannel\<close>, or through \<open>storage\<close> events where the channel is
  missing.  What the browser transports is the event as a plain value; the receiver
  checks its shape, its origin and its age before it acts on it.

  The random identifier and the clock are arguments of the operations; the messages
  that leave the tab are returned as a list of effects.
\<close>

datatype SyncKind = KAuthenticated | KSignedOut

record AuthSessionSyncEvent =
  kind :: SyncKind
  event_sid :: jstring
  source :: jstring
  nonce :: jstring
  timestamp :: jnum

definition kind_str :: "SyncKind \<Rightarrow> jstring" where
  "kind_str k = (case k of KAuthenticated \<Rightarrow> js ''authenticated'' | KSignedOut \<Rightarrow> js ''signed_out'')"

text \<open>The event object as a value, in the order in which the code builds it.\<close>

definition event_val :: "AuthSessionSyncEvent \<Rightarrow> jsval" where
  "event_val e = JObj
     [(js ''kind'', JStr (kind_str (kind e))), (js ''sid'', JStr (event_sid e)),
      (js ''source'', JStr (source e)), (js ''nonce'', JStr (nonce e)),
      (js ''timestamp'', JNum (timestamp e))]"

definition isAuthSessionSyncEvent :: "jsval \<Rightarrow> bool" where
  "isAuthSessionSyncEvent v \<longleftrightarrow>
     truthy v \<and> is_object v \<and>
     (fld v ''kind'' = JStr (js ''authenticated'') \<or> fld v ''kind'' = JStr (js ''signed_out'')) \<and>
     is_string (fld v ''sid'') \<and> the_str (fld v ''sid'') \<noteq> [] \<and>
     is_string (fld v ''source'') \<and> is_string (fld v ''nonce'') \<and>
     is_number (fld v ''timestamp'')"

text \<open>The value read back at its declared type, once the check has passed.\<close>

definition event_of_val :: "jsval \<Rightarrow> AuthSessionSyncEvent" where
  "event_of_val v =
     \<lparr>kind = (if fld v ''kind'' = JStr (js ''authenticated'') then KAuthenticated else KSignedOut),
      event_sid = the_str (fld v ''sid''), source = the_str (fld v ''source''),
      nonce = the_str (fld v ''nonce''), timestamp = the_num (fld v ''timestamp'')\<rparr>"

text \<open>The browser features a tab runs with.\<close>

record sync_env =
  hasWindow :: bool
  hasBroadcastChannel :: bool
  storageThrows :: bool
  authSyncSource :: jstring

datatype SyncEffect = PostMessage jsval | StorageSetItem jsval | StorageRemoveItem

text \<open>
  \<open>publishAuthSessionEvent\<close>: at most one message.  A storage that throws on
  \<open>setItem\<close> swallows the event.
\<close>

definition publishAuthSessionEvent ::
  "sync_env \<Rightarrow> jstring \<Rightarrow> int \<Rightarrow> SyncKind \<Rightarrow> jstring \<Rightarrow> SyncEffect list" where
  "publishAuthSessionEvent env randomId now k s =
     (if \<not> hasWindow env \<or> s = [] then []
      else let event = \<lparr>kind = k, event_sid = s, source = authSyncSource env,
                        nonce = randomId, timestamp = jint now\<rparr>
           in if hasBroadcastChannel env then [PostMessage (event_val event)]
              else if storageThrows env then []
              else [StorageSetItem (event_val event), StorageRemoveItem])"

text \<open>\<open>deliver\<close> of \<open>subscribeAuthSessionEvents\<close>: the event the listener is called with.\<close>

definition deliver :: "sync_env \<Rightarrow> int \<Rightarrow> jsval \<Rightarrow> AuthSessionSyncEvent option" where
  "deliver env now v =
     (if isAuthSessionSyncEvent v \<and>
         fld v ''source'' \<noteq> JStr (authSyncSource env) \<and>
         jlt (jabs (jsub (jint now) (the_num (fld v ''timestamp'')))) (jint 60000)
      then Some (event_of_val v) else None)"

text \<open>
  What arrives at a subscriber for one effect of another tab: a message on the channel
  when both use it, a storage event with a new value when neither does.  The removal
  has no new value and is ignored.
\<close>

definition subscribeAuthSessionEvents ::
  "sync_env \<Rightarrow> int \<Rightarrow> SyncEffect \<Rightarrow> AuthSessionSyncEvent option" where
  "subscribeAuthSessionEvents env now eff =
     (if \<not> hasWindow env then None
      else if hasBroadcastChannel env
      then (case eff of PostMessage v \<Rightarrow> deliver env now v | _ \<Rightarrow> None)
      else (case eff of StorageSetItem v \<Rightarrow> deliver env now v | _ \<Rightarrow> None))"

lemmas sync_defs [auth_simps] =
  kind_str_def event_val_def isAuthSessionSyncEvent_def event_of_val_def
  publishAuthSessionEvent_def deliver_def subscribeAuthSessionEvents_def

section \<open>What arrives is what was sent\<close>

lemma event_val_check: "isAuthSessionSyncEvent (event_val e) \<longleftrightarrow> event_sid e \<noteq> []"
  by (cases "kind e") (auto simp: auth_simps)

lemma event_of_val_event_val [simp]: "event_of_val (event_val e) = e"
  by (cases e; cases "kind e") (auto simp: auth_simps)

lemma deliver_event_val:
  assumes "event_sid e \<noteq> []" and "timestamp e = jint t" and "\<bar>now - t\<bar> \<le> max_safe"
  shows "deliver env now (event_val e) =
    (if source e \<noteq> authSyncSource env \<and> \<bar>now - t\<bar> < 60000 then Some e else None)"
proof -
  have "fld (event_val e) ''source'' = JStr (source e)" by (simp add: event_val_def)
  moreover have "fld (event_val e) ''timestamp'' = JNum (jint t)"
    using assms(2) by (simp add: event_val_def)
  ultimately show ?thesis
    using assms by (simp add: deliver_def event_val_check jsub_jint)
qed

lemma publish_Nil_iff:
  "publishAuthSessionEvent env r now k s = [] \<longleftrightarrow>
     \<not> hasWindow env \<or> s = [] \<or> \<not> hasBroadcastChannel env \<and> storageThrows env"
  by (auto simp: publishAuthSessionEvent_def Let_def)

end
