(* ===== verification/Auth_Session.thy ===== *)
theory Auth_Session
  imports Auth_Sync
begin

text \<open>
  The session logic of the web client, \<open>web/src/lib/auth-session.ts\<close>: the checks on
  server data, the operations that change the store (each guarded by the epoch
  counter), the refresh runner with its bounded retries, and the single refresh in
  flight.  The code between two \<open>await\<close>s runs without interruption, so each such piece
  is one function; what may happen at an \<open>await\<close> is the step relation of
  \<open>Auth_Machine\<close>.
\<close>

section \<open>Checks on unknown data\<close>

definition isRecord :: "jsval \<Rightarrow> bool" where
  "isRecord v \<longleftrightarrow> truthy v \<and> is_object v"

definition isAuthUser :: "jsval \<Rightarrow> bool" where
  "isAuthUser v \<longleftrightarrow> isRecord v \<and>
     is_number (fld v ''id'') \<and> isInteger (the_num (fld v ''id'')) \<and>
     jlt (jint 0) (the_num (fld v ''id'')) \<and>
     is_string (fld v ''username'') \<and> is_number (fld v ''role'')"

definition isLoginSession :: "jsval \<Rightarrow> bool" where
  "isLoginSession v \<longleftrightarrow> isRecord v \<and>
     is_string (fld v ''sid'') \<and> the_str (fld v ''sid'') \<noteq> [] \<and>
     is_boolean (fld v ''current'') \<and> is_string (fld v ''login_method'') \<and>
     is_string (fld v ''ip'') \<and> is_string (fld v ''user_agent'') \<and>
     is_number (fld v ''created_at'') \<and> is_number (fld v ''last_active_at'') \<and>
     is_number (fld v ''expires_at'')"

definition hasValidTokenFields :: "jsval \<Rightarrow> bool" where
  "hasValidTokenFields v \<longleftrightarrow>
     is_string (fld v ''access_token'') \<and> the_str (fld v ''access_token'') \<noteq> [] \<and>
     is_string (fld v ''token_type'') \<and> the_str (fld v ''token_type'') \<noteq> [] \<and>
     is_number (fld v ''access_expires_at'') \<and> isFinite (the_num (fld v ''access_expires_at'')) \<and>
     jlt (jint 0) (the_num (fld v ''access_expires_at''))"

definition isAuthBundle :: "jsval \<Rightarrow> bool" where
  "isAuthBundle v \<longleftrightarrow> isRecord v \<and> hasValidTokenFields v \<and>
     isAuthUser (fld v ''user'') \<and> isLoginSession (fld v ''session'')"

definition isAuthTokenRotation :: "jsval \<Rightarrow> bool" where
  "isAuthTokenRotation v \<longleftrightarrow> isRecord v \<and> hasValidTokenFields v \<and>
     fld v ''token_type'' = JStr (js ''Bearer'') \<and>
     isLoginSession (fld v ''session'') \<and> the_bool (fld (fld v ''session'') ''current'')"

text \<open>The checked value at its declared type (a TypeScript type guard, no conversion).\<close>

definition as_AuthUser :: "jsval \<Rightarrow> AuthUser" where
  "as_AuthUser v =
     \<lparr>user_id = the_num (fld v ''id''), username = the_str (fld v ''username''),
      role = the_num (fld v ''role''),
      user_props = (case v of JObj ps \<Rightarrow> ps | _ \<Rightarrow> [])\<rparr>"

definition as_LoginSession :: "jsval \<Rightarrow> LoginSession" where
  "as_LoginSession v =
     \<lparr>sid = the_str (fld v ''sid''), current = the_bool (fld v ''current''),
      login_method = the_str (fld v ''login_method''), ip = the_str (fld v ''ip''),
      user_agent = the_str (fld v ''user_agent''), created_at = the_num (fld v ''created_at''),
      last_active_at = the_num (fld v ''last_active_at''),
      expires_at = the_num (fld v ''expires_at'')\<rparr>"

definition as_AuthBundle :: "jsval \<Rightarrow> AuthBundle" where
  "as_AuthBundle v =
     \<lparr>access_token = the_str (fld v ''access_token''),
      token_type = the_str (fld v ''token_type''),
      access_expires_at = the_num (fld v ''access_expires_at''),
      bundle_user = as_AuthUser (fld v ''user''),
      bundle_session = as_LoginSession (fld v ''session'')\<rparr>"

lemmas guard_defs =
  isRecord_def isAuthUser_def isLoginSession_def hasValidTokenFields_def isAuthBundle_def
  isAuthTokenRotation_def as_AuthUser_def as_LoginSession_def as_AuthBundle_def

section \<open>Operations on the tab's authentication state\<close>

text \<open>
  The module's mutable state: the store, \<open>authEpoch\<close>, and the messages sent to other
  tabs so far.  \<open>io\<close> is what the browser supplies to one run of the code: the
  features of the tab, a random identifier and the clock in milliseconds.
\<close>

record auth_core =
  auth :: AuthState
  authEpoch :: nat
  sent :: "SyncEffect list"

record io =
  io_env :: sync_env
  io_random :: jstring
  io_now :: int

definition currentSID :: "auth_core \<Rightarrow> jstring option" where
  "currentSID w = map_option sid (session (auth w))"

definition publish :: "io \<Rightarrow> SyncKind \<Rightarrow> jstring \<Rightarrow> auth_core \<Rightarrow> auth_core" where
  "publish io k s w =
     w\<lparr>sent := sent w @ publishAuthSessionEvent (io_env io) (io_random io) (io_now io) k s\<rparr>"

definition applyAuthBundle :: "io \<Rightarrow> AuthBundle \<Rightarrow> bool \<Rightarrow> auth_core \<Rightarrow> auth_core" where
  "applyAuthBundle io bundle synchronizeTabs w =
     (let previousSID = currentSID w;
          w' = w\<lparr>authEpoch := authEpoch w + 1, auth := setBundle bundle (auth w)\<rparr>
      in if synchronizeTabs \<and> previousSID \<noteq> Some (sid (bundle_session bundle))
         then publish io KAuthenticated (sid (bundle_session bundle)) w' else w')"

datatype AuthRotationError =
  InvalidRotationResponse | RotationNoActiveSession | RotationSessionMismatch

definition applyAuthRotation :: "io \<Rightarrow> jsval \<Rightarrow> auth_core \<Rightarrow> AuthRotationError + auth_core" where
  "applyAuthRotation io v w =
     (if \<not> isAuthTokenRotation v then Inl InvalidRotationResponse
      else case (user (auth w), session (auth w)) of
        (Some u, Some s) \<Rightarrow>
          if sid (as_LoginSession (fld v ''session'')) \<noteq> sid s then Inl RotationSessionMismatch
          else Inr (applyAuthBundle io
                 \<lparr>access_token = the_str (fld v ''access_token''),
                  token_type = the_str (fld v ''token_type''),
                  access_expires_at = the_num (fld v ''access_expires_at''),
                  bundle_user = u,
                  bundle_session = as_LoginSession (fld v ''session'')\<rparr> False w)
      | _ \<Rightarrow> Inl RotationNoActiveSession)"

definition clearAuthentication ::
  "io \<Rightarrow> bool \<Rightarrow> AuthBootstrapState \<Rightarrow> auth_core \<Rightarrow> auth_core" where
  "clearAuthentication io synchronizeTabs bs w =
     (let s = currentSID w;
          w' = w\<lparr>authEpoch := authEpoch w + 1, auth := reset bs (auth w)\<rparr>
      in case s of
           Some s' \<Rightarrow> if synchronizeTabs \<and> s' \<noteq> [] then publish io KSignedOut s' w' else w'
         | None \<Rightarrow> w')"

text \<open>The query cache is a component of its own; its \<open>clear\<close> is an argument.\<close>

definition clearAuthenticatedClientState ::
  "('q \<Rightarrow> 'q) \<Rightarrow> io \<Rightarrow> bool \<Rightarrow> 'q \<times> auth_core \<Rightarrow> 'q \<times> auth_core" where
  "clearAuthenticatedClientState queryClear io synchronizeTabs qw =
     (queryClear (fst qw), clearAuthentication io synchronizeTabs BComplete (snd qw))"

section \<open>The refresh runner\<close>

datatype RefreshError = AuthRefreshSupersededError | ErrorValue jsval

datatype RefreshOutcome =
    Authenticated AuthBundle
  | Anonymous
  | TransientError RefreshError
  | OutOfSync "jstring option"

record AuthRefreshHTTPResponse =
  status :: nat
  resp_data :: jsval
  resp_error :: jsval

text \<open>
  The runtime the runner is created with, over any state: the callbacks that read and
  change it.  \<open>request\<close> and \<open>wait\<close> are the two suspension points and appear as the
  states of \<open>run_pc\<close>.
\<close>

record 's AuthRefreshRuntime =
  getExpectedSID :: "'s \<Rightarrow> jstring option"
  parseBundle :: "jsval \<Rightarrow> AuthBundle option"
  acceptBundle :: "AuthBundle \<Rightarrow> 's \<Rightarrow> 's"
  clear :: "bool \<Rightarrow> AuthBootstrapState option \<Rightarrow> 's \<Rightarrow> 's"
  markTransient :: "'s \<Rightarrow> 's"
  isCurrent :: "('s \<Rightarrow> bool) option"

definition refreshRaceDelays :: "nat list" where
  "refreshRaceDelays = [80, 200, 500]"

text \<open>
  Where a run stands: it awaits the response of a request (sent for a session id), it
  awaits the timer of a lost race, or it has returned.  The numbers are the code's
  \<open>raceAttempt\<close> and \<open>allowMismatchRetry\<close>.
\<close>

datatype run_pc =
    AwaitResponse nat bool "jstring option"
  | AwaitTimer nat bool nat
  | Finished RefreshOutcome

definition superseded :: RefreshOutcome where
  "superseded = TransientError AuthRefreshSupersededError"

definition stillCurrent :: "'s AuthRefreshRuntime \<Rightarrow> 's \<Rightarrow> bool" where
  "stillCurrent rt s = (case isCurrent rt of None \<Rightarrow> True | Some f \<Rightarrow> f s)"

text \<open>\<open>run\<close> up to its first \<open>await\<close>.\<close>

definition run :: "'s AuthRefreshRuntime \<Rightarrow> nat \<Rightarrow> bool \<Rightarrow> 's \<Rightarrow> run_pc" where
  "run rt raceAttempt allowMismatchRetry s =
     (if \<not> stillCurrent rt s then Finished superseded
      else AwaitResponse raceAttempt allowMismatchRetry (getExpectedSID rt s))"

definition response_code :: "jsval \<Rightarrow> jstring option" where
  "response_code d = (case fld d ''code'' of JStr c \<Rightarrow> Some c | _ \<Rightarrow> None)"

text \<open>\<open>run\<close> from the response to the next \<open>await\<close> or \<open>return\<close>.\<close>

definition on_response ::
  "'s AuthRefreshRuntime \<Rightarrow> nat \<Rightarrow> bool \<Rightarrow> AuthRefreshHTTPResponse \<Rightarrow> 's \<Rightarrow> 's \<times> run_pc" where
  "on_response rt raceAttempt allowMismatchRetry response s =
     (if \<not> stillCurrent rt s then (s, Finished superseded)
      else
        let responseData = (if isRecord (resp_data response) then resp_data response else JUndef);
            code = response_code responseData;
            bundle = parseBundle rt (fld responseData ''data'')
        in case (fld responseData ''success'' = JBool True, bundle) of
             (True, Some b) \<Rightarrow> (acceptBundle rt b s, Finished (Authenticated b))
           | _ \<Rightarrow>
             if status response = 409 \<and> code = Some (js ''AUTH_REFRESH_RACE'') then
               (if raceAttempt < length refreshRaceDelays
                then (s, AwaitTimer raceAttempt allowMismatchRetry (refreshRaceDelays ! raceAttempt))
                else (clear rt False None s, Finished (OutOfSync code)))
             else if status response = 409 \<and> code = Some (js ''AUTH_SESSION_MISMATCH'') then
               (if allowMismatchRetry
                then let s' = clear rt False (Some BIdle) s in (s', run rt 0 False s')
                else (clear rt False None s, Finished (OutOfSync code)))
             else if status response = 401 then (clear rt True None s, Finished Anonymous)
             else if status response = 0 \<or> 500 \<le> status response \<or> status response = 429 then
               (markTransient rt s, Finished (TransientError (ErrorValue
                  (if resp_error response = JUndef \<or> resp_error response = JNull
                   then resp_data response else resp_error response))))
             else (clear rt False None s,
                   Finished (OutOfSync (Some (nullish code (js ''AUTH_INVALID_REFRESH_RESPONSE''))))))"

text \<open>\<open>run\<close> from the timer of a lost race.\<close>

definition on_timer :: "'s AuthRefreshRuntime \<Rightarrow> nat \<Rightarrow> bool \<Rightarrow> 's \<Rightarrow> run_pc" where
  "on_timer rt raceAttempt allowMismatchRetry s = run rt (raceAttempt + 1) allowMismatchRetry s"

definition createRefreshRunner :: "'s AuthRefreshRuntime \<Rightarrow> 's \<Rightarrow> run_pc" where
  "createRefreshRunner rt s = run rt 0 True s"

section \<open>The refresh of a tab\<close>

text \<open>What axios answers, and \<open>requestRefresh\<close>, which never rejects.\<close>

datatype AxiosResult =
    AxiosResponse nat jsval
  | AxiosFailure "(nat \<times> jsval) option" jsval
  | OtherFailure jsval

definition refreshRequestHeaders :: "jstring option \<Rightarrow> (jstring \<times> jstring) list" where
  "refreshRequestHeaders expectedSID =
     (case expectedSID of
        Some s \<Rightarrow> if s = [] then [] else [(js ''X-Auth-Session'', s)]
      | None \<Rightarrow> [])"

definition requestRefresh :: "AxiosResult \<Rightarrow> AuthRefreshHTTPResponse" where
  "requestRefresh r =
     (case r of
        AxiosResponse st d \<Rightarrow> \<lparr>status = st, resp_data = d, resp_error = JUndef\<rparr>
      | AxiosFailure (Some (st, d)) e \<Rightarrow> \<lparr>status = st, resp_data = d, resp_error = e\<rparr>
      | AxiosFailure None e \<Rightarrow> \<lparr>status = 0, resp_data = JUndef, resp_error = e\<rparr>
      | OtherFailure e \<Rightarrow> \<lparr>status = 0, resp_data = JUndef, resp_error = e\<rparr>)"

text \<open>The runtime \<open>runRefresh\<close> creates for a refresh started at an epoch.\<close>

definition runtimeClear ::
  "io \<Rightarrow> bool \<Rightarrow> AuthBootstrapState option \<Rightarrow> auth_core \<Rightarrow> auth_core" where
  "runtimeClear io synchronizeTabs bs w =
     (if \<not> synchronizeTabs \<and> bs = Some BIdle then w\<lparr>auth := reset BIdle (auth w)\<rparr>
      else clearAuthentication io synchronizeTabs (nullish bs BComplete) w)"

definition runRefresh :: "io \<Rightarrow> nat \<Rightarrow> auth_core AuthRefreshRuntime" where
  "runRefresh io refreshEpoch =
     \<lparr>getExpectedSID = currentSID,
      parseBundle = (\<lambda>v. if isAuthBundle v then Some (as_AuthBundle v) else None),
      acceptBundle = (\<lambda>b. applyAuthBundle io b False),
      clear = runtimeClear io,
      markTransient = (\<lambda>w. w\<lparr>auth := setBootstrapState BIdle (auth w)\<rparr>),
      isCurrent = Some (\<lambda>w. authEpoch w = refreshEpoch)\<rparr>"

text \<open>
  \<open>refreshPromise\<close>: the refresh in flight with the epoch it was started at.  It waits
  for the browser lock, runs, or has been rejected by the lock manager.
\<close>

datatype refresh_phase = AwaitLock | Running run_pc | Rejected jsval

record refresh_job =
  job_epoch :: nat
  job_phase :: refresh_phase

record tab =
  tab_core :: auth_core
  refreshPromise :: "refresh_job option"

text \<open>The lock manager of the browser: missing, usable, or throwing when it is called.\<close>

datatype locks = NoLocks | LockManager | LocksThrow jsval

definition performRefreshWithBrowserLock ::
  "locks \<Rightarrow> io \<Rightarrow> nat \<Rightarrow> auth_core \<Rightarrow> auth_core \<times> refresh_phase" where
  "performRefreshWithBrowserLock lk io refreshEpoch w =
     (case lk of
        NoLocks \<Rightarrow> (w, Running (createRefreshRunner (runRefresh io refreshEpoch) w))
      | LockManager \<Rightarrow> (w, AwaitLock)
      | LocksThrow e \<Rightarrow>
          (w\<lparr>auth := setBootstrapState BIdle (auth w)\<rparr>,
           Running (Finished (TransientError (ErrorValue e)))))"

definition refreshAuthentication :: "locks \<Rightarrow> io \<Rightarrow> tab \<Rightarrow> tab" where
  "refreshAuthentication lk io t =
     (case refreshPromise t of
        Some _ \<Rightarrow> t
      | None \<Rightarrow>
          let refreshEpoch = authEpoch (tab_core t);
              (w, ph) = performRefreshWithBrowserLock lk io refreshEpoch (tab_core t)
          in t\<lparr>tab_core := w,
               refreshPromise := Some \<lparr>job_epoch = refreshEpoch, job_phase = ph\<rparr>\<rparr>)"

text \<open>\<open>Math.floor(Date.now() / 1000)\<close>.\<close>

definition now_seconds :: "io \<Rightarrow> int" where
  "now_seconds io = io_now io div 1000"

definition str_truthy :: "jstring option \<Rightarrow> bool" where
  "str_truthy s \<longleftrightarrow> s \<noteq> None \<and> s \<noteq> Some []"

definition currentValidAuthBundle :: "io \<Rightarrow> AuthState \<Rightarrow> AuthBundle option" where
  "currentValidAuthBundle io a =
     (case (user a, accessToken a, accessExpiresAt a, session a) of
        (Some u, Some tok, Some expires, Some s) \<Rightarrow>
          if tok = [] \<or> \<not> num_truthy expires \<or> jle expires (jint (now_seconds io)) then None
          else Some \<lparr>access_token = tok, token_type = js ''Bearer'', access_expires_at = expires,
                     bundle_user = u, bundle_session = s\<rparr>
      | _ \<Rightarrow> None)"

text \<open>
  \<open>bootstrapAuthentication\<close>: an outcome at once, or \<open>None\<close> when the caller awaits
  the refresh that the second component has in flight.
\<close>

definition bootstrapAuthentication :: "locks \<Rightarrow> io \<Rightarrow> tab \<Rightarrow> RefreshOutcome option \<times> tab" where
  "bootstrapAuthentication lk io t =
     (let a = auth (tab_core t) in
      case currentValidAuthBundle io a of
        Some bundle \<Rightarrow>
          (Some (Authenticated bundle),
           t\<lparr>tab_core := (tab_core t)\<lparr>auth := setBootstrapState BComplete a\<rparr>\<rparr>)
      | None \<Rightarrow>
          let hasStaleSession = (user a \<noteq> None \<and> session a \<noteq> None)
          in if bootstrapState a = BComplete \<and> \<not> hasStaleSession then (Some Anonymous, t)
             else (None, refreshAuthentication lk io
                     (t\<lparr>tab_core := (tab_core t)\<lparr>auth := setBootstrapState BChecking a\<rparr>\<rparr>)))"

definition getCommonHeaders :: "AuthState \<Rightarrow> (jstring \<times> jstring) list" where
  "getCommonHeaders a =
     (js ''Content-Type'', js ''application/json'') #
     (case accessToken a of
        Some tok \<Rightarrow> if tok = [] then [] else [(js ''Authorization'', js ''Bearer '' @ tok)]
      | None \<Rightarrow> [])"

text \<open>
  \<open>getFreshAuthHeaders\<close> before and after it awaits the refresh: the first part gives
  the headers when the token outlives the next minute, the second part decides on the
  outcome.
\<close>

datatype HeaderError = RequestFailed RefreshError | SessionExpired

definition tokenOutlives :: "AuthState \<Rightarrow> int \<Rightarrow> bool" where
  "tokenOutlives a t \<longleftrightarrow> str_truthy (accessToken a) \<and>
     (case accessExpiresAt a of Some e \<Rightarrow> num_truthy e \<and> jlt (jint t) e | None \<Rightarrow> False)"

definition freshHeadersBefore :: "io \<Rightarrow> AuthState \<Rightarrow> (jstring \<times> jstring) list option" where
  "freshHeadersBefore io a =
     (if tokenOutlives a (now_seconds io + 60) then Some (getCommonHeaders a) else None)"

definition freshHeadersAfter ::
  "io \<Rightarrow> RefreshOutcome \<Rightarrow> AuthState \<Rightarrow> HeaderError + (jstring \<times> jstring) list" where
  "freshHeadersAfter io outcome a =
     (case outcome of
        Authenticated _ \<Rightarrow> Inr (getCommonHeaders a)
      | _ \<Rightarrow>
        if tokenOutlives a (now_seconds io) then Inr (getCommonHeaders a)
        else case outcome of
               TransientError e \<Rightarrow> Inl (RequestFailed e)
             | _ \<Rightarrow> Inl SessionExpired)"

lemmas core_defs =
  currentSID_def publish_def applyAuthBundle_def clearAuthentication_def runtimeClear_def

section \<open>The contract of a refresh runtime\<close>

text \<open>
  What the runner relies on: accepting a bundle stores it, clearing signs the state
  out, a transient mark keeps the credentials, and the clear that precedes the
  mismatch retry leaves the run current (otherwise the retry would never be sent).
\<close>

locale refresh_runtime =
  fixes rt :: "'s AuthRefreshRuntime"
    and holds :: "AuthBundle \<Rightarrow> 's \<Rightarrow> bool"
    and signed_out :: "'s \<Rightarrow> bool"
    and valid :: "AuthBundle \<Rightarrow> bool"
  assumes parse_valid: "parseBundle rt v = Some b \<Longrightarrow> valid b"
    and accept_holds: "holds b (acceptBundle rt b s)"
    and clear_signed_out: "signed_out (clear rt sync bs s)"
    and clear_idle_current: "stillCurrent rt s \<Longrightarrow> stillCurrent rt (clear rt False (Some BIdle) s)"
    and mark_keeps: "holds b (markTransient rt s) \<longleftrightarrow> holds b s"
    and mark_signed_out: "signed_out s \<Longrightarrow> signed_out (markTransient rt s)"
begin

lemma outcome_authenticated:
  assumes "on_response rt a m r s = (s', Finished (Authenticated b))"
  shows "holds b s' \<and> valid b \<and> stillCurrent rt s"
  using assms
  by (auto simp: on_response_def run_def superseded_def Let_def accept_holds
      split: if_splits bool.splits option.splits dest: parse_valid)

lemma outcome_signed_out:
  assumes "on_response rt a m r s = (s', Finished out)" and "out = Anonymous \<or> out = OutOfSync c"
  shows "signed_out s'"
  using assms
  by (auto simp: on_response_def run_def superseded_def Let_def clear_signed_out
      split: if_splits bool.splits option.splits)

lemma outcome_transient:
  assumes "on_response rt a m r s = (s', Finished (TransientError e))"
  shows "holds b s' \<longleftrightarrow> holds b s"
  using assms clear_idle_current[of s]
  by (auto simp: on_response_def run_def superseded_def Let_def mark_keeps
      split: if_splits bool.splits option.splits)

lemma mismatch_is_retried:
  assumes "stillCurrent rt s" and "status r = 409"
    and "fld (resp_data r) ''code'' = JStr (js ''AUTH_SESSION_MISMATCH'')"
    and "fld (resp_data r) ''success'' \<noteq> JBool True" and "isRecord (resp_data r)"
  shows "\<exists>s' q. on_response rt a True r s = (s', AwaitResponse 0 False q) \<and> signed_out s'"
  using assms clear_idle_current[OF assms(1)] clear_signed_out
  by (auto simp: on_response_def run_def response_code_def Let_def)

end

section \<open>The runner terminates\<close>

text \<open>
  An undisturbed run: the server answers the \<open>i\<close>-th request with \<open>server i\<close>; every
  step spends one unit of fuel.  The result has the number of requests sent.
\<close>

fun drive ::
  "'s AuthRefreshRuntime \<Rightarrow> (nat \<Rightarrow> AuthRefreshHTTPResponse) \<Rightarrow> nat \<Rightarrow> nat \<Rightarrow> 's \<Rightarrow> run_pc \<Rightarrow>
   ('s \<times> RefreshOutcome \<times> nat) option" where
  "drive rt server fuel i s (Finished out) = Some (s, out, i)"
| "drive rt server 0 i s _ = None"
| "drive rt server (Suc fuel) i s (AwaitTimer a m d) = drive rt server fuel i s (on_timer rt a m s)"
| "drive rt server (Suc fuel) i s (AwaitResponse a m q) =
     (case on_response rt a m (server i) s of
        (s', pc') \<Rightarrow> drive rt server fuel (Suc i) s' pc')"

text \<open>How many steps, and how many requests, a run can still make.\<close>

fun pc_wf :: "run_pc \<Rightarrow> bool" where
  "pc_wf (AwaitResponse a m q) \<longleftrightarrow> a \<le> 3"
| "pc_wf (AwaitTimer a m d) \<longleftrightarrow> a \<le> 2"
| "pc_wf (Finished out) \<longleftrightarrow> True"

fun requests_left :: "run_pc \<Rightarrow> nat" where
  "requests_left (AwaitResponse a m q) = (if m then 4 else 0) + (4 - a)"
| "requests_left (AwaitTimer a m d) = (if m then 4 else 0) + (3 - a)"
| "requests_left (Finished out) = 0"

fun steps_left :: "run_pc \<Rightarrow> nat" where
  "steps_left (AwaitResponse a m q) = (if m then 7 else 0) + 2 * (3 - a) + 1"
| "steps_left (AwaitTimer a m d) = (if m then 7 else 0) + 2 * (3 - a)"
| "steps_left (Finished out) = 0"

lemma pc_wf_run: "a \<le> 3 \<Longrightarrow> pc_wf (run rt a m s)"
  by (simp add: run_def)

lemma on_timer_decreases:
  assumes "pc_wf (AwaitTimer a m d)"
  shows "pc_wf (on_timer rt a m s)"
    and "requests_left (on_timer rt a m s) \<le> requests_left (AwaitTimer a m d)"
    and "steps_left (on_timer rt a m s) < steps_left (AwaitTimer a m d)"
  using assms by (auto simp: on_timer_def run_def)

text \<open>The three ways in which a run continues after a response.\<close>

lemma length_delays [simp]: "length refreshRaceDelays = 3"
  by (simp add: refreshRaceDelays_def)

lemma on_response_cases:
  assumes "on_response rt a m r s = (s', pc')"
  obtains (returned) out where "pc' = Finished out"
  | (race) "a < 3" "s' = s" "pc' = AwaitTimer a m (refreshRaceDelays ! a)"
  | (retry) q where "m" "s' = clear rt False (Some BIdle) s" "pc' = AwaitResponse 0 False q"
  using assms
  by (auto simp: on_response_def run_def Let_def split: if_splits bool.splits option.splits)

lemma on_response_decreases:
  assumes "pc_wf (AwaitResponse a m q)" and "on_response rt a m r s = (s', pc')"
  shows "pc_wf pc' \<and> requests_left pc' < requests_left (AwaitResponse a m q) \<and>
    steps_left pc' < steps_left (AwaitResponse a m q)"
  using assms(2)
proof (cases rule: on_response_cases)
  case (returned out)
  with assms(1) show ?thesis by simp
next
  case race
  with assms(1) show ?thesis by simp
next
  case (retry q)
  with assms(1) show ?thesis by simp
qed

lemma drive_terminates:
  "pc_wf pc \<Longrightarrow> steps_left pc \<le> fuel \<Longrightarrow>
     \<exists>s' out n. drive rt server fuel i s pc = Some (s', out, n) \<and> n \<le> i + requests_left pc"
proof (induction rt server fuel i s pc rule: drive.induct)
  case (3 rt server fuel i s a m d)
  note dec = on_timer_decreases[OF 3(2), of rt s]
  have "\<exists>s' out n. drive rt server fuel i s (on_timer rt a m s) = Some (s', out, n) \<and>
      n \<le> i + requests_left (on_timer rt a m s)"
  proof (rule 3(1))
    show "steps_left (on_timer rt a m s) \<le> fuel" using dec(3) 3(3) by linarith
  qed (rule dec(1))
  then obtain s' out n where "drive rt server fuel i s (on_timer rt a m s) = Some (s', out, n)"
    and "n \<le> i + requests_left (on_timer rt a m s)" by blast
  with dec(2) show ?case by auto
next
  case (4 rt server fuel i s a m q)
  obtain s1 pc1 where o: "on_response rt a m (server i) s = (s1, pc1)" by force
  note dec = on_response_decreases[OF 4(2) o]
  have "\<exists>s' out n. drive rt server fuel (Suc i) s1 pc1 = Some (s', out, n) \<and>
      n \<le> Suc i + requests_left pc1"
  proof (rule 4(1)[OF o[symmetric]])
    show "steps_left pc1 \<le> fuel" using dec 4(3) by linarith
  qed (use dec in blast)
  then obtain s' out n where "drive rt server fuel (Suc i) s1 pc1 = Some (s', out, n)"
    and "n \<le> Suc i + requests_left pc1" by blast
  with dec o show ?case by auto
qed auto

section \<open>What a whole run reports\<close>

text \<open>A response that reports a session mismatch, and the bundle a response carries.\<close>

definition is_mismatch :: "AuthRefreshHTTPResponse \<Rightarrow> bool" where
  "is_mismatch r \<longleftrightarrow> status r = 409 \<and>
     fld (resp_data r) ''code'' = JStr (js ''AUTH_SESSION_MISMATCH'')"

context refresh_runtime
begin

text \<open>
  The report of a run that starts at request \<open>i\<close> in \<open>s\<close> and ends after \<open>n\<close>
  requests in \<open>s'\<close>.  A transient error leaves the credentials alone, unless a mismatch
  has signed the state out before.
\<close>

definition reported ::
  "(nat \<Rightarrow> AuthRefreshHTTPResponse) \<Rightarrow> nat \<Rightarrow> 's \<Rightarrow> 's \<Rightarrow> RefreshOutcome \<Rightarrow> nat \<Rightarrow> bool" where
  "reported server i s s' out n \<longleftrightarrow>
     (case out of
        Authenticated b \<Rightarrow> valid b \<and> holds b s' \<and> i < n \<and>
          parseBundle rt (fld (resp_data (server (n - 1))) ''data'') = Some b
      | Anonymous \<Rightarrow> signed_out s'
      | OutOfSync c \<Rightarrow> signed_out s'
      | TransientError e \<Rightarrow> e \<noteq> AuthRefreshSupersededError \<and>
          ((\<forall>b. holds b s' \<longleftrightarrow> holds b s) \<and> (signed_out s \<longrightarrow> signed_out s') \<or>
           signed_out s' \<and> (\<exists>j < n. is_mismatch (server j))))"

lemma response_reported:
  assumes "on_response rt a m (server i) s = (s', Finished out)" and "stillCurrent rt s"
    and parse_undef: "parseBundle rt JUndef = None"
  shows "reported server i s s' out (Suc i)"
  using assms clear_idle_current[OF assms(2)]
  by (auto simp: on_response_def run_def reported_def Let_def accept_holds clear_signed_out mark_keeps
      mark_signed_out parse_undef split: if_splits bool.splits option.splits dest: parse_valid)

lemma retry_after_mismatch:
  assumes "on_response rt a m r s = (s', AwaitResponse a' m' q)" and "stillCurrent rt s"
  shows "is_mismatch r \<and> signed_out s' \<and> stillCurrent rt s'"
  using assms clear_idle_current[OF assms(2)]
  by (auto simp: on_response_def run_def Let_def clear_signed_out is_mismatch_def response_code_def
      split: if_splits bool.splits option.splits jsval.splits)

lemma reported_after_mismatch:
  assumes "reported server (Suc i) s1 s' out n" and "signed_out s1" and "is_mismatch (server i)" and "i < n"
  shows "reported server i s s' out n"
  using assms by (auto simp: reported_def split: RefreshOutcome.splits)

lemma drive_count: "drive rt' server fuel i s pc = Some (s', out, n) \<Longrightarrow> i \<le> n"
  by (induction rt' server fuel i s pc rule: drive.induct) (auto split: prod.splits)

lemma drive_reported:
  assumes "parseBundle rt JUndef = None"
  shows "drive rt server fuel i s pc = Some (s', out, n) \<Longrightarrow> stillCurrent rt s \<Longrightarrow>
    (\<forall>out'. pc \<noteq> Finished out') \<Longrightarrow> reported server i s s' out n"
proof (induction fuel arbitrary: i s pc)
  case 0
  then show ?case by (cases pc) simp_all
next
  case (Suc fuel)
  show ?case
  proof (cases pc)
    case (AwaitTimer a m d)
    with Suc show ?thesis by (simp add: on_timer_def run_def)
  next
    case (AwaitResponse a m q)
    obtain s1 pc1 where o: "on_response rt a m (server i) s = (s1, pc1)" by force
    with Suc.prems AwaitResponse have d: "drive rt server fuel (Suc i) s1 pc1 = Some (s', out, n)" by simp
    have "i < n" using drive_count[OF d] by simp
    show ?thesis
    proof (cases pc1)
      case (Finished out1)
      have "reported server i s s1 out1 (Suc i)"
        by (rule response_reported) (use o Finished Suc.prems(2) assms in simp_all)
      with d Finished show ?thesis by simp
    next
      case (AwaitTimer a' m' d')
      have "s1 = s" using o AwaitTimer by (cases rule: on_response_cases) auto
      with Suc.IH[OF d] Suc.prems(2) AwaitTimer have "reported server (Suc i) s s' out n" by simp
      then show ?thesis by (auto simp: reported_def split: RefreshOutcome.splits)
    next
      case (AwaitResponse a' m' q')
      note mm = retry_after_mismatch[OF o[unfolded AwaitResponse] Suc.prems(2)]
      with Suc.IH[OF d] AwaitResponse have "reported server (Suc i) s1 s' out n" by simp
      with mm \<open>i < n\<close> show ?thesis by (blast intro: reported_after_mismatch)
    qed
  qed (use Suc.prems in simp)
qed

end

section \<open>The runtime of a tab meets the contract\<close>

text \<open>The credentials of a bundle are those of the store; nobody is signed in.\<close>

definition holds_bundle :: "AuthBundle \<Rightarrow> auth_core \<Rightarrow> bool" where
  "holds_bundle b w \<longleftrightarrow>
     user (auth w) = Some (bundle_user b) \<and> accessToken (auth w) = Some (access_token b) \<and>
     accessExpiresAt (auth w) = Some (access_expires_at b) \<and>
     session (auth w) = Some (bundle_session b)"

definition no_credentials :: "auth_core \<Rightarrow> bool" where
  "no_credentials w \<longleftrightarrow> user (auth w) = None \<and> accessToken (auth w) = None \<and>
     accessExpiresAt (auth w) = None \<and> session (auth w) = None \<and>
     pending2FAFlowToken (auth w) = None"

definition valid_bundle :: "AuthBundle \<Rightarrow> bool" where
  "valid_bundle b \<longleftrightarrow> access_token b \<noteq> [] \<and> token_type b \<noteq> [] \<and>
     isFinite (access_expires_at b) \<and> jlt (jint 0) (access_expires_at b) \<and>
     isInteger (user_id (bundle_user b)) \<and> jlt (jint 0) (user_id (bundle_user b)) \<and>
     sid (bundle_session b) \<noteq> []"

lemma isAuthBundle_valid: "isAuthBundle v \<Longrightarrow> valid_bundle (as_AuthBundle v)"
  by (auto simp: guard_defs valid_bundle_def)

lemma auth_apply [simp]: "auth (applyAuthBundle io b sync w) = setBundle b (auth w)"
  by (simp add: core_defs Let_def)

lemma auth_clear [simp]: "auth (clearAuthentication io sync bs w) = reset bs (auth w)"
  by (simp add: core_defs Let_def split: option.split)

lemma epoch_apply [simp]: "authEpoch (applyAuthBundle io b sync w) = authEpoch w + 1"
  by (simp add: core_defs Let_def)

lemma epoch_clear [simp]: "authEpoch (clearAuthentication io sync bs w) = authEpoch w + 1"
  by (simp add: core_defs Let_def split: option.split)

lemma sent_apply_quiet [simp]: "sent (applyAuthBundle io b False w) = sent w"
  by (simp add: core_defs Let_def)

lemma sent_clear_quiet [simp]: "sent (clearAuthentication io False bs w) = sent w"
  by (simp add: core_defs Let_def split: option.split)

interpretation tab_refresh: refresh_runtime "runRefresh io e" holds_bundle no_credentials valid_bundle
  for io e
proof
  show "parseBundle (runRefresh io e) v = Some b \<Longrightarrow> valid_bundle b" for v b
    by (auto simp: runRefresh_def isAuthBundle_valid split: if_splits)
  show "holds_bundle b (acceptBundle (runRefresh io e) b w)" for b w
    by (simp add: runRefresh_def holds_bundle_def setBundle_def)
  show "no_credentials (clear (runRefresh io e) sync bs w)" for sync bs w
    by (simp add: runRefresh_def runtimeClear_def no_credentials_def reset_def)
  show "stillCurrent (runRefresh io e) w \<Longrightarrow>
      stillCurrent (runRefresh io e) (clear (runRefresh io e) False (Some BIdle) w)" for w
    by (simp add: runRefresh_def runtimeClear_def stillCurrent_def)
  show "holds_bundle b (markTransient (runRefresh io e) w) = holds_bundle b w" for b w
    by (simp add: runRefresh_def holds_bundle_def setBootstrapState_def)
  show "no_credentials w \<Longrightarrow> no_credentials (markTransient (runRefresh io e) w)" for w
    by (simp add: runRefresh_def no_credentials_def setBootstrapState_def)
qed

section \<open>A whole refresh\<close>

text \<open>
  A refresh that nothing disturbs, from the call of \<open>refreshAuthentication\<close> to its
  outcome: the lock manager throws, or the runner runs at once or when the lock is
  granted.  (A lock request that is rejected gives no outcome.)
\<close>

definition undisturbed_refresh ::
  "locks \<Rightarrow> io \<Rightarrow> (nat \<Rightarrow> AuthRefreshHTTPResponse) \<Rightarrow> auth_core \<Rightarrow>
   (auth_core \<times> RefreshOutcome \<times> nat) option" where
  "undisturbed_refresh lk io server w =
     (let rt = runRefresh io (authEpoch w) in
      case performRefreshWithBrowserLock lk io (authEpoch w) w of
        (w', Running pc) \<Rightarrow> drive rt server 14 0 w' pc
      | (w', AwaitLock) \<Rightarrow> drive rt server 14 0 w' (createRefreshRunner rt w')
      | (w', Rejected e) \<Rightarrow> None)"

lemma runner_terminates:
  "\<exists>s' out n. drive rt server 14 0 s (createRefreshRunner rt s) = Some (s', out, n) \<and> n \<le> 8"
proof -
  let ?pc = "createRefreshRunner rt s"
  have "pc_wf ?pc" and "steps_left ?pc \<le> 14" and r: "requests_left ?pc \<le> 8"
    by (simp_all add: createRefreshRunner_def run_def)
  from drive_terminates[OF this(1,2), of rt server 0 s] r show ?thesis by auto
qed

end
