(* ===== verification/Transition.thy ===== *)
theory Transition
  imports Main
begin

text \<open>
  Labelled transition systems for the components whose code is interleaved at
  \<open>await\<close>s: runs, reachable states, and the two rules the components use, an inductive
  invariant and a budget that the labels of a run consume.
\<close>

type_synonym ('s, 'l) lts = "'s \<Rightarrow> 'l \<Rightarrow> 's \<Rightarrow> bool"

inductive lts_run :: "('s, 'l) lts \<Rightarrow> 's \<Rightarrow> 'l list \<Rightarrow> 's \<Rightarrow> bool" for T where
  run_Nil: "lts_run T s [] s"
| run_Cons: "T s l s' \<Longrightarrow> lts_run T s' ls s'' \<Longrightarrow> lts_run T s (l # ls) s''"

inductive_cases lts_run_NilE [elim!]: "lts_run T s [] t"
inductive_cases lts_run_ConsE [elim!]: "lts_run T s (l # ls) t"

definition lts_reachable :: "('s \<Rightarrow> bool) \<Rightarrow> ('s, 'l) lts \<Rightarrow> 's \<Rightarrow> bool" where
  "lts_reachable init T t \<longleftrightarrow> (\<exists>s ls. init s \<and> lts_run T s ls t)"

lemma lts_run_snoc: "lts_run T s ls t \<Longrightarrow> T t l u \<Longrightarrow> lts_run T s (ls @ [l]) u"
  by (induction rule: lts_run.induct) (auto intro: lts_run.intros)

lemma lts_reachable_init: "init s \<Longrightarrow> lts_reachable init T s"
  by (auto simp: lts_reachable_def intro: lts_run.intros)

lemma lts_reachable_step: "lts_reachable init T s \<Longrightarrow> T s l t \<Longrightarrow> lts_reachable init T t"
  by (auto simp: lts_reachable_def dest: lts_run_snoc)

text \<open>An inductive invariant.\<close>

locale lts_invariant =
  fixes init :: "'s \<Rightarrow> bool" and T :: "('s, 'l) lts" and I :: "'s \<Rightarrow> bool"
  assumes init_inv: "init s \<Longrightarrow> I s"
    and step_inv: "I s \<Longrightarrow> T s l t \<Longrightarrow> I t"
begin

lemma run_inv: "lts_run T s ls t \<Longrightarrow> I s \<Longrightarrow> I t"
  by (induction rule: lts_run.induct) (auto dest: step_inv)

lemma reachable_inv: "lts_reachable init T t \<Longrightarrow> I t"
  unfolding lts_reachable_def by (blast intro: run_inv init_inv)

end

text \<open>
  A budget: every label has a cost, a step spends at least the cost of its label, and
  some labels (\<open>renew\<close>) start a new budget.
\<close>

locale lts_budget = lts_invariant init T I
  for init :: "'s \<Rightarrow> bool" and T :: "('s, 'l) lts" and I :: "'s \<Rightarrow> bool" +
  fixes budget :: "'s \<Rightarrow> nat" and cost :: "'l \<Rightarrow> nat" and renew :: "'l \<Rightarrow> bool"
  assumes spend: "I s \<Longrightarrow> T s l t \<Longrightarrow> \<not> renew l \<Longrightarrow> cost l + budget t \<le> budget s"
begin

lemma run_budget:
  "lts_run T s ls t \<Longrightarrow> I s \<Longrightarrow> list_all (\<lambda>l. \<not> renew l) ls \<Longrightarrow>
     sum_list (map cost ls) + budget t \<le> budget s"
proof (induction rule: lts_run.induct)
  case (run_Cons s l s' ls s'')
  then have "I s'" by (blast intro: step_inv)
  with run_Cons have "sum_list (map cost ls) + budget s'' \<le> budget s'" by simp
  moreover from run_Cons have "cost l + budget s' \<le> budget s" by (simp add: spend)
  ultimately show ?case by simp
qed simp

end

end
