(* ===== verification/Auth_Machine.thy ===== *)
theory Auth_Machine
  imports Auth_Session Transition
begin

text \<open>
  One tab of the web client as a state machine.  A step is one uninterrupted piece of
  code: an operation that the rest of the application calls (sign-in, sign-out, token
  rotation, the store's setters, a refresh or bootstrap request, an event of another
  tab), or one continuation of the refresh in flight (the browser lock, the response,
  the retry timer, the settlement of the promise).  They interleave in any order.
\<close>

section \<open>Events from other tabs\<close>

datatype UiAction = UiNone | UiReload | UiSignIn

text \<open>The listener of \<open>routes/__root.tsx\<close>; the query cache is an argument.\<close>

definition onAuthSessionEvent ::
  "('q \<Rightarrow> 'q) \<Rightarrow> io \<Rightarrow> AuthSessionSyncEvent \<Rightarrow> 'q \<times> auth_core \<Rightarrow> ('q \<times> auth_core) \<times> UiAction" where
  "onAuthSessionEvent queryClear io ev qw =
     (let curSID = currentSID (snd qw) in
      case kind ev of
        KAuthenticated \<Rightarrow>
          if curSID = Some (event_sid ev) then (qw, UiNone)
          else if str_truthy curSID
          then ((fst qw, clearAuthentication io False BComplete (snd qw)), UiReload)
          else (qw, UiReload)
      | KSignedOut \<Rightarrow>
          if str_truthy curSID \<and> curSID = Some (event_sid ev)
          then (clearAuthenticatedClientState queryClear io False qw, UiSignIn)
          else (qw, UiNone))"

text \<open>The store subscription beside it drops the cache when the session changes.\<close>

definition onStoreChange :: "('q \<Rightarrow> 'q) \<Rightarrow> AuthState \<Rightarrow> AuthState \<Rightarrow> 'q \<Rightarrow> 'q" where
  "onStoreChange queryClear prev next q =
     (if map_option sid (session next) \<noteq> map_option sid (session prev) then queryClear q else q)"

section \<open>Continuations of the refresh in flight\<close>

datatype refresh_event =
    LockGranted
  | LockRejected jsval
  | ResponseArrived AuthRefreshHTTPResponse
  | TimerFired
  | Settled

text \<open>\<open>None\<close> when the refresh is not waiting for that event.\<close>

definition refresh_continue :: "io \<Rightarrow> refresh_event \<Rightarrow> tab \<Rightarrow> tab option" where
  "refresh_continue io ev t =
     (case refreshPromise t of
        None \<Rightarrow> None
      | Some j \<Rightarrow>
        let rt = runRefresh io (job_epoch j); w = tab_core t;
            become = (\<lambda>w' ph. Some (t\<lparr>tab_core := w', refreshPromise := Some (j\<lparr>job_phase := ph\<rparr>)\<rparr>))
        in case (ev, job_phase j) of
             (LockGranted, AwaitLock) \<Rightarrow> become w (Running (createRefreshRunner rt w))
           | (LockRejected e, AwaitLock) \<Rightarrow> become w (Rejected e)
           | (ResponseArrived r, Running (AwaitResponse a m q)) \<Rightarrow>
               (case on_response rt a m r w of (w', pc) \<Rightarrow> become w' (Running pc))
           | (TimerFired, Running (AwaitTimer a m d)) \<Rightarrow> become w (Running (on_timer rt a m w))
           | (Settled, Running (Finished out)) \<Rightarrow> Some (t\<lparr>refreshPromise := None\<rparr>)
           | (Settled, Rejected e) \<Rightarrow> Some (t\<lparr>refreshPromise := None\<rparr>)
           | _ \<Rightarrow> None)"

section \<open>Operations of the rest of the application\<close>

text \<open>
  \<open>ResetStore\<close> is the bare \<open>auth.reset()\<close> of \<open>wechat-binding-card.tsx\<close>, which
  leaves the epoch as it is and tells no other tab.
\<close>

datatype app_op =
    SignIn AuthBundle bool
  | SignOut bool AuthBootstrapState
  | Rotate jsval
  | SetUser "AuthUser option"
  | SetPending2FA "jstring option" bool
  | SetBootstrap AuthBootstrapState
  | ResetStore AuthBootstrapState
  | RemoteEvent AuthSessionSyncEvent

definition app_core :: "io \<Rightarrow> app_op \<Rightarrow> auth_core \<Rightarrow> auth_core" where
  "app_core io p w =
     (case p of
        SignIn b sync \<Rightarrow> applyAuthBundle io b sync w
      | SignOut sync bs \<Rightarrow> clearAuthentication io sync bs w
      | Rotate v \<Rightarrow> (case applyAuthRotation io v w of Inl _ \<Rightarrow> w | Inr w' \<Rightarrow> w')
      | SetUser u \<Rightarrow> w\<lparr>auth := setUser u (auth w)\<rparr>
      | SetPending2FA tok sms \<Rightarrow> w\<lparr>auth := setPending2FAFlowToken tok sms (auth w)\<rparr>
      | SetBootstrap bs \<Rightarrow> w\<lparr>auth := setBootstrapState bs (auth w)\<rparr>
      | ResetStore bs \<Rightarrow> w\<lparr>auth := reset bs (auth w)\<rparr>
      | RemoteEvent ev \<Rightarrow> snd (fst (onAuthSessionEvent (\<lambda>q. q) io ev ((), w))))"

datatype tab_label =
    App app_op
  | Refresh
  | Bootstrap
  | Continue refresh_event

inductive tab_step :: "(tab, tab_label) lts" where
  app: "tab_step t (App p) (t\<lparr>tab_core := app_core io p (tab_core t)\<rparr>)"
| refresh: "tab_step t Refresh (refreshAuthentication lk io t)"
| bootstrap: "tab_step t Bootstrap (snd (bootstrapAuthentication lk io t))"
| continue: "refresh_continue io ev t = Some t' \<Longrightarrow> tab_step t (Continue ev) t'"

inductive_simps tab_step_App: "tab_step t (App p) t'"
inductive_simps tab_step_Refresh: "tab_step t Refresh t'"
inductive_simps tab_step_Bootstrap: "tab_step t Bootstrap t'"
inductive_simps tab_step_Continue: "tab_step t (Continue ev) t'"

definition initial_tab :: "tab \<Rightarrow> bool" where
  "initial_tab t \<longleftrightarrow>
     t = \<lparr>tab_core = \<lparr>auth = initialAuth, authEpoch = 0, sent = []\<rparr>, refreshPromise = None\<rparr>"

section \<open>The invariant of a tab\<close>

text \<open>A response changes the state by at most one callback of the runtime.\<close>

lemma on_response_effect:
  assumes "on_response rt a m r s = (s', pc')"
  shows "s' = s \<or> (\<exists>b. s' = acceptBundle rt b s) \<or> (\<exists>y bs. s' = clear rt y bs s) \<or>
    s' = markTransient rt s"
  using assms
  by (auto simp: on_response_def Let_def split: if_splits bool.splits option.splits)

lemma pc_wf_on_response:
  "pc_wf (AwaitResponse a m q) \<Longrightarrow> on_response rt a m r s = (s', pc') \<Longrightarrow> pc_wf pc'"
  by (drule (1) on_response_decreases) simp

text \<open>Which continuation was taken, and from where.\<close>

lemma refresh_continue_cases:
  assumes "refresh_continue io ev t = Some t'"
  obtains
    (granted) j where "refreshPromise t = Some j" "ev = LockGranted" "job_phase j = AwaitLock"
      "t' = t\<lparr>refreshPromise := Some (j\<lparr>job_phase :=
         Running (createRefreshRunner (runRefresh io (job_epoch j)) (tab_core t))\<rparr>)\<rparr>"
  | (rejected) j e where "refreshPromise t = Some j" "ev = LockRejected e"
      "job_phase j = AwaitLock" "t' = t\<lparr>refreshPromise := Some (j\<lparr>job_phase := Rejected e\<rparr>)\<rparr>"
  | (response) j r a m q w' pc where "refreshPromise t = Some j" "ev = ResponseArrived r"
      "job_phase j = Running (AwaitResponse a m q)"
      "on_response (runRefresh io (job_epoch j)) a m r (tab_core t) = (w', pc)"
      "t' = t\<lparr>tab_core := w', refreshPromise := Some (j\<lparr>job_phase := Running pc\<rparr>)\<rparr>"
  | (timer) j a m d where "refreshPromise t = Some j" "ev = TimerFired"
      "job_phase j = Running (AwaitTimer a m d)"
      "t' = t\<lparr>refreshPromise := Some (j\<lparr>job_phase :=
         Running (on_timer (runRefresh io (job_epoch j)) a m (tab_core t))\<rparr>)\<rparr>"
  | (settled) j where "refreshPromise t = Some j" "ev = Settled"
      "(\<exists>out. job_phase j = Running (Finished out)) \<or> (\<exists>e. job_phase j = Rejected e)"
      "t' = t\<lparr>refreshPromise := None\<rparr>"
  using assms
  by (cases ev)
    (auto simp: refresh_continue_def Let_def
      split: option.splits refresh_phase.splits run_pc.splits prod.splits)

fun phase_wf :: "refresh_phase \<Rightarrow> bool" where
  "phase_wf (Running pc) = pc_wf pc"
| "phase_wf _ = True"

definition tab_inv :: "tab \<Rightarrow> bool" where
  "tab_inv t \<longleftrightarrow> store_wf (auth (tab_core t)) \<and>
     (case refreshPromise t of None \<Rightarrow> True
      | Some j \<Rightarrow> job_epoch j \<le> authEpoch (tab_core t) \<and> phase_wf (job_phase j))"

definition core_grows :: "auth_core \<Rightarrow> auth_core \<Rightarrow> bool" where
  "core_grows w w' \<longleftrightarrow> (store_wf (auth w) \<longrightarrow> store_wf (auth w')) \<and> authEpoch w \<le> authEpoch w'"

lemma core_grows_refl [simp]: "core_grows w w"
  by (simp add: core_grows_def)

lemma core_grows_basic [simp, intro]:
  "core_grows w (applyAuthBundle io b sync w)"
  "core_grows w (clearAuthentication io sync bs w)"
  "core_grows w (w\<lparr>auth := setUser u (auth w)\<rparr>)"
  "core_grows w (w\<lparr>auth := setPending2FAFlowToken tok sms (auth w)\<rparr>)"
  "core_grows w (w\<lparr>auth := setBootstrapState bs (auth w)\<rparr>)"
  "core_grows w (w\<lparr>auth := reset bs (auth w)\<rparr>)"
  by (auto simp: core_grows_def)

lemma core_grows_runtimeClear [simp]: "core_grows w (runtimeClear io sync bs w)"
  by (simp add: runtimeClear_def)

lemma core_grows_rotation: "applyAuthRotation io v w = Inr w' \<Longrightarrow> core_grows w w'"
  by (auto simp: applyAuthRotation_def split: if_splits option.splits)

lemma core_grows_sync_event:
  "core_grows (snd qw) (snd (fst (onAuthSessionEvent qc io ev qw)))"
  by (auto simp: onAuthSessionEvent_def clearAuthenticatedClientState_def Let_def
      split: SyncKind.split)

lemma core_grows_app [simp]: "core_grows w (app_core io p w)"
proof (cases p)
  case (RemoteEvent ev)
  then show ?thesis
    using core_grows_sync_event[of "((), w)" "\<lambda>q. q" io ev] by (simp add: app_core_def)
qed (auto simp: app_core_def core_grows_rotation split: sum.split)

lemma core_grows_response:
  "on_response (runRefresh io e) a m r w = (w', pc') \<Longrightarrow> core_grows w w'"
  by (drule on_response_effect) (auto simp: runRefresh_def)

lemma core_grows_lock:
  "performRefreshWithBrowserLock lk io e w = (w', ph) \<Longrightarrow> core_grows w w' \<and> phase_wf ph"
  by (cases lk)
    (auto simp: performRefreshWithBrowserLock_def createRefreshRunner_def intro: pc_wf_run)

lemma authEpoch_lock: "performRefreshWithBrowserLock lk io e w = (w', ph) \<Longrightarrow> authEpoch w' = authEpoch w"
  by (cases lk) (auto simp: performRefreshWithBrowserLock_def)

lemma tab_inv_core: "tab_inv t \<Longrightarrow> core_grows (tab_core t) w \<Longrightarrow> tab_inv (t\<lparr>tab_core := w\<rparr>)"
  by (auto simp: tab_inv_def core_grows_def split: option.splits)

lemma tab_inv_refresh: "tab_inv t \<Longrightarrow> tab_inv (refreshAuthentication lk io t)"
proof (cases "refreshPromise t")
  case None
  obtain w ph where p: "performRefreshWithBrowserLock lk io (authEpoch (tab_core t)) (tab_core t) = (w, ph)"
    by force
  from core_grows_lock[OF p] None show "tab_inv t \<Longrightarrow> ?thesis"
    by (simp add: refreshAuthentication_def p tab_inv_def core_grows_def)
qed (simp add: refreshAuthentication_def)

lemma tab_inv_bootstrap: "tab_inv t \<Longrightarrow> tab_inv (snd (bootstrapAuthentication lk io t))"
  by (auto simp: bootstrapAuthentication_def Let_def split: option.split
      intro!: tab_inv_refresh tab_inv_core)

lemma tab_inv_continue:
  assumes "tab_inv t" and "refresh_continue io ev t = Some t'"
  shows "tab_inv t'"
  using assms(2)
proof (cases rule: refresh_continue_cases)
  case (response j r a m q w' pc)
  with core_grows_response[OF response(4)] pc_wf_on_response[OF _ response(4)] assms(1)
  show ?thesis by (simp add: tab_inv_def core_grows_def)
next
  case (timer j a m d)
  with assms(1) on_timer_decreases(1)[of a m d] show ?thesis by (simp add: tab_inv_def)
qed (use assms(1) in \<open>auto simp: tab_inv_def createRefreshRunner_def intro: pc_wf_run\<close>)

interpretation tab_machine: lts_invariant initial_tab tab_step tab_inv
proof
  show "initial_tab s \<Longrightarrow> tab_inv s" for s
    by (simp add: initial_tab_def tab_inv_def)
  show "tab_inv s \<Longrightarrow> tab_step s l t \<Longrightarrow> tab_inv t" for s l t
    by (erule tab_step.cases) (auto intro: tab_inv_core tab_inv_refresh tab_inv_bootstrap tab_inv_continue)
qed

section \<open>How many requests a refresh can send\<close>

fun phase_budget :: "refresh_phase \<Rightarrow> nat" where
  "phase_budget AwaitLock = 8"
| "phase_budget (Running pc) = requests_left pc"
| "phase_budget (Rejected e) = 0"

text \<open>A tab without a refresh may still start one.\<close>

definition request_budget :: "tab \<Rightarrow> nat" where
  "request_budget t = (case refreshPromise t of None \<Rightarrow> 8 | Some j \<Rightarrow> phase_budget (job_phase j))"

fun response_cost :: "tab_label \<Rightarrow> nat" where
  "response_cost (Continue (ResponseArrived r)) = 1"
| "response_cost _ = 0"

lemma requests_left_create: "requests_left (createRefreshRunner rt w) \<le> 8"
  by (simp add: createRefreshRunner_def run_def)

lemma request_budget_refresh: "request_budget (refreshAuthentication lk io t) \<le> request_budget t"
  by (cases "refreshPromise t"; cases lk)
    (simp_all add: refreshAuthentication_def performRefreshWithBrowserLock_def request_budget_def
      requests_left_create Let_def)

lemma request_budget_core [simp]: "request_budget (t\<lparr>tab_core := w\<rparr>) = request_budget t"
  by (simp add: request_budget_def)

lemma request_budget_bootstrap:
  "request_budget (snd (bootstrapAuthentication lk io t)) \<le> request_budget t"
  using request_budget_refresh[of lk io "t\<lparr>tab_core := w\<rparr>" for w]
  by (simp add: bootstrapAuthentication_def Let_def split: option.split)

lemma request_budget_continue:
  assumes "tab_inv t" and "refresh_continue io ev t = Some t'" and "ev \<noteq> Settled"
  shows "response_cost (Continue ev) + request_budget t' \<le> request_budget t"
  using assms(2)
proof (cases rule: refresh_continue_cases)
  case (granted j)
  then show ?thesis by (simp add: request_budget_def requests_left_create)
next
  case (response j r a m q w' pc)
  with assms(1) have "pc_wf (AwaitResponse a m q)" by (simp add: tab_inv_def)
  from on_response_decreases[OF this response(4)] response show ?thesis
    by (simp add: request_budget_def)
next
  case (timer j a m d)
  with assms(1) have "pc_wf (AwaitTimer a m d)" by (simp add: tab_inv_def)
  then have "requests_left (on_timer (runRefresh io (job_epoch j)) a m (tab_core t)) \<le>
      requests_left (AwaitTimer a m d)"
    by (rule on_timer_decreases)
  with timer show ?thesis by (simp add: request_budget_def del: requests_left.simps)
qed (use assms(3) in \<open>auto simp: request_budget_def\<close>)

interpretation tab_budget: lts_budget initial_tab tab_step tab_inv request_budget response_cost
  "\<lambda>l. l = Continue Settled"
proof
  show "response_cost l + request_budget t \<le> request_budget s"
    if "tab_inv s" "tab_step s l t" "l \<noteq> Continue Settled" for s l t
    using that(2)
  proof cases
    case (continue io ev)
    with that show ?thesis using request_budget_continue by blast
  qed (simp_all add: request_budget_refresh request_budget_bootstrap)
qed

lemma request_budget_le: "tab_inv t \<Longrightarrow> request_budget t \<le> 8"
proof (cases "refreshPromise t")
  case (Some j)
  assume "tab_inv t"
  with Some have "phase_wf (job_phase j)" by (simp add: tab_inv_def)
  then show ?thesis using Some
    by (cases "job_phase j"; cases "case job_phase j of Running pc \<Rightarrow> pc | _ \<Rightarrow> Finished Anonymous")
      (auto simp: request_budget_def)
qed (simp add: request_budget_def)

section \<open>A superseded refresh is invisible\<close>

definition superseded_job :: "tab \<Rightarrow> bool" where
  "superseded_job t \<longleftrightarrow> (\<exists>j. refreshPromise t = Some j \<and> job_epoch j < authEpoch (tab_core t))"

lemma superseded_response:
  "authEpoch w \<noteq> e \<Longrightarrow> on_response (runRefresh io e) a m r w = (w, Finished superseded)"
  by (simp add: on_response_def stillCurrent_def runRefresh_def)

lemma superseded_continue:
  assumes "superseded_job t" and "refresh_continue io ev t = Some t'" and "ev \<noteq> Settled"
  shows "tab_core t' = tab_core t \<and> superseded_job t'"
  using assms(2)
proof (cases rule: refresh_continue_cases)
  case (response j r a m q w' pc)
  with assms(1) have "authEpoch (tab_core t) \<noteq> job_epoch j" by (auto simp: superseded_job_def)
  with superseded_response response(4) have "w' = tab_core t" by fastforce
  with response assms(1) show ?thesis by (auto simp: superseded_job_def)
qed (use assms in \<open>auto simp: superseded_job_def\<close>)

lemma superseded_app:
  "superseded_job t \<Longrightarrow> superseded_job (t\<lparr>tab_core := app_core io p (tab_core t)\<rparr>)"
  using core_grows_app[of "tab_core t" io p]
  by (auto simp: superseded_job_def core_grows_def)

text \<open>The application's own steps, without the refresh.\<close>

definition app_step :: "(auth_core, app_op) lts" where
  "app_step w p w' \<longleftrightarrow> (\<exists>io. w' = app_core io p w)"

fun app_ops :: "tab_label list \<Rightarrow> app_op list" where
  "app_ops [] = []"
| "app_ops (App p # ls) = p # app_ops ls"
| "app_ops (_ # ls) = app_ops ls"

fun background :: "tab_label \<Rightarrow> bool" where
  "background (App p) = True"
| "background (Continue ev) = (ev \<noteq> Settled)"
| "background _ = False"

lemma superseded_refines:
  "lts_run tab_step t ls t' \<Longrightarrow> superseded_job t \<Longrightarrow> list_all background ls \<Longrightarrow>
     lts_run app_step (tab_core t) (app_ops ls) (tab_core t')"
proof (induction rule: lts_run.induct)
  case (run_Cons t l t1 ls t2)
  from run_Cons.hyps(1) run_Cons.prems show ?case
  proof cases
    case (app p io)
    with run_Cons superseded_app have "lts_run app_step (tab_core t1) (app_ops ls) (tab_core t2)"
      by simp
    moreover have "app_step (tab_core t) p (tab_core t1)" using app by (auto simp: app_step_def)
    ultimately show ?thesis using app by (auto intro: lts_run.run_Cons)
  next
    case (continue io ev)
    with run_Cons.prems superseded_continue[of t io ev t1] run_Cons.IH show ?thesis by auto
  qed simp_all
qed (simp add: lts_run.run_Nil)

end
