(* ===== verification/Auth_Properties.thy ===== *)
theory Auth_Properties
  imports Auth_Machine
begin

text \<open>
  The properties of the web client's session logic, with a concrete run for each one
  that has hypotheses.
\<close>

section \<open>Sample data\<close>

definition sample_user :: AuthUser where
  "sample_user = \<lparr>user_id = jint 7, username = js ''root'', role = jint 100, user_props = []\<rparr>"

definition sample_session :: LoginSession where
  "sample_session =
     \<lparr>sid = js ''s1'', current = True, login_method = js ''password'', ip = js ''::1'',
      user_agent = js ''ua'', created_at = jint 1, last_active_at = jint 2, expires_at = jint 9\<rparr>"

definition sample_bundle :: AuthBundle where
  "sample_bundle =
     \<lparr>access_token = js ''tok'', token_type = js ''Bearer'', access_expires_at = jint 900,
      bundle_user = sample_user, bundle_session = sample_session\<rparr>"

definition sample_env :: "string \<Rightarrow> sync_env" where
  "sample_env src = \<lparr>hasWindow = True, hasBroadcastChannel = True, storageThrows = False,
     authSyncSource = js src\<rparr>"

definition sample_io :: "string \<Rightarrow> int \<Rightarrow> io" where
  "sample_io src now = \<lparr>io_env = sample_env src, io_random = js ''n'', io_now = now\<rparr>"

definition sample_session_val :: "string \<Rightarrow> jsval" where
  "sample_session_val s = JObj
     [(js ''sid'', JStr (js s)), (js ''current'', JBool True),
      (js ''login_method'', JStr (js ''password'')), (js ''ip'', JStr (js ''::1'')),
      (js ''user_agent'', JStr (js ''ua'')), (js ''created_at'', JNum (jint 1)),
      (js ''last_active_at'', JNum (jint 2)), (js ''expires_at'', JNum (jint 9))]"

definition sample_rotation :: jsval where
  "sample_rotation = JObj
     [(js ''access_token'', JStr (js ''tok2'')), (js ''token_type'', JStr (js ''Bearer'')),
      (js ''access_expires_at'', JNum (jint 1800)), (js ''session'', sample_session_val ''s1'')]"

definition sample_refresh_ok :: AuthRefreshHTTPResponse where
  "sample_refresh_ok = \<lparr>status = 200, resp_data = JObj
     [(js ''success'', JBool True),
      (js ''data'', JObj
        [(js ''access_token'', JStr (js ''tok2'')), (js ''token_type'', JStr (js ''Bearer'')),
         (js ''access_expires_at'', JNum (jint 1800)),
         (js ''user'', JObj [(js ''id'', JNum (jint 7)), (js ''username'', JStr (js ''root'')),
                          (js ''role'', JNum (jint 100))]),
         (js ''session'', sample_session_val ''s1'')])], resp_error = JUndef\<rparr>"

definition sample_core :: auth_core where
  "sample_core = \<lparr>auth = initialAuth, authEpoch = 0, sent = []\<rparr>"

definition sample_tab :: tab where
  "sample_tab = \<lparr>tab_core = sample_core, refreshPromise = None\<rparr>"

lemmas sample_defs =
  sample_user_def sample_session_def sample_bundle_def sample_env_def sample_io_def
  sample_session_val_def sample_rotation_def sample_refresh_ok_def sample_core_def sample_tab_def

lemma sample_tab_initial: "initial_tab sample_tab"
  by (simp add: initial_tab_def sample_defs)

lemma sample_tab_reachable: "lts_reachable initial_tab tab_step sample_tab"
  by (rule lts_reachable_init) (rule sample_tab_initial)

section \<open>The store\<close>

text \<open>
  C1.  In every reachable state of a tab, whatever the interleaving of sign-in, sign-out,
  rotation, events of other tabs and the continuations of a refresh, the access token,
  its expiry and the login session are present together or absent together, and the SMS
  alternative is offered only while a second-factor flow is pending.
\<close>

theorem reachable_store_wf:
  assumes "lts_reachable initial_tab tab_step t"
  shows "store_wf (auth (tab_core t))"
  using tab_machine.reachable_inv[OF assms] by (simp add: tab_inv_def)

theorem reachable_store_wf_witness:
  "store_wf (auth (tab_core (sample_tab\<lparr>tab_core :=
     app_core (sample_io ''a'' 5) (SignIn sample_bundle True) (tab_core sample_tab)\<rparr>)))"
  by (rule reachable_store_wf)
    (rule lts_reachable_step[OF sample_tab_reachable], rule tab_step.app)

section \<open>The refresh\<close>

text \<open>
  C4.  A refresh that nothing disturbs returns: whatever the server answers, and whatever
  the runtime's callbacks do, after at most fourteen steps (eight requests and six
  waits) the runner has an outcome.
\<close>

theorem refresh_terminates:
  "\<exists>s' out n. drive rt server 14 0 s (createRefreshRunner rt s) = Some (s', out, n) \<and> n \<le> 8"
proof -
  let ?pc = "createRefreshRunner rt s"
  have "pc_wf ?pc" and "steps_left ?pc \<le> 14" and r: "requests_left ?pc \<le> 8"
    by (simp_all add: createRefreshRunner_def run_def)
  from drive_terminates[OF this(1,2), of rt server 0 s] r show ?thesis by auto
qed

lemma sum_response_cost:
  "sum_list (map response_cost ls) = length (filter (\<lambda>l. response_cost l = 1) ls)"
proof (induction ls)
  case (Cons l ls)
  then show ?case by (cases l rule: response_cost.cases) auto
qed simp

text \<open>
  Also when it is interleaved with everything else a tab does, one refresh consumes
  at most eight responses before its promise settles, however many callers join it.
\<close>

theorem refresh_request_bound:
  assumes "lts_reachable initial_tab tab_step t" and "lts_run tab_step t ls t'"
    and "Continue Settled \<notin> set ls"
  shows "length (filter (\<lambda>l. response_cost l = 1) ls) \<le> 8"
proof -
  have inv: "tab_inv t" using assms(1) by (rule tab_machine.reachable_inv)
  have "list_all (\<lambda>l. \<not> l = Continue Settled) ls" using assms(3) by (auto simp: list_all_iff)
  from tab_budget.run_budget[OF assms(2) inv this] request_budget_le[OF inv]
  show ?thesis by (simp add: sum_response_cost)
qed

text \<open>A run of two steps: a refresh is requested without a lock manager, and answered.\<close>

definition sample_labels :: "tab_label list" where
  "sample_labels = [Refresh, Continue (ResponseArrived sample_refresh_ok)]"

lemma sample_refreshing:
  "refreshPromise (refreshAuthentication NoLocks io sample_tab) =
     Some \<lparr>job_epoch = 0, job_phase = Running (AwaitResponse 0 True None)\<rparr>"
  "tab_core (refreshAuthentication NoLocks io sample_tab) = sample_core"
  by (simp_all add: refreshAuthentication_def performRefreshWithBrowserLock_def
      createRefreshRunner_def run_def stillCurrent_def runRefresh_def currentSID_def sample_defs
      initialAuth_def)

lemma sample_run: "\<exists>t'. lts_run tab_step sample_tab sample_labels t'"
proof -
  let ?t = "refreshAuthentication NoLocks (sample_io ''a'' 5) sample_tab"
  obtain t2 where "refresh_continue (sample_io ''a'' 5) (ResponseArrived sample_refresh_ok) ?t = Some t2"
    by (cases "on_response (runRefresh (sample_io ''a'' 5) 0) 0 True sample_refresh_ok sample_core")
      (simp add: refresh_continue_def sample_refreshing Let_def)
  then have "tab_step ?t (Continue (ResponseArrived sample_refresh_ok)) t2" by (rule tab_step.continue)
  then show ?thesis unfolding sample_labels_def
    by (blast intro: tab_step.refresh lts_run.intros)
qed

theorem refresh_request_bound_witness:
  "(\<exists>t'. lts_run tab_step sample_tab sample_labels t') \<and>
   length (filter (\<lambda>l. response_cost l = 1) sample_labels) \<le> 8"
proof -
  obtain t' where r: "lts_run tab_step sample_tab sample_labels t'" using sample_run by blast
  have "Continue Settled \<notin> set sample_labels" by (simp add: sample_labels_def)
  from refresh_request_bound[OF sample_tab_reachable r this] sample_run show ?thesis by blast
qed

text \<open>
  C2.  Once a sign-in or sign-out has moved the epoch on, the refresh still in flight has
  no effect: for the rest of its life the authentication state of the tab changes only
  by the application's own operations, exactly as if the refresh did not exist.
\<close>

theorem superseded_refresh_invisible:
  assumes "refreshPromise t = Some j" and "job_epoch j < authEpoch (tab_core t)"
    and "lts_run tab_step t ls t'" and "list_all background ls"
  shows "lts_run app_step (tab_core t) (app_ops ls) (tab_core t')"
  using superseded_refines[OF assms(3) _ assms(4)] assms(1,2) by (auto simp: superseded_job_def)

definition sample_superseded :: tab where
  "sample_superseded =
     \<lparr>tab_core = sample_core\<lparr>authEpoch := 1\<rparr>,
      refreshPromise = Some \<lparr>job_epoch = 0, job_phase = Running (AwaitResponse 0 True None)\<rparr>\<rparr>"

theorem superseded_refresh_invisible_witness:
  "\<exists>t'. lts_run tab_step sample_superseded [Continue (ResponseArrived sample_refresh_ok)] t' \<and>
     lts_run app_step (tab_core sample_superseded) [] (tab_core t')"
proof -
  let ?ev = "ResponseArrived sample_refresh_ok"
  obtain t' where c: "refresh_continue (sample_io ''a'' 5) ?ev sample_superseded = Some t'"
    by (simp add: refresh_continue_def sample_superseded_def Let_def superseded_response)
  have r: "lts_run tab_step sample_superseded [Continue ?ev] t'"
    by (rule lts_run.run_Cons, rule tab_step.continue, rule c, rule lts_run.run_Nil)
  have "lts_run app_step (tab_core sample_superseded) (app_ops [Continue ?ev]) (tab_core t')"
    by (rule superseded_refresh_invisible[OF _ _ r, where j = "the (refreshPromise sample_superseded)"])
      (simp_all add: sample_superseded_def)
  then have "lts_run app_step (tab_core sample_superseded) [] (tab_core t')" by (simp only: app_ops.simps)
  with r show ?thesis by (intro exI conjI)
qed

lemma parse_runRefresh:
  "parseBundle (runRefresh io e) v = Some b \<longleftrightarrow> isAuthBundle v \<and> b = as_AuthBundle v"
  by (auto simp: runRefresh_def)

text \<open>
  C3.  A refresh that nothing disturbs ends, with or without a lock manager and whatever the
  server answers, and the outcome it reports is what the whole refresh did to the state.
  \<open>authenticated\<close>: the last response carried a well-formed bundle (positive integer user
  id, non-empty token and session id, positive finite expiry) and the store holds it.
  \<open>anonymous\<close> and \<open>out_of_sync\<close>: no credential is left.  \<open>transient_error\<close>: the
  credentials are those from before the refresh, unless a response reported a session
  mismatch: then, as in the first case when there were none, no credential is left.
\<close>

theorem refresh_outcome_faithful:
  "\<exists>w' out n. undisturbed_refresh lk io server w = Some (w', out, n) \<and> n \<le> 8 \<and>
    (case out of
       Authenticated b \<Rightarrow> valid_bundle b \<and> holds_bundle b w' \<and> 0 < n \<and>
         isAuthBundle (fld (resp_data (server (n - 1))) ''data'') \<and>
         b = as_AuthBundle (fld (resp_data (server (n - 1))) ''data'')
     | Anonymous \<Rightarrow> no_credentials w'
     | OutOfSync c \<Rightarrow> no_credentials w'
     | TransientError err \<Rightarrow> err \<noteq> AuthRefreshSupersededError \<and>
         ((\<forall>b. holds_bundle b w' = holds_bundle b w) \<or>
          no_credentials w' \<and> (\<exists>j < n. is_mismatch (server j))))"
proof (cases "\<exists>e. lk = LocksThrow e")
  case True
  then show ?thesis
    by (auto simp: undisturbed_refresh_def performRefreshWithBrowserLock_def holds_bundle_def
        setBootstrapState_def)
next
  case False
  let ?rt = "runRefresh io (authEpoch w)"
  obtain w' out n where d: "drive ?rt server 14 0 w (createRefreshRunner ?rt w) = Some (w', out, n)"
    and n: "n \<le> 8" using runner_terminates[of ?rt server w] by blast
  have u: "undisturbed_refresh lk io server w = Some (w', out, n)"
    using False d by (cases lk) (simp_all add: undisturbed_refresh_def performRefreshWithBrowserLock_def)
  have "tab_refresh.reported io (authEpoch w) server 0 w w' out n"
  proof (rule tab_refresh.drive_reported[OF _ d])
    show "parseBundle ?rt JUndef = None" by (simp add: runRefresh_def guard_defs)
    show "stillCurrent ?rt w" by (simp add: stillCurrent_def runRefresh_def)
    then show "\<forall>out'. createRefreshRunner ?rt w \<noteq> Finished out'"
      by (simp add: createRefreshRunner_def run_def)
  qed
  from this[unfolded tab_refresh.reported_def] u n show ?thesis
    by (cases out) (auto simp: parse_runRefresh)
qed

lemma sample_refresh_response:
  "on_response (runRefresh io 0) 0 True sample_refresh_ok sample_core =
     (applyAuthBundle io (as_AuthBundle (fld (resp_data sample_refresh_ok) ''data'')) False sample_core,
      Finished (Authenticated (as_AuthBundle (fld (resp_data sample_refresh_ok) ''data''))))"
  by (simp add: on_response_def stillCurrent_def runRefresh_def sample_defs guard_defs Let_def)

text \<open>A refresh that is answered with a bundle, applied at once.\<close>

theorem refresh_outcome_faithful_witness:
  "\<exists>w'. undisturbed_refresh NoLocks (sample_io ''a'' 5) (\<lambda>_. sample_refresh_ok) sample_core =
      Some (w', Authenticated (as_AuthBundle (fld (resp_data sample_refresh_ok) ''data'')), 1) \<and>
     holds_bundle (as_AuthBundle (fld (resp_data sample_refresh_ok) ''data'')) w'"
proof -
  let ?b = "as_AuthBundle (fld (resp_data sample_refresh_ok) ''data'')"
  have "undisturbed_refresh NoLocks (sample_io ''a'' 5) (\<lambda>_. sample_refresh_ok) sample_core =
      Some (applyAuthBundle (sample_io ''a'' 5) ?b False sample_core, Authenticated ?b, 1)"
    using sample_refresh_response[of "sample_io ''a'' 5"]
    by (simp add: undisturbed_refresh_def performRefreshWithBrowserLock_def createRefreshRunner_def run_def
        stillCurrent_def runRefresh_def sample_core_def eval_nat_numeral)
  with refresh_outcome_faithful[of NoLocks "sample_io ''a'' 5" "\<lambda>_. sample_refresh_ok" sample_core]
  show ?thesis by auto
qed

text \<open>
  C5.  A session mismatch reported to the first attempt signs the tab out and the refresh
  is sent again, without the stale session id; a mismatch reported to the retry ends it.
\<close>

theorem mismatch_retry_once:
  assumes "authEpoch w = e" and "status r = 409" and "isRecord (resp_data r)"
    and "fld (resp_data r) ''code'' = JStr (js ''AUTH_SESSION_MISMATCH'')"
    and "fld (resp_data r) ''success'' \<noteq> JBool True"
  shows "(\<exists>w'. on_response (runRefresh io e) a True r w = (w', AwaitResponse 0 False None) \<and>
            no_credentials w' \<and> authEpoch w' = e) \<and>
    (\<exists>w'. on_response (runRefresh io e) a False r w =
            (w', Finished (OutOfSync (Some (js ''AUTH_SESSION_MISMATCH'')))) \<and> no_credentials w')"
  using assms
  by (auto simp: on_response_def stillCurrent_def runRefresh_def run_def response_code_def Let_def
      runtimeClear_def no_credentials_def currentSID_def reset_def)

definition sample_mismatch :: AuthRefreshHTTPResponse where
  "sample_mismatch = \<lparr>status = 409, resp_data = JObj
     [(js ''success'', JBool False), (js ''code'', JStr (js ''AUTH_SESSION_MISMATCH''))],
     resp_error = JUndef\<rparr>"

theorem mismatch_retry_once_witness:
  "\<exists>w'. on_response (runRefresh (sample_io ''a'' 5) 0) 2 True sample_mismatch sample_core =
     (w', AwaitResponse 0 False None) \<and> no_credentials w' \<and> authEpoch w' = 0"
  using mismatch_retry_once[of sample_core 0 sample_mismatch "sample_io ''a'' 5" 2]
  by (simp add: sample_mismatch_def sample_core_def isRecord_def)

section \<open>Token rotation\<close>

text \<open>
  A rotation is accepted exactly when its response is well formed, a user and a
  session are present and the session id is the same; it then replaces the token, keeps
  user and session id, and tells no other tab.
\<close>

theorem rotation_keeps_identity:
  assumes "applyAuthRotation io v w = Inr w'"
  shows "isAuthTokenRotation v \<and> user (auth w') = user (auth w) \<and> user (auth w) \<noteq> None \<and>
    currentSID w' = currentSID w \<and> currentSID w \<noteq> None \<and>
    accessToken (auth w') = Some (the_str (fld v ''access_token'')) \<and>
    accessExpiresAt (auth w') = Some (the_num (fld v ''access_expires_at'')) \<and>
    sent w' = sent w \<and> authEpoch w' = authEpoch w + 1"
  using assms
  by (auto simp: applyAuthRotation_def currentSID_def setBundle_def split: if_splits option.splits)

definition sample_signed_in :: auth_core where
  "sample_signed_in = applyAuthBundle (sample_io ''a'' 5) sample_bundle False sample_core"

lemma sample_signed_in_auth: "auth sample_signed_in = setBundle sample_bundle initialAuth"
  by (simp add: sample_signed_in_def sample_core_def)

lemma sample_rotation_ok: "\<exists>w'. applyAuthRotation (sample_io ''a'' 5) sample_rotation sample_signed_in = Inr w'"
  by (simp add: applyAuthRotation_def sample_signed_in_auth setBundle_def sample_defs guard_defs)

theorem rotation_keeps_identity_witness:
  "\<exists>w'. applyAuthRotation (sample_io ''a'' 5) sample_rotation sample_signed_in = Inr w' \<and>
     currentSID w' = Some (js ''s1'') \<and> accessToken (auth w') = Some (js ''tok2'')"
proof -
  obtain w' where w': "applyAuthRotation (sample_io ''a'' 5) sample_rotation sample_signed_in = Inr w'"
    using sample_rotation_ok by blast
  from rotation_keeps_identity[OF w'] have "currentSID w' = currentSID sample_signed_in"
    and "accessToken (auth w') = Some (the_str (fld sample_rotation ''access_token''))" by simp_all
  moreover have "currentSID sample_signed_in = Some (js ''s1'')"
    by (simp add: currentSID_def sample_signed_in_auth sample_defs)
  ultimately show ?thesis using w' by (simp add: sample_rotation_def)
qed

section \<open>Several tabs\<close>

text \<open>
  C6.  Signing out reaches the other tabs and stops there.  When a tab with a session
  signs out with synchronisation over a broadcast channel, it sends one message; a tab
  that has the same session, another origin identifier and a clock within a minute, and
  that handles this message, drops its credentials, clears its query cache, goes to the
  sign-in page and sends nothing itself.
\<close>

theorem sign_out_propagates:
  assumes "hasWindow (io_env io1)" and "hasBroadcastChannel (io_env io1)"
    and "hasWindow (io_env io2)" and "hasBroadcastChannel (io_env io2)"
    and "authSyncSource (io_env io1) \<noteq> authSyncSource (io_env io2)"
    and "\<bar>io_now io2 - io_now io1\<bar> < 60000"
    and "currentSID w1 = Some s" and "s \<noteq> []" and "currentSID w2 = Some s"
  shows "\<exists>msg ev. sent (clearAuthentication io1 True bs w1) = sent w1 @ [msg] \<and>
    subscribeAuthSessionEvents (io_env io2) (io_now io2) msg = Some ev \<and>
    (case onAuthSessionEvent qc io2 ev (q, w2) of
       ((q', w2'), action) \<Rightarrow> no_credentials w2' \<and> q' = qc q \<and> sent w2' = sent w2 \<and> action = UiSignIn)"
proof -
  let ?ev = "\<lparr>kind = KSignedOut, event_sid = s, source = authSyncSource (io_env io1),
              nonce = io_random io1, timestamp = jint (io_now io1)\<rparr>"
  have "sent (clearAuthentication io1 True bs w1) = sent w1 @ [PostMessage (event_val ?ev)]"
    using assms by (simp add: clearAuthentication_def publish_def publishAuthSessionEvent_def Let_def)
  moreover have "\<bar>io_now io2 - io_now io1\<bar> \<le> max_safe"
    using assms(6) by (simp add: max_safe_def)
  then have "subscribeAuthSessionEvents (io_env io2) (io_now io2) (PostMessage (event_val ?ev)) = Some ?ev"
    using assms by (simp add: subscribeAuthSessionEvents_def deliver_event_val)
  moreover have "onAuthSessionEvent qc io2 ?ev (q, w2) =
      ((qc q, clearAuthentication io2 False BComplete w2), UiSignIn)"
    using assms(8,9)
    by (simp add: onAuthSessionEvent_def clearAuthenticatedClientState_def str_truthy_def)
  ultimately show ?thesis by (auto simp: no_credentials_def reset_def)
qed

theorem sign_out_propagates_witness:
  "\<exists>msg ev. sent (clearAuthentication (sample_io ''a'' 5) True BComplete sample_signed_in) = [msg] \<and>
    subscribeAuthSessionEvents (sample_env ''b'') 40000 msg = Some ev \<and>
    (case onAuthSessionEvent (\<lambda>_. 0::nat) (sample_io ''b'' 40000) ev (3, sample_signed_in) of
       ((q', w2'), action) \<Rightarrow> no_credentials w2' \<and> q' = 0 \<and> sent w2' = [] \<and> action = UiSignIn)"
proof -
  have sid: "currentSID sample_signed_in = Some (js ''s1'')"
    by (simp add: currentSID_def sample_signed_in_auth sample_defs)
  have none: "sent sample_signed_in = []" by (simp add: sample_signed_in_def sample_core_def)
  show ?thesis
    using sign_out_propagates[of "sample_io ''a'' 5" "sample_io ''b'' 40000" sample_signed_in
        "js ''s1''" sample_signed_in BComplete "\<lambda>_. 0::nat" 3]
    by (simp add: sid none sample_io_def sample_env_def)
qed

text \<open>
  A tab never answers an event of another tab with one of its own, and it never
  receives its own events: synchronisation cannot loop.
\<close>

theorem sync_does_not_echo:
  "sent (snd (fst (onAuthSessionEvent qc io ev qw))) = sent (snd qw) \<and>
   (\<forall>msg \<in> set (publishAuthSessionEvent env r now k s). \<forall>now'.
      subscribeAuthSessionEvents env now' msg = None)"
proof
  show "sent (snd (fst (onAuthSessionEvent qc io ev qw))) = sent (snd qw)"
    by (auto simp: onAuthSessionEvent_def clearAuthenticatedClientState_def Let_def
        split: SyncKind.split)
  show "\<forall>msg \<in> set (publishAuthSessionEvent env r now k s). \<forall>now'.
      subscribeAuthSessionEvents env now' msg = None"
    by (auto simp: publishAuthSessionEvent_def subscribeAuthSessionEvents_def deliver_def
        event_val_def Let_def split: if_splits)
qed

theorem sync_does_not_echo_witness:
  "\<exists>msg rest. publishAuthSessionEvent (sample_env ''a'') (js ''n'') 5 KSignedOut (js ''s1'') = msg # rest \<and>
     subscribeAuthSessionEvents (sample_env ''a'') 6 msg = None"
proof -
  obtain msg rest where m:
    "publishAuthSessionEvent (sample_env ''a'') (js ''n'') 5 KSignedOut (js ''s1'') = msg # rest"
    by (simp add: publishAuthSessionEvent_def sample_env_def Let_def)
  then have "msg \<in> set (publishAuthSessionEvent (sample_env ''a'') (js ''n'') 5 KSignedOut (js ''s1''))"
    by simp
  with sync_does_not_echo[of "\<lambda>q. q" "sample_io ''a'' 5" "event_of_val JNull" "((), sample_core)"
      "sample_env ''a''" "js ''n''" 5 KSignedOut "js ''s1''"]
  have "subscribeAuthSessionEvents (sample_env ''a'') 6 msg = None" by blast
  with m show ?thesis by blast
qed

section \<open>Headers\<close>

text \<open>
  Headers for a request are taken without a refresh only when they carry a bearer
  token that stays valid for more than the next sixty seconds; after a refresh that did
  not authenticate they are taken only when they carry a token that has not expired.
\<close>

theorem fresh_headers_carry_live_token:
  assumes "freshHeadersBefore io a = Some h \<and> t = now_seconds io + 60 \<or>
    freshHeadersAfter io out a = Inr h \<and> (\<forall>b. out \<noteq> Authenticated b) \<and> t = now_seconds io"
  shows "\<exists>tok e. tok \<noteq> [] \<and> accessToken a = Some tok \<and> accessExpiresAt a = Some e \<and>
    jlt (jint t) e \<and> map_of h (js ''Authorization'') = Some (js ''Bearer '' @ tok)"
proof -
  from assms have "tokenOutlives a t" and h: "h = getCommonHeaders a"
    by (auto simp: freshHeadersBefore_def freshHeadersAfter_def
        split: if_splits RefreshOutcome.splits)
  then obtain tok e where "accessToken a = Some tok" "tok \<noteq> []" "accessExpiresAt a = Some e"
    "jlt (jint t) e"
    by (auto simp: tokenOutlives_def str_truthy_def split: option.splits)
  then show ?thesis by (simp add: h getCommonHeaders_def)
qed

theorem fresh_headers_carry_live_token_witness:
  "freshHeadersBefore (sample_io ''a'' 5000) (auth sample_signed_in) =
     Some (getCommonHeaders (auth sample_signed_in)) \<and>
   map_of (getCommonHeaders (auth sample_signed_in)) (js ''Authorization'') =
     Some (js ''Bearer '' @ js ''tok'')"
proof -
  have b: "freshHeadersBefore (sample_io ''a'' 5000) (auth sample_signed_in) =
     Some (getCommonHeaders (auth sample_signed_in))"
    by (simp add: freshHeadersBefore_def tokenOutlives_def str_truthy_def sample_signed_in_auth
        setBundle_def now_seconds_def sample_defs)
  with fresh_headers_carry_live_token[of "sample_io ''a'' 5000" "auth sample_signed_in"
      "getCommonHeaders (auth sample_signed_in)" 65 Anonymous]
  obtain tok where "accessToken (auth sample_signed_in) = Some tok"
    "map_of (getCommonHeaders (auth sample_signed_in)) (js ''Authorization'') = Some (js ''Bearer '' @ tok)"
    by (auto simp: now_seconds_def sample_io_def)
  with b show ?thesis by (simp add: sample_signed_in_auth setBundle_def sample_bundle_def)
qed

section \<open>The browser lock\<close>

text \<open>
  C7.  A lock manager that throws when it is called is handled: the bootstrap state goes
  back to idle and the refresh reports a transient error.  A lock manager whose promise
  rejects is not: the refresh is over, and the bootstrap state is still \<open>checking\<close>.
\<close>

theorem lock_rejection_stays_checking:
  assumes "refreshPromise t = None" and "currentValidAuthBundle io (auth (tab_core t)) = None"
    and "bootstrapState (auth (tab_core t)) \<noteq> BComplete"
  shows "(\<exists>t1 t2 t3. bootstrapAuthentication LockManager io t = (None, t1) \<and>
      refresh_continue io (LockRejected e) t1 = Some t2 \<and>
      refresh_continue io Settled t2 = Some t3 \<and>
      refreshPromise t3 = None \<and> bootstrapState (auth (tab_core t3)) = BChecking) \<and>
    (\<exists>t1. bootstrapAuthentication (LocksThrow e) io t = (None, t1) \<and>
      bootstrapState (auth (tab_core t1)) = BIdle \<and>
      map_option job_phase (refreshPromise t1) =
        Some (Running (Finished (TransientError (ErrorValue e)))))"
  using assms
  by (auto simp: bootstrapAuthentication_def refreshAuthentication_def refresh_continue_def
      performRefreshWithBrowserLock_def setBootstrapState_def Let_def)

theorem lock_rejection_stays_checking_witness:
  "\<exists>t1 t2 t3. bootstrapAuthentication LockManager (sample_io ''a'' 5) sample_tab = (None, t1) \<and>
      refresh_continue (sample_io ''a'' 5) (LockRejected JNull) t1 = Some t2 \<and>
      refresh_continue (sample_io ''a'' 5) Settled t2 = Some t3 \<and>
      refreshPromise t3 = None \<and> bootstrapState (auth (tab_core t3)) = BChecking"
  using lock_rejection_stays_checking[of sample_tab "sample_io ''a'' 5" JNull]
  by (simp add: sample_defs currentValidAuthBundle_def initialAuth_def)

end
