(* ===== verification/Http_Client.thy ===== *)
theory Http_Client
  imports Auth_Machine
begin

text \<open>
  The HTTP client of the web application, \<open>web/src/lib/http-client.ts\<close>, with the server
  error table \<open>web/src/lib/server-error-message.ts\<close>: the deduplication of concurrent
  GET requests and the interceptors that refresh the session and repeat a request at
  most once.  Axios itself is not modelled: a request is an identifier, its result an
  argument.  What the user sees (toasts, the redirection) is returned as effects.
\<close>

section \<open>Server error codes\<close>

definition serverErrorMessageKeys :: "(jstring \<times> jstring) list" where
  "serverErrorMessageKeys =
     [(js ''BILLING_OPERATION_FAILED'',
       js ''Something went wrong!''),
      (js ''BILLING_NOT_FOUND'',
       js ''Content not found.''),
      (js ''BILLING_CONFLICT'',
       js ''Billing data changed. Refresh and try again.''),
      (js ''BILLING_CORRECTION_DEPENDENCY'',
       js ''Reverse later adjustments before reversing this batch.''),
      (js ''BILLING_CORRECTION_BLOCKED'',
       js ''Adjustment is blocked. Resolve all preview checks and preview again.''),
      (js ''BILLING_INSUFFICIENT_QUOTA'',
       js ''Insufficient wallet balance to apply this adjustment.''),
      (js ''BILLING_CORRECTIONS_PENDING'',
       js ''Void the current statement, then create a new draft from the latest accounting data.''),
      (js ''BILLING_HISTORY_UNRECONCILED'',
       js ''Historical usage exists without formal entries. Review historical accounting before issuing a statement.''),
      (js ''BILLING_HISTORY_BLOCKED'',
       js ''Historical import is blocked. Refresh the review and resolve all checks before confirming.''),
      (js ''BILLING_BRANDING_INVALID'',
       js ''Unable to prepare PDF branding. Check the system Logo URL and Footer settings, then try again.''),
      (js ''BILLING_BRANDING_FETCH_BLOCKED'',
       js ''The server blocked a PDF logo download. Check the server DNS and proxy settings so the configured image domain resolves to a public IP.''),
      (js ''BILLING_NOT_CONFIGURED'',
       js ''Ask an administrator to enable formal accounting for this account.''),
      (js ''BILLING_MONTH_OPEN'',
       js ''Prepare after the month closes plus 24 hours. Review the archived draft before issuing it to the customer.''),
      (js ''BILLING_PENDING'',
       js ''Unfinished settlements exist. Reconcile them before preparing a statement.''),
      (js ''BILLING_IDENTITY_REQUIRED'',
       js ''Company title and tax ID are required.''),
      (js ''BILLING_EXISTS'',
       js ''An active statement already exists for this month.''),
      (js ''BILLING_START_INVALID'',
       js ''The chosen accounting start is outside the supported date range. Leave it empty to start now.''),
      (js ''BILLING_START_LOCKED'',
       js ''Accounting start cannot be changed after a formal entry or statement exists.''),
      (js ''AUTH_SESSION_LIMIT'',
       js ''Too many active login sessions. On a device where you are already signed in, open Login sessions and use '' @ [0x201C] @ js ''Sign out other sessions'' @ [0x201D] @ js '' to revoke them. If you cannot access a signed-in device, reset your password to sign out all sessions.''),
      (js ''AUTH_SESSION_ISSUANCE_LIMIT'',
       js ''Too many login sessions were created recently. Please wait for the rolling window to pass, then try again.''),
      (js ''TELEGRAM_BIND_DISABLED'',
       js ''Telegram binding is disabled.''),
      (js ''TELEGRAM_BIND_INVALID_REQUEST'',
       js ''The Telegram authorization request is invalid or expired.''),
      (js ''TELEGRAM_BIND_FLOW_INVALID'',
       js ''This Telegram binding request has expired or has already been used.''),
      (js ''TELEGRAM_BIND_SESSION_INVALID'',
       js ''The login session that started this Telegram binding is no longer valid.''),
      (js ''TELEGRAM_BIND_ALREADY_BOUND'',
       js ''This Telegram account is already bound.''),
      (js ''TELEGRAM_BIND_USER_DELETED'',
       js ''This user account no longer exists.''),
      (js ''TELEGRAM_BIND_USER_DISABLED'',
       js ''This user account is disabled.''),
      (js ''TELEGRAM_BIND_INTERNAL_ERROR'',
       js ''Telegram binding failed. Please try again.'')]"

definition serverErrorPayload :: "jsval \<Rightarrow> jsval option" where
  "serverErrorPayload v =
     (if \<not> isRecord v then None
      else if isRecord (fld v ''response'') \<and> isRecord (fld (fld v ''response'') ''data'')
      then Some (fld (fld v ''response'') ''data'')
      else Some v)"

text \<open>
  The table is a plain object, so that a code that is the name of a property of
  \<open>Object.prototype\<close> finds that property: \<open>InheritedKey\<close>, which is no text.
\<close>

datatype MessageKey = OwnKey jstring | InheritedKey jstring

definition objectPrototypeNames :: "jstring list" where
  "objectPrototypeNames = map js
     [''constructor'', ''__defineGetter__'', ''__defineSetter__'', ''hasOwnProperty'',
      ''__lookupGetter__'', ''__lookupSetter__'', ''isPrototypeOf'', ''propertyIsEnumerable'',
      ''toString'', ''valueOf'', ''__proto__'', ''toLocaleString'']"

definition getServerErrorMessageKey :: "jsval \<Rightarrow> MessageKey option" where
  "getServerErrorMessageKey v =
     (case serverErrorPayload v of
        None \<Rightarrow> None
      | Some payload \<Rightarrow>
          (case fld payload ''code'' of
             JStr code \<Rightarrow>
               (case map_of serverErrorMessageKeys code of
                  Some key \<Rightarrow> Some (OwnKey key)
                | None \<Rightarrow> if code \<in> set objectPrototypeNames then Some (InheritedKey code) else None)
           | _ \<Rightarrow> None))"

section \<open>Deduplicated GET requests\<close>

text \<open>
  \<open>inFlightGet\<close> maps a key to the request in flight for it.  \<open>pendingGet\<close> is the
  other side, which the closures hold: the key that each registered request deletes
  when it settles.
\<close>

record http =
  inFlightGet :: "jstring \<rightharpoonup> nat"
  pendingGet :: "nat \<rightharpoonup> jstring"
  nextRequest :: nat

text \<open>The parameters are given as their JSON text, \<open>None\<close> when there are none.\<close>

definition getKey :: "AuthState \<Rightarrow> jstring \<Rightarrow> jstring option \<Rightarrow> jstring" where
  "getKey a url params =
     str_or (case session a of Some s \<Rightarrow> sid s | None \<Rightarrow> []) (js ''anonymous'') @ js '':'' @ url @
     js ''?'' @ nullish params (js ''{}'')"

definition apiGet ::
  "AuthState \<Rightarrow> jstring \<Rightarrow> jstring option \<Rightarrow> bool \<Rightarrow> http \<Rightarrow> nat \<times> http" where
  "apiGet a url params disableDuplicate h =
     (let r = nextRequest h in
      if disableDuplicate then (r, h\<lparr>nextRequest := r + 1\<rparr>)
      else let key = getKey a url params
           in case inFlightGet h key of
                Some existing \<Rightarrow> (existing, h)
              | None \<Rightarrow> (r, h\<lparr>inFlightGet := (inFlightGet h)(key \<mapsto> r),
                              pendingGet := (pendingGet h)(r \<mapsto> key), nextRequest := r + 1\<rparr>))"

text \<open>The \<open>finally\<close> of a request: it deletes the key it was registered under.\<close>

definition getSettled :: "nat \<Rightarrow> http \<Rightarrow> http" where
  "getSettled r h =
     (case pendingGet h r of
        None \<Rightarrow> h
      | Some key \<Rightarrow> h\<lparr>inFlightGet := (inFlightGet h)(key := None),
                       pendingGet := (pendingGet h)(r := None)\<rparr>)"

datatype http_label = Get AuthState jstring "jstring option" bool nat | GetSettled nat

inductive http_step :: "(http, http_label) lts" where
  get: "apiGet a url params dis h = (r, h') \<Longrightarrow> http_step h (Get a url params dis r) h'"
| settled: "http_step h (GetSettled r) (getSettled r h)"

definition initial_http :: "http \<Rightarrow> bool" where
  "initial_http h \<longleftrightarrow> h = \<lparr>inFlightGet = Map.empty, pendingGet = Map.empty, nextRequest = 0\<rparr>"

text \<open>The two maps are inverse to each other and hold only requests already made.\<close>

definition http_inv :: "http \<Rightarrow> bool" where
  "http_inv h \<longleftrightarrow> (\<forall>k r. inFlightGet h k = Some r \<longleftrightarrow> pendingGet h r = Some k) \<and>
     (\<forall>r k. pendingGet h r = Some k \<longrightarrow> r < nextRequest h)"

lemma http_inv_get: "http_inv h \<Longrightarrow> apiGet a url params dis h = (r, h') \<Longrightarrow> http_inv h'"
  by (auto simp: http_inv_def apiGet_def Let_def split: if_splits option.splits) fastforce+

lemma http_inv_settled: "http_inv h \<Longrightarrow> http_inv (getSettled r h)"
  by (auto simp: http_inv_def getSettled_def split: option.splits) (metis option.inject)+

interpretation http_machine: lts_invariant initial_http http_step http_inv
proof
  show "initial_http s \<Longrightarrow> http_inv s" for s
    by (simp add: initial_http_def http_inv_def)
  show "http_inv s \<Longrightarrow> http_step s l t \<Longrightarrow> http_inv t" for s l t
    by (erule http_step.cases) (auto intro: http_inv_get http_inv_settled)
qed

section \<open>Interceptors\<close>

record ApiRequestConfig =
  skipBusinessError :: bool
  skipErrorHandler :: bool
  skipAuthRefresh :: bool
  authRetry :: bool
  acceptAuthRotation :: bool
  authorization :: "jstring option"

text \<open>A message is translated from a key, or shown as the server sent it.\<close>

datatype Message = Translated MessageKey | Verbatim jsval

datatype HttpEffect = Toast Message | RedirectToSignIn

definition redirectToSignIn :: "jstring \<Rightarrow> HttpEffect list" where
  "redirectToSignIn pathname = (if pathname \<noteq> js ''/sign-in'' then [RedirectToSignIn] else [])"

definition requestInterceptor :: "AuthState \<Rightarrow> ApiRequestConfig \<Rightarrow> ApiRequestConfig" where
  "requestInterceptor a config =
     (case accessToken a of
        Some tok \<Rightarrow> if tok = [] then config
                    else config\<lparr>authorization := Some (js ''Bearer '' @ tok)\<rparr>
      | None \<Rightarrow> config)"

definition responseInterceptor ::
  "io \<Rightarrow> ApiRequestConfig \<Rightarrow> jsval \<Rightarrow> auth_core \<Rightarrow>
   AuthRotationError + auth_core \<times> HttpEffect list" where
  "responseInterceptor io config data w =
     (let rotated = (if acceptAuthRotation config \<and> fld data ''success'' = JBool True
                     then applyAuthRotation io (fld data ''data'') w else Inr w)
      in case rotated of
           Inl e \<Rightarrow> Inl e
         | Inr w' \<Rightarrow> Inr (w',
             if \<not> skipBusinessError config \<and> fld data ''success'' = JBool False
             then [Toast (case getServerErrorMessageKey data of
                            Some key \<Rightarrow> Translated key
                          | None \<Rightarrow> if truthy (fld data ''message'') then Verbatim (fld data ''message'')
                                    else Translated (OwnKey (js ''Request failed'')))]
             else []))"

text \<open>
  The error interceptor up to its \<open>await\<close>: it throws, or it marks the request as
  retried and awaits a refresh.
\<close>

datatype ErrorStep =
    Throw auth_core "HttpEffect list"
  | AwaitRefresh ApiRequestConfig

definition errorToast :: "jsval \<Rightarrow> HttpEffect" where
  "errorToast err =
     Toast (case getServerErrorMessageKey err of
              Some key \<Rightarrow> Translated key
            | None \<Rightarrow>
                let m1 = fld (fld (fld err ''response'') ''data'') ''message''; m2 = fld err ''message''
                in if truthy m1 then Verbatim m1 else if truthy m2 then Verbatim m2
                   else Translated (OwnKey (js ''Request failed'')))"

definition sessionExpired :: "bool \<Rightarrow> HttpEffect list" where
  "sessionExpired skip = (if skip then [] else [Toast (Translated (OwnKey (js ''Session expired!'')))])"

definition errorInterceptor ::
  "io \<Rightarrow> jstring \<Rightarrow> ApiRequestConfig option \<Rightarrow> nat option \<Rightarrow> jsval \<Rightarrow> auth_core \<Rightarrow> ErrorStep" where
  "errorInterceptor io pathname config st err w =
     (let skip = (case config of Some c \<Rightarrow> skipErrorHandler c | None \<Rightarrow> False) in
      if st = Some 401 then
        (case config of
           Some c \<Rightarrow>
             if \<not> skipAuthRefresh c \<and> \<not> authRetry c then AwaitRefresh (c\<lparr>authRetry := True\<rparr>)
             else if authRetry c
             then Throw (clearAuthentication io False BComplete w)
                    (sessionExpired skip @ redirectToSignIn pathname)
             else Throw w (sessionExpired skip)
         | None \<Rightarrow> Throw w (sessionExpired skip))
      else Throw w (if skip then [] else [errorToast err]))"

text \<open>The error interceptor after the refresh: the request again, or the error.\<close>

definition afterRefresh ::
  "jstring \<Rightarrow> ApiRequestConfig \<Rightarrow> RefreshOutcome \<Rightarrow> auth_core \<Rightarrow> HttpEffect list + ApiRequestConfig" where
  "afterRefresh pathname config outcome w =
     (case outcome of
        Authenticated _ \<Rightarrow>
          Inr (case accessToken (auth w) of
                 Some tok \<Rightarrow> if tok = [] then config
                             else config\<lparr>authorization := Some (js ''Bearer '' @ tok)\<rparr>
               | None \<Rightarrow> config)
      | Anonymous \<Rightarrow> Inl (sessionExpired (skipErrorHandler config) @ redirectToSignIn pathname)
      | OutOfSync _ \<Rightarrow> Inl (sessionExpired (skipErrorHandler config) @ redirectToSignIn pathname)
      | TransientError _ \<Rightarrow> Inl [])"

section \<open>One call of the client\<close>

text \<open>
  A call from the first request to its result.  \<open>server i c\<close> answers the \<open>i\<close>-th
  request, sent with configuration \<open>c\<close>; \<open>refresh\<close> is what awaiting the refresh yields.
  The result has the configurations of the requests sent, in order.
\<close>

datatype Answer = AnswerOk jsval | AnswerError "nat option" jsval

datatype ApiResult =
    ApiResolved jsval
  | ApiRejected jsval
  | ApiRotationError AuthRotationError

record call_result =
  requests :: "ApiRequestConfig list"
  final_core :: auth_core
  effects :: "HttpEffect list"
  api_result :: ApiResult

lemma authRetry_request [simp]: "authRetry (requestInterceptor a c) = authRetry c"
  by (simp add: requestInterceptor_def split: option.split)

lemma errorInterceptor_await:
  "errorInterceptor io p (Some c) st e w = AwaitRefresh c' \<Longrightarrow>
     \<not> authRetry c \<and> \<not> skipAuthRefresh c \<and> c' = c\<lparr>authRetry := True\<rparr> \<and> st = Some 401"
  by (auto simp: errorInterceptor_def Let_def split: if_splits)

lemma afterRefresh_retry: "afterRefresh p c out w = Inr c' \<Longrightarrow> authRetry c' = authRetry c"
  by (auto simp: afterRefresh_def split: RefreshOutcome.splits option.splits if_splits)

function apiRequest ::
  "io \<Rightarrow> jstring \<Rightarrow> (nat \<Rightarrow> ApiRequestConfig \<Rightarrow> Answer) \<Rightarrow> (auth_core \<Rightarrow> RefreshOutcome \<times> auth_core) \<Rightarrow>
   nat \<Rightarrow> ApiRequestConfig \<Rightarrow> auth_core \<Rightarrow> call_result" where
  "apiRequest io pathname server refresh i config w =
     (let c = requestInterceptor (auth w) config in
      case server i c of
        AnswerOk data \<Rightarrow>
          (case responseInterceptor io c data w of
             Inl e \<Rightarrow> \<lparr>requests = [c], final_core = w, effects = [], api_result = ApiRotationError e\<rparr>
           | Inr (w', effs) \<Rightarrow>
               \<lparr>requests = [c], final_core = w', effects = effs, api_result = ApiResolved data\<rparr>)
      | AnswerError st err \<Rightarrow>
          (case errorInterceptor io pathname (Some c) st err w of
             Throw w' effs \<Rightarrow>
               \<lparr>requests = [c], final_core = w', effects = effs, api_result = ApiRejected err\<rparr>
           | AwaitRefresh c' \<Rightarrow>
               (case refresh w of (out, w') \<Rightarrow>
                  (case afterRefresh pathname c' out w' of
                     Inl effs \<Rightarrow>
                       \<lparr>requests = [c], final_core = w', effects = effs, api_result = ApiRejected err\<rparr>
                   | Inr c'' \<Rightarrow>
                       let r = apiRequest io pathname server refresh (Suc i) c'' w'
                       in r\<lparr>requests := c # requests r\<rparr>))))"
  by pat_completeness auto
termination
  by (relation "measure (\<lambda>(io, pathname, server, refresh, i, config, w). if authRetry config then 0 else 1)")
    (auto dest!: errorInterceptor_await afterRefresh_retry)

declare apiRequest.simps [simp del]

lemma apiRequest_retried:
  assumes "authRetry config"
  shows "length (requests (apiRequest io pathname server refresh i config w)) = 1"
  using assms
  by (subst apiRequest.simps)
    (auto simp: Let_def split: Answer.split sum.split ErrorStep.split prod.split
      dest: errorInterceptor_await)

lemma apiRequest_length:
  "length (requests (apiRequest io pathname server refresh i config w)) \<le> 2"
proof (subst apiRequest.simps, goal_cases)
  case 1
  have "length (requests (apiRequest io pathname server refresh (Suc i) c w')) = 1"
    if "afterRefresh pathname c' out w'' = Inr c" "authRetry c'" for c c' out w' w''
    using that by (simp add: apiRequest_retried afterRefresh_retry)
  then show ?case
    by (auto simp: Let_def split: Answer.split sum.split ErrorStep.split prod.split
        dest!: errorInterceptor_await)
qed

section \<open>Properties\<close>

lemma apiGet_pending:
  assumes "http_inv h" and "apiGet a url params False h = (r, h')"
  shows "pendingGet h' r = Some (getKey a url params)"
  using assms by (auto simp: apiGet_def http_inv_def Let_def split: option.splits)

text \<open>
  C8.  In every reachable state there is at most one deduplicated request in flight per
  key.  A deduplicated GET always returns a request that is still in flight for its key
  (never one that has settled), and repeating it at once joins that request and changes
  nothing.
\<close>

theorem one_get_per_key:
  assumes "lts_reachable initial_http http_step h" and "apiGet a url params False h = (r, h')"
  shows "(\<forall>r1 r2 k. pendingGet h r1 = Some k \<and> pendingGet h r2 = Some k \<longrightarrow> r1 = r2) \<and>
    pendingGet h' r = Some (getKey a url params) \<and> apiGet a url params False h' = (r, h')"
proof -
  have inv: "http_inv h" using assms(1) by (rule http_machine.reachable_inv)
  then have inv': "http_inv h'" using assms(2) by (rule http_inv_get)
  have p: "pendingGet h' r = Some (getKey a url params)" using inv assms(2) by (rule apiGet_pending)
  with inv' have "inFlightGet h' (getKey a url params) = Some r" by (simp add: http_inv_def)
  then have "apiGet a url params False h' = (r, h')" by (simp add: apiGet_def Let_def)
  moreover have "\<forall>r1 r2 k. pendingGet h r1 = Some k \<and> pendingGet h r2 = Some k \<longrightarrow> r1 = r2"
    using inv unfolding http_inv_def by (metis option.inject)
  ultimately show ?thesis using p by blast
qed

definition sample_http :: http where
  "sample_http = \<lparr>inFlightGet = Map.empty, pendingGet = Map.empty, nextRequest = 0\<rparr>"

theorem one_get_per_key_witness:
  "\<exists>h'. apiGet initialAuth (js ''/api/status'') None False sample_http = (0, h') \<and>
     apiGet initialAuth (js ''/api/status'') None False h' = (0, h')"
proof -
  have "lts_reachable initial_http http_step sample_http"
    by (rule lts_reachable_init) (simp add: initial_http_def sample_http_def)
  moreover obtain h' where g: "apiGet initialAuth (js ''/api/status'') None False sample_http = (0, h')"
    by (simp add: apiGet_def sample_http_def Let_def)
  ultimately show ?thesis using one_get_per_key by blast
qed

text \<open>
  Deduplication never shares a response between sessions: two GETs have the same key
  only if they were made under the same session identifier, provided the identifiers
  contain no colon.
\<close>

theorem get_key_separates_sessions:
  assumes "getKey a1 url1 p1 = getKey a2 url2 p2"
    and "session a1 = Some s1" and "session a2 = Some s2"
    and "sid s1 \<noteq> []" and "sid s2 \<noteq> []"
    and "u16 CHR '':'' \<notin> set (sid s1)" and "u16 CHR '':'' \<notin> set (sid s2)"
  shows "sid s1 = sid s2"
proof -
  have "sid s1 @ u16 CHR '':'' # url1 @ js ''?'' @ nullish p1 (js ''{}'') =
        sid s2 @ u16 CHR '':'' # url2 @ js ''?'' @ nullish p2 (js ''{}'')"
    using assms(1-5) by (simp add: getKey_def str_or_def js_Cons js_Nil)
  then have "split_on (u16 CHR '':'') (sid s1 @ u16 CHR '':'' # url1 @ js ''?'' @ nullish p1 (js ''{}'')) =
        split_on (u16 CHR '':'') (sid s2 @ u16 CHR '':'' # url2 @ js ''?'' @ nullish p2 (js ''{}''))"
    by (rule arg_cong)
  then show ?thesis using assms(6,7) by (simp add: split_on_append)
qed

definition sample_sid :: "string \<Rightarrow> LoginSession" where
  "sample_sid s = \<lparr>sid = js s, current = True, login_method = [], ip = [], user_agent = [],
     created_at = jint 0, last_active_at = jint 0, expires_at = jint 0\<rparr>"

theorem get_key_separates_sessions_witness:
  "sid (sample_sid ''s1'') = sid (sample_sid ''s1'') \<and>
   getKey (initialAuth\<lparr>session := Some (sample_sid ''s1'')\<rparr>) (js ''/a'') None \<noteq>
   getKey (initialAuth\<lparr>session := Some (sample_sid ''s2'')\<rparr>) (js ''/a'') None"
  using get_key_separates_sessions[of "initialAuth\<lparr>session := Some (sample_sid ''s1'')\<rparr>" "js ''/a''" None
      "initialAuth\<lparr>session := Some (sample_sid ''s2'')\<rparr>" "js ''/a''" None
      "sample_sid ''s1''" "sample_sid ''s2''"]
  by (auto simp: sample_sid_def js_eval)

text \<open>How a call comes to send a second request.\<close>

lemma apiRequest_twiceE:
  assumes "length (requests (apiRequest io pathname server refresh i config w)) = 2"
  obtains st err c' b w' c'' where
    "server i (requestInterceptor (auth w) config) = AnswerError st err"
    "errorInterceptor io pathname (Some (requestInterceptor (auth w) config)) st err w = AwaitRefresh c'"
    "refresh w = (Authenticated b, w')" "afterRefresh pathname c' (Authenticated b) w' = Inr c''"
    "requests (apiRequest io pathname server refresh i config w) =
       requestInterceptor (auth w) config #
       requests (apiRequest io pathname server refresh (Suc i) c'' w')"
proof -
  note unfold = apiRequest.simps[of io pathname server refresh i config w] Let_def
  obtain st err where srv: "server i (requestInterceptor (auth w) config) = AnswerError st err"
    using assms by (cases "server i (requestInterceptor (auth w) config)")
      (auto simp: unfold split: sum.splits prod.splits)
  obtain c' where aw: "errorInterceptor io pathname (Some (requestInterceptor (auth w) config)) st err w
      = AwaitRefresh c'"
    using assms srv by (auto simp: unfold split: ErrorStep.splits)
  obtain out w' where rf: "refresh w = (out, w')" by force
  obtain c'' where af: "afterRefresh pathname c' out w' = Inr c''"
    using assms srv aw rf by (auto simp: unfold split: sum.splits)
  then obtain b where "out = Authenticated b"
    by (auto simp: afterRefresh_def split: RefreshOutcome.splits)
  with srv aw rf af show thesis by (intro that) (auto simp: unfold)
qed

lemma hd_requests:
  "\<exists>rest. requests (apiRequest io pathname server refresh i config w) =
     requestInterceptor (auth w) config # rest"
  by (subst apiRequest.simps)
    (auto simp: Let_def split: Answer.split sum.split ErrorStep.split prod.split)

lemma authorization_request [simp]:
  "accessToken a = Some tok \<Longrightarrow> tok \<noteq> [] \<Longrightarrow>
     authorization (requestInterceptor a c) = Some (js ''Bearer '' @ tok)"
  by (simp add: requestInterceptor_def)

lemma skipAuthRefresh_request [simp]: "skipAuthRefresh (requestInterceptor a c) = skipAuthRefresh c"
  by (simp add: requestInterceptor_def split: option.split)

text \<open>
  C9.  One call sends its request at most twice.  It is sent again only after a 401 to a
  request that permits a refresh, when the refresh authenticated the tab, and the second
  request carries the token the store holds after the refresh.
\<close>

theorem request_repeated_at_most_once:
  "length (requests (apiRequest io pathname server refresh i config w)) \<le> 2 \<and>
   (length (requests (apiRequest io pathname server refresh i config w)) = 2 \<longrightarrow>
      (\<exists>b w' err. refresh w = (Authenticated b, w') \<and> \<not> skipAuthRefresh config \<and>
         server i (requestInterceptor (auth w) config) = AnswerError (Some 401) err \<and>
         (\<forall>tok. accessToken (auth w') = Some tok \<and> tok \<noteq> [] \<longrightarrow>
            authorization (last (requests (apiRequest io pathname server refresh i config w))) =
              Some (js ''Bearer '' @ tok))))"
  (is "?len \<and> (?two \<longrightarrow> ?ex)")
proof (intro conjI impI)
  show ?len by (rule apiRequest_length)
  assume two: ?two
  then show ?ex
  proof (rule apiRequest_twiceE)
    fix st err c' b w' c''
    assume srv: "server i (requestInterceptor (auth w) config) = AnswerError st err"
      and aw: "errorInterceptor io pathname (Some (requestInterceptor (auth w) config)) st err w
        = AwaitRefresh c'"
      and rf: "refresh w = (Authenticated b, w')"
      and reqs: "requests (apiRequest io pathname server refresh i config w) =
        requestInterceptor (auth w) config #
        requests (apiRequest io pathname server refresh (Suc i) c'' w')"
    obtain rest where "requests (apiRequest io pathname server refresh (Suc i) c'' w') =
        requestInterceptor (auth w') c'' # rest"
      using hd_requests by blast
    with two reqs have "last (requests (apiRequest io pathname server refresh i config w)) =
        requestInterceptor (auth w') c''" by simp
    with errorInterceptor_await[OF aw] srv rf show ?ex by auto
  qed
qed

definition sample_config :: ApiRequestConfig where
  "sample_config = \<lparr>skipBusinessError = False, skipErrorHandler = False, skipAuthRefresh = False,
     authRetry = False, acceptAuthRotation = False, authorization = None\<rparr>"

definition sample_http_io :: io where
  "sample_http_io = \<lparr>io_env = \<lparr>hasWindow = True, hasBroadcastChannel = True, storageThrows = False,
     authSyncSource = js ''a''\<rparr>, io_random = js ''n'', io_now = 5\<rparr>"

definition sample_server :: "nat \<Rightarrow> ApiRequestConfig \<Rightarrow> Answer" where
  "sample_server i c = (if i = 0 then AnswerError (Some 401) JUndef else AnswerOk JNull)"

definition sample_http_bundle :: AuthBundle where
  "sample_http_bundle = \<lparr>access_token = js ''tok'', token_type = js ''Bearer'',
     access_expires_at = jint 900, bundle_user = \<lparr>user_id = jint 1, username = [], role = jint 1,
     user_props = []\<rparr>, bundle_session = sample_sid ''s1''\<rparr>"

definition sample_refresh :: "auth_core \<Rightarrow> RefreshOutcome \<times> auth_core" where
  "sample_refresh w =
     (Authenticated sample_http_bundle, applyAuthBundle sample_http_io sample_http_bundle False w)"

definition sample_anon :: auth_core where
  "sample_anon = \<lparr>auth = initialAuth, authEpoch = 0, sent = []\<rparr>"

lemma sample_call_twice:
  "length (requests (apiRequest sample_http_io (js ''/keys'') sample_server sample_refresh 0
     sample_config sample_anon)) = 2"
  by (simp add: apiRequest.simps[of _ _ _ _ 0] apiRequest.simps[of _ _ _ _ "Suc 0"] Let_def
      sample_server_def sample_config_def sample_refresh_def errorInterceptor_def afterRefresh_def
      responseInterceptor_def requestInterceptor_def sample_anon_def initialAuth_def setBundle_def
      sample_http_bundle_def)

theorem request_repeated_at_most_once_witness:
  "authorization (last (requests (apiRequest sample_http_io (js ''/keys'') sample_server sample_refresh 0
     sample_config sample_anon))) = Some (js ''Bearer '' @ js ''tok'')"
  using request_repeated_at_most_once[of sample_http_io "js ''/keys''" sample_server sample_refresh 0
      sample_config sample_anon] sample_call_twice
  by (auto simp: sample_refresh_def setBundle_def sample_http_bundle_def)

text \<open>
  A request that is refused with 401 again after its session was refreshed ends the
  session: the tab is left without credentials, without telling other tabs, and leaves
  for the sign-in page unless it is there.
\<close>

theorem second_401_signs_out:
  assumes "authRetry config" and "server i (requestInterceptor (auth w) config) = AnswerError (Some 401) err"
  shows "no_credentials (final_core (apiRequest io pathname server refresh i config w)) \<and>
    sent (final_core (apiRequest io pathname server refresh i config w)) = sent w \<and>
    (RedirectToSignIn \<in> set (effects (apiRequest io pathname server refresh i config w)) \<longleftrightarrow>
       pathname \<noteq> js ''/sign-in'') \<and>
    api_result (apiRequest io pathname server refresh i config w) = ApiRejected err"
  using assms
  by (auto simp: apiRequest.simps[of io pathname server refresh i config w] errorInterceptor_def
      no_credentials_def reset_def redirectToSignIn_def sessionExpired_def Let_def)

theorem second_401_signs_out_witness:
  "RedirectToSignIn \<in> set (effects (apiRequest sample_http_io (js ''/keys'')
     (\<lambda>_ _. AnswerError (Some 401) JUndef) sample_refresh 1 (sample_config\<lparr>authRetry := True\<rparr>)
     sample_anon))"
  using second_401_signs_out[of "sample_config\<lparr>authRetry := True\<rparr>"
      "\<lambda>_ _. AnswerError (Some 401) JUndef" 1 sample_anon JUndef sample_http_io "js ''/keys''"
      sample_refresh]
  by simp

end
