(* ===== verification/Chunked.thy ===== *)
theory Chunked
  imports JS_Prelude
begin

text \<open>
  Incremental consumers: a component that is fed its input in pieces and gives output as
  it goes.  The contract is that the pieces do not matter, only their concatenation; it
  is kept by the composition of two such components.
\<close>

type_synonym ('s, 'i, 'o) feeder = "'i list \<Rightarrow> 's \<Rightarrow> 's \<times> 'o list"

fun feed_all :: "('s, 'i, 'o) feeder \<Rightarrow> 'i list list \<Rightarrow> 's \<Rightarrow> 's \<times> 'o list" where
  "feed_all feed [] s = (s, [])"
| "feed_all feed (c # cs) s =
     (let (s', out) = feed c s; (s'', out') = feed_all feed cs s' in (s'', out @ out'))"

locale chunked =
  fixes feed :: "('s, 'i, 'o) feeder"
    and settled :: "'s \<Rightarrow> bool"
  assumes feed_Nil: "settled s \<Longrightarrow> feed [] s = (s, [])"
    and feed_settled: "feed a s = (s', out) \<Longrightarrow> settled s'"
    and feed_append: "feed (a @ b) s =
      (let (s', out) = feed a s; (s'', out') = feed b s' in (s'', out @ out'))"
begin

lemma feed_all_concat: "settled s \<Longrightarrow> feed_all feed cs s = feed (concat cs) s"
proof (induction cs arbitrary: s)
  case (Cons c cs)
  obtain s' out where "feed c s = (s', out)" by force
  moreover from this have "settled s'" by (rule feed_settled)
  ultimately show ?case by (simp add: feed_append Cons.IH)
qed (simp add: feed_Nil)

lemma chunks_irrelevant:
  "settled s \<Longrightarrow> concat cs = concat ds \<Longrightarrow> feed_all feed cs s = feed_all feed ds s"
  by (simp add: feed_all_concat)

lemma feed_split: "feed a s = (s', x) \<Longrightarrow> feed b s' = (s'', y) \<Longrightarrow> feed (a @ b) s = (s'', x @ y)"
  by (simp add: feed_append)

end

text \<open>The output of one consumer is the input of the next.\<close>

definition feed_through ::
  "('s, 'i, 'm) feeder \<Rightarrow> ('t, 'm, 'o) feeder \<Rightarrow> ('s \<times> 't, 'i, 'o) feeder" where
  "feed_through f g c st =
     (let (s', mid) = f c (fst st); (t', out) = g mid (snd st) in ((s', t'), out))"

locale chunked_pipe =
  first: chunked first first_settled + second: chunked second second_settled
  for first :: "('s, 'i, 'm) feeder" and first_settled :: "'s \<Rightarrow> bool"
    and second :: "('t, 'm, 'o) feeder" and second_settled :: "'t \<Rightarrow> bool"
begin

lemma pipe_append:
  "feed_through first second (a @ b) st =
     (let (u, x) = feed_through first second a st; (v, y) = feed_through first second b u
      in (v, x @ y))"
  by (simp add: feed_through_def first.feed_append second.feed_append case_prod_unfold Let_def)

end

sublocale chunked_pipe \<subseteq> pipe: chunked "feed_through first second"
  "\<lambda>st. first_settled (fst st) \<and> second_settled (snd st)"
proof
  show "first_settled (fst s) \<and> second_settled (snd s) \<Longrightarrow> feed_through first second [] s = (s, [])" for s
    by (simp add: feed_through_def first.feed_Nil second.feed_Nil)
  show "first_settled (fst s') \<and> second_settled (snd s')"
    if "feed_through first second a s = (s', out)" for a s s' out
    using that by (auto simp: feed_through_def case_prod_unfold Let_def
        intro: first.feed_settled[OF surjective_pairing] second.feed_settled[OF surjective_pairing])
qed (rule pipe_append)

end
