(* ===== verification/Mini_Sse.thy ===== *)
theory Mini_Sse
  imports Chunked
begin

unbundle bit_operations_syntax

text \<open>
  Server-sent events in the mini-app, \<open>miniapp/src/api/sse.ts\<close>: the incremental UTF-8
  decoder and the line parser behind it.  Network chunks cut the byte stream anywhere,
  inside a character or between the two halves of a line ending; the results are that
  the cuts do not matter and that what a conforming server sends is what arrives.

  A position in a buffer is represented by the rest of the buffer from there.
\<close>

section \<open>The UTF-8 decoder\<close>

type_synonym byte = "8 word"

record Utf8StreamDecoder =
  pending :: "byte list"

text \<open>Length and first bits of the sequence a byte starts; \<open>None\<close> when it starts none.\<close>

definition lead :: "byte \<Rightarrow> (nat \<times> nat) option" where
  "lead first =
     (let b = unat first in
      if 0xc2 \<le> b \<and> b \<le> 0xdf then Some (2, b AND 0x1f)
      else if 0xe0 \<le> b \<and> b \<le> 0xef then Some (3, b AND 0x0f)
      else if 0xf0 \<le> b \<and> b \<le> 0xf4 then Some (4, b AND 0x07)
      else if 0x80 \<le> b then None
      else Some (1, b))"

fun continuations :: "nat \<Rightarrow> byte list \<Rightarrow> nat option" where
  "continuations codePoint [] = Some codePoint"
| "continuations codePoint (c # cs) =
     (if unat c AND 0xc0 \<noteq> 0x80 then None
      else continuations (push_bit 6 codePoint OR (unat c AND 0x3f)) cs)"

definition overlong :: "nat \<Rightarrow> nat \<Rightarrow> bool" where
  "overlong len codePoint \<longleftrightarrow>
     len = 2 \<and> codePoint < 0x80 \<or> len = 3 \<and> codePoint < 0x800 \<or> len = 4 \<and> codePoint < 0x10000"

text \<open>\<open>String.fromCodePoint\<close>: one code unit, or a surrogate pair.\<close>

definition fromCodePoint :: "nat \<Rightarrow> jstring" where
  "fromCodePoint cp =
     (if cp < 0x10000 then [of_nat cp]
      else [of_nat (0xd800 + (cp - 0x10000) div 0x400), of_nat (0xdc00 + (cp - 0x10000) mod 0x400)])"

definition replacement :: jstring where
  "replacement = [0xFFFD]"

text \<open>One turn of the loop; \<open>None\<close> when it stops.\<close>

definition decode_step :: "bool \<Rightarrow> byte list \<Rightarrow> (jstring \<times> byte list) option" where
  "decode_step final bytes =
     (case bytes of
        [] \<Rightarrow> None
      | first # rest \<Rightarrow>
        (case lead first of
           None \<Rightarrow> Some (replacement, rest)
         | Some (len, bits) \<Rightarrow>
           if length bytes < len then (if final then Some (replacement, rest) else None)
           else (case continuations bits (take (len - 1) rest) of
                   None \<Rightarrow> Some (replacement, rest)
                 | Some codePoint \<Rightarrow>
                   if overlong len codePoint \<or> 0x10ffff < codePoint \<or>
                      0xd800 \<le> codePoint \<and> codePoint \<le> 0xdfff
                   then Some (replacement, rest)
                   else Some (fromCodePoint codePoint, drop len bytes))))"

lemma lead_pos: "lead b = Some (len, bits) \<Longrightarrow> 1 \<le> len \<and> len \<le> 4"
  by (auto simp: lead_def Let_def split: if_splits)

lemma decode_step_shrinks:
  assumes "decode_step final bytes = Some (t, rest)"
  shows "length rest < length bytes"
  using assms
  by (auto simp: decode_step_def split: list.splits option.splits if_splits dest!: lead_pos)

function decode_loop :: "bool \<Rightarrow> byte list \<Rightarrow> jstring \<times> byte list" where
  "decode_loop final bytes =
     (case decode_step final bytes of
        None \<Rightarrow> ([], bytes)
      | Some (t, rest) \<Rightarrow> (let (t', left) = decode_loop final rest in (t @ t', left)))"
  by pat_completeness auto
termination
  by (relation "measure (\<lambda>(final, bytes). length bytes)") (auto dest: decode_step_shrinks)

declare decode_loop.simps [simp del]

definition decode :: "byte list \<Rightarrow> bool \<Rightarrow> Utf8StreamDecoder \<Rightarrow> Utf8StreamDecoder \<times> jstring" where
  "decode chunk final d =
     (let (result, left) = decode_loop final (pending d @ chunk)
      in (d\<lparr>pending := (if final then [] else left)\<rparr>, result))"

section \<open>The line parser\<close>

record SseEvent =
  sse_data :: jstring
  sse_event :: jstring
  sse_id :: jstring

text \<open>The fields of \<open>SseParser\<close> beside its decoder.\<close>

record SseLines =
  dataLines :: "jstring list"
  event_field :: jstring
  id_field :: jstring
  lineBuffer :: jstring

type_synonym SseParser = "Utf8StreamDecoder \<times> SseLines"

abbreviation LF :: jchar where "LF \<equiv> 10"
abbreviation CR :: jchar where "CR \<equiv> 13"

definition dispatch :: "SseLines \<Rightarrow> SseLines \<times> SseEvent list" where
  "dispatch p =
     (if dataLines p = [] then (p, [])
      else (p\<lparr>dataLines := [], event_field := []\<rparr>,
            [\<lparr>sse_data = join [LF] (dataLines p), sse_event = event_field p, sse_id = id_field p\<rparr>]))"

text \<open>The field name and the value of a line, the value without one leading space.\<close>

definition line_field :: "jstring \<Rightarrow> jstring \<times> jstring" where
  "line_field line =
     (let (field, value) = (case index_of (js '':'') line of
                              None \<Rightarrow> (line, [])
                            | Some separator \<Rightarrow> (take separator line, drop (separator + 1) line))
      in (field, if starts_with (js '' '') value then drop 1 value else value))"

definition consumeLine :: "jstring \<Rightarrow> SseLines \<Rightarrow> SseLines \<times> SseEvent list" where
  "consumeLine line p =
     (if line = [] then dispatch p
      else if starts_with (js '':'') line then (p, [])
      else case line_field line of
             (field, value) \<Rightarrow>
               (if field = js ''data'' then p\<lparr>dataLines := dataLines p @ [value]\<rparr>
                else if field = js ''event'' then p\<lparr>event_field := value\<rparr>
                else if field = js ''id'' \<and> \<not> str_includes [0] value then p\<lparr>id_field := value\<rparr>
                else p, []))"

text \<open>
  The first complete line of the buffer and what follows its ending.  A carriage return
  at the end of the buffer is not complete: a line feed may still follow.
\<close>

fun scan_line :: "bool \<Rightarrow> jstring \<Rightarrow> (jstring \<times> jstring) option" where
  "scan_line final [] = None"
| "scan_line final (c # cs) =
     (if c = LF then Some ([], cs)
      else if c = CR then
        (case cs of
           [] \<Rightarrow> if final then Some ([], []) else None
         | d # ds \<Rightarrow> Some ([], if d = LF then ds else cs))
      else map_option (map_prod ((#) c) id) (scan_line final cs))"

lemma scan_line_shrinks: "scan_line final buf = Some (line, rest) \<Longrightarrow> length rest < length buf"
proof (induction buf arbitrary: line)
  case (Cons c cs)
  then show ?case by (fastforce split: if_splits list.splits)
qed simp

function consumeLines :: "bool \<Rightarrow> jstring \<Rightarrow> SseLines \<Rightarrow> SseLines \<times> SseEvent list" where
  "consumeLines final buf p =
     (case scan_line final buf of
        None \<Rightarrow> (p\<lparr>lineBuffer := buf\<rparr>, [])
      | Some (line, rest) \<Rightarrow>
          (let (p', out) = consumeLine line p; (p'', out') = consumeLines final rest p'
           in (p'', out @ out')))"
  by pat_completeness auto
termination
  by (relation "measure (\<lambda>(final, buf, p). length buf)") (auto dest: scan_line_shrinks)

declare consumeLines.simps [simp del]

definition consumeText :: "jstring \<Rightarrow> bool \<Rightarrow> SseLines \<Rightarrow> SseLines \<times> SseEvent list" where
  "consumeText text final p =
     (let (p1, out1) = consumeLines final (lineBuffer p @ text) p
      in if \<not> final then (p1, out1)
         else
           let (p2, out2) = (if lineBuffer p1 \<noteq> [] then consumeLine (lineBuffer p1) p1 else (p1, []));
               (p3, out3) = dispatch (p2\<lparr>lineBuffer := []\<rparr>)
           in (p3, out1 @ out2 @ out3))"

definition push :: "(SseParser, byte, SseEvent) feeder" where
  "push = feed_through (\<lambda>chunk. decode chunk False) (\<lambda>text. consumeText text False)"

definition finish :: "SseParser \<Rightarrow> SseParser \<times> SseEvent list" where
  "finish p =
     (let (d, text) = decode [] True (fst p); (l, out) = consumeText text True (snd p)
      in ((d, l), out))"

definition newSseParser :: SseParser where
  "newSseParser = (\<lparr>pending = []\<rparr>, \<lparr>dataLines = [], event_field = [], id_field = [], lineBuffer = []\<rparr>)"

text \<open>A whole connection: the events of all chunks and of the end of the stream.\<close>

definition parse_stream :: "byte list list \<Rightarrow> SseEvent list" where
  "parse_stream chunks =
     (let (p, out) = feed_all push chunks newSseParser; (p', out') = finish p in out @ out')"

section \<open>Cuts between chunks do not matter\<close>

lemma decode_step_append:
  assumes "decode_step False bytes = Some (t, rest)"
  shows "decode_step False (bytes @ xs) = Some (t, rest @ xs)"
proof -
  obtain b bs where b: "bytes = b # bs" using assms by (cases bytes) (auto simp: decode_step_def)
  show ?thesis
  proof (cases "lead b")
    case None
    with assms show ?thesis by (simp add: b decode_step_def)
  next
    case (Some lb)
    obtain len bits where lb: "lb = (len, bits)" by force
    from assms Some lb have "len \<le> length bytes" and "1 \<le> len"
      by (auto simp: decode_step_def b split: if_splits dest: lead_pos)
    moreover from this have "drop len (bytes @ xs) = drop len bytes @ xs"
      and "take (len - 1) (bs @ xs) = take (len - 1) bs"
      by (simp_all only: drop_append take_append) (simp_all add: b)
    ultimately show ?thesis using assms Some lb
      by (auto simp: decode_step_def b split: option.splits if_splits)
  qed
qed

lemma decode_loop_stuck: "decode_step final bytes = None \<Longrightarrow> decode_loop final bytes = ([], bytes)"
  by (subst decode_loop.simps) simp

lemma decode_loop_Some:
  "decode_step final bytes = Some (t, rest) \<Longrightarrow>
     decode_loop final bytes = (let (t', left) = decode_loop final rest in (t @ t', left))"
  by (subst decode_loop.simps) simp

lemma decode_loop_induct [case_names stuck step]:
  assumes "\<And>bytes. decode_step final bytes = None \<Longrightarrow> P bytes"
    and "\<And>bytes t rest. decode_step final bytes = Some (t, rest) \<Longrightarrow> P rest \<Longrightarrow> P bytes"
  shows "P bytes"
proof (induction "length bytes" arbitrary: bytes rule: less_induct)
  case less
  show ?case
  proof (cases "decode_step final bytes")
    case (Some tr)
    then obtain t rest where "decode_step final bytes = Some (t, rest)" by (cases tr) auto
    with assms(2) less decode_step_shrinks show ?thesis by blast
  qed (rule assms(1))
qed

lemma decode_loop_append:
  "decode_loop False (bytes @ xs) =
     (let (t, left) = decode_loop False bytes; (t', left') = decode_loop False (left @ xs)
      in (t @ t', left'))"
proof (induction bytes rule: decode_loop_induct[of False])
  case (step bytes t rest)
  then show ?case
    by (simp add: decode_loop_Some decode_step_append case_prod_unfold Let_def)
qed (simp add: decode_loop_stuck)

lemma decode_loop_left: "decode_loop final bytes = (t, left) \<Longrightarrow> decode_step final left = None"
proof (induction bytes arbitrary: t rule: decode_loop_induct[of final])
  case (step bytes t rest)
  then show ?case by (auto simp: decode_loop_Some split: prod.splits)
qed (simp add: decode_loop_stuck)

interpretation utf8: chunked "\<lambda>chunk. decode chunk False" "\<lambda>d. decode_step False (pending d) = None"
proof
  show "decode [] False d = (d, [])" if "decode_step False (pending d) = None" for d :: Utf8StreamDecoder
    using decode_loop_stuck[OF that] by (simp add: decode_def)
  show "decode_step False (pending d') = None" if "decode a False d = (d', out)"
    for a out and d d' :: Utf8StreamDecoder
    using that by (auto simp: decode_def split: prod.splits dest: decode_loop_left)
  show "decode (a @ b) False d =
      (let (d', out) = decode a False d; (d'', out') = decode b False d' in (d'', out @ out'))"
    for a b and d :: Utf8StreamDecoder
    using decode_loop_append[of "pending d @ a" b] by (simp add: decode_def case_prod_unfold Let_def)
qed

lemma scan_line_append:
  "scan_line False buf = Some (line, rest) \<Longrightarrow> scan_line False (buf @ xs) = Some (line, rest @ xs)"
proof (induction buf arbitrary: line)
  case (Cons c cs)
  then show ?case by (auto split: if_splits list.splits)
qed simp

lemma consumeLine_buffer [simp]:
  "consumeLine line (p\<lparr>lineBuffer := b\<rparr>) =
     (let (p', out) = consumeLine line p in (p'\<lparr>lineBuffer := b\<rparr>, out))"
  by (simp add: consumeLine_def dispatch_def split: prod.splits)

lemma consumeLines_None: "scan_line final buf = None \<Longrightarrow> consumeLines final buf p = (p\<lparr>lineBuffer := buf\<rparr>, [])"
  by (subst consumeLines.simps) simp

lemma consumeLines_Some:
  "scan_line final buf = Some (line, rest) \<Longrightarrow>
     consumeLines final buf p =
       (let (p', out) = consumeLine line p; (p'', out') = consumeLines final rest p'
        in (p'', out @ out'))"
  by (subst consumeLines.simps) simp

lemma scan_line_induct [case_names stuck step]:
  assumes "\<And>buf. scan_line final buf = None \<Longrightarrow> P buf"
    and "\<And>buf line rest. scan_line final buf = Some (line, rest) \<Longrightarrow> P rest \<Longrightarrow> P buf"
  shows "P buf"
proof (induction "length buf" arbitrary: buf rule: less_induct)
  case less
  show ?case
  proof (cases "scan_line final buf")
    case (Some lr)
    then obtain line rest where "scan_line final buf = Some (line, rest)" by (cases lr) auto
    with assms(2) less scan_line_shrinks show ?thesis by blast
  qed (rule assms(1))
qed

lemma consumeLines_buffer [simp]: "consumeLines final buf (p\<lparr>lineBuffer := b\<rparr>) = consumeLines final buf p"
proof (induction buf arbitrary: p rule: scan_line_induct[of final])
  case (step buf line rest)
  then show ?case by (simp add: consumeLines_Some case_prod_unfold Let_def)
qed (simp add: consumeLines_None)

lemma consumeLines_append:
  "consumeLines False (buf @ xs) p =
     (let (p', out) = consumeLines False buf p;
          (p'', out') = consumeLines False (lineBuffer p' @ xs) p' in (p'', out @ out'))"
proof (induction buf arbitrary: p rule: scan_line_induct[of False])
  case (step buf line rest)
  then show ?case
    by (simp add: consumeLines_Some scan_line_append case_prod_unfold Let_def)
qed (simp add: consumeLines_None)

lemma consumeLines_left:
  "consumeLines final buf p = (p', out) \<Longrightarrow> scan_line final (lineBuffer p') = None"
proof (induction buf arbitrary: p out rule: scan_line_induct[of final])
  case (step buf line rest)
  then show ?case by (auto simp: consumeLines_Some Let_def split: prod.splits)
qed (auto simp: consumeLines_None)

interpretation sse_lines: chunked "\<lambda>text. consumeText text False"
  "\<lambda>p. scan_line False (lineBuffer p) = None"
proof
  show "consumeText [] False p = (p, [])" if "scan_line False (lineBuffer p) = None" for p :: SseLines
    using that by (simp add: consumeText_def consumeLines.simps)
  show "scan_line False (lineBuffer p') = None" if "consumeText a False p = (p', out)"
    for a out and p p' :: SseLines
    using that by (auto simp: consumeText_def split: prod.splits dest: consumeLines_left)
  show "consumeText (a @ b) False p =
      (let (p', out) = consumeText a False p; (p'', out') = consumeText b False p' in (p'', out @ out'))"
    for a b and p :: SseLines
    using consumeLines_append[of "lineBuffer p @ a" b] by (simp add: consumeText_def case_prod_unfold Let_def)
qed

interpretation sse: chunked_pipe "\<lambda>chunk. decode chunk False" "\<lambda>d. decode_step False (pending d) = None"
  "\<lambda>text. consumeText text False" "\<lambda>p. scan_line False (lineBuffer p) = None" ..


section \<open>Decoding is the inverse of encoding\<close>

text \<open>UTF-8 as the standard defines it, for a Unicode scalar value.\<close>

definition scalar :: "nat \<Rightarrow> bool" where
  "scalar cp \<longleftrightarrow> cp \<le> 0x10ffff \<and> \<not> (0xd800 \<le> cp \<and> cp \<le> 0xdfff)"

definition utf8_encode :: "nat \<Rightarrow> byte list" where
  "utf8_encode cp =
     map of_nat
      (if cp < 0x80 then [cp]
       else if cp < 0x800 then [0xc0 + cp div 0x40, 0x80 + cp mod 0x40]
       else if cp < 0x10000
       then [0xe0 + cp div 0x1000, 0x80 + cp div 0x40 mod 0x40, 0x80 + cp mod 0x40]
       else [0xf0 + cp div 0x40000, 0x80 + cp div 0x1000 mod 0x40, 0x80 + cp div 0x40 mod 0x40,
             0x80 + cp mod 0x40])"

lemma unat_byte: "n < 256 \<Longrightarrow> unat (of_nat n :: byte) = n"
  by (simp add: unat_of_nat take_bit_eq_mod)

lemma nat_and_mask: "(n::nat) AND 0x1f = n mod 32" "n AND 0x0f = n mod 16" "n AND 0x07 = n mod 8"
  "n AND 0x3f = n mod 64"
  using take_bit_eq_mask[of 5 n] take_bit_eq_mask[of 4 n] take_bit_eq_mask[of 3 n]
    take_bit_eq_mask[of 6 n]
  by (simp_all add: take_bit_eq_mod mask_eq_exp_minus_1)

lemma continuation_marker: "x < 64 \<Longrightarrow> (128 + x) AND 192 = (128::nat)"
proof -
  have "list_all (\<lambda>x. (128 + x) AND 192 = (128::nat)) [0..<64]" by code_simp
  then show "x < 64 \<Longrightarrow> (128 + x) AND 192 = (128::nat)" by (simp add: list_all_iff)
qed

lemma shift_or: assumes "x < 64" shows "push_bit 6 a OR x = 64 * a + (x::nat)"
proof -
  let ?n = "64 * a + x"
  have "push_bit 6 (drop_bit 6 ?n) OR take_bit 6 ?n = ?n"
    by (rule bit_eqI) (auto simp: bit_simps)
  moreover have "drop_bit 6 ?n = a" "take_bit 6 ?n = x"
    using assms by (simp_all add: drop_bit_eq_div take_bit_eq_mod)
  ultimately show ?thesis by simp
qed

lemma mod_offset:
  "x < 64 \<Longrightarrow> (128 + x) mod 64 = (x::nat)" "k < 32 \<Longrightarrow> (192 + k) mod 32 = (k::nat)"
  "k < 16 \<Longrightarrow> (224 + k) mod 16 = (k::nat)" "k < 5 \<Longrightarrow> (240 + k) mod 8 = (k::nat)"
  using mod_mult_self3[of 2 64 x] mod_mult_self3[of 6 32 k] mod_mult_self3[of 14 16 k]
    mod_mult_self3[of 30 8 k]
  by simp_all

lemma continuations_Cons:
  "x < 64 \<Longrightarrow> continuations cp (of_nat (128 + x) # cs) = continuations (64 * cp + x) cs"
  by (simp add: unat_byte continuation_marker nat_and_mask mod_offset shift_or del: of_nat_add)

lemma lead_1: "n < 0x80 \<Longrightarrow> lead (of_nat n) = Some (1, n)"
  by (simp add: lead_def unat_byte)

lemma lead_2: "2 \<le> k \<Longrightarrow> k < 32 \<Longrightarrow> lead (of_nat (0xc0 + k)) = Some (2, k)"
  by (simp add: lead_def unat_byte nat_and_mask mod_offset Let_def del: of_nat_add)

lemma lead_3: "k < 16 \<Longrightarrow> lead (of_nat (0xe0 + k)) = Some (3, k)"
  by (simp add: lead_def unat_byte nat_and_mask mod_offset Let_def del: of_nat_add)

lemma lead_4: "k < 5 \<Longrightarrow> lead (of_nat (0xf0 + k)) = Some (4, k)"
  by (simp add: lead_def unat_byte nat_and_mask mod_offset Let_def del: of_nat_add)

lemma base64:
  "64 * (cp div 64) + cp mod 64 = (cp :: nat)"
  "64 * (cp div 4096) + cp div 64 mod 64 = cp div 64"
  "64 * (cp div 262144) + cp div 4096 mod 64 = cp div 4096"
  using mult_div_mod_eq[of 64 cp] mult_div_mod_eq[of 64 "cp div 64"] mult_div_mod_eq[of 64 "cp div 4096"]
  by (simp_all only: div_mult2_eq[of cp 64 64, simplified] div_mult2_eq[of cp 4096 64, simplified])

lemma decode_step_encode:
  assumes "scalar cp"
  shows "decode_step final (utf8_encode cp @ rest) = Some (fromCodePoint cp, rest)"
proof -
  consider "cp < 0x80" | "0x80 \<le> cp" "cp < 0x800" | "0x800 \<le> cp" "cp < 0x10000" | "0x10000 \<le> cp"
    by linarith
  then show ?thesis
  proof cases
    case 1
    then show ?thesis by (simp add: utf8_encode_def decode_step_def lead_1 overlong_def)
  next
    case 2
    then have l: "lead (of_nat (0xc0 + cp div 64)) = Some (2, cp div 64)" by (intro lead_2) auto
    from 2 assms show ?thesis
      by (simp add: utf8_encode_def decode_step_def l continuations_Cons overlong_def del: of_nat_add
          continuations.simps(2))
  next
    case 3
    then have l: "lead (of_nat (0xe0 + cp div 4096)) = Some (3, cp div 4096)" by (intro lead_3) auto
    have e: "4096 * (cp div 4096) + 64 * (cp div 64 mod 64) + cp mod 64 = cp"
      using base64 [of cp] by linarith
    from 3 assms show ?thesis
      by (simp add: utf8_encode_def decode_step_def l continuations_Cons overlong_def scalar_def e
          numeral_3_eq_3 del: of_nat_add continuations.simps(2))
  next
    case 4
    with assms have "lead (of_nat (0xf0 + cp div 0x40000)) = Some (4, cp div 0x40000)"
      by (intro lead_4) (auto simp: scalar_def)
    moreover have "262144 * (cp div 262144) + 4096 * (cp div 4096 mod 64) + 64 * (cp div 64 mod 64) +
        cp mod 64 = cp"
      using base64 [of cp] by linarith
    ultimately show ?thesis using 4 assms
      by (simp add: utf8_encode_def decode_step_def continuations_Cons overlong_def scalar_def
          del: of_nat_add continuations.simps(2))
  qed
qed


lemma decode_loop_encode:
  "list_all scalar cps \<Longrightarrow>
     decode_loop final (concat (map utf8_encode cps)) = (concat (map fromCodePoint cps), [])"
proof (induction cps)
  case Nil
  then show ?case by (simp add: decode_loop_stuck decode_step_def)
next
  case (Cons cp cps)
  then show ?case by (simp add: decode_loop_Some[OF decode_step_encode])
qed

text \<open>A well-formed piece of UTF-16 that stands for one character.\<close>

definition one_char :: "jstring \<Rightarrow> bool" where
  "one_char t \<longleftrightarrow> (\<exists>cp. scalar cp \<and> t = fromCodePoint cp)"

lemma one_charI:
  "cp < 0xd800 \<Longrightarrow> one_char (fromCodePoint cp)"
  "cp \<le> 0x10ffff \<Longrightarrow> 0xdfff < cp \<Longrightarrow> one_char (fromCodePoint cp)"
  unfolding one_char_def by (rule exI[of _ cp], simp add: scalar_def)+

lemma one_char_replacement [simp]: "one_char replacement"
  using one_charI(2)[of "0xFFFD"] by (simp add: replacement_def fromCodePoint_def)

lemma decode_step_wellformed:
  "decode_step final bytes = Some (t, rest) \<Longrightarrow> one_char t"
  by (auto simp: decode_step_def not_less not_le split: list.splits option.splits if_splits
      intro: one_charI)

lemma decode_loop_wellformed:
  "\<exists>cps. list_all scalar cps \<and> fst (decode_loop final bytes) = concat (map fromCodePoint cps)"
proof (induction bytes rule: decode_loop_induct[of final])
  case (stuck bytes)
  then show ?case by (auto simp: decode_loop_stuck intro: exI[of _ "[]"])
next
  case (step bytes t rest)
  from decode_step_wellformed[OF step(1)] step(2) obtain cp cps where
    "scalar cp" "t = fromCodePoint cp" "list_all scalar cps"
    "fst (decode_loop final rest) = concat (map fromCodePoint cps)" by (auto simp: one_char_def)
  then show ?case using step(1)
    by (auto simp: decode_loop_Some case_prod_unfold Let_def intro!: exI[of _ "cp # cps"])
qed

section \<open>Parsing is the inverse of printing\<close>

text \<open>An event as a server writes it: every data line on a field of its own.\<close>

definition print_field :: "string \<Rightarrow> jstring \<Rightarrow> jstring" where
  "print_field name value = js name @ js '': '' @ value @ [LF]"

definition print_event :: "SseEvent \<Rightarrow> jstring" where
  "print_event e =
     print_field ''event'' (sse_event e) @ print_field ''id'' (sse_id e) @
     concat (map (print_field ''data'') (split_on LF (sse_data e))) @ [LF]"

definition printable :: "SseEvent \<Rightarrow> bool" where
  "printable e \<longleftrightarrow> CR \<notin> set (sse_data e) \<and> set (sse_event e) \<inter> {LF, CR} = {} \<and>
     set (sse_id e) \<inter> {0, LF, CR} = {}"

lemma scan_line_LF:
  "LF \<notin> set line \<Longrightarrow> CR \<notin> set line \<Longrightarrow> scan_line final (line @ LF # rest) = Some (line, rest)"
  by (induction line) auto

lemma consume_blank_line: "consumeLine [] p = dispatch p"
  by (simp add: consumeLine_def)

lemma consume_event_line:
  "consumeLine (js ''event'' @ js '': '' @ v) p = (p\<lparr>event_field := v\<rparr>, [])"
  by (simp add: consumeLine_def line_field_def starts_with_def js_eval Let_def)

lemma consume_id_line:
  "0 \<notin> set v \<Longrightarrow> consumeLine (js ''id'' @ js '': '' @ v) p = (p\<lparr>id_field := v\<rparr>, [])"
  by (auto simp: consumeLine_def line_field_def starts_with_def js_eval Let_def str_includes_iff)

lemma consume_data_line:
  "consumeLine (js ''data'' @ js '': '' @ v) p = (p\<lparr>dataLines := dataLines p @ [v]\<rparr>, [])"
  by (simp add: consumeLine_def line_field_def starts_with_def js_eval Let_def)

lemma scan_field:
  assumes "name = ''event'' \<or> name = ''id'' \<or> name = ''data''" and "LF \<notin> set v" and "CR \<notin> set v"
  shows "scan_line final (print_field name v @ rest) = Some (js name @ js '': '' @ v, rest)"
proof -
  have "LF \<notin> set (js name @ js '': '' @ v)" and "CR \<notin> set (js name @ js '': '' @ v)"
    using assms by (auto simp: js_eval)
  from scan_line_LF[OF this] show ?thesis by (simp add: print_field_def)
qed

lemma consume_data_lines:
  "\<forall>v \<in> set vs. LF \<notin> set v \<and> CR \<notin> set v \<Longrightarrow>
     consumeLines final (concat (map (print_field ''data'') vs) @ rest) p =
       consumeLines final rest (p\<lparr>dataLines := dataLines p @ vs\<rparr>)"
proof (induction vs arbitrary: p)
  case (Cons v vs)
  then show ?case
    by (simp add: consumeLines_Some[OF scan_field] consume_data_line)
qed simp

lemma consume_printed:
  assumes "printable e" and "dataLines p = []"
  shows "consumeLines final (print_event e @ rest) p =
    (let (p', out) = consumeLines final rest (p\<lparr>event_field := [], id_field := sse_id e\<rparr>)
     in (p', e # out))"
proof -
  let ?vs = "split_on LF (sse_data e)"
  have vs: "\<forall>v \<in> set ?vs. LF \<notin> set v \<and> CR \<notin> set v"
  proof
    fix v assume v: "v \<in> set ?vs"
    from set_split_on[OF v] split_on_sep[OF v] assms(1) show "LF \<notin> set v \<and> CR \<notin> set v"
      by (auto simp: printable_def)
  qed
  have blank: "scan_line final (LF # rest) = Some ([], rest)" by simp
  show ?thesis
    using assms
    by (cases p) (simp add: print_event_def consumeLines_Some[OF scan_field] consume_event_line consume_id_line
        consume_data_lines[OF vs] consumeLines_Some[OF blank] printable_def consume_blank_line dispatch_def
        join_split_on Let_def case_prod_unfold)
qed

lemma consume_all_printed:
  "list_all printable es \<Longrightarrow> dataLines p = [] \<Longrightarrow> event_field p = [] \<Longrightarrow>
     \<exists>p'. consumeLines final (concat (map print_event es)) p = (p', es) \<and>
       dataLines p' = [] \<and> lineBuffer p' = []"
proof (induction es arbitrary: p)
  case Nil
  then show ?case by (simp add: consumeLines_None)
next
  case (Cons e es)
  from Cons.IH[of "p\<lparr>event_field := [], id_field := sse_id e\<rparr>"] Cons.prems show ?case
    by (auto simp: consume_printed)
qed

section \<open>Properties\<close>

lemma push_chunks: "feed_all push chunks newSseParser = push (concat chunks) newSseParser"
  unfolding push_def
  by (rule sse.pipe.feed_all_concat) (simp add: newSseParser_def decode_step_def)

text \<open>
  C10.  How the network cuts the stream does not matter: any list of chunks, malformed bytes
  included, gives the events that the whole stream in one chunk gives.
\<close>

theorem sse_chunk_independent: "parse_stream chunks = parse_stream [concat chunks]"
  by (simp only: parse_stream_def push_chunks) simp

text \<open>
  What the decoder returns is always well-formed UTF-16: the text of a sequence of
  Unicode scalar values, with no surrogate on its own, whatever the bytes are and
  wherever they are cut.
\<close>

theorem utf8_output_wellformed:
  "\<exists>cps. list_all scalar cps \<and>
     (let (d', text) = feed_all (\<lambda>chunk. decode chunk False) chunks \<lparr>pending = []\<rparr>;
          (d'', rest) = decode [] True d'
      in text @ rest) = concat (map fromCodePoint cps)"
proof -
  let ?bs = "concat chunks"
  have all: "feed_all (\<lambda>chunk. decode chunk False) chunks \<lparr>pending = []\<rparr> = decode ?bs False \<lparr>pending = []\<rparr>"
    by (rule utf8.feed_all_concat) (simp add: decode_step_def)
  obtain cps where 1: "list_all scalar cps" "fst (decode_loop False ?bs) = concat (map fromCodePoint cps)"
    using decode_loop_wellformed by blast
  obtain cps' where 2: "list_all scalar cps'"
    "fst (decode_loop True (snd (decode_loop False ?bs))) = concat (map fromCodePoint cps')"
    using decode_loop_wellformed by blast
  show ?thesis
    by (rule exI[of _ "cps @ cps'"]) (simp add: all decode_def case_prod_unfold Let_def 1 2)
qed

text \<open>
  C11.  Decoding inverts encoding: the UTF-8 bytes of a text, cut into any chunks, decode to
  that text and leave nothing pending.
\<close>

theorem utf8_roundtrip:
  assumes "list_all scalar cps" and "concat chunks = concat (map utf8_encode cps)"
  shows "feed_all (\<lambda>chunk. decode chunk False) chunks \<lparr>pending = []\<rparr> =
    (\<lparr>pending = []\<rparr>, concat (map fromCodePoint cps))"
proof -
  have "feed_all (\<lambda>chunk. decode chunk False) chunks \<lparr>pending = []\<rparr> =
      decode (concat chunks) False \<lparr>pending = []\<rparr>"
    by (rule utf8.feed_all_concat) (simp add: decode_step_def)
  then show ?thesis using decode_loop_encode[OF assms(1), of False] by (simp add: decode_def assms(2))
qed

text \<open>The euro sign and a musical clef, cut inside both characters.\<close>

theorem utf8_roundtrip_witness:
  "feed_all (\<lambda>chunk. decode chunk False) [[0xE2], [0x82, 0xAC, 0xF0, 0x9D], [0x84, 0x9E]] \<lparr>pending = []\<rparr> =
    (\<lparr>pending = []\<rparr>, [0x20AC, 0xD834, 0xDD1E])"
proof -
  have "concat (map utf8_encode [0x20AC, 0x1D11E]) = [0xE2, 0x82, 0xAC, 0xF0, 0x9D, 0x84, 0x9E]"
    and "concat (map fromCodePoint [0x20AC, 0x1D11E]) = [0x20AC, 0xD834, 0xDD1E]"
    and "list_all scalar [0x20AC, 0x1D11E]"
    by (simp_all add: utf8_encode_def fromCodePoint_def scalar_def)
  with utf8_roundtrip[of "[0x20AC, 0x1D11E]" "[[0xE2], [0x82, 0xAC, 0xF0, 0x9D], [0x84, 0x9E]]"]
  show ?thesis by simp
qed

text \<open>
  C12.  The events a server writes are the events the parser reports, in order, with data of
  several lines, over a UTF-8 stream cut into any chunks.
\<close>

theorem sse_roundtrip:
  assumes "list_all printable es" and "list_all scalar cps"
    and "concat (map fromCodePoint cps) = concat (map print_event es)"
    and "concat chunks = concat (map utf8_encode cps)"
  shows "parse_stream chunks = es"
proof -
  let ?d = "\<lparr>pending = []\<rparr>" and ?l = "snd newSseParser" and ?t = "concat (map print_event es)"
  have d: "decode (concat chunks) False ?d = (?d, ?t)"
    using decode_loop_encode[OF assms(2), of False] by (simp add: decode_def assms(3,4))
  obtain l where l: "consumeLines False ?t ?l = (l, es)" "dataLines l = []" "lineBuffer l = []"
    using consume_all_printed[OF assms(1), of ?l False] by (auto simp: newSseParser_def)
  have "push (concat chunks) newSseParser = ((?d, l), es)"
    using d l by (simp add: push_def feed_through_def consumeText_def newSseParser_def)
  moreover have "decode [] True ?d = (?d, [])"
    by (simp add: decode_def decode_loop_stuck decode_step_def)
  then have "snd (finish (?d, l)) = []"
    using l by (simp add: finish_def consumeText_def consumeLines_None dispatch_def)
  ultimately show ?thesis
    by (simp add: parse_stream_def push_chunks case_prod_unfold Let_def)
qed

definition sample_event :: SseEvent where
  "sample_event = \<lparr>sse_data = js ''a'' @ [LF] @ js ''b'', sse_event = [], sse_id = js ''7''\<rparr>"

theorem sse_roundtrip_witness:
  "parse_stream (map (\<lambda>b. [b]) (concat (map (utf8_encode \<circ> unat) (print_event sample_event)))) = [sample_event]"
proof (rule sse_roundtrip)
  have p: "print_event sample_event =
      [101, 118, 101, 110, 116, 58, 32, 10, 105, 100, 58, 32, 55, 10, 100, 97, 116, 97, 58, 32, 97, 10,
       100, 97, 116, 97, 58, 32, 98, 10, 10]"
    by (simp add: print_event_def print_field_def sample_event_def js_def u16_def)
  show "list_all printable [sample_event]"
    by (simp add: printable_def sample_event_def js_def u16_def)
  show "list_all scalar (map unat (print_event sample_event))" by (simp add: p scalar_def)
  show "concat (map fromCodePoint (map unat (print_event sample_event))) = concat (map print_event [sample_event])"
    by (simp add: p fromCodePoint_def)
  show "concat (map (\<lambda>b. [b]) (concat (map (utf8_encode \<circ> unat) (print_event sample_event)))) =
      concat (map utf8_encode (map unat (print_event sample_event)))"
    by simp
qed

end
