(* ===== verification/Mini_Storage.thy ===== *)
theory Mini_Storage
  imports JS_Value
begin

text \<open>
  The mini-app's conversations, \<open>miniapp/src/playground/storage.ts\<close>: the data, the
  compaction that bounds what is stored, and loading, saving and clearing on the
  device's storage.  The storage is a map from keys to values; each of its three
  operations may throw for a key.  A key that is not present reads as the empty string.
  The clock and the random number are arguments.
\<close>

section \<open>Device storage\<close>

record device =
  storage :: "jstring \<rightharpoonup> jsval"
  getThrows :: "jstring \<Rightarrow> bool"
  setThrows :: "jstring \<Rightarrow> bool"
  removeThrows :: "jstring \<Rightarrow> bool"
  removedFiles :: "jsval list"

definition getStorageSync :: "jstring \<Rightarrow> device \<Rightarrow> jsval option" where
  "getStorageSync k d =
     (if getThrows d k then None else Some (case storage d k of Some v \<Rightarrow> v | None \<Rightarrow> JStr []))"

definition setStorageSync :: "jstring \<Rightarrow> jsval \<Rightarrow> device \<Rightarrow> device option" where
  "setStorageSync k v d = (if setThrows d k then None else Some (d\<lparr>storage := (storage d)(k \<mapsto> v)\<rparr>))"

definition removeStorageSync :: "jstring \<Rightarrow> device \<Rightarrow> device option" where
  "removeStorageSync k d = (if removeThrows d k then None else Some (d\<lparr>storage := (storage d)(k := None)\<rparr>))"

text \<open>\<open>try { ... } catch {}\<close> around one operation.\<close>

definition attempt :: "('d \<Rightarrow> 'd option) \<Rightarrow> 'd \<Rightarrow> 'd" where
  "attempt f d = nullish (f d) d"

section \<open>Data\<close>

datatype ChatRole = Assistant | User

record ChatMessage =
  content :: jstring
  createdAt :: jnum
  msg_id :: jstring
  imagePath :: "jstring option"
  msg_role :: ChatRole

record ConversationDraft =
  draft_group :: jstring
  draft_messages :: "ChatMessage list"
  draft_model :: jstring

record ChatConversation =
  conv_id :: jstring
  conv_group :: jstring
  conv_messages :: "ChatMessage list"
  conv_model :: jstring
  updatedAt :: jnum

record ConversationStore =
  activeId :: jstring
  conversations :: "ChatConversation list"

definition LEGACY_KEY :: jstring where "LEGACY_KEY = js ''miniapp:playground:v1''"
definition STORAGE_KEY :: jstring where "STORAGE_KEY = js ''miniapp:playground:v2''"
definition MAX_MESSAGES :: nat where "MAX_MESSAGES = 40"
definition MAX_CHARACTERS :: nat where "MAX_CHARACTERS = 60000"

section \<open>Values and typed data\<close>

definition role_str :: "ChatRole \<Rightarrow> jstring" where
  "role_str r = (case r of Assistant \<Rightarrow> js ''assistant'' | User \<Rightarrow> js ''user'')"

definition message_val :: "ChatMessage \<Rightarrow> jsval" where
  "message_val m = JObj
     ([(js ''content'', JStr (content m)), (js ''createdAt'', JNum (createdAt m)),
       (js ''id'', JStr (msg_id m))] @
      (case imagePath m of None \<Rightarrow> [] | Some p \<Rightarrow> [(js ''imagePath'', JStr p)]) @
      [(js ''role'', JStr (role_str (msg_role m)))])"

definition conversation_val :: "ChatConversation \<Rightarrow> jsval" where
  "conversation_val c = JObj
     [(js ''id'', JStr (conv_id c)), (js ''group'', JStr (conv_group c)),
      (js ''messages'', JArr (map message_val (conv_messages c))),
      (js ''model'', JStr (conv_model c)), (js ''updatedAt'', JNum (updatedAt c))]"

definition store_val :: "ConversationStore \<Rightarrow> jsval" where
  "store_val s = JObj
     [(js ''activeId'', JStr (activeId s)),
      (js ''conversations'', JArr (map conversation_val (conversations s))),
      (js ''version'', JNum (jint 2))]"

definition isMessage :: "jsval \<Rightarrow> bool" where
  "isMessage v \<longleftrightarrow> truthy v \<and> is_object v \<and>
     (fld v ''role'' = JStr (js ''user'') \<or> fld v ''role'' = JStr (js ''assistant'')) \<and>
     is_string (fld v ''id'') \<and> is_string (fld v ''content'') \<and>
     (fld v ''imagePath'' = JUndef \<or> is_string (fld v ''imagePath'')) \<and>
     is_number (fld v ''createdAt'') \<and> isFinite (the_num (fld v ''createdAt''))"

definition as_message :: "jsval \<Rightarrow> ChatMessage" where
  "as_message v =
     \<lparr>content = the_str (fld v ''content''), createdAt = the_num (fld v ''createdAt''),
      msg_id = the_str (fld v ''id''),
      imagePath = (if fld v ''imagePath'' = JUndef then None else Some (the_str (fld v ''imagePath''))),
      msg_role = (if fld v ''role'' = JStr (js ''user'') then User else Assistant)\<rparr>"

text \<open>The type guard of the filter in \<open>loadConversationStore\<close>.\<close>

definition isConversation :: "jsval \<Rightarrow> bool" where
  "isConversation v \<longleftrightarrow> truthy v \<and> is_object v \<and>
     is_string (fld v ''id'') \<and> is_string (fld v ''group'') \<and> is_string (fld v ''model'') \<and>
     is_number (fld v ''updatedAt'') \<and> isFinite (the_num (fld v ''updatedAt'')) \<and>
     is_array (fld v ''messages'') \<and> list_all isMessage (the_arr (fld v ''messages''))"

definition as_conversation :: "jsval \<Rightarrow> ChatConversation" where
  "as_conversation v =
     \<lparr>conv_id = the_str (fld v ''id''), conv_group = the_str (fld v ''group''),
      conv_messages = map as_message (the_arr (fld v ''messages'')),
      conv_model = the_str (fld v ''model''), updatedAt = the_num (fld v ''updatedAt'')\<rparr>"

section \<open>Compaction\<close>

text \<open>The loop over the messages, the latest first, with the counts of what it has kept.\<close>

fun compact_loop :: "nat \<Rightarrow> nat \<Rightarrow> ChatMessage list \<Rightarrow> ChatMessage list" where
  "compact_loop kept characters [] = []"
| "compact_loop kept characters (message # ms) =
     (if MAX_MESSAGES \<le> kept then []
      else if MAX_CHARACTERS \<le> characters then []
      else let text = slice_last (MAX_CHARACTERS - characters) (content message)
           in message\<lparr>content := text\<rparr> # compact_loop (kept + 1) (characters + length text) ms)"

definition compactMessages :: "ChatMessage list \<Rightarrow> ChatMessage list" where
  "compactMessages ms = rev (compact_loop 0 0 (rev ms))"

definition compactConversation :: "ConversationDraft \<Rightarrow> ConversationDraft" where
  "compactConversation draft = draft\<lparr>draft_messages := compactMessages (draft_messages draft)\<rparr>"

definition createConversation ::
  "nat \<Rightarrow> jstring \<Rightarrow> jstring \<Rightarrow> jstring \<Rightarrow> ChatConversation" where
  "createConversation now randomHex grp model =
     \<lparr>conv_id = js ''chat-'' @ show_nat now @ js ''-'' @ randomHex, conv_group = grp,
      conv_messages = [], conv_model = model, updatedAt = jint (int now)\<rparr>"

text \<open>\<open>replace(/\s+/g, ' ')\<close>\<close>

fun collapse_ws :: "bool \<Rightarrow> jstring \<Rightarrow> jstring" where
  "collapse_ws in_ws [] = []"
| "collapse_ws in_ws (c # cs) =
     (if is_ws c then (if in_ws then [] else [32]) @ collapse_ws True cs
      else c # collapse_ws False cs)"

definition conversationTitle :: "ChatConversation \<Rightarrow> jstring" where
  "conversationTitle c =
     (case find (\<lambda>m. msg_role m = User) (conv_messages c) of
        None \<Rightarrow> []
      | Some m \<Rightarrow> take 42 (jtrim (collapse_ws False (content m))))"

text \<open>The conversations with messages, the most recently updated first.\<close>

definition conversationHistory :: "ChatConversation list \<Rightarrow> ChatConversation list" where
  "conversationHistory cs =
     js_sort (\<lambda>left right. jlt (jint 0) (jsub (updatedAt right) (updatedAt left)))
       (filter (\<lambda>c. conv_messages c \<noteq> []) cs)"

definition compact_conversation :: "ChatConversation \<Rightarrow> ChatConversation" where
  "compact_conversation c =
     (let d = compactConversation
                \<lparr>draft_group = conv_group c, draft_messages = conv_messages c, draft_model = conv_model c\<rparr>
      in \<lparr>conv_id = conv_id c, conv_group = draft_group d, conv_messages = draft_messages d,
          conv_model = draft_model d, updatedAt = updatedAt c\<rparr>)"

definition compactConversationStore :: "ConversationStore \<Rightarrow> ConversationStore" where
  "compactConversationStore s =
     \<lparr>activeId = activeId s, conversations = map compact_conversation (conversations s)\<rparr>"

section \<open>Loading, saving, clearing\<close>

definition fresh_store :: "nat \<Rightarrow> jstring \<Rightarrow> ConversationStore" where
  "fresh_store now randomHex =
     (let c = createConversation now randomHex [] []
      in \<lparr>activeId = conv_id c, conversations = [c]\<rparr>)"

definition load_current :: "jsval \<Rightarrow> ConversationStore option" where
  "load_current value =
     (if fld value ''version'' = JNum (jint 2) \<and> is_array (fld value ''conversations'') then
        let cs = map as_conversation (filter isConversation (the_arr (fld value ''conversations'')))
        in case cs of
             [] \<Rightarrow> None
           | c # _ \<Rightarrow>
               let active = (if \<exists>x \<in> set cs. JStr (conv_id x) = fld value ''activeId''
                             then the_str (fld value ''activeId'') else conv_id c)
               in Some (compactConversationStore \<lparr>activeId = active, conversations = cs\<rparr>)
      else None)"

definition load_legacy :: "nat \<Rightarrow> jsval \<Rightarrow> ConversationStore option" where
  "load_legacy now legacy =
     (if truthy legacy \<and>
         (fld legacy ''version'' = JNum (jint 1) \<or> fld legacy ''version'' = JUndef) \<and>
         is_string (fld legacy ''group'') \<and> is_string (fld legacy ''model'') \<and>
         is_array (fld legacy ''messages'') \<and> list_all isMessage (the_arr (fld legacy ''messages''))
      then
        let d = compactConversation
                  \<lparr>draft_group = the_str (fld legacy ''group''),
                   draft_messages = map as_message (the_arr (fld legacy ''messages'')),
                   draft_model = the_str (fld legacy ''model'')\<rparr>;
            c = \<lparr>conv_id = js ''chat-legacy-v1'', conv_group = draft_group d,
                 conv_messages = draft_messages d, conv_model = draft_model d,
                 updatedAt = (if draft_messages d = [] then jint (int now)
                              else createdAt (last (draft_messages d)))\<rparr>
        in Some \<lparr>activeId = conv_id c, conversations = [c]\<rparr>
      else None)"

definition loadConversationStore :: "nat \<Rightarrow> jstring \<Rightarrow> device \<Rightarrow> ConversationStore" where
  "loadConversationStore now randomHex d =
     nullish
       (case getStorageSync STORAGE_KEY d of
          None \<Rightarrow> None
        | Some value \<Rightarrow>
            (case load_current value of
               Some s \<Rightarrow> Some s
             | None \<Rightarrow>
                 (case getStorageSync LEGACY_KEY d of
                    None \<Rightarrow> None
                  | Some legacy \<Rightarrow> load_legacy now legacy)))
       (fresh_store now randomHex)"

definition saveConversationStore :: "ConversationStore \<Rightarrow> device \<Rightarrow> bool \<times> device" where
  "saveConversationStore s d =
     (case setStorageSync STORAGE_KEY (store_val (compactConversationStore s)) d of
        None \<Rightarrow> (False, d)
      | Some d' \<Rightarrow> (True, attempt (removeStorageSync LEGACY_KEY) d'))"

text \<open>
  The saved files of a list of messages, each once; \<open>None\<close> when reading \<open>imagePath\<close>
  of a message throws, before any file is removed.
\<close>

definition removeConversationImages :: "jsval list \<Rightarrow> jsval list option" where
  "removeConversationImages ms =
     (if JNull \<in> set ms \<or> JUndef \<in> set ms then None
      else Some (uniq (filter truthy (map (\<lambda>m. fld m ''imagePath'') ms))))"

text \<open>The loop of \<open>clearConversation\<close>: it ends at the first exception.\<close>

fun clear_images :: "jsval list \<Rightarrow> jsval list" where
  "clear_images [] = []"
| "clear_images (c # cs) =
     (if is_array (fld c ''messages'') then
        (case removeConversationImages (the_arr (fld c ''messages'')) of
           None \<Rightarrow> []
         | Some paths \<Rightarrow> paths @ clear_images cs)
      else clear_images cs)"

definition clearConversation :: "device \<Rightarrow> device" where
  "clearConversation d =
     (let stored = getStorageSync STORAGE_KEY d;
          files = (case stored of None \<Rightarrow> [] | Some v \<Rightarrow> clear_images (the_arr (fld v ''conversations'')));
          d1 = d\<lparr>removedFiles := removedFiles d @ files\<rparr>
      in attempt (removeStorageSync LEGACY_KEY) (attempt (removeStorageSync STORAGE_KEY) d1))"

section \<open>What compaction keeps\<close>

definition total_chars :: "ChatMessage list \<Rightarrow> nat" where
  "total_chars ms = sum_list (map (length \<circ> content) ms)"

definition within_limits :: "ChatMessage list \<Rightarrow> bool" where
  "within_limits ms \<longleftrightarrow> length ms \<le> MAX_MESSAGES \<and> total_chars ms \<le> MAX_CHARACTERS"

lemma total_chars_simps [simp]:
  "total_chars [] = 0" "total_chars (m # ms) = length (content m) + total_chars ms"
  "total_chars (rev ms) = total_chars ms"
  by (simp_all add: total_chars_def rev_map[symmetric] sum_list_rev)

lemma within_limits_Nil: "within_limits []"
  by (simp add: within_limits_def)

lemma compact_loop_bounds:
  "length (compact_loop k c xs) \<le> MAX_MESSAGES - k \<and>
   total_chars (compact_loop k c xs) \<le> MAX_CHARACTERS - c"
proof (induction k c xs rule: compact_loop.induct)
  case (2 k c m ms)
  let ?n = "min (MAX_CHARACTERS - c) (length (content m))"
  show ?case
  proof (cases "MAX_MESSAGES \<le> k \<or> MAX_CHARACTERS \<le> c")
    case False
    with 2 have "length (compact_loop (Suc k) (c + ?n) ms) \<le> MAX_MESSAGES - Suc k"
      and "total_chars (compact_loop (Suc k) (c + ?n) ms) \<le> MAX_CHARACTERS - (c + ?n)"
      by (simp_all add: Let_def)
    moreover have "?n \<le> MAX_CHARACTERS - c" by simp
    ultimately show ?thesis using False by (simp add: Let_def) (intro conjI; linarith)
  qed auto
qed simp

text \<open>
  A conversation that fits is kept as it is.  At exactly the limit of characters an empty
  message is dropped: the loop ends before it looks at the message.
\<close>

definition fits :: "ChatMessage list \<Rightarrow> bool" where
  "fits ms \<longleftrightarrow> within_limits ms \<and> (total_chars ms = MAX_CHARACTERS \<longrightarrow> [] \<notin> content ` set ms)"

lemma compact_loop_fits:
  "k + length xs \<le> MAX_MESSAGES \<Longrightarrow> c + total_chars xs \<le> MAX_CHARACTERS \<Longrightarrow>
     (c + total_chars xs = MAX_CHARACTERS \<longrightarrow> [] \<notin> content ` set xs) \<Longrightarrow> compact_loop k c xs = xs"
proof (induction xs arbitrary: k c)
  case (Cons m ms)
  have "c < MAX_CHARACTERS"
    using Cons.prems(2,3) by (cases "content m") auto
  moreover have "compact_loop (k + 1) (c + length (content m)) ms = ms"
    using Cons.prems by (intro Cons.IH) auto
  ultimately show ?case using Cons.prems by (simp add: Let_def)
qed simp

lemma compactMessages_fits: "fits ms \<Longrightarrow> compactMessages ms = ms"
  by (simp add: compactMessages_def compact_loop_fits fits_def within_limits_def)

lemma compact_fitting_store:
  assumes "\<And>c. c \<in> set (conversations s) \<Longrightarrow> fits (conv_messages c)"
  shows "compactConversationStore s = s"
proof -
  have "compact_conversation c = c" if "c \<in> set (conversations s)" for c
    using compactMessages_fits[OF assms[OF that]]
    by (simp add: compact_conversation_def compactConversation_def)
  then show ?thesis by (simp add: compactConversationStore_def map_idI)
qed

lemma compact_loop_idem: "compact_loop k c (compact_loop k c xs) = compact_loop k c xs"
  by (induction k c xs rule: compact_loop.induct) (simp_all add: Let_def)

lemma compact_loop_Nil: "compact_loop k c xs = [] \<Longrightarrow> xs = [] \<or> MAX_MESSAGES \<le> k \<or> MAX_CHARACTERS \<le> c"
  by (cases xs) (auto simp: Let_def split: if_splits)

text \<open>The kept messages are the first ones, all complete but the last, which keeps its end.\<close>

lemma compact_loop_shape:
  "compact_loop k c xs \<noteq> [] \<Longrightarrow> \<exists>j n. j < length xs \<and>
     compact_loop k c xs = take j xs @ [(xs ! j)\<lparr>content := drop n (content (xs ! j))\<rparr>]"
proof (induction k c xs rule: compact_loop.induct)
  case (2 k c m ms)
  let ?t = "slice_last (MAX_CHARACTERS - c) (content m)"
  let ?rs = "compact_loop (k + 1) (c + length ?t) ms"
  from 2(2) have g: "\<not> MAX_MESSAGES \<le> k" "\<not> MAX_CHARACTERS \<le> c" by (auto split: if_splits)
  then have eq: "compact_loop k c (m # ms) = m\<lparr>content := ?t\<rparr> # ?rs" by (simp add: Let_def)
  show ?case
  proof (cases "?rs = []")
    case True
    then show ?thesis unfolding eq
      by (intro exI[of _ 0] exI[of _ "length (content m) - (MAX_CHARACTERS - c)"])
        (simp add: slice_last_def)
  next
    case False
    from 2(1)[OF g refl False] obtain j n where j: "j < length ms"
      "?rs = take j ms @ [(ms ! j)\<lparr>content := drop n (content (ms ! j))\<rparr>]" by blast
    have "\<not> MAX_CHARACTERS \<le> c + length ?t"
      using False by (cases ms) (auto split: if_splits)
    then have "length (content m) \<le> MAX_CHARACTERS - c" by (auto simp: min_def split: if_splits)
    then have "?t = content m" by simp
    with j show ?thesis unfolding eq
      by (intro exI[of _ "Suc j"] exI[of _ n]) simp
  qed
qed simp

lemma compact_loop_maximal:
  "compact_loop k c xs \<noteq> xs \<Longrightarrow> k \<le> MAX_MESSAGES \<Longrightarrow> c \<le> MAX_CHARACTERS \<Longrightarrow>
     k + length (compact_loop k c xs) = MAX_MESSAGES \<or>
     c + total_chars (compact_loop k c xs) = MAX_CHARACTERS"
proof (induction k c xs rule: compact_loop.induct)
  case (2 k c m ms)
  let ?t = "slice_last (MAX_CHARACTERS - c) (content m)"
  let ?rs = "compact_loop (k + 1) (c + length ?t) ms"
  show ?case
  proof (cases "MAX_MESSAGES \<le> k \<or> MAX_CHARACTERS \<le> c")
    case True
    with 2(3,4) show ?thesis by auto
  next
    case False
    then have g: "\<not> MAX_MESSAGES \<le> k" "\<not> MAX_CHARACTERS \<le> c" by auto
    then have eq: "compact_loop k c (m # ms) = m\<lparr>content := ?t\<rparr> # ?rs" by (simp add: Let_def)
    show ?thesis
    proof (cases "?rs = ms")
      case True
      with eq 2(2) have "?t \<noteq> content m" by auto
      then have "MAX_CHARACTERS - c < length (content m)" by (metis not_le slice_last_id)
      with g have "c + length ?t = MAX_CHARACTERS" by simp
      moreover from this have "?rs = []" by (cases ms) auto
      ultimately show ?thesis unfolding eq by simp
    next
      case rs: False
      from 2(1)[OF g refl rs] g show ?thesis unfolding eq by auto
    qed
  qed
qed simp

lemma compact_compactMessages [simp]: "within_limits (compactMessages ms)"
  using compact_loop_bounds[of 0 0 "rev ms"] by (simp add: within_limits_def compactMessages_def)

lemma compactMessages_idem [simp]: "compactMessages (compactMessages ms) = compactMessages ms"
  by (simp add: compactMessages_def compact_loop_idem)

lemma compact_conversation_sel [simp]:
  "conv_id (compact_conversation c) = conv_id c"
  "conv_messages (compact_conversation c) = compactMessages (conv_messages c)"
  by (simp_all add: compact_conversation_def compactConversation_def Let_def)

lemma compact_conversation_idem [simp]:
  "compact_conversation (compact_conversation c) = compact_conversation c"
  by (simp add: compact_conversation_def compactConversation_def Let_def)

lemma compact_store_idem [simp]:
  "compactConversationStore (compactConversationStore s) = compactConversationStore s"
  by (simp add: compactConversationStore_def)

section \<open>Round trip through the storage\<close>

definition storable_message :: "ChatMessage \<Rightarrow> bool" where
  "storable_message m \<longleftrightarrow> isFinite (createdAt m)"

definition storable :: "ConversationStore \<Rightarrow> bool" where
  "storable s \<longleftrightarrow> conversations s \<noteq> [] \<and> activeId s \<in> conv_id ` set (conversations s) \<and>
     list_all (\<lambda>c. isFinite (updatedAt c) \<and> list_all storable_message (conv_messages c)) (conversations s)"

lemma as_message_val [simp]: "as_message (message_val m) = m"
  by (cases m) (auto simp: as_message_def message_val_def role_str_def split: option.split ChatRole.split)

lemma isMessage_val [simp]: "storable_message m \<Longrightarrow> isMessage (message_val m)"
  by (auto simp: isMessage_def message_val_def role_str_def storable_message_def
      split: option.split ChatRole.split)

lemma as_conversation_val [simp]: "as_conversation (conversation_val c) = c"
  by (simp add: as_conversation_def conversation_val_def comp_def)

lemma isConversation_val [simp]:
  "isFinite (updatedAt c) \<Longrightarrow> list_all storable_message (conv_messages c) \<Longrightarrow>
     isConversation (conversation_val c)"
  by (simp add: isConversation_def conversation_val_def list_all_iff)

lemma storable_compactMessages:
  assumes "list_all storable_message ms"
  shows "list_all storable_message (compactMessages ms)"
proof -
  have "list_all storable_message xs \<Longrightarrow> list_all storable_message (compact_loop k c xs)" for k c xs
    by (induction k c xs rule: compact_loop.induct) (auto simp: Let_def storable_message_def)
  from this[of "rev ms" 0 0] assms show ?thesis by (simp add: compactMessages_def list_all_iff)
qed

lemma storable_compact:
  assumes "storable s"
  shows "storable (compactConversationStore s)"
proof -
  have "updatedAt (compact_conversation c) = updatedAt c" for c
    by (simp add: compact_conversation_def Let_def)
  with assms show ?thesis
    by (auto simp: storable_def compactConversationStore_def list_all_iff
        storable_compactMessages[unfolded list_all_iff] image_image)
qed

lemma load_current_val:
  assumes "storable s"
  shows "load_current (store_val s) = Some (compactConversationStore s)"
proof -
  have all: "filter isConversation (map conversation_val (conversations s)) =
      map conversation_val (conversations s)"
    using assms by (auto simp: storable_def list_all_iff filter_id_conv)
  have "map as_conversation (filter isConversation (map conversation_val (conversations s))) =
      conversations s"
    unfolding all by (simp add: comp_def)
  moreover obtain c cs where "conversations s = c # cs"
    using assms by (cases "conversations s") (auto simp: storable_def)
  moreover have "\<exists>x \<in> set (conversations s). conv_id x = activeId s"
    using assms by (auto simp: storable_def image_iff)
  ultimately show ?thesis
    by (cases s) (simp add: load_current_def store_val_def Let_def)
qed

definition usable :: "ConversationStore \<Rightarrow> bool" where
  "usable s \<longleftrightarrow> conversations s \<noteq> [] \<and> activeId s \<in> conv_id ` set (conversations s) \<and>
     list_all (within_limits \<circ> conv_messages) (conversations s)"

lemma load_current_wf:
  assumes "load_current v = Some s"
  shows "usable s"
proof -
  let ?cs = "map as_conversation (filter isConversation (the_arr (fld v ''conversations'')))"
  from assms obtain c cs a where cs: "?cs = c # cs"
    and s: "s = compactConversationStore \<lparr>activeId = a, conversations = ?cs\<rparr>"
    and a: "a = conv_id c \<or> (\<exists>x \<in> set ?cs. JStr (conv_id x) = fld v ''activeId'' \<and>
              a = the_str (fld v ''activeId''))"
    by (cases ?cs) (auto simp: load_current_def Let_def split: if_splits)
  from a cs have "a \<in> conv_id ` set ?cs" by (fastforce dest: sym)
  then have "a \<in> conv_id ` set (conversations s)" by (simp add: s compactConversationStore_def image_image)
  with cs show ?thesis by (simp add: s usable_def compactConversationStore_def list_all_iff)
qed

lemma load_legacy_wf: "load_legacy now v = Some s \<Longrightarrow> usable s"
  by (auto simp: load_legacy_def usable_def within_limits_Nil compactConversation_def Let_def split: if_splits)

lemma fresh_store_wf: "usable (fresh_store now r)"
  by (simp add: fresh_store_def createConversation_def within_limits_def usable_def Let_def)

section \<open>Files of a store\<close>

definition image_paths :: "ChatMessage list \<Rightarrow> jstring set" where
  "image_paths ms = {p. p \<noteq> [] \<and> (\<exists>m \<in> set ms. imagePath m = Some p)}"

definition stored_images :: "ConversationStore \<Rightarrow> jstring set" where
  "stored_images s = (\<Union>c \<in> set (conversations (compactConversationStore s)). image_paths (conv_messages c))"

lemma imagePath_val: "fld (message_val m) ''imagePath'' = (case imagePath m of None \<Rightarrow> JUndef | Some p \<Rightarrow> JStr p)"
  by (simp add: message_val_def split: option.split)

lemma remove_images_val:
  "\<exists>ps. removeConversationImages (map message_val ms) = Some ps \<and> JStr ` image_paths ms \<subseteq> set ps"
proof -
  have "JNull \<notin> set (map message_val ms)" "JUndef \<notin> set (map message_val ms)"
    by (auto simp: message_val_def)
  moreover have "JStr p \<in> (\<lambda>m. fld (message_val m) ''imagePath'') ` set ms" if p: "p \<in> image_paths ms" for p
  proof -
    obtain m where "m \<in> set ms" "imagePath m = Some p" using p by (auto simp: image_paths_def)
    then show ?thesis by (intro image_eqI[of _ _ m]) (simp_all add: imagePath_val)
  qed
  then have "JStr ` image_paths ms \<subseteq>
      {x \<in> (\<lambda>m. fld (message_val m) ''imagePath'') ` set ms. truthy x}"
    by (auto simp: image_paths_def)
  ultimately show ?thesis by (simp add: removeConversationImages_def image_image comp_def)
qed

lemma clear_images_all:
  "c \<in> set cs \<Longrightarrow> p \<in> image_paths (conv_messages c) \<Longrightarrow> JStr p \<in> set (clear_images (map conversation_val cs))"
proof (induction cs)
  case (Cons c' cs)
  obtain ps where "removeConversationImages (map message_val (conv_messages c')) = Some ps"
    and "JStr ` image_paths (conv_messages c') \<subseteq> set ps" using remove_images_val by blast
  with Cons show ?case by (auto simp: conversation_val_def)
qed simp

section \<open>Sample data\<close>

definition sample_device :: device where
  "sample_device = \<lparr>storage = Map.empty, getThrows = (\<lambda>_. False), setThrows = (\<lambda>_. False),
     removeThrows = (\<lambda>k. k = LEGACY_KEY), removedFiles = []\<rparr>"

definition sample_message :: "string \<Rightarrow> string \<Rightarrow> ChatMessage" where
  "sample_message i t = \<lparr>content = js t, createdAt = jint 5, msg_id = js i,
     imagePath = Some (js ''wxfile://1''), msg_role = User\<rparr>"

definition sample_store :: ConversationStore where
  "sample_store = \<lparr>activeId = js ''c1'', conversations =
     [\<lparr>conv_id = js ''c1'', conv_group = js ''default'',
       conv_messages = [sample_message ''1'' ''hi'', sample_message ''2'' ''there''],
       conv_model = js ''m'', updatedAt = jint 9\<rparr>]\<rparr>"

lemma sample_storable: "storable sample_store"
  by (simp add: storable_def sample_store_def storable_message_def sample_message_def)

section \<open>Properties\<close>

text \<open>
  Compaction keeps the latest messages and no fewer than the limits require.  What is
  left is a suffix of the conversation in which only the first message may have lost the
  beginning of its text; it has at most 40 messages and 60000 code units; and if
  anything was dropped, one of the two limits is reached exactly.
\<close>

theorem compaction_keeps_latest:
  "let rs = compactMessages ms; k = length ms - length rs in
     within_limits rs \<and> length rs \<le> length ms \<and>
     (rs = ms \<or> length rs = MAX_MESSAGES \<or> total_chars rs = MAX_CHARACTERS) \<and>
     (rs = [] \<or> (\<exists>n. rs = (ms ! k)\<lparr>content := drop n (content (ms ! k))\<rparr> # drop (k + 1) ms))"
proof -
  let ?l = "compact_loop 0 0 (rev ms)"
  have "?l = rev ms \<or> length ?l = MAX_MESSAGES \<or> total_chars ?l = MAX_CHARACTERS"
    using compact_loop_maximal[of 0 0 "rev ms"] by auto
  then have max: "compactMessages ms = ms \<or> length (compactMessages ms) = MAX_MESSAGES \<or>
      total_chars (compactMessages ms) = MAX_CHARACTERS"
    by (simp add: compactMessages_def) (metis rev_rev_ident)
  show ?thesis
  proof (cases "?l = []")
    case True
    then have "compactMessages ms = []" by (simp add: compactMessages_def)
    with max show ?thesis using compact_compactMessages[of ms] by (simp add: Let_def)
  next
    case False
    from compact_loop_shape[OF this] obtain j n where j: "j < length ms"
      and l: "?l = take j (rev ms) @ [(rev ms ! j)\<lparr>content := drop n (content (rev ms ! j))\<rparr>]" by auto
    let ?k = "length ms - Suc j"
    have rs: "compactMessages ms = (ms ! ?k)\<lparr>content := drop n (content (ms ! ?k))\<rparr> # drop (?k + 1) ms"
      using j by (simp add: compactMessages_def l rev_nth rev_take Suc_diff_Suc)
    have len: "length (compactMessages ms) = Suc j" using j by (simp add: compactMessages_def l)
    with max j show ?thesis using compact_compactMessages[of ms] rs by (auto simp: Let_def)
  qed
qed

text \<open>
  The history lists exactly the conversations that have messages, the latest update
  first and equal ones in their stored order (timestamps being integers of milliseconds).
\<close>

theorem history_latest_first:
  assumes "\<forall>c \<in> set cs. updatedAt c = jint (stamp c) \<and> 0 \<le> stamp c \<and> stamp c \<le> max_safe"
  shows "conversationHistory cs =
    sort_key (\<lambda>c. - stamp c) (filter (\<lambda>c. conv_messages c \<noteq> []) cs)"
  unfolding conversationHistory_def
proof (rule js_sort_key, intro ballI)
  fix a b assume "a \<in> set (filter (\<lambda>c. conv_messages c \<noteq> []) cs)" "b \<in> set (filter (\<lambda>c. conv_messages c \<noteq> []) cs)"
  with assms have "updatedAt a = jint (stamp a)" "updatedAt b = jint (stamp b)"
    "0 \<le> stamp a" "stamp a \<le> max_safe" "0 \<le> stamp b" "stamp b \<le> max_safe" by simp_all
  then show "jlt (jint 0) (jsub (updatedAt b) (updatedAt a)) \<longleftrightarrow> - stamp b < - stamp a"
    by (simp add: jsub_jint)
qed

definition sample_conversation :: "string \<Rightarrow> int \<Rightarrow> ChatConversation" where
  "sample_conversation i t = (hd (conversations sample_store))\<lparr>conv_id := js i, updatedAt := jint t\<rparr>"

theorem history_latest_first_witness:
  "conversationHistory [sample_conversation ''a'' 5, sample_conversation ''b'' 9] =
     [sample_conversation ''b'' 9, sample_conversation ''a'' 5]"
proof -
  let ?stamp = "\<lambda>c. if conv_id c = js ''a'' then 5 else 9 :: int"
  have "conversationHistory [sample_conversation ''a'' 5, sample_conversation ''b'' 9] =
      sort_key (\<lambda>c. - ?stamp c)
        (filter (\<lambda>c. conv_messages c \<noteq> []) [sample_conversation ''a'' 5, sample_conversation ''b'' 9])"
    by (rule history_latest_first) (simp add: sample_conversation_def max_safe_def)
  then show ?thesis by (simp add: sample_conversation_def sample_store_def)
qed

text \<open>
  C15.  Whatever the storage holds or throws, loading returns a usable store: there is a
  conversation, the active one is among them, and every conversation is within the
  limits.
\<close>

theorem load_store_usable: "usable (loadConversationStore now r d)"
  using fresh_store_wf[of now r] load_current_wf load_legacy_wf
  by (auto simp: loadConversationStore_def nullish_def split: option.splits)

text \<open>
  C16.  A store that was saved on a device that can be written and read is the store that is
  loaded, up to compaction; when every conversation has at most 40 messages and 60,000
  characters (and no empty message if it has exactly as many), it is loaded back unchanged,
  with the active conversation, every conversation and every message with all its fields.
\<close>

theorem save_load_roundtrip:
  assumes "storable s" and "saveConversationStore s d = (True, d')" and "\<not> getThrows d STORAGE_KEY"
  shows "loadConversationStore now r d' = compactConversationStore s \<and>
    ((\<forall>c \<in> set (conversations s). fits (conv_messages c)) \<longrightarrow> loadConversationStore now r d' = s)"
proof -
  have "LEGACY_KEY \<noteq> STORAGE_KEY" by (simp add: LEGACY_KEY_def STORAGE_KEY_def)
  with assms(2,3) have "getStorageSync STORAGE_KEY d' = Some (store_val (compactConversationStore s))"
    by (auto simp: saveConversationStore_def setStorageSync_def removeStorageSync_def attempt_def
        getStorageSync_def nullish_def split: if_splits)
  with load_current_val[OF storable_compact[OF assms(1)]]
  have "loadConversationStore now r d' = compactConversationStore s"
    by (simp add: loadConversationStore_def)
  with compact_fitting_store[of s] show ?thesis by auto
qed

theorem save_load_roundtrip_witness:
  "loadConversationStore 7 (js ''ab'') (snd (saveConversationStore sample_store sample_device)) = sample_store"
proof -
  have "saveConversationStore sample_store sample_device =
      (True, snd (saveConversationStore sample_store sample_device))"
    by (simp add: saveConversationStore_def setStorageSync_def sample_device_def)
  moreover have "\<forall>c \<in> set (conversations sample_store). fits (conv_messages c)"
    by (simp add: sample_store_def sample_message_def fits_def within_limits_def total_chars_def
        MAX_MESSAGES_def MAX_CHARACTERS_def)
  moreover have "\<not> getThrows sample_device STORAGE_KEY" by (simp add: sample_device_def)
  ultimately show ?thesis
    using save_load_roundtrip[OF sample_storable, of sample_device _ 7 "js ''ab''"] by blast
qed

text \<open>
  Clearing forgets the conversations: when the storage can be read and removed, the
  saved file of every message is removed and the next load starts a fresh conversation.
\<close>

theorem clear_forgets:
  assumes "saveConversationStore s d = (True, d')"
    and "\<not> getThrows d STORAGE_KEY" and "\<not> removeThrows d STORAGE_KEY" and "\<not> removeThrows d LEGACY_KEY"
  shows "loadConversationStore now r (clearConversation d') = fresh_store now r \<and>
    (\<forall>p \<in> stored_images s. JStr p \<in> set (removedFiles (clearConversation d')))"
proof
  have d': "d' = d\<lparr>storage := (storage d)(STORAGE_KEY \<mapsto> store_val (compactConversationStore s),
      LEGACY_KEY := None)\<rparr>"
    using assms by (auto simp: saveConversationStore_def setStorageSync_def removeStorageSync_def
        attempt_def split: if_splits option.splits)
  have ne: "LEGACY_KEY \<noteq> STORAGE_KEY" by (simp add: LEGACY_KEY_def STORAGE_KEY_def)
  have read: "getStorageSync STORAGE_KEY d' = Some (store_val (compactConversationStore s))"
    using assms(2) ne by (simp add: d' getStorageSync_def)
  have clear: "storage (clearConversation d') STORAGE_KEY = None" "storage (clearConversation d') LEGACY_KEY = None"
    "removedFiles (clearConversation d') = removedFiles d @ clear_images
      (map conversation_val (conversations (compactConversationStore s)))"
    using assms(3,4) read
    by (simp_all add: clearConversation_def removeStorageSync_def attempt_def store_val_def d')
  show "loadConversationStore now r (clearConversation d') = fresh_store now r"
    using clear
    by (simp add: loadConversationStore_def getStorageSync_def load_current_def load_legacy_def)
  show "\<forall>p \<in> stored_images s. JStr p \<in> set (removedFiles (clearConversation d'))"
    unfolding clear stored_images_def using clear_images_all by auto
qed

theorem clear_forgets_witness:
  "JStr (js ''wxfile://1'') \<in> set (removedFiles (clearConversation
     (snd (saveConversationStore sample_store (sample_device\<lparr>removeThrows := (\<lambda>_. False)\<rparr>)))))"
proof -
  let ?d = "sample_device\<lparr>removeThrows := (\<lambda>_. False)\<rparr>"
  obtain d' where d': "saveConversationStore sample_store ?d = (True, d')"
    by (auto simp: saveConversationStore_def setStorageSync_def sample_device_def split: option.splits)
  have "js ''wxfile://1'' \<in> stored_images sample_store"
    by (simp add: stored_images_def image_paths_def sample_store_def sample_message_def
        compactConversationStore_def compactMessages_def MAX_MESSAGES_def MAX_CHARACTERS_def)
  with clear_forgets[OF d', of 7 "js ''ab''"] d' show ?thesis by (simp add: sample_device_def)
qed

end
