(* ===== verification/JS_Convert.thy ===== *)
theory JS_Convert
  imports JS_Value
begin

text \<open>
  Conversions of the language: \<open>Number(...)\<close>, \<open>Number.parseFloat\<close> and
  \<open>Number.parseInt\<close>.  A numeral denotes an exact rational, which is rounded once.
\<close>

section \<open>Numerals\<close>

definition pow10 :: "int \<Rightarrow> rat" where
  "pow10 e = (if 0 \<le> e then 10 ^ nat e else 1 / 10 ^ nat (- e))"

definition span_while :: "('a \<Rightarrow> bool) \<Rightarrow> 'a list \<Rightarrow> 'a list \<times> 'a list" where
  "span_while p xs = (takeWhile p xs, dropWhile p xs)"

text \<open>The exponent at the start of a text, \<open>0\<close> and the whole text when there is none.\<close>

definition exponent_part :: "jstring \<Rightarrow> int \<times> jstring" where
  "exponent_part s =
     (case s of
        c # t \<Rightarrow>
          if c = u16 (CHR ''e'') \<or> c = u16 (CHR ''E'') then
            let neg = (t \<noteq> [] \<and> hd t = u16 (CHR ''-''));
                t' = (if t \<noteq> [] \<and> (hd t = u16 (CHR ''-'') \<or> hd t = u16 (CHR ''+'')) then tl t else t);
                (ds, rest) = span_while is_digit t'
            in if ds = [] then (0, s)
               else (if neg then - int (parse_dec ds) else int (parse_dec ds), rest)
          else (0, s)
      | [] \<Rightarrow> (0, s))"

text \<open>
  The longest unsigned decimal literal a text starts with, \<open>12\<close>, \<open>12.\<close>, \<open>.5\<close> or
  \<open>1.5e-3\<close>, and what follows it.
\<close>

definition decimal_prefix :: "jstring \<Rightarrow> (rat \<times> jstring) option" where
  "decimal_prefix s =
     (let (ip, r) = span_while is_digit s;
          (fp, r') = (case r of
                        c # t \<Rightarrow> if c = u16 (CHR ''.'') \<and> (ip \<noteq> [] \<or> fst (span_while is_digit t) \<noteq> [])
                                then span_while is_digit t else ([], r)
                      | [] \<Rightarrow> ([], r));
          (e, rest) = exponent_part r'
      in if ip = [] \<and> fp = [] then None
         else Some (of_nat (parse_dec (ip @ fp)) * pow10 (e - int (length fp)), rest))"

text \<open>An optional sign, then a decimal literal or \<open>Infinity\<close>.\<close>

definition signed_prefix :: "jstring \<Rightarrow> (jnum \<times> jstring) option" where
  "signed_prefix s =
     (let neg = (s \<noteq> [] \<and> hd s = u16 (CHR ''-''));
          t = (if s \<noteq> [] \<and> (hd s = u16 (CHR ''-'') \<or> hd s = u16 (CHR ''+'')) then tl s else s)
      in if starts_with (js ''Infinity'') t then Some (if neg then NInf else PInf, drop 8 t)
         else case decimal_prefix t of
                None \<Rightarrow> None
              | Some (q, rest) \<Rightarrow> Some (rnd (if neg then - q else q), rest))"

definition parse_float :: "jstring \<Rightarrow> jnum" where
  "parse_float s = (case signed_prefix (dropWhile is_ws s) of None \<Rightarrow> NaN | Some (n, _) \<Rightarrow> n)"

section \<open>\<open>Number(...)\<close>\<close>

definition radix_digit :: "nat \<Rightarrow> jchar \<Rightarrow> nat option" where
  "radix_digit b c =
     (let n = unat c;
          v = (if 48 \<le> n \<and> n \<le> 57 then n - 48 else if 97 \<le> n \<and> n \<le> 102 then n - 87
               else if 65 \<le> n \<and> n \<le> 70 then n - 55 else 16)
      in if v < b then Some v else None)"

definition radix_value :: "nat \<Rightarrow> jstring \<Rightarrow> jnum" where
  "radix_value b ds =
     (if ds = [] \<or> (\<exists>c \<in> set ds. radix_digit b c = None) then NaN
      else rnd (of_nat (foldl (\<lambda>n c. b * n + the (radix_digit b c)) 0 ds)))"

definition string_to_number :: "jstring \<Rightarrow> jnum" where
  "string_to_number s =
     (let t = jtrim s in
      if t = [] then Fin 0
      else if starts_with (js ''0x'') t \<or> starts_with (js ''0X'') t then radix_value 16 (drop 2 t)
      else if starts_with (js ''0o'') t \<or> starts_with (js ''0O'') t then radix_value 8 (drop 2 t)
      else if starts_with (js ''0b'') t \<or> starts_with (js ''0B'') t then radix_value 2 (drop 2 t)
      else case signed_prefix t of Some (n, []) \<Rightarrow> n | _ \<Rightarrow> NaN)"

text \<open>
  An array is converted through its text, the elements joined by commas: only an array
  of at most one element can denote a number.
\<close>

fun to_number :: "jsval \<Rightarrow> jnum" where
  "to_number JUndef = NaN"
| "to_number JNull = Fin 0"
| "to_number (JBool b) = Fin (if b then 1 else 0)"
| "to_number (JNum n) = n"
| "to_number (JStr s) = string_to_number s"
| "to_number (JArr []) = Fin 0"
| "to_number (JArr [v]) =
     (case v of JUndef \<Rightarrow> Fin 0 | JBool _ \<Rightarrow> NaN | _ \<Rightarrow> to_number v)"
| "to_number (JArr (_ # _ # _)) = NaN"
| "to_number (JObj _) = NaN"

section \<open>Numerals of natural numbers\<close>

lemma span_digits [simp]:
  "list_all is_digit ds \<Longrightarrow> (rest = [] \<or> \<not> is_digit (hd rest)) \<Longrightarrow> span_while is_digit (ds @ rest) = (ds, rest)"
  by (induction ds) (cases rest, auto simp: span_while_def)

lemma show_nat_all_digits [simp]: "list_all is_digit (show_nat n)"
  by (auto simp: list_all_iff dest: show_nat_digits)

lemma decimal_prefix_nat:
  assumes "rest = [] \<or> \<not> is_digit (hd rest) \<and> hd rest \<noteq> u16 (CHR ''.'') \<and>
    hd rest \<noteq> u16 (CHR ''e'') \<and> hd rest \<noteq> u16 (CHR ''E'')"
  shows "decimal_prefix (show_nat n @ rest) = Some (of_nat n, rest)"
proof -
  have "span_while is_digit (show_nat n @ rest) = (show_nat n, rest)"
    using assms by (intro span_digits) auto
  then show ?thesis using assms
    by (cases rest) (auto simp: decimal_prefix_def exponent_part_def pow10_def)
qed

lemma show_nat_hd: "\<exists>c cs. show_nat n = c # cs \<and> is_digit c"
  by (metis list.exhaust list.set_intros(1) show_nat_digits show_nat_neq_Nil)

lemma signed_prefix_nat:
  assumes "rest = [] \<or> \<not> is_digit (hd rest) \<and> hd rest \<noteq> u16 (CHR ''.'') \<and>
    hd rest \<noteq> u16 (CHR ''e'') \<and> hd rest \<noteq> u16 (CHR ''E'')"
  shows "signed_prefix (show_nat n @ rest) = Some (rnd (of_nat n), rest)"
proof -
  obtain c cs where c: "show_nat n = c # cs" "is_digit c" using show_nat_hd by blast
  then have "c \<noteq> u16 (CHR ''-'')" "c \<noteq> u16 (CHR ''+'')" "c \<noteq> u16 (CHR ''I'')"
    by (auto simp: is_digit_u16)
  then have "\<not> starts_with (js ''Infinity'') (show_nat n @ rest)"
    by (simp add: c starts_with_def js_Cons)
  with \<open>c \<noteq> u16 (CHR ''-'')\<close> \<open>c \<noteq> u16 (CHR ''+'')\<close> decimal_prefix_nat[OF assms, of n] show ?thesis
    by (simp add: signed_prefix_def c)
qed

end
