(* ===== verification/Mini_Request.thy ===== *)
theory Mini_Request
  imports Mini_Storage JS_Convert Transition
begin

text \<open>
  Authenticated requests of the mini-app: \<open>miniapp/src/auth/session.ts\<close> (the cached and
  stored session), \<open>miniapp/src/api/url.ts\<close> and \<open>miniapp/src/api/request.ts\<close> (a
  request, its single retry after a 401, and the rotation of the session that
  concurrent requests share).  A session is the plain object the code passes around.

  Calls run concurrently; the code between two \<open>await\<close>s is one step.  The
  continuations of all calls that wait for the same rotation run in the step that
  settles it, as they do in one turn of the event loop.
\<close>

section \<open>The session\<close>

definition AUTH_STORAGE_KEY :: jstring where "AUTH_STORAGE_KEY = js ''miniapp:auth:v1''"

record mini =
  cachedSession :: jsval
  dev :: device

definition isMiniAuthSession :: "jsval \<Rightarrow> bool" where
  "isMiniAuthSession v \<longleftrightarrow> truthy v \<and> is_object v \<and>
     is_string (fld v ''accessToken'') \<and> the_str (fld v ''accessToken'') \<noteq> [] \<and>
     is_string (fld v ''refreshToken'') \<and> the_str (fld v ''refreshToken'') \<noteq> [] \<and>
     is_string (fld v ''sid'') \<and> the_str (fld v ''sid'') \<noteq> [] \<and>
     is_number (fld v ''accessExpiresAt'') \<and>
     truthy (fld v ''user'') \<and> is_number (fld (fld v ''user'') ''id'') \<and>
     is_string (fld (fld v ''user'') ''username'')"

definition getMiniAuthSession :: "mini \<Rightarrow> jsval \<times> mini" where
  "getMiniAuthSession m =
     (if cachedSession m \<noteq> JUndef then (cachedSession m, m)
      else let s = (case getStorageSync AUTH_STORAGE_KEY (dev m) of
                      Some stored \<Rightarrow> if isMiniAuthSession stored then stored else JNull
                    | None \<Rightarrow> JNull)
           in (s, m\<lparr>cachedSession := s\<rparr>))"

definition saveMiniAuthSession :: "jsval \<Rightarrow> mini \<Rightarrow> mini" where
  "saveMiniAuthSession s m =
     m\<lparr>cachedSession := s, dev := attempt (setStorageSync AUTH_STORAGE_KEY s) (dev m)\<rparr>"

definition clearMiniAuthSession :: "mini \<Rightarrow> mini" where
  "clearMiniAuthSession m =
     m\<lparr>cachedSession := JNull, dev := attempt (removeStorageSync AUTH_STORAGE_KEY) (dev m)\<rparr>"

section \<open>URLs\<close>

definition SLASH :: jchar where "SLASH = u16 (CHR ''/'')"

definition lower :: "jchar \<Rightarrow> jchar" where
  "lower c = (if 65 \<le> unat c \<and> unat c \<le> 90 then c + 32 else c)"

definition has_http_scheme :: "jstring \<Rightarrow> bool" where
  "has_http_scheme s \<longleftrightarrow> starts_with (js ''http://'') (map lower (take 7 s)) \<or>
     starts_with (js ''https://'') (map lower (take 8 s))"

datatype UrlError = BadScheme | NotConfigured

definition normalizeApiBaseUrl :: "jstring \<Rightarrow> UrlError + jstring" where
  "normalizeApiBaseUrl value =
     (let normalized = rev (dropWhile (\<lambda>c. c = SLASH) (rev (jtrim value))) in
      if normalized = [] then Inr []
      else if \<not> has_http_scheme normalized then Inl BadScheme
      else Inr normalized)"

definition buildApiUrl :: "jstring \<Rightarrow> jstring \<Rightarrow> UrlError + jstring" where
  "buildApiUrl baseUrl path =
     (case normalizeApiBaseUrl baseUrl of
        Inl e \<Rightarrow> Inl e
      | Inr base \<Rightarrow>
          if base = [] then Inl NotConfigured
          else Inr (base @ [SLASH] @ dropWhile (\<lambda>c. c = SLASH) path))"

section \<open>One request\<close>

record RequestOptions =
  opt_auth :: "bool option"
  opt_data :: jsval
  opt_header :: "(jstring \<times> jstring) list"
  opt_method :: "jstring option"
  retryAuth :: "bool option"

text \<open>A header is a text, or \<open>Bearer\<close> before the text of a value.\<close>

datatype HeaderValue = HeaderText jstring | Bearer jsval

record HttpRequest =
  req_url :: jstring
  req_method :: jstring
  req_data :: jsval
  req_header :: "(jstring \<times> HeaderValue) list"

datatype RequestError =
    ApiRequestError jsval int jsval jsval
  | UrlFailure UrlError
  | OtherError jsval

definition requestHeader :: "RequestOptions \<Rightarrow> jsval \<Rightarrow> (jstring \<times> HeaderValue) list" where
  "requestHeader options session =
     (let header = spread [(js ''Accept'', HeaderText (js ''application/json''))]
                     (map (map_prod id HeaderText) (opt_header options))
      in if opt_auth options \<noteq> Some False \<and> truthy (fld session ''accessToken'')
         then put (js ''Authorization'') (Bearer (fld session ''accessToken'')) header
         else header)"

text \<open>The request that is sent; the configured base URL is normalised twice.\<close>

definition getConfiguredApiBaseUrl :: "jstring option \<Rightarrow> UrlError + jstring" where
  "getConfiguredApiBaseUrl configured = normalizeApiBaseUrl (nullish configured [])"

definition sendRequest ::
  "jstring option \<Rightarrow> jstring \<Rightarrow> RequestOptions \<Rightarrow> jsval \<Rightarrow> RequestError + HttpRequest" where
  "sendRequest configured path options session =
     (case getConfiguredApiBaseUrl configured of
        Inl e \<Rightarrow> Inl (UrlFailure e)
      | Inr base \<Rightarrow>
          (case buildApiUrl base path of
             Inl e \<Rightarrow> Inl (UrlFailure e)
           | Inr url \<Rightarrow> Inr \<lparr>req_url = url, req_method = nullish (opt_method options) (js ''GET''),
                            req_data = opt_data options, req_header = requestHeader options session\<rparr>))"

text \<open>What the platform answers: a response with a status and a body, or a failure.\<close>

datatype WireResult = WireResponse int jsval | WireFailure jsval

definition settleRequest :: "WireResult \<Rightarrow> RequestError + jsval" where
  "settleRequest r =
     (case r of
        WireFailure e \<Rightarrow> Inl (OtherError e)
      | WireResponse statusCode d \<Rightarrow>
          if statusCode < 200 \<or> 300 \<le> statusCode then
            Inl (ApiRequestError
                   (or_else (fld d ''message'')
                      (JStr (js ''Request failed with status '' @ show_int statusCode)))
                   statusCode (fld d ''code'') (fld d ''data''))
          else if \<not> truthy (fld d ''success'') then
            Inl (ApiRequestError (or_else (fld d ''message'') (JStr (js ''Request failed'')))
                   statusCode (fld d ''code'') (fld d ''data''))
          else Inr (fld d ''data''))"

section \<open>Rotation of the session\<close>

text \<open>\<open>data.session.sid\<close> throws when \<open>data\<close> or its \<open>session\<close> is missing.\<close>

definition mini_bundle_session :: "jsval \<Rightarrow> jsval option" where
  "mini_bundle_session d =
     (if d = JUndef \<or> d = JNull \<or> fld d ''session'' = JUndef \<or> fld d ''session'' = JNull then None
      else Some (JObj [(js ''accessToken'', fld d ''access_token''),
                       (js ''accessExpiresAt'', fld d ''access_expires_at''),
                       (js ''refreshToken'', fld d ''refresh_token''),
                       (js ''sid'', fld (fld d ''session'') ''sid''), (js ''user'', fld d ''user'')]))"

definition rotationOptions :: "jsval \<Rightarrow> RequestOptions" where
  "rotationOptions session =
     \<lparr>opt_auth = Some False,
      opt_data = JObj [(js ''refresh_token'', fld session ''refreshToken''), (js ''sid'', fld session ''sid'')],
      opt_header = [], opt_method = Some (js ''POST''), retryAuth = Some False\<rparr>"

text \<open>The \<open>then\<close> and \<open>catch\<close> of \<open>rotateMiniAuthSession\<close>: the new session, or the error
  after signing out.\<close>

definition rotation_settled :: "RequestError + jsval \<Rightarrow> mini \<Rightarrow> (RequestError + jsval) \<times> mini" where
  "rotation_settled r m =
     (let signed_out = (\<lambda>e. (Inl e, (clearMiniAuthSession m)\<lparr>dev := clearConversation (dev (clearMiniAuthSession m))\<rparr>))
      in case r of
           Inl e \<Rightarrow> signed_out e
         | Inr d \<Rightarrow> (case mini_bundle_session d of
                       None \<Rightarrow> signed_out (OtherError (JStr (js ''TypeError'')))
                     | Some next \<Rightarrow> (Inr next, saveMiniAuthSession next m)))"

section \<open>Concurrent calls\<close>

datatype call_pc =
    AwaitFirst jsval
  | AwaitRotation
  | AwaitRetry
  | Returned "RequestError + jsval"

record api_call =
  call_path :: jstring
  call_options :: RequestOptions
  call_pc :: call_pc

text \<open>
  \<open>refreshInFlight\<close> holds the session whose rotation is in flight.  \<open>wire\<close> is the list
  of the requests sent so far, with the number of the call, or \<open>None\<close> for a rotation.
\<close>

record mini_sys =
  mini_of :: mini
  refreshInFlight :: "jsval option"
  calls :: "nat \<rightharpoonup> api_call"
  wire :: "(nat option \<times> HttpRequest) list"

definition rotateMiniAuthSession :: "jstring option \<Rightarrow> jsval \<Rightarrow> mini_sys \<Rightarrow> mini_sys" where
  "rotateMiniAuthSession base session s =
     (case refreshInFlight s of
        Some _ \<Rightarrow> s
      | None \<Rightarrow>
          s\<lparr>refreshInFlight := Some session,
            wire := wire s @ (case sendRequest base (js ''/api/mini/auth/refresh'') (rotationOptions session) JNull of
                                Inr q \<Rightarrow> [(None, q)] | Inl _ \<Rightarrow> [])\<rparr>)"

definition apiRequest_start ::
  "jstring option \<Rightarrow> nat \<Rightarrow> jstring \<Rightarrow> RequestOptions \<Rightarrow> mini_sys \<Rightarrow> mini_sys" where
  "apiRequest_start base i path options s =
     (let (session, m) = (if opt_auth options = Some False then (JNull, mini_of s)
                          else getMiniAuthSession (mini_of s))
      in case sendRequest base path options session of
           Inl e \<Rightarrow> s\<lparr>mini_of := m, calls := (calls s)(i \<mapsto>
                       \<lparr>call_path = path, call_options = options, call_pc = Returned (Inl e)\<rparr>)\<rparr>
         | Inr q \<Rightarrow> s\<lparr>mini_of := m, wire := wire s @ [(Some i, q)], calls := (calls s)(i \<mapsto>
                       \<lparr>call_path = path, call_options = options, call_pc = AwaitFirst session\<rparr>)\<rparr>)"

definition rotates :: "RequestOptions \<Rightarrow> jsval \<Rightarrow> RequestError \<Rightarrow> bool" where
  "rotates options session e \<longleftrightarrow>
     (case e of ApiRequestError _ st _ _ \<Rightarrow> st = 401 | _ \<Rightarrow> False) \<and>
     opt_auth options \<noteq> Some False \<and> retryAuth options \<noteq> Some False \<and>
     truthy (fld session ''refreshToken'')"

definition with_pc :: "nat \<Rightarrow> call_pc \<Rightarrow> mini_sys \<Rightarrow> mini_sys" where
  "with_pc i pc s = s\<lparr>calls := (calls s)(i := map_option (\<lambda>c. c\<lparr>call_pc := pc\<rparr>) (calls s i))\<rparr>"

text \<open>The response to a call: \<open>None\<close> when the call awaits none.\<close>

definition apiRequest_response ::
  "jstring option \<Rightarrow> nat \<Rightarrow> WireResult \<Rightarrow> mini_sys \<Rightarrow> mini_sys option" where
  "apiRequest_response base i r s =
     (case calls s i of
        None \<Rightarrow> None
      | Some c \<Rightarrow>
          (case call_pc c of
             AwaitFirst session \<Rightarrow>
               (case settleRequest r of
                  Inr v \<Rightarrow> Some (with_pc i (Returned (Inr v)) s)
                | Inl e \<Rightarrow>
                    if rotates (call_options c) session e
                    then Some (with_pc i AwaitRotation (rotateMiniAuthSession base session s))
                    else Some (with_pc i (Returned (Inl e)) s))
           | AwaitRetry \<Rightarrow> Some (with_pc i (Returned (settleRequest r)) s)
           | _ \<Rightarrow> None))"

text \<open>How a call that waits for the rotation goes on with its result.\<close>

definition resume_call ::
  "jstring option \<Rightarrow> RequestError + jsval \<Rightarrow> api_call \<Rightarrow> api_call \<times> HttpRequest option" where
  "resume_call base r c =
     (if call_pc c \<noteq> AwaitRotation then (c, None)
      else case r of
             Inl e \<Rightarrow> (c\<lparr>call_pc := Returned (Inl e)\<rparr>, None)
           | Inr next \<Rightarrow>
               (case sendRequest base (call_path c) ((call_options c)\<lparr>retryAuth := Some False\<rparr>) next of
                  Inl e \<Rightarrow> (c\<lparr>call_pc := Returned (Inl e)\<rparr>, None)
                | Inr q \<Rightarrow> (c\<lparr>call_pc := AwaitRetry\<rparr>, Some q)))"

definition resumed_requests ::
  "jstring option \<Rightarrow> RequestError + jsval \<Rightarrow> (nat \<rightharpoonup> api_call) \<Rightarrow> nat list \<Rightarrow> (nat option \<times> HttpRequest) list" where
  "resumed_requests base r cs is =
     concat (map (\<lambda>i. case cs i of
                        None \<Rightarrow> []
                      | Some c \<Rightarrow> (case snd (resume_call base r c) of None \<Rightarrow> [] | Some q \<Rightarrow> [(Some i, q)])) is)"

text \<open>
  The rotation settles: its own continuations, \<open>finally\<close>, and every waiting call.
  \<open>order\<close> is the order in which the waiting calls registered.
\<close>

definition rotation_response ::
  "jstring option \<Rightarrow> nat list \<Rightarrow> WireResult \<Rightarrow> mini_sys \<Rightarrow> mini_sys option" where
  "rotation_response base order r s =
     (case refreshInFlight s of
        None \<Rightarrow> None
      | Some _ \<Rightarrow>
          let (out, m) = rotation_settled (settleRequest r) (mini_of s)
          in Some (s\<lparr>mini_of := m, refreshInFlight := None,
                     wire := wire s @ resumed_requests base out (calls s) order,
                     calls := (\<lambda>i. map_option (\<lambda>c. fst (resume_call base out c)) (calls s i))\<rparr>))"

definition getAuthorizedMiniSession ::
  "jstring option \<Rightarrow> int \<Rightarrow> mini_sys \<Rightarrow> (RequestError + jsval option) \<times> mini_sys" where
  "getAuthorizedMiniSession base now_ms s =
     (let (session, m) = getMiniAuthSession (mini_of s); s' = s\<lparr>mini_of := m\<rparr> in
      if \<not> truthy (fld session ''refreshToken'') then
        (Inl (ApiRequestError (JStr (js ''Authentication required'')) 401
                (JStr (js ''MINI_AUTH_REQUIRED'')) JUndef), s')
      else if jlt (jint (now_ms div 1000 + 30)) (to_number (fld session ''accessExpiresAt''))
      then (Inr (Some session), s')
      else (Inr None, rotateMiniAuthSession base session s'))"

datatype mini_label =
    Start nat jstring RequestOptions
  | Response nat WireResult
  | Rotated WireResult
  | Authorize int

inductive mini_step :: "jstring option \<Rightarrow> (mini_sys, mini_label) lts" for base where
  start: "calls s i = None \<Longrightarrow> mini_step base s (Start i path opts) (apiRequest_start base i path opts s)"
| response: "apiRequest_response base i r s = Some s' \<Longrightarrow> mini_step base s (Response i r) s'"
| rotated: "rotation_response base order r s = Some s' \<Longrightarrow> distinct order \<Longrightarrow>
     {i. \<exists>c. calls s i = Some c \<and> call_pc c = AwaitRotation} = set order \<Longrightarrow>
     mini_step base s (Rotated r) s'"
| authorize: "mini_step base s (Authorize now) (snd (getAuthorizedMiniSession base now s))"

definition initial_mini :: "mini_sys \<Rightarrow> bool" where
  "initial_mini s \<longleftrightarrow> cachedSession (mini_of s) = JUndef \<and> refreshInFlight s = None \<and>
     calls s = Map.empty \<and> wire s = []"

section \<open>The invariant of concurrent calls\<close>

definition sent_by :: "nat \<Rightarrow> (nat option \<times> HttpRequest) list \<Rightarrow> nat" where
  "sent_by i w = length (filter (\<lambda>(j, _). j = Some i) w)"

lemma sent_by_simps [simp]:
  "sent_by i [] = 0" "sent_by i (w @ w') = sent_by i w + sent_by i w'"
  "sent_by i [(None, q)] = 0" "sent_by i [(Some j, q)] = (if i = j then 1 else 0)"
  by (auto simp: sent_by_def)

definition call_inv :: "bool \<Rightarrow> nat \<Rightarrow> api_call \<Rightarrow> bool" where
  "call_inv rotating n c \<longleftrightarrow>
     (case call_pc c of
        AwaitFirst _ \<Rightarrow> n = 1
      | AwaitRotation \<Rightarrow> n = 1 \<and> rotating \<and> opt_auth (call_options c) \<noteq> Some False
      | AwaitRetry \<Rightarrow> n = 2
      | Returned _ \<Rightarrow> n \<le> 2)"

definition mini_inv :: "mini_sys \<Rightarrow> bool" where
  "mini_inv s \<longleftrightarrow> (\<forall>i. calls s i = None \<longrightarrow> sent_by i (wire s) = 0) \<and>
     (\<forall>i c. calls s i = Some c \<longrightarrow> call_inv (refreshInFlight s \<noteq> None) (sent_by i (wire s)) c)"

lemma mini_invD: "mini_inv s \<Longrightarrow> calls s i = Some c \<Longrightarrow>
    call_inv (refreshInFlight s \<noteq> None) (sent_by i (wire s)) c"
  by (simp add: mini_inv_def)

lemma rotate_sel [simp]:
  "calls (rotateMiniAuthSession base x s) = calls s"
  "mini_of (rotateMiniAuthSession base x s) = mini_of s"
  "refreshInFlight (rotateMiniAuthSession base x s) \<noteq> None"
  "sent_by i (wire (rotateMiniAuthSession base x s)) = sent_by i (wire s)"
  by (auto simp: rotateMiniAuthSession_def split: option.split sum.split)

lemma call_inv_rotating: "call_inv b n c \<Longrightarrow> call_inv True n c"
  by (auto simp: call_inv_def split: call_pc.splits)

lemma mini_inv_rotate: "mini_inv s \<Longrightarrow> mini_inv (rotateMiniAuthSession base x s)"
  by (auto simp: mini_inv_def dest: call_inv_rotating)

lemma with_pc_sel [simp]:
  "refreshInFlight (with_pc i pc s) = refreshInFlight s" "wire (with_pc i pc s) = wire s"
  "mini_of (with_pc i pc s) = mini_of s"
  by (simp_all add: with_pc_def)

lemma mini_inv_with_pc:
  assumes "mini_inv s" and "calls s i = Some c"
    and "call_inv (refreshInFlight s \<noteq> None) (sent_by i (wire s)) (c\<lparr>call_pc := pc\<rparr>)"
  shows "mini_inv (with_pc i pc s)"
  using assms by (auto simp: mini_inv_def with_pc_def split: if_splits)

lemma call_inv_new [simp]:
  "call_inv b (Suc 0) \<lparr>call_path = p, call_options = os, call_pc = AwaitFirst x\<rparr>"
  "call_inv b 0 \<lparr>call_path = p, call_options = os, call_pc = Returned y\<rparr>"
  by (simp_all add: call_inv_def)

lemma mini_inv_start:
  assumes "mini_inv s" and "calls s i = None"
  shows "mini_inv (apiRequest_start base i path opts s)"
proof -
  have "sent_by i (wire s) = 0" using assms by (simp add: mini_inv_def)
  with assms show ?thesis
    by (auto simp: mini_inv_def apiRequest_start_def split: sum.splits prod.splits if_splits)
qed

lemma mini_inv_response:
  assumes inv: "mini_inv s" and r: "apiRequest_response base i r s = Some s'"
  shows "mini_inv s'"
proof -
  from r obtain c where c: "calls s i = Some c" by (auto simp: apiRequest_response_def split: option.splits)
  note ci = mini_invD[OF inv c]
  show ?thesis
  proof (cases "call_pc c")
    case (AwaitFirst session)
    then have n: "sent_by i (wire s) = 1" using ci by (simp add: call_inv_def)
    show ?thesis
    proof (cases "\<exists>e. settleRequest r = Inl e \<and> rotates (call_options c) session e")
      case True
      then have s': "s' = with_pc i AwaitRotation (rotateMiniAuthSession base session s)"
        and auth: "opt_auth (call_options c) \<noteq> Some False"
        using r c AwaitFirst by (auto simp: apiRequest_response_def rotates_def)
      show ?thesis unfolding s'
        by (rule mini_inv_with_pc[OF mini_inv_rotate[OF inv]])
          (use c n auth in \<open>auto simp: call_inv_def\<close>)
    next
      case False
      then obtain x where "s' = with_pc i (Returned x) s"
        using r c AwaitFirst by (auto simp: apiRequest_response_def split: sum.splits if_splits)
      with mini_inv_with_pc[OF inv c] n show ?thesis by (simp add: call_inv_def)
    qed
  next
    case AwaitRetry
    with r c have "s' = with_pc i (Returned (settleRequest r)) s" by (simp add: apiRequest_response_def)
    with mini_inv_with_pc[OF inv c] ci AwaitRetry show ?thesis by (simp add: call_inv_def)
  qed (use r c in \<open>auto simp: apiRequest_response_def\<close>)
qed

lemma sent_by_resumed:
  assumes "distinct order"
  shows "sent_by i (resumed_requests base out cs order) =
    (if i \<in> set order \<and> (\<exists>c. cs i = Some c \<and> snd (resume_call base out c) \<noteq> None) then 1 else 0)"
  using assms unfolding resumed_requests_def
  by (induction order) (auto split: option.splits)

lemma call_inv_resumed:
  assumes "call_inv True n c"
  shows "call_inv False
    (n + (if call_pc c = AwaitRotation \<and> snd (resume_call base out c) \<noteq> None then 1 else 0))
    (fst (resume_call base out c))"
  using assms
  by (cases "call_pc c") (auto simp: call_inv_def resume_call_def split: sum.splits)

lemma resume_only_waiting: "snd (resume_call base out c) \<noteq> None \<Longrightarrow> call_pc c = AwaitRotation"
  by (auto simp: resume_call_def split: if_splits)

lemma mini_inv_rotated:
  assumes inv: "mini_inv s" and r: "rotation_response base order r s = Some s'" and d: "distinct order"
    and w: "{i. \<exists>c. calls s i = Some c \<and> call_pc c = AwaitRotation} = set order"
  shows "mini_inv s'"
proof -
  obtain x where x: "refreshInFlight s = Some x"
    using r by (auto simp: rotation_response_def split: option.splits)
  let ?out = "fst (rotation_settled (settleRequest r) (mini_of s))"
  from r x have s': "refreshInFlight s' = None"
    "wire s' = wire s @ resumed_requests base ?out (calls s) order"
    "calls s' = (\<lambda>i. map_option (\<lambda>c. fst (resume_call base ?out c)) (calls s i))"
    by (auto simp: rotation_response_def case_prod_unfold Let_def)
  have "sent_by i (wire s') = 0" if "calls s' i = None" for i
    using that inv by (simp add: s' sent_by_resumed[OF d] mini_inv_def)
  moreover have "call_inv False (sent_by i (wire s')) c'" if c': "calls s' i = Some c'" for i c'
  proof -
    from c' obtain c where c: "calls s i = Some c" "c' = fst (resume_call base ?out c)" by (auto simp: s')
    then have "i \<in> set order \<longleftrightarrow> call_pc c = AwaitRotation" unfolding w[symmetric] by simp
    then have "sent_by i (resumed_requests base ?out (calls s) order) =
        (if call_pc c = AwaitRotation \<and> snd (resume_call base ?out c) \<noteq> None then 1 else 0)"
      using c by (simp add: sent_by_resumed[OF d])
    with c call_inv_resumed[of "sent_by i (wire s)" c base ?out] mini_invD[OF inv c(1)] x
    show ?thesis by (simp add: s')
  qed
  ultimately show ?thesis by (simp add: mini_inv_def s'(1))
qed

lemma mini_inv_authorize: "mini_inv s \<Longrightarrow> mini_inv (snd (getAuthorizedMiniSession base now s))"
proof -
  assume inv: "mini_inv s"
  then have "mini_inv (s\<lparr>mini_of := m\<rparr>)" for m by (simp add: mini_inv_def)
  then show ?thesis
    by (auto simp: getAuthorizedMiniSession_def Let_def split: prod.splits intro: mini_inv_rotate)
qed

interpretation mini_machine: lts_invariant initial_mini "mini_step base" mini_inv for base
proof
  show "initial_mini s \<Longrightarrow> mini_inv s" for s
    by (simp add: initial_mini_def mini_inv_def)
  show "mini_inv s \<Longrightarrow> mini_step base s l t \<Longrightarrow> mini_inv t" for s l t
    by (erule mini_step.cases)
      (auto intro: mini_inv_start mini_inv_response mini_inv_rotated mini_inv_authorize)
qed

section \<open>Sample data\<close>

definition sample_mini_session :: "string \<Rightarrow> jsval" where
  "sample_mini_session t = JObj
     [(js ''accessToken'', JStr (js ''a'' @ js t)), (js ''accessExpiresAt'', JNum (jint 100)),
      (js ''refreshToken'', JStr (js ''r'' @ js t)), (js ''sid'', JStr (js ''sid-1'')),
      (js ''user'', JObj [(js ''id'', JNum (jint 7)), (js ''username'', JStr (js ''u''))])]"

definition sample_options :: RequestOptions where
  "sample_options = \<lparr>opt_auth = None, opt_data = JUndef, opt_header = [], opt_method = None, retryAuth = None\<rparr>"

definition sample_mini :: mini where
  "sample_mini = \<lparr>cachedSession = JUndef, dev = sample_device\<rparr>"

definition sample_sys :: mini_sys where
  "sample_sys = \<lparr>mini_of = sample_mini, refreshInFlight = None, calls = Map.empty, wire = []\<rparr>"

text \<open>A device that holds the session of an earlier visit.\<close>

definition sample_stored_session :: mini_sys where
  "sample_stored_session = sample_sys\<lparr>mini_of := sample_mini\<lparr>dev := sample_device
     \<lparr>storage := [AUTH_STORAGE_KEY \<mapsto> sample_mini_session ''1'']\<rparr>\<rparr>\<rparr>"

definition sample_bundle_data :: jsval where
  "sample_bundle_data = JObj
     [(js ''access_token'', JStr (js ''a2'')), (js ''access_expires_at'', JNum (jint 100)),
      (js ''refresh_token'', JStr (js ''r2'')), (js ''session'', JObj [(js ''sid'', JStr (js ''sid-1''))]),
      (js ''user'', JObj [(js ''id'', JNum (jint 7)), (js ''username'', JStr (js ''u''))])]"

definition sample_ok :: WireResult where
  "sample_ok = WireResponse 200 (JObj [(js ''success'', JBool True), (js ''data'', sample_bundle_data)])"

text \<open>A call that was sent with the first session and still waits for its response.\<close>

definition sample_call :: "call_pc \<Rightarrow> api_call" where
  "sample_call pc = \<lparr>call_path = js ''/api/x'', call_options = sample_options, call_pc = pc\<rparr>"

lemmas mini_samples =
  sample_mini_session_def sample_options_def sample_mini_def sample_sys_def sample_bundle_data_def
  sample_ok_def sample_call_def sample_device_def

section \<open>Rotations on the wire\<close>

text \<open>
  The rotation requests sent so far, and the rotation that is in flight.  A step sends a
  rotation request only when none is in flight, so that every request but the last has
  been settled by a \<open>Rotated\<close> step.
\<close>

definition rotations :: "(nat option \<times> HttpRequest) list \<Rightarrow> nat" where
  "rotations w = length (filter (\<lambda>(j, _). j = None) w)"

definition in_flight :: "mini_sys \<Rightarrow> nat" where
  "in_flight s = (if refreshInFlight s = None then 0 else 1)"

fun is_Rotated :: "mini_label \<Rightarrow> bool" where
  "is_Rotated (Rotated _) = True"
| "is_Rotated _ = False"

lemma rotations_simps [simp]:
  "rotations [] = 0" "rotations (w @ w') = rotations w + rotations w'"
  "rotations [(Some i, q)] = 0" "rotations [(None, q)] = 1"
  by (auto simp: rotations_def)

lemma rotations_resumed [simp]: "rotations (resumed_requests base out cs order) = 0"
  by (induction order) (auto simp: resumed_requests_def rotations_def split: option.splits)

lemma in_flight_mini_of [simp]: "in_flight (s\<lparr>mini_of := m\<rparr>) = in_flight s"
  by (simp add: in_flight_def)

lemma rotate_rotations:
  "rotations (wire (rotateMiniAuthSession base x s)) + in_flight s \<le>
     rotations (wire s) + in_flight (rotateMiniAuthSession base x s)"
  by (auto simp: rotateMiniAuthSession_def in_flight_def split: option.split sum.split)

lemma start_rotations:
  "rotations (wire (apiRequest_start base i path opts s)) = rotations (wire s) \<and>
     in_flight (apiRequest_start base i path opts s) = in_flight s"
  by (simp add: apiRequest_start_def in_flight_def split: sum.split prod.split)

lemma response_rotations:
  assumes "apiRequest_response base i r s = Some s'"
  shows "rotations (wire s') + in_flight s \<le> rotations (wire s) + in_flight s'"
  using assms rotate_rotations[of base _ s]
  by (auto simp: apiRequest_response_def in_flight_def split: option.splits call_pc.splits sum.splits if_splits)

lemma step_rotations:
  assumes "mini_step base s l t"
  shows "rotations (wire t) + in_flight s \<le>
    rotations (wire s) + in_flight t + (if is_Rotated l then 1 else 0)"
  using assms
proof (cases rule: mini_step.cases)
  case (start i path opts)
  then show ?thesis using start_rotations[of base i path opts s] by simp
next
  case (response i r)
  then show ?thesis using response_rotations[of base i r s t] by simp
next
  case (rotated order r)
  then show ?thesis
    by (auto simp: rotation_response_def in_flight_def Let_def split: option.splits prod.splits)
next
  case (authorize now)
  obtain session m where gs: "getMiniAuthSession (mini_of s) = (session, m)" by fastforce
  show ?thesis using authorize rotate_rotations[of base session "s\<lparr>mini_of := m\<rparr>"]
    by (auto simp: getAuthorizedMiniSession_def Let_def gs)
qed

lemma authorize_keeps_rotation:
  "refreshInFlight s \<noteq> None \<Longrightarrow> refreshInFlight (snd (getAuthorizedMiniSession base now s)) \<noteq> None"
  by (cases "getMiniAuthSession (mini_of s)") (simp add: getAuthorizedMiniSession_def Let_def del: not_None_eq)

lemma run_rotations:
  "lts_run (mini_step base) s ls t \<Longrightarrow>
     rotations (wire t) + in_flight s \<le> rotations (wire s) + in_flight t + length (filter is_Rotated ls)"
proof (induction rule: lts_run.induct)
  case (run_Cons s l s' ls s'')
  then show ?case using step_rotations[of base s l s'] by (simp split: if_splits)
qed simp

section \<open>Properties\<close>

text \<open>
  C13.  In every interleaving of concurrent calls from the start of the app, a call sends
  its request at most twice; no call is left waiting: while one waits for a rotation, the
  rotation is in flight; and at most one rotation is pending: every rotation request on
  the wire but one has been settled, and all of them when none is in flight.
\<close>

theorem mini_calls_bounded:
  assumes "initial_mini s0" and "lts_run (mini_step base) s0 ls s"
  shows "sent_by i (wire s) \<le> 2 \<and>
    (\<forall>c. calls s i = Some c \<and> call_pc c = AwaitRotation \<longrightarrow> refreshInFlight s \<noteq> None) \<and>
    rotations (wire s) \<le> length (filter is_Rotated ls) + (if refreshInFlight s = None then 0 else 1)"
proof -
  from assms have inv: "mini_inv s" by (blast intro: mini_machine.run_inv mini_machine.init_inv)
  have "sent_by i (wire s) \<le> 2 \<and>
    (\<forall>c. calls s i = Some c \<and> call_pc c = AwaitRotation \<longrightarrow> refreshInFlight s \<noteq> None)"
  proof (cases "calls s i")
    case None
    with inv show ?thesis by (simp add: mini_inv_def)
  next
    case (Some c)
    with mini_invD[OF inv Some] show ?thesis by (cases "call_pc c") (auto simp: call_inv_def)
  qed
  with run_rotations[OF assms(2)] assms(1) show ?thesis
    by (simp add: initial_mini_def in_flight_def split: if_splits)
qed

theorem mini_calls_bounded_witness:
  "let t = snd (getAuthorizedMiniSession (Some (js ''https://h'')) 99000000
             (snd (getAuthorizedMiniSession (Some (js ''https://h'')) 99000000 sample_stored_session)))
   in refreshInFlight t \<noteq> None \<and> rotations (wire t) \<le> 1"
proof -
  let ?b = "Some (js ''https://h'')"
  let ?t1 = "snd (getAuthorizedMiniSession ?b 99000000 sample_stored_session)"
  let ?t = "snd (getAuthorizedMiniSession ?b 99000000 ?t1)"
  have "mini_step ?b sample_stored_session (Authorize 99000000) ?t1"
    and "mini_step ?b ?t1 (Authorize 99000000) ?t"
    by (rule mini_step.authorize)+
  then have "lts_run (mini_step ?b) sample_stored_session [Authorize 99000000, Authorize 99000000] ?t"
    by (blast intro: lts_run.intros)
  moreover have "initial_mini sample_stored_session"
    by (simp add: initial_mini_def sample_stored_session_def mini_samples)
  ultimately have "rotations (wire ?t) \<le> 1"
    using mini_calls_bounded[of sample_stored_session ?b "[Authorize 99000000, Authorize 99000000]" ?t 0]
    by (simp split: if_splits)
  moreover have "refreshInFlight ?t1 \<noteq> None"
    by (simp add: getAuthorizedMiniSession_def getMiniAuthSession_def getStorageSync_def sample_stored_session_def
        mini_samples isMiniAuthSession_def Let_def rotateMiniAuthSession_def js_eval unat_u16 del: not_None_eq)
  then have "refreshInFlight ?t \<noteq> None"
    by (rule authorize_keeps_rotation)
  ultimately show ?thesis by (simp add: Let_def)
qed

text \<open>
  A rotation that succeeds serves everyone: the new session is cached and every call
  that waited sends its request again, with the new access token.
\<close>

theorem rotation_serves_waiters:
  assumes "rotation_response base order r s = Some s'"
    and "settleRequest r = Inr d" and "mini_bundle_session d = Some nxt"
    and "calls s i = Some c" and "call_pc c = AwaitRotation" and "i \<in> set order"
    and "opt_auth (call_options c) \<noteq> Some False" and "truthy (fld d ''access_token'')"
    and "sendRequest base (call_path c) ((call_options c)\<lparr>retryAuth := Some False\<rparr>) nxt = Inr q"
  shows "cachedSession (mini_of s') = nxt \<and> refreshInFlight s' = None \<and>
    calls s' i = Some (c\<lparr>call_pc := AwaitRetry\<rparr>) \<and> (Some i, q) \<in> set (wire s') \<and>
    map_of (req_header q) (js ''Authorization'') = Some (Bearer (fld d ''access_token''))"
proof -
  have out: "rotation_settled (settleRequest r) (mini_of s) = (Inr nxt, saveMiniAuthSession nxt (mini_of s))"
    using assms(2,3) by (simp add: rotation_settled_def)
  have res: "resume_call base (Inr nxt) c = (c\<lparr>call_pc := AwaitRetry\<rparr>, Some q)"
    using assms(5,9) by (simp add: resume_call_def)
  have tok: "fld nxt ''accessToken'' = fld d ''access_token''"
    using assms(3) by (auto simp: mini_bundle_session_def split: if_splits)
  have "map_of (req_header q) (js ''Authorization'') = Some (Bearer (fld d ''access_token''))"
    using assms(7,8,9) tok
    by (auto simp: sendRequest_def requestHeader_def Let_def split: sum.splits if_splits)
  moreover from assms(1) have "s' = s\<lparr>mini_of := saveMiniAuthSession nxt (mini_of s), refreshInFlight := None,
      wire := wire s @ resumed_requests base (Inr nxt) (calls s) order,
      calls := (\<lambda>i. map_option (\<lambda>c. fst (resume_call base (Inr nxt) c)) (calls s i))\<rparr>"
    by (auto simp: rotation_response_def out split: option.splits)
  ultimately show ?thesis using assms(4,6) res
    by (auto simp: saveMiniAuthSession_def resumed_requests_def intro!: bexI[of _ i])
qed

theorem rotation_serves_waiters_witness:
  "\<exists>s'. rotation_response (Some (js ''https://h'')) [0] sample_ok
      (sample_sys\<lparr>refreshInFlight := Some (sample_mini_session ''1''),
                  calls := [0 \<mapsto> sample_call AwaitRotation]\<rparr>) = Some s' \<and>
    calls s' 0 = Some (sample_call AwaitRetry) \<and> sent_by 0 (wire s') = 1"
proof -
  let ?b = "Some (js ''https://h'')"
  let ?s = "sample_sys\<lparr>refreshInFlight := Some (sample_mini_session ''1''),
      calls := [0 \<mapsto> sample_call AwaitRotation]\<rparr>"
  obtain nxt where nxt: "mini_bundle_session sample_bundle_data = Some nxt"
    by (simp add: mini_bundle_session_def mini_samples)
  have st: "settleRequest sample_ok = Inr sample_bundle_data" by (simp add: settleRequest_def mini_samples)
  obtain q where q: "sendRequest ?b (js ''/api/x'') (sample_options\<lparr>retryAuth := Some False\<rparr>) nxt = Inr q"
    by (simp add: sendRequest_def getConfiguredApiBaseUrl_def buildApiUrl_def normalizeApiBaseUrl_def
        has_http_scheme_def jtrim_def starts_with_def lower_def SLASH_def js_eval unat_u16)
  obtain s' where s': "rotation_response ?b [0] sample_ok ?s = Some s'"
    by (simp add: rotation_response_def case_prod_unfold Let_def)
  have "calls s' 0 = Some (sample_call AwaitRetry) \<and> (Some 0, q) \<in> set (wire s')"
    using rotation_serves_waiters[OF s' st nxt, of 0 "sample_call AwaitRotation" q] q
    by (simp add: mini_samples)
  moreover have "sent_by 0 (wire s') = 1"
    using s' st nxt q
    by (auto simp: rotation_response_def rotation_settled_def resumed_requests_def resume_call_def
        mini_samples)
  ultimately show ?thesis using s' by blast
qed

text \<open>
  A rotation that fails, for whatever reason, signs the mini-app out: the cached session
  is dropped, its stored copy is removed unless the storage refuses, and every waiting call
  is rejected with the error of the rotation.
\<close>

theorem rotation_failure_signs_out:
  assumes "rotation_response base order r s = Some s'" and "settleRequest r = Inl e"
  shows "cachedSession (mini_of s') = JNull \<and> refreshInFlight s' = None \<and> wire s' = wire s \<and>
    (removeThrows (dev (mini_of s)) AUTH_STORAGE_KEY \<or> storage (dev (mini_of s')) AUTH_STORAGE_KEY = None) \<and>
    (\<forall>i c. calls s i = Some c \<and> call_pc c = AwaitRotation \<longrightarrow>
       calls s' i = Some (c\<lparr>call_pc := Returned (Inl e)\<rparr>))"
proof -
  let ?m = "clearMiniAuthSession (mini_of s)"
  have keys: "STORAGE_KEY \<noteq> AUTH_STORAGE_KEY" "LEGACY_KEY \<noteq> AUTH_STORAGE_KEY"
    by (simp_all add: STORAGE_KEY_def LEGACY_KEY_def AUTH_STORAGE_KEY_def)
  have kept: "storage (clearConversation d) AUTH_STORAGE_KEY = storage d AUTH_STORAGE_KEY" for d
    using keys by (simp add: clearConversation_def attempt_def removeStorageSync_def Let_def nullish_def)
  have none: "resumed_requests base (Inl e) cs xs = []" for cs xs
    by (auto simp: resumed_requests_def resume_call_def split: option.splits if_splits)
  from assms have "s' = s\<lparr>mini_of := ?m\<lparr>dev := clearConversation (dev ?m)\<rparr>, refreshInFlight := None,
      wire := wire s, calls := (\<lambda>i. map_option (\<lambda>c. fst (resume_call base (Inl e) c)) (calls s i))\<rparr>"
    by (auto simp: rotation_response_def rotation_settled_def none split: option.splits)
  then show ?thesis
    by (auto simp: kept clearMiniAuthSession_def attempt_def removeStorageSync_def resume_call_def)
qed

theorem rotation_failure_signs_out_witness:
  "\<exists>s'. rotation_response None [] (WireFailure JNull) (sample_sys\<lparr>refreshInFlight := Some JNull\<rparr>) = Some s' \<and>
     cachedSession (mini_of s') = JNull"
proof -
  let ?s = "sample_sys\<lparr>refreshInFlight := Some JNull\<rparr>"
  obtain s' where s': "rotation_response None [] (WireFailure JNull) ?s = Some s'"
    by (simp add: rotation_response_def case_prod_unfold Let_def)
  have "settleRequest (WireFailure JNull) = Inl (OtherError JNull)" by (simp add: settleRequest_def)
  from rotation_failure_signs_out[OF s' this] s' show ?thesis by blast
qed

text \<open>
  C14.  A 401 that arrives late costs the session.  A call keeps the session it was sent
  with; when its 401 arrives after another call's rotation has already settled, it rotates
  that old session again: the refresh token sent is the one already used, not the cached
  one, and when the server rejects it the new, valid session is dropped.
\<close>

theorem late_401_rotates_stale_session:
  assumes "refreshInFlight s = None" and "calls s i = Some c" and "call_pc c = AwaitFirst old"
    and "cachedSession (mini_of s) = new" and "truthy (fld old ''refreshToken'')"
    and "opt_auth (call_options c) \<noteq> Some False" and "retryAuth (call_options c) \<noteq> Some False"
  shows "\<exists>s'. apiRequest_response base i (WireResponse 401 d) s = Some s' \<and>
    refreshInFlight s' = Some old \<and> cachedSession (mini_of s') = new \<and>
    fld (opt_data (rotationOptions old)) ''refresh_token'' = fld old ''refreshToken'' \<and>
    (\<forall>order r e s''. rotation_response base order r s' = Some s'' \<and> settleRequest r = Inl e \<longrightarrow>
       cachedSession (mini_of s'') = JNull)"
proof -
  let ?s' = "with_pc i AwaitRotation (rotateMiniAuthSession base old s)"
  obtain m cd x where st: "settleRequest (WireResponse 401 d) = Inl (ApiRequestError m 401 cd x)"
    by (simp add: settleRequest_def)
  have "apiRequest_response base i (WireResponse 401 d) s = Some ?s'"
    using assms st by (simp add: apiRequest_response_def rotates_def)
  moreover have "refreshInFlight ?s' = Some old" using assms(1) by (simp add: rotateMiniAuthSession_def)
  moreover have "cachedSession (mini_of s'') = JNull"
    if "rotation_response base order r ?s' = Some s''" "settleRequest r = Inl e" for order r e s''
    using that by (auto simp: rotation_response_def rotation_settled_def clearMiniAuthSession_def
        split: option.splits)
  ultimately show ?thesis using assms(4) by (auto simp: rotationOptions_def)
qed

theorem late_401_rotates_stale_session_witness:
  "\<exists>s'. apiRequest_response None 1 (WireResponse 401 JNull)
      (sample_sys\<lparr>mini_of := sample_mini\<lparr>cachedSession := sample_mini_session ''2''\<rparr>,
                  calls := [1 \<mapsto> sample_call (AwaitFirst (sample_mini_session ''1''))]\<rparr>) = Some s' \<and>
    refreshInFlight s' = Some (sample_mini_session ''1'') \<and>
    cachedSession (mini_of s') = sample_mini_session ''2''"
  using late_401_rotates_stale_session[of "sample_sys\<lparr>mini_of := sample_mini\<lparr>cachedSession := sample_mini_session ''2''\<rparr>,
      calls := [1 \<mapsto> sample_call (AwaitFirst (sample_mini_session ''1''))]\<rparr>" 1
      "sample_call (AwaitFirst (sample_mini_session ''1''))" "sample_mini_session ''1''"
      "sample_mini_session ''2''" None JNull]
  by (auto simp: sample_sys_def sample_call_def sample_options_def sample_mini_session_def)

text \<open>
  A session survives a restart: what was saved, if it is well formed and the storage
  works, is what a new process reads; after clearing, it reads none.
\<close>

theorem session_survives_restart:
  assumes "isMiniAuthSession v" and "\<not> setThrows (dev m) AUTH_STORAGE_KEY"
    and "\<not> getThrows (dev m) AUTH_STORAGE_KEY" and "\<not> removeThrows (dev m) AUTH_STORAGE_KEY"
  shows "fst (getMiniAuthSession ((saveMiniAuthSession v m)\<lparr>cachedSession := JUndef\<rparr>)) = v \<and>
    fst (getMiniAuthSession ((clearMiniAuthSession (saveMiniAuthSession v m))\<lparr>cachedSession := JUndef\<rparr>)) = JNull"
  using assms
  by (auto simp: getMiniAuthSession_def saveMiniAuthSession_def clearMiniAuthSession_def attempt_def
      getStorageSync_def setStorageSync_def removeStorageSync_def isMiniAuthSession_def)

theorem session_survives_restart_witness:
  "fst (getMiniAuthSession ((saveMiniAuthSession (sample_mini_session ''1'') sample_mini)\<lparr>cachedSession := JUndef\<rparr>)) =
     sample_mini_session ''1''"
  using session_survives_restart[of "sample_mini_session ''1''" sample_mini]
  by (simp add: isMiniAuthSession_def mini_samples AUTH_STORAGE_KEY_def LEGACY_KEY_def)

text \<open>
  A URL that is built joins base and path with exactly one slash: the base is an
  \<open>http\<close> or \<open>https\<close> URL without a slash at its end, the path has none at its start.
\<close>

theorem api_url_joined_once:
  assumes "buildApiUrl baseUrl path = Inr url"
  shows "\<exists>base rest. url = base @ [SLASH] @ rest \<and> has_http_scheme base \<and>
    normalizeApiBaseUrl baseUrl = Inr base \<and> base \<noteq> [] \<and> last base \<noteq> SLASH \<and>
    (rest = [] \<or> hd rest \<noteq> SLASH)"
proof -
  let ?n = "rev (dropWhile (\<lambda>c. c = SLASH) (rev (jtrim baseUrl)))"
  from assms have url: "url = ?n @ [SLASH] @ dropWhile (\<lambda>c. c = SLASH) path"
    and n: "normalizeApiBaseUrl baseUrl = Inr ?n" "has_http_scheme ?n" "?n \<noteq> []"
    by (auto simp: buildApiUrl_def normalizeApiBaseUrl_def Let_def split: if_splits sum.splits)
  moreover have "last ?n \<noteq> SLASH" using n(3) hd_dropWhile[of "\<lambda>c. c = SLASH"] by (simp add: last_rev)
  moreover have "dropWhile (\<lambda>c. c = SLASH) path = [] \<or> hd (dropWhile (\<lambda>c. c = SLASH) path) \<noteq> SLASH"
    using hd_dropWhile[of "\<lambda>c. c = SLASH"] by blast
  ultimately show ?thesis by blast
qed

theorem api_url_joined_once_witness:
  "\<exists>base rest. js ''https://h/v1/x'' = base @ [SLASH] @ rest \<and> base \<noteq> [] \<and> last base \<noteq> SLASH"
proof -
  have "buildApiUrl (js '' https://h/v1// '') (js ''//x'') = Inr (js ''https://h/v1/x'')"
    by (simp add: buildApiUrl_def normalizeApiBaseUrl_def has_http_scheme_def jtrim_def starts_with_def
        lower_def SLASH_def js_eval unat_u16)
  from api_url_joined_once[OF this] show ?thesis by blast
qed

end
