(* ===== verification/Mini_Client.thy ===== *)
theory Mini_Client
  imports Mini_Request
begin

text \<open>
  Signing in and out of the mini-app, \<open>miniapp/src/auth/client.ts\<close>.  Each operation is
  split where it awaits: what it checks and sends, and what it does with the data the
  server returned.  The WeChat runtime (application id, login code, avatar) is an
  argument.
\<close>

section \<open>Requests\<close>

text \<open>An optional string argument as the value that is sent.\<close>

definition opt_val :: "jstring option \<Rightarrow> jsval" where
  "opt_val x = (case x of None \<Rightarrow> JUndef | Some s \<Rightarrow> JStr s)"

definition anonymous_post :: "(jstring \<times> jsval) list \<Rightarrow> RequestOptions" where
  "anonymous_post body =
     \<lparr>opt_auth = Some False, opt_data = JObj body, opt_header = [], opt_method = Some (js ''POST''),
      retryAuth = Some False\<rparr>"

definition client_error :: "string \<Rightarrow> int \<Rightarrow> string \<Rightarrow> RequestError" where
  "client_error msg st code = ApiRequestError (JStr (js msg)) st (JStr (js code)) JUndef"

text \<open>The checks of \<open>loginWithWeChatPhone\<close> up to \<open>Taro.login()\<close>; \<open>None\<close> when the
  account information throws.\<close>

definition phoneLogin_start :: "jstring \<Rightarrow> jstring option \<Rightarrow> RequestError + jstring \<times> jstring" where
  "phoneLogin_start phoneCode accountAppId =
     (let authorizationCode = jtrim phoneCode; appId = jtrim (nullish accountAppId []) in
      if authorizationCode = []
      then Inl (client_error ''Phone authorization code is required'' 400 ''MINI_AUTH_CODE_REQUIRED'')
      else if appId = []
      then Inl (client_error ''WeChat app identity is unavailable'' 400 ''MINI_AUTH_NOT_CONFIGURED'')
      else Inr (authorizationCode, appId))"

definition phoneLogin_request :: "jstring \<times> jstring \<Rightarrow> jstring option \<Rightarrow> RequestError + RequestOptions" where
  "phoneLogin_request start code =
     (let loginCode = jtrim (nullish code []) in
      if loginCode = []
      then Inl (client_error ''WeChat login code is required'' 400 ''MINI_AUTH_CODE_REQUIRED'')
      else Inr (anonymous_post [(js ''app_id'', JStr (snd start)), (js ''code'', JStr loginCode),
                                (js ''phone_code'', JStr (fst start))]))"

record MiniPasswordLoginInput =
  pw_password :: jstring
  pw_twoFactorCode :: "jstring option"
  pw_username :: jstring

definition passwordLogin_request :: "MiniPasswordLoginInput \<Rightarrow> RequestOptions" where
  "passwordLogin_request input = anonymous_post
     [(js ''username'', JStr (jtrim (pw_username input))), (js ''password'', JStr (pw_password input)),
      (js ''two_factor_code'', opt_val (pw_twoFactorCode input))]"

record MiniBindInput =
  acceptTerms :: bool
  flowToken :: jstring
  bind_password :: "jstring option"
  bind_twoFactorCode :: "jstring option"
  bind_username :: "jstring option"
  confirmOnly :: "bool option"
  nickname :: "jstring option"
  avatarPath :: "jstring option"

text \<open>The avatar is read first when a path is given; \<open>avatar\<close> is what that returned.\<close>

definition bind_reads_avatar :: "MiniBindInput \<Rightarrow> bool" where
  "bind_reads_avatar input \<longleftrightarrow> avatarPath input \<noteq> None \<and> avatarPath input \<noteq> Some []"

definition bind_request :: "MiniBindInput \<Rightarrow> jsval \<Rightarrow> RequestOptions" where
  "bind_request input avatar = anonymous_post
     [(js ''flow_token'', JStr (flowToken input)), (js ''username'', opt_val (bind_username input)),
      (js ''password'', opt_val (bind_password input)),
      (js ''two_factor_code'', opt_val (bind_twoFactorCode input)),
      (js ''accept_terms'', JBool (acceptTerms input)),
      (js ''confirm_only'', case confirmOnly input of None \<Rightarrow> JUndef | Some b \<Rightarrow> JBool b),
      (js ''nickname'', opt_val (nickname input)),
      (js ''avatar_base64'', if bind_reads_avatar input then avatar else JUndef)]"

definition has_flow :: "jstring option \<Rightarrow> bool" where
  "has_flow f \<longleftrightarrow> f \<noteq> None \<and> f \<noteq> Some []"

definition sendMiniSMS :: "jstring \<Rightarrow> jstring option \<Rightarrow> jsval \<Rightarrow> jstring \<times> RequestOptions" where
  "sendMiniSMS phone flow loginCode =
     (if has_flow flow then js ''/api/mini/auth/sms/mfa/code'' else js ''/api/mini/auth/sms/code'',
      anonymous_post [(js ''phone'', JStr phone),
                      (js ''wx_code'', if has_flow flow then JUndef else loginCode),
                      (js ''flow_token'', opt_val flow)])"

definition smsLogin_request :: "jstring \<Rightarrow> jstring \<Rightarrow> jstring option \<Rightarrow> jstring \<times> RequestOptions" where
  "smsLogin_request token code flow =
     (if has_flow flow then js ''/api/mini/auth/sms/mfa'' else js ''/api/mini/auth/sms'',
      anonymous_post [(js ''challenge_token'', JStr token), (js ''code'', JStr code),
                      (js ''flow_token'', opt_val flow)])"

section \<open>Results\<close>

definition type_error :: RequestError where
  "type_error = OtherError (JStr (js ''TypeError''))"

text \<open>\<open>loginWithPassword\<close>, \<open>bindMiniAppAccount\<close> and \<open>loginWithMiniSMS\<close> end with this.\<close>

definition persistAuthBundle :: "jsval \<Rightarrow> mini \<Rightarrow> (RequestError + jsval) \<times> mini" where
  "persistAuthBundle d m =
     (case mini_bundle_session d of
        None \<Rightarrow> (Inl type_error, m)
      | Some session \<Rightarrow> (Inr session, saveMiniAuthSession session m))"

datatype MiniLoginResult = LoginAuthenticated jsval | BindingRequired jsval

definition phoneLogin_finish :: "jsval \<Rightarrow> mini \<Rightarrow> (RequestError + MiniLoginResult) \<times> mini" where
  "phoneLogin_finish d m =
     (if d = JUndef \<or> d = JNull then (Inl type_error, m)
      else if truthy (fld d ''binding_required'') then
        (if \<not> truthy (fld (fld d ''matched_account'') ''username'')
         then (Inl (client_error ''No verified platform account matches this phone'' 404
                      ''MINI_AUTH_PHONE_ACCOUNT_NOT_FOUND''), m)
         else (Inr (BindingRequired d), m))
      else case persistAuthBundle d m of
             (Inl e, m') \<Rightarrow> (Inl e, m')
           | (Inr session, m') \<Rightarrow> (Inr (LoginAuthenticated session), m'))"

section \<open>Signing out\<close>

definition logout_start :: "mini \<Rightarrow> RequestOptions option \<times> mini" where
  "logout_start m =
     (let (session, m') = getMiniAuthSession m in
      if \<not> truthy session then (None, m')
      else (Some \<lparr>opt_auth = None,
                  opt_data = JObj [(js ''refresh_token'', fld session ''refreshToken''),
                                   (js ''sid'', fld session ''sid'')],
                  opt_header = [], opt_method = Some (js ''POST''), retryAuth = Some False\<rparr>, m'))"

text \<open>The \<open>finally\<close> of \<open>logoutMiniApp\<close>, whatever the request returned.\<close>

definition logout_finally :: "mini \<Rightarrow> mini" where
  "logout_finally m =
     (let m' = clearMiniAuthSession m in m'\<lparr>dev := clearConversation (dev m')\<rparr>)"

section \<open>Properties\<close>

definition sign_in_request :: "RequestOptions \<Rightarrow> bool" where
  "sign_in_request req \<longleftrightarrow>
     (\<exists>start code. phoneLogin_request start code = Inr req) \<or> (\<exists>i. req = passwordLogin_request i) \<or>
     (\<exists>i a. req = bind_request i a) \<or> (\<exists>p f c. req = snd (sendMiniSMS p f c)) \<or>
     (\<exists>t c f. req = snd (smsLogin_request t c f))"

text \<open>
  A request that signs in never carries the credentials of a previous session, and its
  rejection never rotates or clears one.
\<close>

theorem sign_in_requests_anonymous:
  assumes "sign_in_request req"
  shows "map_of (requestHeader req session) (js ''Authorization'') = None \<and> \<not> rotates req session e"
proof -
  obtain body where "req = anonymous_post body"
    using assms
    by (auto simp: sign_in_request_def phoneLogin_request_def passwordLogin_request_def bind_request_def
        sendMiniSMS_def smsLogin_request_def Let_def split: if_splits)
  then show ?thesis by (simp add: anonymous_post_def requestHeader_def spread_def rotates_def)
qed

theorem sign_in_requests_anonymous_witness:
  "map_of (requestHeader (snd (smsLogin_request (js ''t'') (js ''123456'') None)) (sample_mini_session ''1''))
     (js ''Authorization'') = None"
proof -
  have "sign_in_request (snd (smsLogin_request (js ''t'') (js ''123456'') None))"
    unfolding sign_in_request_def by blast
  from sign_in_requests_anonymous[OF this] show ?thesis by blast
qed

text \<open>
  Signing in by phone changes the session only when it authenticates: the outcome
  is authenticated exactly with a new session that is then the cached one; in every other
  case (no matching account, binding still required, malformed data) nothing is stored.
\<close>

theorem phone_login_stores_only_success:
  "(case fst (phoneLogin_finish d m) of
      Inr (LoginAuthenticated s) \<Rightarrow>
        mini_bundle_session d = Some s \<and> cachedSession (snd (phoneLogin_finish d m)) = s \<and>
        \<not> truthy (fld d ''binding_required'')
    | Inr (BindingRequired b) \<Rightarrow>
        b = d \<and> truthy (fld (fld d ''matched_account'') ''username'') \<and> snd (phoneLogin_finish d m) = m
    | Inl e \<Rightarrow> snd (phoneLogin_finish d m) = m)"
  by (auto simp: phoneLogin_finish_def persistAuthBundle_def saveMiniAuthSession_def split: option.splits)

text \<open>
  Signing out always forgets: whatever the server answered, no session is cached
  afterwards, and when the storage can be read and removed, neither a session nor a
  conversation is left on the device.
\<close>

theorem logout_forgets:
  assumes "\<forall>k. \<not> removeThrows (dev m) k"
  shows "cachedSession (logout_finally m) = JNull \<and>
    fst (getMiniAuthSession (logout_finally m)) = JNull \<and>
    storage (dev (logout_finally m)) AUTH_STORAGE_KEY = None \<and>
    storage (dev (logout_finally m)) STORAGE_KEY = None \<and>
    storage (dev (logout_finally m)) LEGACY_KEY = None"
  using assms
  by (simp add: logout_finally_def clearMiniAuthSession_def clearConversation_def attempt_def
      removeStorageSync_def getMiniAuthSession_def Let_def)

theorem logout_forgets_witness:
  "cachedSession (logout_finally (saveMiniAuthSession (sample_mini_session ''1'')
     (sample_mini\<lparr>dev := sample_device\<lparr>removeThrows := (\<lambda>_. False)\<rparr>\<rparr>))) = JNull"
  using logout_forgets[of "saveMiniAuthSession (sample_mini_session ''1'')
     (sample_mini\<lparr>dev := sample_device\<lparr>removeThrows := (\<lambda>_. False)\<rparr>\<rparr>)"]
  by (simp add: saveMiniAuthSession_def attempt_def setStorageSync_def sample_device_def)

end
