(* ===== verification/Status_Codes.thy ===== *)
theory Status_Codes
  imports JS_Prelude "HOL-Library.Product_Lexorder"
begin

text \<open>
  Rules on HTTP status codes, \<open>web/src/lib/http-status-code-rules.ts\<close>: a text such as
  \<open>401, 500-503\<close> is read as a list of ranges, merged into a canonical list and printed.
  A code is a natural number: a digit string that is too long for a number is out of
  range for the code and for the model alike.
\<close>

section \<open>Reading\<close>

record StatusCodeRange =
  range_start :: nat
  range_end :: nat

record ParsedHttpStatusCodeRules =
  ok :: bool
  ranges :: "StatusCodeRange list"
  tokens :: "jstring list"
  normalized :: jstring
  invalidTokens :: "jstring list"

definition COMMA :: jchar where "COMMA = u16 (CHR '','')"
definition DASH :: jchar where "DASH = u16 (CHR ''-'')"
definition FULLWIDTH_COMMA :: jchar where "FULLWIDTH_COMMA = 0xFF0C"

definition isNumber :: "jstring \<Rightarrow> bool" where
  "isNumber s \<longleftrightarrow> s \<noteq> [] \<and> list_all is_digit s"

definition isValidCode :: "nat \<Rightarrow> bool" where
  "isValidCode code \<longleftrightarrow> 100 \<le> code \<and> code \<le> 599"

text \<open>\<open>const [a, b] = cleaned.split('-')\<close> takes the first two parts and drops the rest.\<close>

definition parseToken :: "jstring \<Rightarrow> StatusCodeRange option" where
  "parseToken token =
     (let cleaned = filter (\<lambda>c. \<not> is_ws c) (jtrim token) in
      if cleaned = [] then None
      else if DASH \<in> set cleaned then
        (case split_on DASH cleaned of
           a # b # _ \<Rightarrow>
             if \<not> isNumber a \<or> \<not> isNumber b then None
             else let s = parse_dec a; e = parse_dec b
                  in if \<not> isValidCode s \<or> \<not> isValidCode e \<or> e < s then None
                     else Some \<lparr>range_start = s, range_end = e\<rparr>
         | _ \<Rightarrow> None)
      else if \<not> isNumber cleaned then None
      else let code = parse_dec cleaned
           in if \<not> isValidCode code then None else Some \<lparr>range_start = code, range_end = code\<rparr>)"

section \<open>Merging\<close>

definition range_after :: "StatusCodeRange \<Rightarrow> StatusCodeRange \<Rightarrow> bool" where
  "range_after a b \<longleftrightarrow>
     (if range_start a \<noteq> range_start b then range_start b < range_start a else range_end b < range_end a)"

definition merge_step :: "StatusCodeRange list \<Rightarrow> StatusCodeRange \<Rightarrow> StatusCodeRange list" where
  "merge_step merged cur =
     (if merged = [] \<or> range_end (last merged) + 1 < range_start cur then merged @ [cur]
      else butlast merged @ [(last merged)\<lparr>range_end := max (range_end (last merged)) (range_end cur)\<rparr>])"

definition mergeRanges :: "StatusCodeRange list \<Rightarrow> StatusCodeRange list" where
  "mergeRanges rs = foldl merge_step [] (js_sort range_after rs)"

section \<open>The whole text\<close>

definition print_range :: "StatusCodeRange \<Rightarrow> jstring" where
  "print_range r =
     (if range_start r = range_end r then show_nat (range_start r)
      else show_nat (range_start r) @ [DASH] @ show_nat (range_end r))"

definition rule_segments :: "jstring \<Rightarrow> jstring list" where
  "rule_segments raw =
     filter (\<lambda>s. s \<noteq> [])
       (map jtrim (split_on COMMA (map (\<lambda>c. if c = FULLWIDTH_COMMA then COMMA else c) raw)))"

definition parseHttpStatusCodeRules :: "jstring \<Rightarrow> ParsedHttpStatusCodeRules" where
  "parseHttpStatusCodeRules input =
     (let raw = jtrim input in
      if raw = [] then \<lparr>ok = True, ranges = [], tokens = [], normalized = [], invalidTokens = []\<rparr>
      else
        let segments = rule_segments raw;
            parsed = List.map_filter parseToken segments;
            invalid = filter (\<lambda>s. parseToken s = None) segments
        in if invalid \<noteq> []
           then \<lparr>ok = False, ranges = [], tokens = [], normalized = raw, invalidTokens = invalid\<rparr>
           else let merged = mergeRanges parsed; ts = map print_range merged
                in \<lparr>ok = True, ranges = merged, tokens = ts, normalized = join [COMMA] ts,
                    invalidTokens = []\<rparr>)"

section \<open>Canonical lists of ranges\<close>

definition in_ranges :: "StatusCodeRange list \<Rightarrow> nat \<Rightarrow> bool" where
  "in_ranges rs code \<longleftrightarrow> (\<exists>r \<in> set rs. range_start r \<le> code \<and> code \<le> range_end r)"

definition wf_range :: "StatusCodeRange \<Rightarrow> bool" where
  "wf_range r \<longleftrightarrow> 100 \<le> range_start r \<and> range_start r \<le> range_end r \<and> range_end r \<le> 599"

definition canonical :: "StatusCodeRange list \<Rightarrow> bool" where
  "canonical rs \<longleftrightarrow> list_all wf_range rs \<and> sorted_wrt (\<lambda>a b. range_end a + 1 < range_start b) rs"

lemma in_ranges_simps [simp]:
  "\<not> in_ranges [] c" "in_ranges (rs @ ss) c \<longleftrightarrow> in_ranges rs c \<or> in_ranges ss c"
  "in_ranges [r] c \<longleftrightarrow> range_start r \<le> c \<and> c \<le> range_end r"
  "in_ranges (r # rs) c \<longleftrightarrow> range_start r \<le> c \<and> c \<le> range_end r \<or> in_ranges rs c"
  by (auto simp: in_ranges_def)

lemma sorted_js_sort_ranges: "js_sort range_after rs = sort_key (\<lambda>r. (range_start r, range_end r)) rs"
  by (rule js_sort_key) (auto simp: range_after_def less_prod_def)

lemma starts_sorted: "sorted_wrt (\<lambda>a b. range_start a \<le> range_start b) (js_sort range_after rs)"
proof -
  have "sorted (map (\<lambda>r. (range_start r, range_end r)) (js_sort range_after rs))"
    by (simp add: sorted_js_sort_ranges)
  then show ?thesis unfolding sorted_map
    by (rule sorted_wrt_mono_rel[rotated]) (auto simp: less_eq_prod_def)
qed

text \<open>One step keeps a canonical list canonical and adds exactly the codes of the range.\<close>

lemma merge_step_ok:
  assumes "canonical acc" and "wf_range r" and "acc \<noteq> [] \<Longrightarrow> range_start (last acc) \<le> range_start r"
  shows "canonical (merge_step acc r)" and "merge_step acc r \<noteq> []"
    and "range_start (last (merge_step acc r)) \<le> range_start r"
    and "in_ranges (merge_step acc r) c \<longleftrightarrow> in_ranges acc c \<or> in_ranges [r] c"
proof -
  show "merge_step acc r \<noteq> []" by (simp add: merge_step_def)
  show "range_start (last (merge_step acc r)) \<le> range_start r" using assms(3) by (simp add: merge_step_def)
  consider (empty) "acc = []" | (snoc) init l where "acc = init @ [l]" by (cases acc rule: rev_cases) auto
  then have *: "canonical (merge_step acc r) \<and>
      (in_ranges (merge_step acc r) c \<longleftrightarrow> in_ranges acc c \<or> in_ranges [r] c)"
  proof cases
    case empty
    with assms(2) show ?thesis by (simp add: merge_step_def canonical_def)
  next
    case (snoc init l)
    have l: "wf_range l" "list_all wf_range init" "range_start l \<le> range_start r"
      and init: "sorted_wrt (\<lambda>a b. range_end a + 1 < range_start b) init"
        "\<forall>x \<in> set init. range_end x + 1 < range_start l"
      using assms snoc by (auto simp: canonical_def sorted_wrt_append)
    show ?thesis
    proof (cases "range_end l + 1 < range_start r")
      case True
      then have "\<forall>x \<in> set init. range_end x + 1 < range_start r"
        using init(2) l(1) by (auto simp: wf_range_def)
      with True l init assms(2) show ?thesis
        by (auto simp: merge_step_def canonical_def sorted_wrt_append snoc)
    next
      case False
      with l init assms(2) show ?thesis
        by (auto simp: merge_step_def canonical_def sorted_wrt_append snoc wf_range_def)
    qed
  qed
  then show "canonical (merge_step acc r)"
    and "in_ranges (merge_step acc r) c \<longleftrightarrow> in_ranges acc c \<or> in_ranges [r] c" by blast+
qed

lemma merge_foldl:
  "canonical acc \<Longrightarrow> list_all wf_range rs \<Longrightarrow> sorted_wrt (\<lambda>a b. range_start a \<le> range_start b) rs \<Longrightarrow>
   acc = [] \<or> (\<forall>r \<in> set rs. range_start (last acc) \<le> range_start r) \<Longrightarrow>
   canonical (foldl merge_step acc rs) \<and>
   (in_ranges (foldl merge_step acc rs) c \<longleftrightarrow> in_ranges acc c \<or> in_ranges rs c)"
proof (induction rs arbitrary: acc)
  case (Cons r rs)
  have r: "wf_range r" "acc \<noteq> [] \<Longrightarrow> range_start (last acc) \<le> range_start r" using Cons.prems by auto
  note step = merge_step_ok[OF Cons.prems(1) r]
  have "canonical (foldl merge_step (merge_step acc r) rs) \<and>
      (in_ranges (foldl merge_step (merge_step acc r) rs) c \<longleftrightarrow>
         in_ranges (merge_step acc r) c \<or> in_ranges rs c)"
  proof (rule Cons.IH)
    show "merge_step acc r = [] \<or> (\<forall>x \<in> set rs. range_start (last (merge_step acc r)) \<le> range_start x)"
      using Cons.prems(3) step(3) by (auto intro: order_trans)
  qed (use Cons.prems step(1) in auto)
  with step(4)[of c] show ?case by auto
qed simp

lemma mergeRanges_ok:
  assumes "list_all wf_range rs"
  shows "canonical (mergeRanges rs)" and "in_ranges (mergeRanges rs) c \<longleftrightarrow> in_ranges rs c"
proof -
  have "list_all wf_range (js_sort range_after rs)" using assms by (simp add: list_all_iff)
  moreover have "in_ranges (js_sort range_after rs) c \<longleftrightarrow> in_ranges rs c" by (simp add: in_ranges_def)
  ultimately show "canonical (mergeRanges rs)" and "in_ranges (mergeRanges rs) c \<longleftrightarrow> in_ranges rs c"
    using merge_foldl[of "[]" "js_sort range_after rs" c] starts_sorted
    by (auto simp: mergeRanges_def canonical_def)
qed

text \<open>A canonical list is its own merge.\<close>

lemma foldl_merge_canonical: "canonical (acc @ rs) \<Longrightarrow> foldl merge_step acc rs = acc @ rs"
proof (induction rs arbitrary: acc)
  case (Cons r rs)
  have "acc = [] \<or> range_end (last acc) + 1 < range_start r"
    using Cons.prems by (cases acc rule: rev_cases) (auto simp: canonical_def sorted_wrt_append)
  then have "merge_step acc r = acc @ [r]" by (simp add: merge_step_def)
  with Cons show ?case by simp
qed simp

lemma mergeRanges_canonical:
  assumes "canonical rs"
  shows "mergeRanges rs = rs"
proof -
  have "sorted_wrt (\<lambda>a b. range_start a < range_start b) rs"
    using assms unfolding canonical_def
    by (auto simp: list_all_iff wf_range_def elim!: sorted_wrt_mono_rel[rotated])
  then have "sorted_wrt (\<lambda>a b. (range_start a, range_end a) \<le> (range_start b, range_end b)) rs"
    by (rule sorted_wrt_mono_rel[rotated]) (auto simp: less_eq_prod_def)
  then have "js_sort range_after rs = rs"
    by (simp add: sorted_js_sort_ranges sorted_map sort_key_id_if_sorted)
  with foldl_merge_canonical[of "[]" rs] assms show ?thesis by (simp add: mergeRanges_def)
qed

section \<open>Printing and reading back\<close>

lemma parseToken_wf: "parseToken t = Some r \<Longrightarrow> wf_range r"
  by (auto simp: parseToken_def isValidCode_def wf_range_def Let_def split: if_splits list.splits)

definition plain :: "jchar \<Rightarrow> bool" where
  "plain c \<longleftrightarrow> is_digit c \<or> c = DASH"

lemma plain_char: "plain c \<Longrightarrow> \<not> is_ws c \<and> c \<noteq> COMMA \<and> c \<noteq> FULLWIDTH_COMMA"
  by (auto simp: plain_def is_digit_not_ws DASH_def COMMA_def FULLWIDTH_COMMA_def js_eval is_digit_def unat_u16)

lemma print_range_plain: "list_all plain (print_range r)"
  by (auto simp: print_range_def plain_def list_all_iff dest: show_nat_digits)

lemma print_range_neq_Nil [simp]: "print_range r \<noteq> []"
  by (simp add: print_range_def)

lemma plain_clean: "list_all plain s \<Longrightarrow> jtrim s = s \<and> filter (\<lambda>c. \<not> is_ws c) s = s"
  using plain_char by (auto simp: list_all_iff filter_id_conv intro!: jtrim_no_ws)

lemma show_nat_no_dash: "DASH \<notin> set (show_nat n)"
  by (auto simp: DASH_def dest!: show_nat_digits simp: is_digit_u16)

lemma isNumber_show_nat [simp]: "isNumber (show_nat n)"
  by (auto simp: isNumber_def list_all_iff dest: show_nat_digits)

lemma parseToken_print [simp]:
  assumes "wf_range r"
  shows "parseToken (print_range r) = Some r"
proof -
  have c: "jtrim (print_range r) = print_range r"
    "filter (\<lambda>c. \<not> is_ws c) (print_range r) = print_range r"
    using plain_clean[OF print_range_plain] by blast+
  show ?thesis
  proof (cases "range_start r = range_end r")
    case True
    then show ?thesis using assms show_nat_no_dash c
      by (simp add: parseToken_def print_range_def isValidCode_def wf_range_def Let_def)
  next
    case False
    have "split_on DASH (print_range r) = [show_nat (range_start r), show_nat (range_end r)]"
      using False show_nat_no_dash by (simp add: print_range_def split_on_append)
    with False assms c show ?thesis
      by (simp add: parseToken_def print_range_def isValidCode_def wf_range_def Let_def)
  qed
qed

lemma join_plain: "\<forall>t \<in> set ts. list_all plain t \<Longrightarrow> c \<in> set (join [COMMA] ts) \<Longrightarrow> plain c \<or> c = COMMA"
  by (induction "[COMMA]" ts rule: join.induct) (auto simp: list_all_iff)

lemma comma_not_ws: "\<not> is_ws COMMA" "COMMA \<noteq> FULLWIDTH_COMMA"
  by (simp_all add: COMMA_def FULLWIDTH_COMMA_def js_eval)

lemma rule_segments_printed:
  assumes "rs \<noteq> []"
  shows "jtrim (join [COMMA] (map print_range rs)) = join [COMMA] (map print_range rs)"
    and "rule_segments (join [COMMA] (map print_range rs)) = map print_range rs"
proof -
  let ?j = "join [COMMA] (map print_range rs)"
  have pl: "\<forall>t \<in> set (map print_range rs). list_all plain t" using print_range_plain by auto
  have ch: "\<not> is_ws c \<and> c \<noteq> FULLWIDTH_COMMA" if "c \<in> set ?j" for c
    using join_plain[OF pl that] plain_char[of c] comma_not_ws by auto
  then show "jtrim ?j = ?j" by (intro jtrim_no_ws) (simp add: list_all_iff)
  have "map (\<lambda>c. if c = FULLWIDTH_COMMA then COMMA else c) ?j = ?j"
    using ch by (intro map_idI) simp
  moreover have "\<forall>t \<in> set (map print_range rs). COMMA \<notin> set t"
    using pl plain_char by (fastforce simp: list_all_iff)
  then have "split_on COMMA ?j = map print_range rs" using assms by (intro split_on_join) auto
  moreover have "map jtrim (map print_range rs) = map print_range rs"
    using plain_clean[OF print_range_plain] by (intro map_idI) auto
  ultimately show "rule_segments ?j = map print_range rs"
    by (simp only: rule_segments_def) (simp add: filter_id_conv)
qed

lemma map_filter_parse_print:
  "list_all wf_range rs \<Longrightarrow> List.map_filter parseToken (map print_range rs) = rs"
  by (induction rs) (auto simp: List.map_filter_def)

lemma parsed_wf: "list_all wf_range (List.map_filter parseToken ts)"
  by (auto simp: list_all_iff List.map_filter_def dest: parseToken_wf)

lemma mergeRanges_Nil_iff: "list_all wf_range rs \<Longrightarrow> mergeRanges rs = [] \<longleftrightarrow> rs = []"
proof
  assume wf: "list_all wf_range rs" and "mergeRanges rs = []"
  then have "\<not> in_ranges rs c" for c using mergeRanges_ok(2)[OF wf, of c] by simp
  then show "rs = []" using wf by (cases rs) (auto simp: wf_range_def)
qed (simp add: mergeRanges_def js_sort_def)

lemma parse_canonical:
  assumes "canonical rs"
  shows "parseHttpStatusCodeRules (join [COMMA] (map print_range rs)) =
    \<lparr>ok = True, ranges = rs, tokens = map print_range rs, normalized = join [COMMA] (map print_range rs),
     invalidTokens = []\<rparr>"
proof (cases "rs = []")
  case False
  have wf: "list_all wf_range rs" using assms by (simp add: canonical_def)
  let ?j = "join [COMMA] (map print_range rs)"
  have "?j \<noteq> []"
    using rule_segments_printed(2)[OF False] False by (auto simp: rule_segments_def)
  moreover have "filter (\<lambda>s. parseToken s = None) (map print_range rs) = []"
    using wf by (auto simp: filter_empty_conv list_all_iff)
  ultimately show ?thesis
    using rule_segments_printed[OF False] map_filter_parse_print[OF wf] mergeRanges_canonical[OF assms]
    by (simp add: parseHttpStatusCodeRules_def Let_def)
qed (simp add: parseHttpStatusCodeRules_def)

section \<open>Properties\<close>

text \<open>
  C17.  An accepted text denotes exactly the codes of its tokens: the resulting ranges are
  within 100 to 599, in ascending order, and separated by at least one code, and a code is
  in one of them if and only if a token of the text covers it.
\<close>

theorem status_rules_canonical:
  assumes "ok (parseHttpStatusCodeRules input)"
  shows "canonical (ranges (parseHttpStatusCodeRules input)) \<and>
    (in_ranges (ranges (parseHttpStatusCodeRules input)) code \<longleftrightarrow>
       (\<exists>token \<in> set (rule_segments (jtrim input)). \<exists>r. parseToken token = Some r \<and>
          range_start r \<le> code \<and> code \<le> range_end r))"
proof (cases "jtrim input = []")
  case True
  then show ?thesis by (simp add: parseHttpStatusCodeRules_def canonical_def rule_segments_def)
next
  case False
  let ?p = "List.map_filter parseToken (rule_segments (jtrim input))"
  from assms False have "ranges (parseHttpStatusCodeRules input) = mergeRanges ?p"
    by (auto simp: parseHttpStatusCodeRules_def Let_def split: if_splits)
  moreover have "in_ranges ?p code \<longleftrightarrow> (\<exists>token \<in> set (rule_segments (jtrim input)). \<exists>r.
      parseToken token = Some r \<and> range_start r \<le> code \<and> code \<le> range_end r)"
    by (force simp: in_ranges_def List.map_filter_def)
  ultimately show ?thesis using mergeRanges_ok[OF parsed_wf] by simp
qed

theorem status_rules_canonical_witness:
  "ok (parseHttpStatusCodeRules (js ''503, 500-502,401'')) \<and>
   canonical (ranges (parseHttpStatusCodeRules (js ''503, 500-502,401'')))"
proof -
  have "ok (parseHttpStatusCodeRules (js ''503, 500-502,401''))"
    by (simp add: parseHttpStatusCodeRules_def rule_segments_def jtrim_def COMMA_def DASH_def
        FULLWIDTH_COMMA_def parseToken_def isNumber_def parse_dec_def digit_val_def isValidCode_def
        Let_def js_eval unat_u16)
  with status_rules_canonical[OF this] show ?thesis by blast
qed

text \<open>
  C18.  The normalised text is a fixed point: reading it gives the same ranges and prints the
  same text again.
\<close>

theorem status_rules_normalized_fixpoint:
  assumes "ok (parseHttpStatusCodeRules input)"
  shows "parseHttpStatusCodeRules (normalized (parseHttpStatusCodeRules input)) =
    parseHttpStatusCodeRules input"
proof (cases "jtrim input = []")
  case True
  then show ?thesis by (simp add: parseHttpStatusCodeRules_def)
next
  case False
  let ?m = "mergeRanges (List.map_filter parseToken (rule_segments (jtrim input)))"
  have c: "canonical ?m" by (rule mergeRanges_ok(1)[OF parsed_wf])
  have "parseHttpStatusCodeRules input =
      \<lparr>ok = True, ranges = ?m, tokens = map print_range ?m, normalized = join [COMMA] (map print_range ?m),
       invalidTokens = []\<rparr>"
    using assms False by (auto simp: parseHttpStatusCodeRules_def Let_def split: if_splits)
  with parse_canonical[OF c] show ?thesis by simp
qed

theorem status_rules_normalized_fixpoint_witness:
  "parseHttpStatusCodeRules (normalized (parseHttpStatusCodeRules (js ''503, 500-502,401''))) =
     parseHttpStatusCodeRules (js ''503, 500-502,401'')"
  by (rule status_rules_normalized_fixpoint)
    (simp add: parseHttpStatusCodeRules_def rule_segments_def jtrim_def COMMA_def DASH_def
        FULLWIDTH_COMMA_def parseToken_def isNumber_def parse_dec_def digit_val_def isValidCode_def
        Let_def js_eval unat_u16)

text \<open>
  A token with a second dash is accepted, and what follows it is ignored.
\<close>

theorem extra_range_part_ignored:
  assumes "wf_range r" and "range_start r \<noteq> range_end r" and "list_all (\<lambda>c. \<not> is_ws c) rest"
  shows "parseToken (print_range r @ [DASH] @ rest) = Some r"
proof -
  let ?t = "print_range r @ [DASH] @ rest"
  have "\<not> is_ws c" if "c \<in> set ?t" for c
    using that print_range_plain[of r] assms(3) plain_char
    by (auto simp: list_all_iff plain_def)
  then have c: "jtrim ?t = ?t" "filter (\<lambda>c. \<not> is_ws c) ?t = ?t"
    by (auto intro!: jtrim_no_ws simp: list_all_iff filter_id_conv)
  have "split_on DASH ?t = show_nat (range_start r) # show_nat (range_end r) # split_on DASH rest"
    using assms(2) show_nat_no_dash by (simp add: print_range_def split_on_append)
  moreover have "DASH \<in> set ?t" "?t \<noteq> []" by simp_all
  ultimately show ?thesis
    using assms(1) unfolding parseToken_def Let_def c
    by (simp add: isValidCode_def wf_range_def)
qed

theorem extra_range_part_ignored_witness:
  "parseToken (print_range \<lparr>range_start = 100, range_end = 200\<rparr> @ [DASH] @ js ''x'') =
     Some \<lparr>range_start = 100, range_end = 200\<rparr>"
  by (rule extra_range_part_ignored) (simp_all add: wf_range_def js_eval)

end
