(* ===== verification/JS_JSON.thy ===== *)
theory JS_JSON
  imports JS_Convert
begin

text \<open>
  \<open>JSON.parse\<close> on strings of code units, \<open>None\<close> when it throws.  The parser recurses on
  fuel; every recursive call is preceded by the consumption of a code unit within two
  levels, so twice the length of the text (and a little) is enough.
\<close>

section \<open>Order of properties\<close>

text \<open>Array indices come first in ascending order, then the other names as inserted.\<close>

definition array_index :: "jstring \<Rightarrow> nat option" where
  "array_index k =
     (if k = [] then None
      else if \<not> list_all is_digit k then None
      else let n = parse_dec k in
           if show_nat n \<noteq> k then None else if int n < 4294967295 then Some n else None)"

definition own_order :: "(jstring \<times> 'v) list \<Rightarrow> (jstring \<times> 'v) list" where
  "own_order ps =
     js_sort (\<lambda>a b. the (array_index (fst b)) < the (array_index (fst a)))
       (filter (\<lambda>(k, _). array_index k \<noteq> None) ps) @
     filter (\<lambda>(k, _). array_index k = None) ps"

lemma set_own_order [simp]: "set (own_order ps) = set ps"
  by (auto simp: own_order_def)

section \<open>Lexemes\<close>

definition json_ws :: "jchar \<Rightarrow> bool" where
  "json_ws c \<longleftrightarrow> c = 32 \<or> c = 9 \<or> c = 10 \<or> c = 13"

definition skip :: "jstring \<Rightarrow> jstring" where
  "skip s = dropWhile json_ws s"

definition hex4 :: "jstring \<Rightarrow> (jchar \<times> jstring) option" where
  "hex4 s =
     (case s of
        a # b # c # d # rest \<Rightarrow>
          (case (radix_digit 16 a, radix_digit 16 b, radix_digit 16 c, radix_digit 16 d) of
             (Some p, Some q, Some r, Some t) \<Rightarrow>
               Some (of_nat (p * 4096 + q * 256 + r * 16 + t), rest)
           | _ \<Rightarrow> None)
      | _ \<Rightarrow> None)"

definition escape_char :: "jchar \<Rightarrow> jchar option" where
  "escape_char c = map_of
     [(34, 34), (92, 92), (47, 47), (98, 8), (102, 12), (110, 10), (114, 13), (116, 9)] c"

text \<open>The rest of a string literal after its opening quote.\<close>

fun string_body :: "nat \<Rightarrow> jstring \<Rightarrow> (jstring \<times> jstring) option" where
  "string_body 0 s = None"
| "string_body (Suc n) s =
     (case s of
        [] \<Rightarrow> None
      | c # rest \<Rightarrow>
        if c = 34 then Some ([], rest)
        else if c = 92 then
          (case rest of
             [] \<Rightarrow> None
           | d # rest' \<Rightarrow>
             if d = 117 then
               (case hex4 rest' of
                  None \<Rightarrow> None
                | Some (u, rest'') \<Rightarrow> map_option (map_prod ((#) u) id) (string_body n rest''))
             else (case escape_char d of
                     None \<Rightarrow> None
                   | Some u \<Rightarrow> map_option (map_prod ((#) u) id) (string_body n rest')))
        else if unat c < 32 then None
        else map_option (map_prod ((#) c) id) (string_body n rest))"

text \<open>A number of the JSON grammar.\<close>

definition json_number :: "jstring \<Rightarrow> (jnum \<times> jstring) option" where
  "json_number s =
     (let neg = (s \<noteq> [] \<and> hd s = u16 (CHR ''-''));
          t = (if neg then tl s else s);
          (ip, r) = span_while is_digit t
      in if ip = [] \<or> (hd ip = u16 (CHR ''0'') \<and> length ip \<noteq> 1) then None
         else
           let (fp, r', bad) =
                 (case r of
                    c # u \<Rightarrow> if c = u16 (CHR ''.'')
                            then let (ds, v) = span_while is_digit u in (ds, v, ds = [])
                            else ([], r, False)
                  | [] \<Rightarrow> ([], r, False));
               (e, rest) = exponent_part r';
               bad_exp = (rest = r' \<and> r' \<noteq> [] \<and> (hd r' = u16 (CHR ''e'') \<or> hd r' = u16 (CHR ''E'')));
               q = of_nat (parse_dec (ip @ fp)) * pow10 (e - int (length fp))
           in if bad \<or> bad_exp then None else Some (rnd (if neg then - q else q), rest))"

section \<open>Values\<close>

definition literal :: "string \<Rightarrow> jsval \<Rightarrow> jstring \<Rightarrow> (jsval \<times> jstring) option" where
  "literal name v s = (if starts_with (js name) s then Some (v, drop (length name) s) else None)"

text \<open>A property name and the colon after it.\<close>

definition json_key :: "jstring \<Rightarrow> (jstring \<times> jstring) option" where
  "json_key s =
     (case skip s of
        [] \<Rightarrow> None
      | q # rest \<Rightarrow>
        if q \<noteq> 34 then None
        else (case string_body (length rest + 1) rest of
                None \<Rightarrow> None
              | Some (k, rest1) \<Rightarrow>
                (case skip rest1 of
                   [] \<Rightarrow> None
                 | colon # rest2 \<Rightarrow> if colon = u16 (CHR '':'') then Some (k, rest2) else None)))"

fun json_value :: "nat \<Rightarrow> jstring \<Rightarrow> (jsval \<times> jstring) option"
  and json_elements :: "nat \<Rightarrow> jstring \<Rightarrow> (jsval list \<times> jstring) option"
  and json_members :: "nat \<Rightarrow> (jstring \<times> jsval) list \<Rightarrow> jstring \<Rightarrow> ((jstring \<times> jsval) list \<times> jstring) option" where
  "json_value 0 s = None"
| "json_value (Suc n) s =
     (case skip s of
        [] \<Rightarrow> None
      | c # rest \<Rightarrow>
        if c = u16 (CHR ''{'') then
          (case skip rest of
             d # rest' \<Rightarrow> if d = u16 (CHR ''}'') then Some (JObj [], rest')
                          else map_option (map_prod (JObj \<circ> own_order) id) (json_members n [] rest)
           | [] \<Rightarrow> None)
        else if c = u16 (CHR ''['') then
          (case skip rest of
             d # rest' \<Rightarrow> if d = u16 (CHR '']'') then Some (JArr [], rest')
                          else map_option (map_prod JArr id) (json_elements n rest)
           | [] \<Rightarrow> None)
        else if c = 34 then map_option (map_prod JStr id) (string_body (length rest + 1) rest)
        else if c = u16 (CHR ''t'') then literal ''true'' (JBool True) (c # rest)
        else if c = u16 (CHR ''f'') then literal ''false'' (JBool False) (c # rest)
        else if c = u16 (CHR ''n'') then literal ''null'' JNull (c # rest)
        else map_option (map_prod JNum id) (json_number (c # rest)))"
| "json_elements 0 s = None"
| "json_elements (Suc n) s =
     (case json_value n s of
        None \<Rightarrow> None
      | Some (v, rest) \<Rightarrow>
        (case skip rest of
           [] \<Rightarrow> None
         | c # rest' \<Rightarrow>
           if c = u16 (CHR '']'') then Some ([v], rest')
           else if c = u16 (CHR '','') then map_option (map_prod ((#) v) id) (json_elements n rest')
           else None))"
| "json_members 0 acc s = None"
| "json_members (Suc n) acc s =
     (case json_key s of
        None \<Rightarrow> None
      | Some (k, rest2) \<Rightarrow>
        (case json_value n rest2 of
           None \<Rightarrow> None
         | Some (v, rest3) \<Rightarrow>
           (case skip rest3 of
              [] \<Rightarrow> None
            | c # rest4 \<Rightarrow>
              if c = u16 (CHR ''}'') then Some (put k v acc, rest4)
              else if c = u16 (CHR '','') then json_members n (put k v acc) rest4
              else None)))"

declare json_value.simps [simp del] json_elements.simps [simp del] json_members.simps [simp del]

definition JSON_parse :: "jstring \<Rightarrow> jsval option" where
  "JSON_parse s =
     (case json_value (2 * length s + 2) s of
        Some (v, rest) \<Rightarrow> if skip rest = [] then Some v else None
      | None \<Rightarrow> None)"

lemma json_ws_u16 [js_eval]:
  "json_ws (u16 c) \<longleftrightarrow> of_char c = (32 :: nat) \<or> of_char c = (9 :: nat) \<or> of_char c = (10 :: nat) \<or>
     of_char c = (13 :: nat)"
  by (simp add: json_ws_def u16_eq_numeral)

lemma json_members_cases:
  assumes "json_members (Suc n) acc s = Some r"
  obtains k v rest where "r = (put k v acc, rest)"
  | k v rest where "json_members n (put k v acc) rest = Some r"
  using assms unfolding json_members.simps
  by (auto split: list.splits if_splits option.splits)

lemma json_members_distinct:
  "json_members n acc s = Some (ps, rest) \<Longrightarrow> distinct (map fst acc) \<Longrightarrow> distinct (map fst ps)"
proof (induction n arbitrary: acc s)
  case (Suc n)
  from Suc.prems(1) show ?case
  proof (cases rule: json_members_cases)
    case (1 k v rest')
    with Suc.prems(2) show ?thesis by simp
  next
    case (2 k v rest')
    from Suc.IH[OF 2] Suc.prems(2) show ?thesis by simp
  qed
qed (simp add: json_members.simps)

end
