(* ===== verification/Channel_Models.thy ===== *)
theory Channel_Models
  imports JS_JSON
begin

text \<open>
  Checks on the configuration of a channel: \<open>status-code-risk-guard.ts\<close> and
  \<open>model-mapping-validation.ts\<close> of \<open>web/src/features/channels/lib\<close>.  Both read a text
  that should be a JSON object.  A JavaScript \<open>Set\<close> is the list of its elements in
  insertion order.
\<close>

section \<open>Status code redirects\<close>

definition NON_REDIRECTABLE_STATUS_CODES :: "nat list" where
  "NON_REDIRECTABLE_STATUS_CODES = [504, 524]"

text \<open>\<open>/^[1-5]\d{2}$/\<close>\<close>

definition code_text :: "jstring \<Rightarrow> bool" where
  "code_text s \<longleftrightarrow> length s = 3 \<and> list_all is_digit s \<and> 49 \<le> unat (hd s) \<and> unat (hd s) \<le> 53"

definition parseStatusCodeKey :: "jstring \<Rightarrow> nat option" where
  "parseStatusCodeKey rawKey =
     (let n = jtrim rawKey in if code_text n then Some (parse_dec n) else None)"

definition parseStatusCodeMappingTarget :: "jsval \<Rightarrow> nat option" where
  "parseStatusCodeMappingTarget v =
     (case v of
        JNum n \<Rightarrow>
          if isInteger n \<and> jle (jint 100) n \<and> jle n (jint 599)
          then (case n of Fin q \<Rightarrow> Some (nat \<lfloor>q\<rfloor>) | _ \<Rightarrow> None) else None
      | JStr s \<Rightarrow>
          let n = jtrim s in
          if \<not> code_text n then None
          else let code = parse_dec n in if 100 \<le> code \<and> code \<le> 599 then Some code else None
      | _ \<Rightarrow> None)"

text \<open>The entries of the object a text denotes; \<open>None\<close> when it denotes none.\<close>

definition object_entries :: "jstring \<Rightarrow> (jstring \<times> jsval) list option" where
  "object_entries s =
     (case JSON_parse s of Some (JObj ps) \<Rightarrow> Some ps | _ \<Rightarrow> None)"

text \<open>The result has the key and the value of each message \<open>key \<rightarrow> value\<close>.\<close>

definition collectInvalidStatusCodeEntries :: "jstring \<Rightarrow> (jstring \<times> jsval) list" where
  "collectInvalidStatusCodeEntries s =
     (if jtrim s = [] then []
      else case object_entries s of
             None \<Rightarrow> []
           | Some ps \<Rightarrow> filter (\<lambda>(k, v). parseStatusCodeKey k = None \<or>
                                        parseStatusCodeMappingTarget v = None) ps)"

fun str_less :: "jstring \<Rightarrow> jstring \<Rightarrow> bool" where
  "str_less _ [] = False"
| "str_less [] (_ # _) = True"
| "str_less (a # as) (b # bs) = (a < b \<or> a = b \<and> str_less as bs)"

definition redirect_text :: "nat \<Rightarrow> nat \<Rightarrow> jstring" where
  "redirect_text a b = show_nat a @ js '' -> '' @ show_nat b"

text \<open>The risky redirect of one entry, if it is one.\<close>

definition risky :: "jstring \<times> jsval \<Rightarrow> jstring option" where
  "risky kv =
     (case (parseStatusCodeKey (fst kv), parseStatusCodeMappingTarget (snd kv)) of
        (Some a, Some b) \<Rightarrow>
          if a \<notin> set NON_REDIRECTABLE_STATUS_CODES then None
          else if a = b then None
          else Some (redirect_text a b)
      | _ \<Rightarrow> None)"

definition collectDisallowedStatusCodeRedirects :: "jstring \<Rightarrow> jstring list" where
  "collectDisallowedStatusCodeRedirects s =
     (if jtrim s = [] then []
      else case object_entries s of
             None \<Rightarrow> []
           | Some ps \<Rightarrow> js_sort (\<lambda>a b. str_less b a) (uniq (List.map_filter risky ps)))"

definition collectNewDisallowedStatusCodeRedirects :: "jstring \<Rightarrow> jstring \<Rightarrow> jstring list" where
  "collectNewDisallowedStatusCodeRedirects originalStr currentStr =
     (let cur = collectDisallowedStatusCodeRedirects currentStr in
      if cur = [] then []
      else filter (\<lambda>m. m \<notin> set (collectDisallowedStatusCodeRedirects originalStr)) cur)"

section \<open>Model lists and model mappings\<close>

definition parseModelsString :: "jstring \<Rightarrow> jstring list" where
  "parseModelsString s =
     (if s = [] then [] else filter (\<lambda>m. m \<noteq> []) (map jtrim (split_on (u16 (CHR '','')) s)))"

definition formatModelsArray :: "jstring list \<Rightarrow> jstring" where
  "formatModelsArray ms = join (js '','') (uniq ms)"

definition normalizeModelName :: "jstring \<Rightarrow> jstring" where
  "normalizeModelName m = jtrim m"

definition extractMappingSourceModels :: "jstring \<Rightarrow> jstring list" where
  "extractMappingSourceModels modelMapping =
     (let trimmed = jtrim modelMapping in
      if trimmed = [] then []
      else case object_entries trimmed of
             None \<Rightarrow> []
           | Some ps \<Rightarrow> uniq (filter (\<lambda>k. k \<noteq> []) (map (jtrim \<circ> fst) ps)))"

definition extractRedirectModels :: "jstring \<Rightarrow> jstring list" where
  "extractRedirectModels modelMapping =
     (let trimmed = jtrim modelMapping in
      if trimmed = [] then []
      else case object_entries trimmed of
             None \<Rightarrow> []
           | Some ps \<Rightarrow>
               uniq (filter (\<lambda>v. v \<noteq> [])
                 (map (\<lambda>(_, v). if is_string v then jtrim (the_str v) else []) ps)))"

fun lists_differ :: "jstring list \<Rightarrow> jstring list \<Rightarrow> bool" where
  "lists_differ (a # as) (b # bs) = (a \<noteq> b \<or> lists_differ as bs)"
| "lists_differ _ _ = False"

definition hasModelConfigChanged :: "jstring list \<Rightarrow> jstring \<Rightarrow> jstring list \<Rightarrow> jstring \<Rightarrow> bool" where
  "hasModelConfigChanged currentModels currentModelMapping initialModels initialModelMapping =
     (if initialModels = [] \<and> initialModelMapping = [] then True
      else if length currentModels \<noteq> length initialModels then True
      else if lists_differ currentModels initialModels then True
      else jtrim currentModelMapping \<noteq> jtrim initialModelMapping)"

definition findMissingModelsInMapping :: "jstring \<Rightarrow> jstring list \<Rightarrow> jstring list" where
  "findMissingModelsInMapping modelMapping currentModels =
     (if jtrim modelMapping = [] then []
      else case object_entries modelMapping of
             None \<Rightarrow> []
           | Some ps \<Rightarrow>
               let modelSet = map normalizeModelName currentModels
               in uniq (filter (\<lambda>k. k \<noteq> [] \<and> k \<notin> set modelSet) (map (normalizeModelName \<circ> fst) ps)))"

datatype MappingError = NotAnObject | ValuesNotStrings | NotJson

definition validateModelMappingJson :: "jstring \<Rightarrow> MappingError option" where
  "validateModelMappingJson modelMapping =
     (if jtrim modelMapping = [] then None
      else case JSON_parse modelMapping of
             None \<Rightarrow> Some NotJson
           | Some (JObj ps) \<Rightarrow> if \<exists>(_, v) \<in> set ps. \<not> is_string v then Some ValuesNotStrings else None
           | Some _ \<Rightarrow> Some NotAnObject)"

definition findExposedTargetModels :: "jstring \<Rightarrow> jstring list \<Rightarrow> jstring list" where
  "findExposedTargetModels modelMapping currentModels =
     (let redirectModels = extractRedirectModels modelMapping in
      if redirectModels = [] then []
      else filter (\<lambda>m. normalizeModelName m \<in> set (map normalizeModelName currentModels)) redirectModels)"

record ModelCategories =
  normalizedCurrentModels :: "jstring list"
  normalizedRedirectModels :: "jstring list"
  classificationSet :: "jstring list"
  redirectOnlySet :: "jstring list"

definition categorizeModelsWithRedirect :: "jstring list \<Rightarrow> jstring list \<Rightarrow> ModelCategories" where
  "categorizeModelsWithRedirect currentModels redirectModels =
     (let cur = uniq (filter (\<lambda>m. m \<noteq> []) (map normalizeModelName currentModels));
          red = uniq (filter (\<lambda>m. m \<noteq> []) (map normalizeModelName redirectModels))
      in \<lparr>normalizedCurrentModels = cur, normalizedRedirectModels = red,
          classificationSet = uniq (cur @ red),
          redirectOnlySet = filter (\<lambda>m. m \<notin> set cur) red\<rparr>)"

section \<open>Facts\<close>

lemma code_text_range:
  assumes "code_text s"
  shows "100 \<le> parse_dec s \<and> parse_dec s \<le> 599"
proof -
  obtain a b c where s: "s = [a, b, c]" using assms
    by (auto simp: code_text_def numeral_3_eq_3 length_Suc_conv)
  with assms have "1 \<le> digit_val a" "digit_val a \<le> 5" "digit_val b \<le> 9" "digit_val c \<le> 9"
    by (auto simp: code_text_def digit_val_def is_digit_def)
  then show ?thesis by (simp add: s parse_dec_def)
qed

lemma parseStatusCodeKey_range: "parseStatusCodeKey k = Some a \<Longrightarrow> 100 \<le> a \<and> a \<le> 599"
  by (auto simp: parseStatusCodeKey_def Let_def dest: code_text_range split: if_splits)

lemma lists_differ_iff: "length as = length bs \<Longrightarrow> lists_differ as bs \<longleftrightarrow> as \<noteq> bs"
  by (induction as bs rule: lists_differ.induct) auto

lemma set_map_filter_risky:
  "t \<in> set (List.map_filter risky ps) \<longleftrightarrow> (\<exists>kv \<in> set ps. risky kv = Some t)"
  by (force simp: List.map_filter_def)

lemma risky_iff:
  "risky (k, v) = Some t \<longleftrightarrow> (\<exists>a b. parseStatusCodeKey k = Some a \<and>
     parseStatusCodeMappingTarget v = Some b \<and> (a = 504 \<or> a = 524) \<and> a \<noteq> b \<and> t = redirect_text a b)"
proof (cases "parseStatusCodeKey k")
  case (Some a)
  then show ?thesis
    by (cases "parseStatusCodeMappingTarget v") (auto simp: risky_def NON_REDIRECTABLE_STATUS_CODES_def)
qed (simp add: risky_def)

lemma distinct_sort_insert: "x \<notin> set xs \<Longrightarrow> distinct xs \<Longrightarrow> distinct (sort_insert after x xs)"
  by (induction xs) auto

lemma distinct_js_sort [simp]: "distinct xs \<Longrightarrow> distinct (js_sort after xs)"
proof (induction xs)
  case (Cons x xs)
  have "x \<notin> set (js_sort after xs)" using Cons.prems by simp
  with Cons show ?case by (simp add: js_sort_def distinct_sort_insert)
qed (simp add: js_sort_def)

lemma split_join_models:
  assumes "ms \<noteq> []" and "\<forall>m \<in> set ms. u16 (CHR '','') \<notin> set m"
  shows "split_on (u16 (CHR '','')) (join (js '','') ms) = ms"
  using split_on_join[OF assms] by (simp add: js_eval)

lemma JSON_parse_Nil: "JSON_parse [] = None"
  by (simp add: JSON_parse_def json_value.simps skip_def numeral_2_eq_2)

lemma missing_repaired: "findMissingModelsInMapping mm (ms @ findMissingModelsInMapping mm ms) = []"
proof (cases "jtrim mm = [] \<or> object_entries mm = None")
  case False
  then obtain ps where ps: "object_entries mm = Some ps" "jtrim mm \<noteq> []" by auto
  define missing where "missing = findMissingModelsInMapping mm ms"
  have "jtrim (fst kv) \<in> jtrim ` set (ms @ missing)" if "kv \<in> set ps" "jtrim (fst kv) \<noteq> []" for kv
  proof (cases "jtrim (fst kv) \<in> jtrim ` set ms")
    case False
    with that ps have "jtrim (fst kv) \<in> set missing"
      by (auto simp: missing_def findMissingModelsInMapping_def normalizeModelName_def Let_def)
    then show ?thesis by (metis UnCI image_eqI jtrim_idem set_append)
  qed auto
  then have "\<forall>kv \<in> set ps. jtrim (fst kv) = [] \<or> jtrim (fst kv) \<in> jtrim ` set (ms @ missing)" by blast
  then show ?thesis unfolding missing_def[symmetric] findMissingModelsInMapping_def[of mm "ms @ missing"]
    by (simp add: ps normalizeModelName_def Let_def filter_empty_conv comp_def image_Un)
qed (auto simp: findMissingModelsInMapping_def)

lemma exposed_repaired:
  "findExposedTargetModels mm
     (filter (\<lambda>m. normalizeModelName m \<notin> set (findExposedTargetModels mm ms)) ms) = []"
proof -
  have tr: "jtrim m = m" if "m \<in> set (extractRedirectModels mm)" for m
    using that by (auto simp: extractRedirectModels_def Let_def split: if_splits option.splits)
  have "normalizeModelName x \<noteq> m"
    if "m \<in> set (extractRedirectModels mm)" "x \<in> set ms"
      "normalizeModelName x \<notin> set (findExposedTargetModels mm ms)" for m x
  proof
    assume x: "normalizeModelName x = m"
    have "normalizeModelName m = m" using tr[OF that(1)] by (simp add: normalizeModelName_def)
    with that(1,2) x have "m \<in> set (findExposedTargetModels mm ms)"
      by (auto simp: findExposedTargetModels_def Let_def image_iff)
    with that(3) x show False by simp
  qed
  with tr show ?thesis
    unfolding findExposedTargetModels_def[of mm "filter _ _"]
    by (fastforce simp: Let_def filter_empty_conv normalizeModelName_def)
qed

section \<open>Properties\<close>

text \<open>
  C19.  The guard reports exactly the redirects of 504 and 524 to another valid code, each
  once; and a configuration that is saved unchanged is never reported.
\<close>

theorem risk_guard_exact:
  assumes "object_entries s = Some ps" and "jtrim s \<noteq> []"
  shows "distinct (collectDisallowedStatusCodeRedirects s) \<and>
    (t \<in> set (collectDisallowedStatusCodeRedirects s) \<longleftrightarrow>
       (\<exists>k v a b. (k, v) \<in> set ps \<and> parseStatusCodeKey k = Some a \<and>
          parseStatusCodeMappingTarget v = Some b \<and> (a = 504 \<or> a = 524) \<and> a \<noteq> b \<and>
          t = redirect_text a b)) \<and>
    collectNewDisallowedStatusCodeRedirects s s = []"
proof (intro conjI)
  show "distinct (collectDisallowedStatusCodeRedirects s)"
    using assms by (simp add: collectDisallowedStatusCodeRedirects_def)
  show "collectNewDisallowedStatusCodeRedirects s s = []"
    by (simp add: collectNewDisallowedStatusCodeRedirects_def Let_def filter_empty_conv)
  have "t \<in> set (collectDisallowedStatusCodeRedirects s) \<longleftrightarrow> (\<exists>kv \<in> set ps. risky kv = Some t)"
    using assms by (simp add: collectDisallowedStatusCodeRedirects_def set_map_filter_risky)
  also have "\<dots> \<longleftrightarrow> (\<exists>k v. (k, v) \<in> set ps \<and> risky (k, v) = Some t)" by auto
  also have "\<dots> \<longleftrightarrow> (\<exists>k v a b. (k, v) \<in> set ps \<and> parseStatusCodeKey k = Some a \<and>
      parseStatusCodeMappingTarget v = Some b \<and> (a = 504 \<or> a = 524) \<and> a \<noteq> b \<and> t = redirect_text a b)"
    by (simp only: risky_iff) blast
  finally show "t \<in> set (collectDisallowedStatusCodeRedirects s) \<longleftrightarrow> \<dots>" .
qed

theorem risk_guard_exact_witness:
  "js ''504 -> 200'' \<in> set (collectDisallowedStatusCodeRedirects (js ''{\" 504\": \"200\"}''))"
proof -
  have p: "object_entries (js ''{\" 504\": \"200\"}'') = Some [(js '' 504'', JStr (js ''200''))]" by code_simp
  have n: "jtrim (js ''{\" 504\": \"200\"}'') \<noteq> []" by (simp add: jtrim_def js_eval)
  have "parseStatusCodeKey (js '' 504'') = Some 504"
    "parseStatusCodeMappingTarget (JStr (js ''200'')) = Some 200"
    "js ''504 -> 200'' = redirect_text 504 200"
    by (simp_all add: parseStatusCodeKey_def parseStatusCodeMappingTarget_def code_text_def jtrim_def
        redirect_text_def parse_dec_def digit_val_def digit_char_def js_eval unat_u16 Let_def)
  with risk_guard_exact[OF p n, of "js ''504 -> 200''"] show ?thesis by simp
qed

text \<open>
  A list of clean model names survives printing and reading: the names in their order,
  each once.
\<close>

theorem models_string_roundtrip:
  assumes "\<forall>m \<in> set ms. m \<noteq> [] \<and> trimmed m \<and> u16 (CHR '','') \<notin> set m"
  shows "parseModelsString (formatModelsArray ms) = uniq ms"
proof (cases "ms = []")
  case False
  let ?u = "uniq ms"
  have u: "?u \<noteq> []" using False by (cases ms) auto
  have s: "split_on (u16 (CHR '','')) (formatModelsArray ms) = ?u"
    unfolding formatModelsArray_def using assms u by (intro split_join_models) auto
  have "map jtrim ?u = ?u" using assms by (intro map_idI) (auto intro: jtrim_trimmed)
  moreover have "filter (\<lambda>m. m \<noteq> []) ?u = ?u" using assms by (simp add: filter_id_conv)
  moreover have "formatModelsArray ms \<noteq> []"
  proof
    assume "formatModelsArray ms = []"
    with s have "?u = [[]]" by simp
    then have "[] \<in> set ?u" by simp
    with assms show False by auto
  qed
  ultimately show ?thesis using s by (simp add: parseModelsString_def)
qed (simp add: parseModelsString_def formatModelsArray_def)

theorem models_string_roundtrip_witness:
  "parseModelsString (formatModelsArray [js ''gpt-4'', js ''o1'', js ''gpt-4'']) = [js ''gpt-4'', js ''o1'']"
  using models_string_roundtrip[of "[js ''gpt-4'', js ''o1'', js ''gpt-4'']"]
  by (simp add: trimmed_def js_eval)

text \<open>
  The two repairs the form offers are complete.  After the missing source models are
  added to the list, none is missing; after the exposed target models are removed from it,
  none is exposed.
\<close>

theorem mapping_repairs_complete:
  "findMissingModelsInMapping mm (ms @ findMissingModelsInMapping mm ms) = [] \<and>
   findExposedTargetModels mm
     (filter (\<lambda>m. normalizeModelName m \<notin> set (findExposedTargetModels mm ms)) ms) = []"
  using missing_repaired exposed_repaired by blast

text \<open>
  The categories shown for a channel are consistent: every name is a current or a
  redirect model, and the redirect-only names are exactly those that are no current ones.
\<close>

theorem categories_partition:
  "let c = categorizeModelsWithRedirect cur red in
     set (classificationSet c) = set (normalizedCurrentModels c) \<union> set (redirectOnlySet c) \<and>
     set (normalizedCurrentModels c) \<inter> set (redirectOnlySet c) = {} \<and>
     set (redirectOnlySet c) = set (normalizedRedirectModels c) - set (normalizedCurrentModels c) \<and>
     [] \<notin> set (classificationSet c) \<and> distinct (classificationSet c)"
  by (auto simp: categorizeModelsWithRedirect_def Let_def)

text \<open>
  A mapping that validates has only string targets, and every target that is not blank
  is among the redirect models.
\<close>

theorem valid_mapping_targets:
  assumes "validateModelMappingJson mm = None" and "trimmed mm" and "object_entries mm = Some ps"
    and "(k, v) \<in> set ps"
  shows "\<exists>target. v = JStr target \<and> (jtrim target \<noteq> [] \<longrightarrow> jtrim target \<in> set (extractRedirectModels mm))"
proof -
  have ne: "jtrim mm \<noteq> []"
  proof
    assume "jtrim mm = []"
    then have "mm = []" using assms(2) by (simp add: jtrim_trimmed)
    with assms(3) show False by (simp add: object_entries_def JSON_parse_Nil)
  qed
  then have "is_string v" using assms(1,3,4)
    by (auto simp: validateModelMappingJson_def object_entries_def split: option.splits jsval.splits if_splits)
  then obtain target where t: "v = JStr target" by auto
  have "jtrim target \<in> set (extractRedirectModels mm)" if "jtrim target \<noteq> []"
    using assms(3,4) t ne that jtrim_trimmed[OF assms(2)]
    by (force simp: extractRedirectModels_def Let_def)
  with t show ?thesis by blast
qed

theorem valid_mapping_targets_witness:
  "js ''gpt-4o'' \<in> set (extractRedirectModels (js ''{\"gpt-4\":\"gpt-4o\"}''))"
proof -
  let ?mm = "js ''{\"gpt-4\":\"gpt-4o\"}''"
  have p: "JSON_parse ?mm = Some (JObj [(js ''gpt-4'', JStr (js ''gpt-4o''))])" by code_simp
  then have e: "object_entries ?mm = Some [(js ''gpt-4'', JStr (js ''gpt-4o''))]"
    by (simp add: object_entries_def)
  have v: "validateModelMappingJson ?mm = None" by (simp add: validateModelMappingJson_def p)
  have t: "trimmed ?mm" "jtrim (js ''gpt-4o'') = js ''gpt-4o''"
    by (simp_all add: trimmed_def jtrim_def js_eval)
  from valid_mapping_targets[OF v t(1) e, of "js ''gpt-4''" "JStr (js ''gpt-4o'')"] t(2)
  show ?thesis by auto
qed

text \<open>
  The form reports a change exactly when the model list or the trimmed mapping differs
  from what was loaded, or when nothing was loaded.
\<close>

theorem config_changed_iff:
  "hasModelConfigChanged ms mm ms' mm' \<longleftrightarrow> (ms' = [] \<and> mm' = []) \<or> ms \<noteq> ms' \<or> jtrim mm \<noteq> jtrim mm'"
  by (auto simp: hasModelConfigChanged_def lists_differ_iff)

end
