(* ===== verification/Ratio_Sync.thy ===== *)
theory Ratio_Sync
  imports JS_Convert
begin

text \<open>
  Synchronising prices from upstream channels,
  \<open>web/src/features/system-settings/models/upstream-ratio-sync-helpers.ts\<close>.  For every
  model the administrator resolves differences field by field; a model is billed by a
  fixed price or by ratios, never both, and an expression needs its billing mode.

  A \<open>Record\<close> or \<open>Map\<close> is a list of key and value pairs in insertion order.
\<close>

section \<open>Fields\<close>

type_synonym ratio_type = jstring

record RatioDifferenceEntry =
  current_value :: jsval
  upstreams :: "(jstring \<times> jsval) list"
  confidence :: "(jstring \<times> bool) list"

type_synonym ratio_types = "(ratio_type \<times> RatioDifferenceEntry) list"
type_synonym differences = "(jstring \<times> ratio_types) list"
type_synonym resolution = "(ratio_type \<times> jsval) list"
type_synonym ResolutionsMap = "(jstring \<times> resolution) list"

record ResolutionSelection =
  sel_model :: jstring
  sel_ratioType :: ratio_type
  sel_value :: jsval
  sel_sourceName :: jstring

record ResolutionRemoval =
  rem_model :: jstring
  rem_ratioType :: ratio_type

definition RATIO_SYNC_FIELDS :: "ratio_type list" where
  "RATIO_SYNC_FIELDS =
     [js ''model_ratio'', js ''completion_ratio'', js ''cache_ratio'', js ''create_cache_ratio'',
      js ''image_ratio'', js ''audio_ratio'', js ''audio_completion_ratio'']"

definition SYNC_FIELD_ORDER :: "ratio_type list" where
  "SYNC_FIELD_ORDER =
     RATIO_SYNC_FIELDS @ [js ''model_price'', js ''billing_mode'', js ''billing_expr'']"

definition NUMERIC_SYNC_FIELDS :: "ratio_type list" where
  "NUMERIC_SYNC_FIELDS = RATIO_SYNC_FIELDS @ [js ''model_price'']"

definition RATIO_TYPE_OPTIONS :: "(jstring \<times> ratio_type) list" where
  "RATIO_TYPE_OPTIONS =
     [(js ''Model ratio'', js ''model_ratio''), (js ''Completion ratio'', js ''completion_ratio''),
      (js ''Cache ratio'', js ''cache_ratio''), (js ''Create cache ratio'', js ''create_cache_ratio''),
      (js ''Image ratio'', js ''image_ratio''), (js ''Audio ratio'', js ''audio_ratio''),
      (js ''Audio completion ratio'', js ''audio_completion_ratio''),
      (js ''Fixed price'', js ''model_price''), (js ''Expression billing'', js ''billing_expr'')]"

definition getSyncFieldLabel :: "ratio_type \<Rightarrow> (jstring \<Rightarrow> jstring) \<Rightarrow> jstring" where
  "getSyncFieldLabel rt t =
     (case find (\<lambda>(_, value). value = rt) RATIO_TYPE_OPTIONS of
        Some (label, _) \<Rightarrow> t label
      | None \<Rightarrow> rt)"

definition getOrderedRatioTypes :: "ratio_types \<Rightarrow> jstring option \<Rightarrow> ratio_type list" where
  "getOrderedRatioTypes rts filt =
     (let keys = map fst rts;
          ordered = filter (\<lambda>f. f \<in> set keys) SYNC_FIELD_ORDER @
                    filter (\<lambda>f. f \<notin> set SYNC_FIELD_ORDER) keys
      in case filt of
           None \<Rightarrow> ordered
         | Some f \<Rightarrow> if f = [] \<or> f = js ''__all__'' then ordered else filter (\<lambda>x. x = f) ordered)"

text \<open>\<open>ratioTypes[type]?.upstreams?.[sourceName]\<close>\<close>

definition upstream_value :: "ratio_types \<Rightarrow> ratio_type \<Rightarrow> jstring \<Rightarrow> jsval" where
  "upstream_value rts rt src =
     (case map_of rts rt of None \<Rightarrow> JUndef | Some e \<Rightarrow> nullish (map_of (upstreams e) src) JUndef)"

definition isSelectableUpstreamValue :: "jsval \<Rightarrow> bool" where
  "isSelectableUpstreamValue v \<longleftrightarrow> v \<noteq> JNull \<and> v \<noteq> JUndef \<and> v \<noteq> JStr (js ''same'')"

definition getPreferredSyncField :: "ratio_types \<Rightarrow> ratio_type \<Rightarrow> jstring \<Rightarrow> ratio_type" where
  "getPreferredSyncField rts rt src =
     (let exprValue = upstream_value rts (js ''billing_expr'') src in
      if rt \<noteq> js ''billing_expr'' \<and> exprValue \<noteq> JNull \<and> exprValue \<noteq> JUndef \<and>
         exprValue \<noteq> JStr (js ''same'')
      then js ''billing_expr'' else rt)"

definition getVisibleRatioTypesForSource ::
  "ratio_types \<Rightarrow> jstring \<Rightarrow> jstring option \<Rightarrow> ratio_type list" where
  "getVisibleRatioTypesForSource rts src filt =
     filter (\<lambda>rt. getPreferredSyncField rts rt src = rt) (getOrderedRatioTypes rts filt)"

definition getAlignedRatioTypes ::
  "ratio_types \<Rightarrow> jstring list \<Rightarrow> jstring option \<Rightarrow> ratio_type list" where
  "getAlignedRatioTypes rts srcs filt =
     (let ordered = getOrderedRatioTypes rts filt in
      if srcs = [] then ordered
      else let visible = concat (map (\<lambda>src. getVisibleRatioTypesForSource rts src filt) srcs)
           in filter (\<lambda>rt. rt \<in> set visible) ordered)"

datatype BillingCategory = PriceCategory | RatioCategory | TieredCategory

definition getBillingCategory :: "ratio_type \<Rightarrow> BillingCategory" where
  "getBillingCategory rt =
     (if rt = js ''model_price'' then PriceCategory
      else if rt = js ''billing_mode'' \<or> rt = js ''billing_expr'' then TieredCategory
      else RatioCategory)"

text \<open>The two presets, with their names and identifiers.\<close>

definition presets :: "(jstring \<times> jstring) list" where
  "presets =
     [([0x5B98, 0x65B9, 0x500D, 0x7387, 0x9884, 0x8BBE], js ''-100''),
      (js ''models.dev '' @ [0x4EF7, 0x683C, 0x9884, 0x8BBE], js ''-101'')]"

definition getUpstreamDisplayName :: "jstring \<Rightarrow> jstring" where
  "getUpstreamDisplayName sourceName =
     (case find (\<lambda>(name, i). sourceName = name @ js ''('' @ i @ js '')'') presets of
        Some (name, _) \<Rightarrow> name
      | None \<Rightarrow> sourceName)"

section \<open>Selecting\<close>

definition isSelectedResolutionValue ::
  "ResolutionsMap \<Rightarrow> jstring \<Rightarrow> ratio_type \<Rightarrow> jsval \<Rightarrow> bool" where
  "isSelectedResolutionValue resolutions model rt upstreamValue =
     (if \<not> isSelectableUpstreamValue upstreamValue then False
      else case Option.bind (map_of resolutions model) (\<lambda>r. map_of r rt) of
             None \<Rightarrow> False
           | Some selectedValue \<Rightarrow>
             if selectedValue = JUndef then False
             else if rt \<in> set NUMERIC_SYNC_FIELDS then
               let a = to_number selectedValue; b = to_number upstreamValue
               in isFinite a \<and> isFinite b \<and> a = b
             else selectedValue = upstreamValue \<and> selectedValue \<noteq> JNum NaN)"

definition getDraftModelResolution ::
  "(jstring \<times> resolution) list \<Rightarrow> ResolutionsMap \<Rightarrow> jstring \<Rightarrow> resolution" where
  "getDraftModelResolution drafts resolutions model =
     (case map_of drafts model of
        Some d \<Rightarrow> d
      | None \<Rightarrow> nullish (map_of resolutions model) [])"

text \<open>The field and value a selection ends up with.\<close>

definition resolveResolutionSelection ::
  "differences \<Rightarrow> ResolutionSelection \<Rightarrow> ResolutionSelection" where
  "resolveResolutionSelection dfs s =
     (let rts = nullish (map_of dfs (sel_model s)) [];
          preferred = getPreferredSyncField rts (sel_ratioType s) (sel_sourceName s);
          up = upstream_value rts preferred (sel_sourceName s);
          v = (if preferred = sel_ratioType s then sel_value s
               else if up = JUndef \<or> up = JNull then sel_value s else up)
      in s\<lparr>sel_ratioType := preferred, sel_value := v\<rparr>)"

definition conflicting :: "BillingCategory \<Rightarrow> ratio_type \<Rightarrow> bool" where
  "conflicting category rt \<longleftrightarrow> category \<noteq> TieredCategory \<and>
     getBillingCategory rt \<noteq> TieredCategory \<and> getBillingCategory rt \<noteq> category"

text \<open>What a tiered selection adds: the mode and the expression of the same source.\<close>

definition put_tiered :: "ratio_types \<Rightarrow> jstring \<Rightarrow> ratio_type \<Rightarrow> resolution \<Rightarrow> resolution" where
  "put_tiered rts src finalType r =
     (let modeVal = upstream_value rts (js ''billing_mode'') src;
          exprVal = upstream_value rts (js ''billing_expr'') src;
          r1 = (if isSelectableUpstreamValue modeVal then put (js ''billing_mode'') modeVal r
                else if finalType = js ''billing_expr''
                then put (js ''billing_mode'') (JStr (js ''tiered_expr'')) r else r)
      in if isSelectableUpstreamValue exprVal then put (js ''billing_expr'') exprVal r1 else r1)"

definition selected_draft ::
  "differences \<Rightarrow> ResolutionSelection \<Rightarrow> resolution \<Rightarrow> resolution" where
  "selected_draft dfs s draft =
     (let final = resolveResolutionSelection dfs s;
          category = getBillingCategory (sel_ratioType final);
          kept = filter (\<lambda>(rt, _). \<not> conflicting category rt) draft;
          r = put (sel_ratioType final) (sel_value final) kept
      in case map_of dfs (sel_model s) of
           Some rts \<Rightarrow> if category = TieredCategory
                        then put_tiered rts (sel_sourceName s) (sel_ratioType final) r else r
         | None \<Rightarrow> r)"

definition applyResolutionSelectionToDraft ::
  "ResolutionsMap \<Rightarrow> differences \<Rightarrow> ResolutionSelection \<Rightarrow> (jstring \<times> resolution) list \<Rightarrow>
   (jstring \<times> resolution) list" where
  "applyResolutionSelectionToDraft resolutions dfs s drafts =
     put (sel_model s)
       (selected_draft dfs s (getDraftModelResolution drafts resolutions (sel_model s))) drafts"

definition selection_key :: "ResolutionSelection \<Rightarrow> jstring" where
  "selection_key s = sel_model s @ [0] @ sel_ratioType s"

definition effective_step ::
  "differences \<Rightarrow> ResolutionSelection \<Rightarrow> (jstring \<times> ResolutionSelection) list \<Rightarrow>
   (jstring \<times> ResolutionSelection) list" where
  "effective_step dfs s acc =
     (let resolved = resolveResolutionSelection dfs s;
          category = getBillingCategory (sel_ratioType resolved);
          acc' = (if category \<noteq> TieredCategory
                  then filter (\<lambda>(_, e). \<not> (sel_model e = sel_model resolved \<and>
                                            conflicting category (sel_ratioType e))) acc
                  else acc)
      in put (selection_key resolved) resolved acc')"

definition getEffectiveResolutionSelections ::
  "differences \<Rightarrow> ResolutionSelection list \<Rightarrow> ResolutionSelection list" where
  "getEffectiveResolutionSelections dfs sels = map snd (fold (effective_step dfs) sels [])"

definition merge_drafts :: "(jstring \<times> resolution) list \<Rightarrow> ResolutionsMap \<Rightarrow> ResolutionsMap" where
  "merge_drafts drafts resolutions =
     fold (\<lambda>(model, draft) next. if draft = [] then remove_key model next else put model draft next)
       drafts resolutions"

definition applyResolutionSelections ::
  "ResolutionsMap \<Rightarrow> differences \<Rightarrow> ResolutionSelection list \<Rightarrow> ResolutionsMap" where
  "applyResolutionSelections resolutions dfs sels =
     (if sels = [] then resolutions
      else merge_drafts (fold (applyResolutionSelectionToDraft resolutions dfs) sels []) resolutions)"

definition applyResolutionSelection ::
  "ResolutionsMap \<Rightarrow> differences \<Rightarrow> ResolutionSelection \<Rightarrow> ResolutionsMap" where
  "applyResolutionSelection resolutions dfs s = applyResolutionSelections resolutions dfs [s]"

section \<open>Removing\<close>

definition plan_add ::
  "ResolutionRemoval \<Rightarrow> (jstring \<times> ratio_type list) list \<Rightarrow> (jstring \<times> ratio_type list) list" where
  "plan_add r plan =
     (case map_of plan (rem_model r) of
        Some rts \<Rightarrow> put (rem_model r) (if rem_ratioType r \<in> set rts then rts else rts @ [rem_ratioType r]) plan
      | None \<Rightarrow> put (rem_model r) [rem_ratioType r] plan)"

definition remove_field :: "ratio_type \<Rightarrow> resolution \<Rightarrow> resolution" where
  "remove_field rt draft =
     (let d1 = remove_key rt draft;
          d2 = (if rt = js ''billing_expr'' then remove_key (js ''billing_mode'') d1 else d1)
      in if rt = js ''billing_mode'' then remove_key (js ''billing_expr'') d2 else d2)"

definition applyResolutionRemovalPlan ::
  "ResolutionsMap \<Rightarrow> (jstring \<times> ratio_type list) list \<Rightarrow> ResolutionsMap" where
  "applyResolutionRemovalPlan resolutions plan =
     fold (\<lambda>(model, rts) next.
             case map_of resolutions model of
               None \<Rightarrow> next
             | Some cur \<Rightarrow>
                 let draft = fold remove_field rts cur
                 in if draft = [] then remove_key model next else put model draft next)
       plan resolutions"

definition applyResolutionRemovals :: "ResolutionsMap \<Rightarrow> ResolutionRemoval list \<Rightarrow> ResolutionsMap" where
  "applyResolutionRemovals resolutions removals =
     (if removals = [] then resolutions
      else applyResolutionRemovalPlan resolutions (fold plan_add removals []))"

definition deleteResolutionField :: "ResolutionsMap \<Rightarrow> jstring \<Rightarrow> ratio_type \<Rightarrow> ResolutionsMap" where
  "deleteResolutionField resolutions model rt =
     applyResolutionRemovals resolutions [\<lparr>rem_model = model, rem_ratioType = rt\<rparr>]"

section \<open>The invariant of a resolution\<close>

definition exclusive :: "resolution \<Rightarrow> bool" where
  "exclusive r \<longleftrightarrow> \<not> (\<exists>a \<in> fst ` set r. \<exists>b \<in> fst ` set r.
     getBillingCategory a = PriceCategory \<and> getBillingCategory b = RatioCategory)"

definition moded :: "resolution \<Rightarrow> bool" where
  "moded r \<longleftrightarrow> (js ''billing_expr'' \<in> fst ` set r \<longrightarrow> js ''billing_mode'' \<in> fst ` set r)"

definition wf_resolution :: "resolution \<Rightarrow> bool" where
  "wf_resolution r \<longleftrightarrow> exclusive r \<and> moded r"

definition wf_resolutions :: "ResolutionsMap \<Rightarrow> bool" where
  "wf_resolutions rs \<longleftrightarrow> (\<forall>r \<in> ran (map_of rs). wf_resolution r)"

lemma category_simps [simp]:
  "getBillingCategory (js ''billing_mode'') = TieredCategory"
  "getBillingCategory (js ''billing_expr'') = TieredCategory"
  "getBillingCategory (js ''model_price'') = PriceCategory"
  by (simp_all add: getBillingCategory_def)

lemma tiered_iff: "getBillingCategory rt = TieredCategory \<longleftrightarrow> rt = js ''billing_mode'' \<or> rt = js ''billing_expr''"
  by (simp add: getBillingCategory_def)

lemma keys_filter_conflicting:
  "fst ` set (filter (\<lambda>(rt, _). \<not> P rt) r) = {rt \<in> fst ` set r. \<not> P rt}"
  by (auto simp: image_iff)

lemma keys_put_tiered:
  "fst ` set r \<subseteq> fst ` set (put_tiered rts src ft r)"
  "fst ` set (put_tiered rts src ft r) \<subseteq> fst ` set r \<union> {js ''billing_mode'', js ''billing_expr''}"
  by (auto simp: put_tiered_def Let_def)

lemma put_tiered_mode:
  "ft = js ''billing_expr'' \<Longrightarrow> js ''billing_mode'' \<in> fst ` set (put_tiered rts src ft r)"
  by (simp add: put_tiered_def Let_def)

text \<open>The keys of a draft after a selection.\<close>

lemma keys_selected_draft:
  fixes s dfs draft
  defines "ft \<equiv> sel_ratioType (resolveResolutionSelection dfs s)"
  shows "fst ` set (selected_draft dfs s draft) \<subseteq>
      insert ft {rt \<in> fst ` set draft. \<not> conflicting (getBillingCategory ft) rt} \<union>
      (if getBillingCategory ft = TieredCategory then {js ''billing_mode'', js ''billing_expr''} else {})"
    and "insert ft {rt \<in> fst ` set draft. \<not> conflicting (getBillingCategory ft) rt} \<subseteq>
      fst ` set (selected_draft dfs s draft)"
proof -
  define cat where "cat = getBillingCategory ft"
  define r where "r = put ft (sel_value (resolveResolutionSelection dfs s))
      (filter (\<lambda>(rt, _). \<not> conflicting cat rt) draft)"
  have r: "fst ` set r = insert ft {rt \<in> fst ` set draft. \<not> conflicting cat rt}"
    unfolding r_def by (simp only: fst_set_put keys_filter_conflicting)
  have eq: "selected_draft dfs s draft = (case map_of dfs (sel_model s) of
      Some rts \<Rightarrow> if cat = TieredCategory then put_tiered rts (sel_sourceName s) ft r else r
    | None \<Rightarrow> r)"
    unfolding selected_draft_def ft_def cat_def r_def Let_def by (rule refl)
  have "fst ` set r \<subseteq> fst ` set (selected_draft dfs s draft) \<and>
      fst ` set (selected_draft dfs s draft) \<subseteq> fst ` set r \<union>
        (if cat = TieredCategory then {js ''billing_mode'', js ''billing_expr''} else {})"
    using keys_put_tiered[where r = r and src = "sel_sourceName s" and ft = ft] by (auto simp: eq split: option.split)
  then show "fst ` set (selected_draft dfs s draft) \<subseteq>
      insert ft {rt \<in> fst ` set draft. \<not> conflicting (getBillingCategory ft) rt} \<union>
      (if getBillingCategory ft = TieredCategory then {js ''billing_mode'', js ''billing_expr''} else {})"
    and "insert ft {rt \<in> fst ` set draft. \<not> conflicting (getBillingCategory ft) rt} \<subseteq>
      fst ` set (selected_draft dfs s draft)"
    unfolding r cat_def by blast+
qed

lemma exclusive_selected:
  assumes "exclusive draft"
  shows "exclusive (selected_draft dfs s draft)"
proof -
  let ?ft = "sel_ratioType (resolveResolutionSelection dfs s)"
  note sub = keys_selected_draft(1)[of dfs s draft]
  show ?thesis
  proof (cases "getBillingCategory ?ft = TieredCategory")
    case True
    have "k \<in> fst ` set draft \<or> getBillingCategory k = TieredCategory"
      if "k \<in> fst ` set (selected_draft dfs s draft)" for k
      using subsetD[OF sub that] True by (auto simp: tiered_iff)
    with assms show ?thesis unfolding exclusive_def by (metis BillingCategory.distinct(3,5))
  next
    case False
    have "getBillingCategory k = getBillingCategory ?ft \<or> getBillingCategory k = TieredCategory"
      if "k \<in> fst ` set (selected_draft dfs s draft)" for k
      using subsetD[OF sub that] False by (auto simp: conflicting_def)
    then show ?thesis unfolding exclusive_def by (metis BillingCategory.distinct(1,3,5))
  qed
qed

lemma moded_selected:
  assumes "moded draft" and "map_of dfs (sel_model s) = Some rts"
  shows "moded (selected_draft dfs s draft)"
proof -
  let ?ft = "sel_ratioType (resolveResolutionSelection dfs s)"
  note sub = keys_selected_draft[of dfs s draft]
  have kept: "\<not> conflicting c (js ''billing_mode'')" "\<not> conflicting c (js ''billing_expr'')" for c
    by (simp_all add: conflicting_def)
  consider "getBillingCategory ?ft \<noteq> TieredCategory" | "?ft = js ''billing_mode''" | "?ft = js ''billing_expr''"
    by (auto simp: tiered_iff)
  then show ?thesis
  proof cases
    case 1
    then have "?ft \<noteq> js ''billing_expr''" by auto
    with sub(1) 1 have "js ''billing_expr'' \<in> fst ` set (selected_draft dfs s draft) \<Longrightarrow>
        js ''billing_expr'' \<in> fst ` set draft" by auto
    with assms(1) sub(2) kept show ?thesis by (auto simp: moded_def)
  next
    case 2
    with sub(2) show ?thesis by (auto simp: moded_def)
  next
    case 3
    then show ?thesis using assms(2) put_tiered_mode by (simp add: moded_def selected_draft_def Let_def)
  qed
qed

lemma exclusive_mono:
  assumes "exclusive r" and "fst ` set r' \<subseteq> fst ` set r"
  shows "exclusive r'"
proof -
  have "\<not> (\<exists>a \<in> K'. \<exists>b \<in> K'. P a \<and> Q b)" if "\<not> (\<exists>a \<in> K. \<exists>b \<in> K. P a \<and> Q b)" "K' \<subseteq> K"
    for K K' :: "'x set" and P Q using that by blast
  from this[OF _ assms(2)] assms(1) show ?thesis unfolding exclusive_def .
qed

lemma wf_remove_field:
  assumes "wf_resolution r"
  shows "wf_resolution (remove_field rt r)"
proof -
  have "fst ` set (remove_field rt r) \<subseteq> fst ` set r" by (auto simp: remove_field_def Let_def)
  with assms have "exclusive (remove_field rt r)"
    unfolding wf_resolution_def by (blast intro: exclusive_mono)
  moreover have "moded (remove_field rt r)"
    using assms by (auto simp: wf_resolution_def moded_def remove_field_def Let_def)
  ultimately show ?thesis by (simp add: wf_resolution_def)
qed

lemma wf_fold_remove: "wf_resolution r \<Longrightarrow> wf_resolution (fold remove_field rts r)"
  by (induction rts arbitrary: r) (auto simp: wf_remove_field)

lemma wf_resolutions_put: "wf_resolutions rs \<Longrightarrow> wf_resolution r \<Longrightarrow> wf_resolutions (put m r rs)"
  by (auto simp: wf_resolutions_def ran_def split: if_splits)

lemma wf_resolutions_remove: "wf_resolutions rs \<Longrightarrow> wf_resolutions (remove_key m rs)"
  by (auto simp: wf_resolutions_def ran_def split: if_splits)

lemma wf_resolutionsD: "wf_resolutions rs \<Longrightarrow> map_of rs m = Some r \<Longrightarrow> wf_resolution r"
  by (auto simp: wf_resolutions_def ran_def)

lemma wf_Nil: "wf_resolution []" "wf_resolutions []"
  by (simp_all add: wf_resolution_def exclusive_def moded_def wf_resolutions_def)

lemma wf_merge_drafts:
  "(\<forall>(m, d) \<in> set drafts. wf_resolution d) \<Longrightarrow> wf_resolutions rs \<Longrightarrow> wf_resolutions (merge_drafts drafts rs)"
  unfolding merge_drafts_def
  by (induction drafts arbitrary: rs) (auto simp: wf_resolutions_put wf_resolutions_remove)

lemma wf_fold_drafts:
  assumes "wf_resolutions rs"
  shows "\<forall>s \<in> set sels. map_of dfs (sel_model s) \<noteq> None \<Longrightarrow> wf_resolutions drafts \<Longrightarrow>
    wf_resolutions (fold (applyResolutionSelectionToDraft rs dfs) sels drafts)"
proof (induction sels arbitrary: drafts)
  case (Cons s sels)
  then obtain rts where rts: "map_of dfs (sel_model s) = Some rts" by auto
  have "wf_resolution (getDraftModelResolution drafts rs (sel_model s))"
    using assms Cons.prems(2)
    by (auto simp: getDraftModelResolution_def wf_Nil nullish_def split: option.split dest: wf_resolutionsD)
  then have "wf_resolution (selected_draft dfs s (getDraftModelResolution drafts rs (sel_model s)))"
    using exclusive_selected moded_selected[OF _ rts] by (simp add: wf_resolution_def)
  then have "wf_resolutions (applyResolutionSelectionToDraft rs dfs s drafts)"
    using Cons.prems(2) by (simp add: applyResolutionSelectionToDraft_def wf_resolutions_put)
  with Cons show ?case by simp
qed simp

lemma distinct_drafts:
  "distinct (map fst drafts) \<Longrightarrow>
     distinct (map fst (fold (applyResolutionSelectionToDraft rs dfs) sels drafts))"
  by (induction sels arbitrary: drafts) (auto simp: applyResolutionSelectionToDraft_def)

lemma wf_removals:
  assumes "wf_resolutions rs"
  shows "wf_resolutions acc \<Longrightarrow> wf_resolutions
    (fold (\<lambda>(model, rts) next. case map_of rs model of None \<Rightarrow> next
       | Some cur \<Rightarrow> let draft = fold remove_field rts cur
                     in if draft = [] then remove_key model next else put model draft next) plan acc)"
proof (induction plan arbitrary: acc)
  case (Cons p plan)
  obtain m rts where p: "p = (m, rts)" by force
  have "wf_resolutions (case map_of rs m of None \<Rightarrow> acc
       | Some cur \<Rightarrow> let draft = fold remove_field rts cur
                     in if draft = [] then remove_key m acc else put m draft acc)"
    using Cons.prems wf_fold_remove[OF wf_resolutionsD[OF assms]]
    by (auto simp: Let_def wf_resolutions_put wf_resolutions_remove split: option.split)
  from Cons.IH[OF this] show ?case by (simp add: p)
qed simp

section \<open>What the selections leave\<close>

lemma map_of_merge_drafts:
  "distinct (map fst drafts) \<Longrightarrow> map_of (merge_drafts drafts rs) m =
     (case map_of drafts m of Some d \<Rightarrow> if d = [] then None else Some d | None \<Rightarrow> map_of rs m)"
proof (induction drafts arbitrary: rs)
  case (Cons p drafts)
  obtain m' d where p: "p = (m', d)" by force
  have none: "map_of drafts m' = None" using Cons.prems p by (simp add: map_of_eq_None_iff)
  show ?case using Cons none by (auto simp: merge_drafts_def p split: option.splits)
qed (simp add: merge_drafts_def)

lemma map_of_put_tiered:
  "getBillingCategory rt \<noteq> TieredCategory \<Longrightarrow> map_of (put_tiered rts src ft r) rt = map_of r rt"
  by (auto simp: put_tiered_def Let_def)

lemma map_of_selected:
  assumes "getBillingCategory rt \<noteq> TieredCategory"
  shows "map_of (selected_draft dfs s draft) rt =
    (if rt = sel_ratioType (resolveResolutionSelection dfs s) then Some (sel_value (resolveResolutionSelection dfs s))
     else if conflicting (getBillingCategory (sel_ratioType (resolveResolutionSelection dfs s))) rt then None
     else map_of draft rt)"
  using assms by (auto simp: selected_draft_def Let_def map_of_put_tiered split: option.split)

lemma resolve_model [simp]: "sel_model (resolveResolutionSelection dfs s) = sel_model s"
  by (simp add: resolveResolutionSelection_def Let_def)

text \<open>An effective selection of a price or ratio is in the drafts.\<close>

definition in_drafts :: "(jstring \<times> resolution) list \<Rightarrow> ResolutionSelection \<Rightarrow> bool" where
  "in_drafts drafts e \<longleftrightarrow> (\<exists>d. map_of drafts (sel_model e) = Some d \<and> map_of d (sel_ratioType e) = Some (sel_value e))"

definition effective_inv ::
  "(jstring \<times> ResolutionSelection) list \<Rightarrow> (jstring \<times> resolution) list \<Rightarrow> bool" where
  "effective_inv E D \<longleftrightarrow> distinct (map fst E) \<and>
     (\<forall>(k, e) \<in> set E. k = selection_key e \<and>
        (getBillingCategory (sel_ratioType e) = TieredCategory \<or> in_drafts D e))"

lemma effective_inv_step:
  assumes "effective_inv E D"
  shows "effective_inv (effective_step dfs s E) (applyResolutionSelectionToDraft rs dfs s D)"
proof -
  define f where "f = resolveResolutionSelection dfs s"
  define c where "c = getBillingCategory (sel_ratioType f)"
  define E1 where "E1 = (if c \<noteq> TieredCategory
    then filter (\<lambda>(_, e). \<not> (sel_model e = sel_model f \<and> conflicting c (sel_ratioType e))) E else E)"
  have step: "effective_step dfs s E = put (selection_key f) f E1"
    by (simp add: effective_step_def f_def c_def E1_def Let_def)
  have d1: "distinct (map fst E1)" using assms by (auto simp: effective_inv_def E1_def)
  have mf: "sel_model f = sel_model s" by (simp add: f_def)
  have D': "map_of (applyResolutionSelectionToDraft rs dfs s D) m = (if m = sel_model s
      then Some (selected_draft dfs s (getDraftModelResolution D rs (sel_model s))) else map_of D m)" for m
    by (simp add: applyResolutionSelectionToDraft_def)
  have "k = selection_key e \<and> (getBillingCategory (sel_ratioType e) = TieredCategory \<or>
      in_drafts (applyResolutionSelectionToDraft rs dfs s D) e)"
    if m: "(k, e) \<in> set (put (selection_key f) f E1)" for k e
    using in_put[OF d1 m]
  proof (elim disjE conjE)
    assume "(k, e) = (selection_key f, f)"
    then show ?thesis
      using map_of_selected[of "sel_ratioType f" dfs s]
      by (cases "getBillingCategory (sel_ratioType f) = TieredCategory")
        (simp_all add: in_drafts_def D' mf f_def)
  next
    assume k: "k \<noteq> selection_key f" and e1: "(k, e) \<in> set E1"
    then have "(k, e) \<in> set E" by (auto simp: E1_def split: if_splits)
    with assms have ke: "k = selection_key e"
      and e: "getBillingCategory (sel_ratioType e) = TieredCategory \<or> in_drafts D e"
      by (auto simp: effective_inv_def)
    have "in_drafts (applyResolutionSelectionToDraft rs dfs s D) e"
      if nt: "getBillingCategory (sel_ratioType e) \<noteq> TieredCategory"
    proof (cases "sel_model e = sel_model s")
      case True
      with k ke mf have "sel_ratioType e \<noteq> sel_ratioType f" by (auto simp: selection_key_def)
      moreover have "\<not> conflicting c (sel_ratioType e)"
        using e1 True mf by (auto simp: E1_def conflicting_def split: if_splits)
      moreover obtain d where "map_of D (sel_model s) = Some d"
        "map_of d (sel_ratioType e) = Some (sel_value e)"
        using e nt True by (auto simp: in_drafts_def)
      ultimately show ?thesis using True nt
        by (simp add: in_drafts_def D' map_of_selected getDraftModelResolution_def c_def f_def)
    next
      case False
      with e nt show ?thesis by (simp add: in_drafts_def D')
    qed
    with ke show ?thesis by blast
  qed
  with d1 show ?thesis unfolding step by (auto simp: effective_inv_def)
qed

lemma effective_inv_fold:
  "effective_inv E D \<Longrightarrow>
     effective_inv (fold (effective_step dfs) sels E) (fold (applyResolutionSelectionToDraft rs dfs) sels D)"
  by (induction sels arbitrary: E D) (auto intro: effective_inv_step)

section \<open>Sequences of operations\<close>

text \<open>
  What an administrator does to the resolutions: batches of selections, against the
  differences that are shown at that moment, and removals.  A selection is made in a row
  of the table of differences, so that its model has differences.
\<close>

datatype ratio_op = Select differences "ResolutionSelection list" | Remove "ResolutionRemoval list"

fun ratio_step :: "ratio_op \<Rightarrow> ResolutionsMap \<Rightarrow> ResolutionsMap" where
  "ratio_step (Select dfs sels) rs = applyResolutionSelections rs dfs sels"
| "ratio_step (Remove removals) rs = applyResolutionRemovals rs removals"

fun op_shown :: "ratio_op \<Rightarrow> bool" where
  "op_shown (Select dfs sels) \<longleftrightarrow> (\<forall>s \<in> set sels. map_of dfs (sel_model s) \<noteq> None)"
| "op_shown (Remove _) \<longleftrightarrow> True"

lemma wf_removals_step: "wf_resolutions rs \<Longrightarrow> wf_resolutions (applyResolutionRemovals rs removals)"
  using wf_removals[of rs rs] by (simp add: applyResolutionRemovals_def applyResolutionRemovalPlan_def)

lemma wf_selections_step:
  assumes "wf_resolutions rs" and s: "\<forall>s \<in> set sels. map_of dfs (sel_model s) \<noteq> None"
  shows "wf_resolutions (applyResolutionSelections rs dfs sels)"
proof -
  let ?D = "fold (applyResolutionSelectionToDraft rs dfs) sels []"
  have "wf_resolutions ?D" by (rule wf_fold_drafts[OF assms wf_Nil(2)])
  moreover have "distinct (map fst ?D)" by (rule distinct_drafts) simp
  ultimately have "\<forall>(m, d) \<in> set ?D. wf_resolution d"
    using map_of_is_SomeI by (fastforce dest: wf_resolutionsD)
  then show ?thesis
    using assms by (simp add: applyResolutionSelections_def wf_merge_drafts)
qed

lemma wf_ratio_steps:
  "wf_resolutions rs \<Longrightarrow> list_all op_shown ops \<Longrightarrow> wf_resolutions (fold ratio_step ops rs)"
proof (induction ops arbitrary: rs)
  case (Cons x ops)
  then show ?case by (cases x) (simp_all add: wf_removals_step wf_selections_step)
qed simp

section \<open>Properties\<close>

text \<open>
  C20.  Whatever sequence of selections (of models that have differences) and removals an
  administrator makes, starting without resolutions: no model is left with a fixed price
  and a ratio at once, and none with an expression but no billing mode.  (The fields of
  expression billing may stand beside a price or ratios.)
\<close>

theorem resolutions_stay_consistent:
  assumes "list_all op_shown ops" and "map_of (fold ratio_step ops []) model = Some r"
  shows "\<not> (js ''model_price'' \<in> fst ` set r \<and>
             (\<exists>rt \<in> fst ` set r. getBillingCategory rt = RatioCategory)) \<and>
    (js ''billing_expr'' \<in> fst ` set r \<longrightarrow> js ''billing_mode'' \<in> fst ` set r)"
proof -
  have "wf_resolution r"
    using wf_resolutionsD[OF wf_ratio_steps[OF wf_Nil(2) assms(1)] assms(2)] .
  then show ?thesis
    unfolding wf_resolution_def exclusive_def moded_def by (metis category_simps(3))
qed

definition sample_differences :: differences where
  "sample_differences = [(js ''m'',
     [(js ''model_price'', \<lparr>current_value = JNull, upstreams = [(js ''up'', JNum (jint 2))], confidence = []\<rparr>),
      (js ''model_ratio'', \<lparr>current_value = JNull, upstreams = [(js ''up'', JNum (jint 3))], confidence = []\<rparr>)])]"

definition sample_selection :: "string \<Rightarrow> int \<Rightarrow> ResolutionSelection" where
  "sample_selection rt v =
     \<lparr>sel_model = js ''m'', sel_ratioType = js rt, sel_value = JNum (jint v), sel_sourceName = js ''up''\<rparr>"

theorem resolutions_stay_consistent_witness:
  "\<exists>r. map_of (fold ratio_step
       [Select sample_differences [sample_selection ''model_ratio'' 3],
        Select sample_differences [sample_selection ''model_price'' 2]] []) (js ''m'') = Some r \<and>
     js ''model_price'' \<in> fst ` set r \<and> (\<forall>rt \<in> fst ` set r. getBillingCategory rt \<noteq> RatioCategory)"
proof -
  let ?ops = "[Select sample_differences [sample_selection ''model_ratio'' 3],
        Select sample_differences [sample_selection ''model_price'' 2]]"
  have shown: "list_all op_shown ?ops" by (simp add: sample_differences_def sample_selection_def)
  obtain r where r: "map_of (fold ratio_step ?ops []) (js ''m'') = Some r"
    and p: "js ''model_price'' \<in> fst ` set r"
    by (simp add: applyResolutionSelections_def applyResolutionSelectionToDraft_def
        getDraftModelResolution_def selected_draft_def resolveResolutionSelection_def
        getPreferredSyncField_def upstream_value_def sample_differences_def sample_selection_def
        merge_drafts_def Let_def put_tiered_def conflicting_def getBillingCategory_def)
  from resolutions_stay_consistent[OF shown r] r p show ?thesis by blast
qed

text \<open>
  What the table reports as the effect of a batch is what the batch does: every effective
  selection of a price or a ratio is, with its value, in the resolution of its model.
\<close>

theorem effective_selections_applied:
  assumes "e \<in> set (getEffectiveResolutionSelections dfs sels)"
    and "getBillingCategory (sel_ratioType e) \<noteq> TieredCategory"
  shows "\<exists>r. map_of (applyResolutionSelections rs dfs sels) (sel_model e) = Some r \<and>
    map_of r (sel_ratioType e) = Some (sel_value e)"
proof -
  let ?D = "fold (applyResolutionSelectionToDraft rs dfs) sels []"
  have "effective_inv (fold (effective_step dfs) sels []) ?D"
    by (rule effective_inv_fold) (simp add: effective_inv_def)
  then obtain d where d: "map_of ?D (sel_model e) = Some d" "map_of d (sel_ratioType e) = Some (sel_value e)"
    using assms by (fastforce simp: getEffectiveResolutionSelections_def effective_inv_def in_drafts_def)
  have "distinct (map fst ?D)" by (rule distinct_drafts) simp
  moreover have "d \<noteq> []" "sels \<noteq> []" using d by auto
  ultimately show ?thesis using d by (simp add: applyResolutionSelections_def map_of_merge_drafts)
qed

theorem effective_selections_applied_witness:
  "\<exists>r. map_of (applyResolutionSelections [] sample_differences
       [sample_selection ''model_ratio'' 3, sample_selection ''model_price'' 2]) (js ''m'') = Some r \<and>
     map_of r (js ''model_price'') = Some (JNum (jint 2))"
proof -
  have "sample_selection ''model_price'' 2 \<in> set (getEffectiveResolutionSelections sample_differences
      [sample_selection ''model_ratio'' 3, sample_selection ''model_price'' 2])"
    by (simp add: getEffectiveResolutionSelections_def effective_step_def resolveResolutionSelection_def
        getPreferredSyncField_def upstream_value_def sample_differences_def sample_selection_def Let_def)
  from effective_selections_applied[OF this] show ?thesis
    by (simp add: sample_selection_def getBillingCategory_def)
qed

text \<open>
  The fields of a model are listed completely and once, whatever order the server sent
  them in, and a field is aligned exactly when some source shows it.
\<close>

theorem ratio_types_complete:
  assumes "distinct (map fst rts)"
  shows "distinct (getOrderedRatioTypes rts None) \<and>
    set (getOrderedRatioTypes rts None) = fst ` set rts \<and>
    (srcs = [] \<or> set (getAlignedRatioTypes rts srcs None) =
       {rt \<in> fst ` set rts. \<exists>src \<in> set srcs. getPreferredSyncField rts rt src = rt})"
proof -
  have "distinct SYNC_FIELD_ORDER" by (simp add: SYNC_FIELD_ORDER_def RATIO_SYNC_FIELDS_def)
  then have "distinct (getOrderedRatioTypes rts None)"
    using assms by (auto simp: getOrderedRatioTypes_def Let_def)
  moreover have set: "set (getOrderedRatioTypes rts None) = fst ` set rts"
    by (auto simp: getOrderedRatioTypes_def Let_def)
  ultimately show ?thesis
    by (auto simp: getAlignedRatioTypes_def getVisibleRatioTypesForSource_def Let_def set)
qed

theorem ratio_types_complete_witness:
  "distinct (getOrderedRatioTypes (snd (hd sample_differences)) None)"
  using ratio_types_complete[of "snd (hd sample_differences)" "[]"] by (simp add: sample_differences_def)

end
