(* ===== verification/Playground_Messages.thy ===== *)
theory Playground_Messages
  imports JS_Number
begin

text \<open>
  The chat messages of the web playground (\<open>web/src/features/playground\<close>): their types
  (\<open>types.ts\<close>) and the operations of \<open>lib/message\<close> on one message, that is versions,
  timing, the separation of \<open><think>\<close> reasoning from visible text, streaming chunks and
  completion.

  An operation that reads the clock takes the readings as an argument: \<open>now i\<close> is the
  result of its \<open>i\<close>-th call of \<open>Date.now()\<close>.  The identifiers of \<open>nanoid()\<close> and the
  translation function \<open>t\<close> are arguments too.
\<close>

type_synonym clock = "nat \<Rightarrow> jnum"

section \<open>Types\<close>

datatype MessageRole = RoleUser | RoleAssistant | RoleSystem

datatype MessageStatus = StLoading | StStreaming | StComplete | StError

record MessageVersion =
  version_id :: jstring
  version_content :: jstring

record Reasoning =
  reasoning_content :: jstring
  reasoning_duration :: jnum
  reasoning_startedAt :: "jnum option"
  reasoning_completedAt :: "jnum option"
  reasoning_durationMs :: "jnum option"

text \<open>\<open>errorCode\<close> is \<open>None\<close> when undefined, \<open>Some None\<close> when \<open>null\<close>.\<close>

record Message =
  msg_key :: jstring
  from_role :: MessageRole
  versions :: "MessageVersion list"
  createdAt :: "jnum option"
  startedAt :: "jnum option"
  completedAt :: "jnum option"
  durationMs :: "jnum option"
  sources :: "(jstring \<times> jstring) list option"
  reasoning :: "Reasoning option"
  isReasoningStreaming :: "bool option"
  isReasoningComplete :: "bool option"
  isContentComplete :: "bool option"
  status :: "MessageStatus option"
  errorCode :: "jstring option option"

section \<open>Versions\<close>

definition createMessageVersion :: "jstring \<Rightarrow> jstring \<Rightarrow> MessageVersion" where
  "createMessageVersion ident txt = \<lparr>version_id = ident, version_content = txt\<rparr>"

definition getCurrentVersion :: "Message \<Rightarrow> MessageVersion" where
  "getCurrentVersion message =
     (case versions message of
        [] \<Rightarrow> \<lparr>version_id = js ''default'', version_content = []\<rparr>
      | v # _ \<Rightarrow> v)"

definition getMessageContent :: "Message \<Rightarrow> jstring" where
  "getMessageContent message = version_content (getCurrentVersion message)"

definition hasMessageContent :: "Message \<Rightarrow> bool" where
  "hasMessageContent message \<longleftrightarrow> jtrim (getMessageContent message) \<noteq> []"

definition updateCurrentVersionContent :: "Message \<Rightarrow> jstring \<Rightarrow> Message" where
  "updateCurrentVersionContent message txt =
     message\<lparr>versions := [(getCurrentVersion message)\<lparr>version_content := txt\<rparr>]\<rparr>"

definition createUserMessage :: "jstring \<Rightarrow> jstring \<Rightarrow> jstring \<Rightarrow> jnum \<Rightarrow> Message" where
  "createUserMessage key ident txt created =
     \<lparr>msg_key = key, from_role = RoleUser, versions = [createMessageVersion ident txt],
      createdAt = Some created, startedAt = None, completedAt = None, durationMs = None,
      sources = None, reasoning = None, isReasoningStreaming = None, isReasoningComplete = None,
      isContentComplete = None, status = None, errorCode = None\<rparr>"

definition createLoadingAssistantMessage :: "jstring \<Rightarrow> jstring \<Rightarrow> jnum \<Rightarrow> Message" where
  "createLoadingAssistantMessage key ident started =
     \<lparr>msg_key = key, from_role = RoleAssistant, versions = [createMessageVersion ident []],
      createdAt = Some started, startedAt = Some started, completedAt = None, durationMs = None,
      sources = None, reasoning = None, isReasoningStreaming = Some False,
      isReasoningComplete = Some False, isContentComplete = Some False,
      status = Some StLoading, errorCode = None\<rparr>"

section \<open>Timing\<close>

definition elapsed :: "jnum \<Rightarrow> jnum \<Rightarrow> jnum" where
  "elapsed start stop = jmax (jint 0) (jsub stop start)"

definition completeAssistantTiming :: "jnum \<Rightarrow> Message \<Rightarrow> Message" where
  "completeAssistantTiming completed message =
     (if from_role message \<noteq> RoleAssistant then message
      else let started = nullish (startedAt message) (nullish (createdAt message) completed)
           in message\<lparr>startedAt := Some started, completedAt := Some completed,
                durationMs := Some (elapsed started completed)\<rparr>)"

definition startReasoningTiming :: "jnum \<Rightarrow> Message \<Rightarrow> Reasoning" where
  "startReasoningTiming started message =
     (case reasoning message of
        None \<Rightarrow> \<lparr>reasoning_content = [], reasoning_duration = jint 0, reasoning_startedAt = Some started,
                 reasoning_completedAt = None, reasoning_durationMs = None\<rparr>
      | Some r \<Rightarrow> r\<lparr>reasoning_startedAt := Some (nullish (reasoning_startedAt r) started)\<rparr>)"

definition completeReasoningTiming :: "jnum \<Rightarrow> Message \<Rightarrow> Message" where
  "completeReasoningTiming completed message =
     (case reasoning message of
        None \<Rightarrow> message
      | Some r \<Rightarrow>
          if reasoning_durationMs r \<noteq> None then message
          else
            let started = nullish (reasoning_startedAt r) (nullish (startedAt message) completed);
                dur = elapsed started completed
            in message\<lparr>reasoning := Some (r\<lparr>reasoning_startedAt := Some started,
                 reasoning_completedAt := Some completed, reasoning_durationMs := Some dur,
                 reasoning_duration := jceil (jdiv_fin dur 1000)\<rparr>)\<rparr>)"

section \<open>Reasoning tags\<close>

definition OPEN_TAG :: jstring where "OPEN_TAG = js ''<think>''"
definition CLOSE_TAG :: jstring where "CLOSE_TAG = js ''</think>''"

record ParsedThinkTags =
  visibleContent :: jstring
  parsed_reasoning :: jstring
  hasUnclosedTag :: bool

text \<open>
  The loop of \<open>parseThinkTags\<close> on what is left after \<open>currentPos\<close>: the visible parts,
  the reasoning parts, and whether the last tag is unclosed.
\<close>

function think_loop :: "jstring \<Rightarrow> jstring list \<times> jstring list \<times> bool" where
  "think_loop rest =
     (case index_of OPEN_TAG rest of
        None \<Rightarrow> (if rest \<noteq> [] then [rest] else [], [], False)
      | Some openPos \<Rightarrow>
          let vis = (if 0 < openPos then [take openPos rest] else []);
              inner = drop (openPos + 7) rest
          in (case index_of CLOSE_TAG inner of
                None \<Rightarrow> (vis, [inner], True)
              | Some closePos \<Rightarrow>
                  let (vs, rs, unclosed) = think_loop (drop (closePos + 8) inner)
                  in (vis @ vs, take closePos inner # rs, unclosed)))"
  by pat_completeness auto

termination
proof (relation "measure length", goal_cases)
  case (2 rest openPos vis inner closePos)
  then have "openPos + length OPEN_TAG \<le> length rest" by (auto dest: index_of_SomeD)
  with 2 show ?case by (simp add: OPEN_TAG_def)
qed simp

declare think_loop.simps [simp del]

definition parseThinkTags :: "jstring \<Rightarrow> ParsedThinkTags" where
  "parseThinkTags content =
     (if \<not> str_includes OPEN_TAG content
      then \<lparr>visibleContent = content, parsed_reasoning = [], hasUnclosedTag = False\<rparr>
      else let (vs, rs, unclosed) = think_loop content
           in \<lparr>visibleContent = jtrim (concat vs), parsed_reasoning = jtrim (join [10, 10] rs),
               hasUnclosedTag = unclosed\<rparr>)"

section \<open>Streaming\<close>

datatype StreamChunkType = ChunkReasoning | ChunkContent

text \<open>The chunk is always given by the callers; an empty one is falsy.\<close>

definition processStreamingContent :: "clock \<Rightarrow> Message \<Rightarrow> jstring \<Rightarrow> Message" where
  "processStreamingContent now message chunk =
     (let full = getMessageContent message @ chunk;
          updated = updateCurrentVersionContent message full
      in if reasoning message = None \<and> \<not> str_includes OPEN_TAG full
         then updated\<lparr>isReasoningStreaming := Some False\<rparr>
         else
           let p = parseThinkTags full
           in updated\<lparr>reasoning :=
                  (if parsed_reasoning p \<noteq> []
                   then Some ((startReasoningTiming (now 0) message)\<lparr>reasoning_content := parsed_reasoning p\<rparr>)
                   else reasoning message),
                isReasoningStreaming := Some (hasUnclosedTag p)\<rparr>)"

definition getAppendableChunk :: "jstring \<Rightarrow> jstring \<Rightarrow> jstring" where
  "getAppendableChunk current chunk =
     (if current = [] \<or> \<not> starts_with current chunk then chunk else drop (length current) chunk)"

definition applyStreamingChunk :: "clock \<Rightarrow> Message \<Rightarrow> StreamChunkType \<Rightarrow> jstring \<Rightarrow> Message" where
  "applyStreamingChunk now message type chunk =
     (if status message = Some StError then message
      else case type of
        ChunkReasoning \<Rightarrow>
          let r = startReasoningTiming (now 0) message
          in message\<lparr>reasoning := Some (r\<lparr>reasoning_content :=
                 reasoning_content r @ getAppendableChunk (reasoning_content r) chunk\<rparr>),
               isReasoningStreaming := Some True, status := Some StStreaming\<rparr>
      | ChunkContent \<Rightarrow>
          let m = processStreamingContent now message (getAppendableChunk (getMessageContent message) chunk)
          in (if isReasoningStreaming m = Some True then m else completeReasoningTiming (now 1) m)
               \<lparr>status := Some StStreaming\<rparr>)"

definition finalizeMessage :: "clock \<Rightarrow> Message \<Rightarrow> jstring option \<Rightarrow> Message" where
  "finalizeMessage now message apiReasoningContent =
     (let txt = getMessageContent message;
          parsed = (if str_includes OPEN_TAG txt then Some (parseThinkTags txt) else None);
          visible = nullish (map_option visibleContent parsed) txt;
          finalReasoning = str_or (nullish apiReasoningContent [])
            (str_or (nullish (map_option reasoning_content (reasoning message)) [])
              (nullish (map_option parsed_reasoning parsed) []));
          finalized = (updateCurrentVersionContent message visible)
            \<lparr>reasoning := (if finalReasoning \<noteq> []
               then Some ((startReasoningTiming (now 0) message)\<lparr>reasoning_content := finalReasoning\<rparr>)
               else None),
             isReasoningStreaming := Some False\<rparr>
      in completeReasoningTiming (now 1) finalized)"

definition completeAssistantMessage :: "clock \<Rightarrow> Message \<Rightarrow> Message" where
  "completeAssistantMessage now message =
     completeAssistantTiming (now 2) ((finalizeMessage now message None)\<lparr>status := Some StComplete\<rparr>)"

definition isAssistantMessageFinal :: "Message \<Rightarrow> bool" where
  "isAssistantMessageFinal message \<longleftrightarrow> status message \<in> {Some StComplete, Some StError}"

definition isAssistantMessagePending :: "Message \<Rightarrow> bool" where
  "isAssistantMessagePending message \<longleftrightarrow> status message \<in> {Some StLoading, Some StStreaming}"

definition isPendingAssistantMessage :: "Message \<Rightarrow> bool" where
  "isPendingAssistantMessage message \<longleftrightarrow>
     from_role message = RoleAssistant \<and> isAssistantMessagePending message"

section \<open>Responses that are not streamed\<close>

text \<open>
  A choice of a completion response: \<open>choice.message?.content\<close> and
  \<open>choice.message?.reasoning_content\<close>.
\<close>

record ChatCompletionChoice =
  choice_content :: "jstring option"
  choice_reasoning :: "jstring option"

type_synonym ChatCompletionResponse = "ChatCompletionChoice list option"

definition firstChoice :: "ChatCompletionResponse \<Rightarrow> ChatCompletionChoice option" where
  "firstChoice response = (case response of Some (c # _) \<Rightarrow> Some c | _ \<Rightarrow> None)"

definition hasChatCompletionChoice :: "ChatCompletionResponse \<Rightarrow> bool" where
  "hasChatCompletionChoice response \<longleftrightarrow> firstChoice response \<noteq> None"

definition applyChatCompletionChoice :: "clock \<Rightarrow> Message \<Rightarrow> ChatCompletionChoice \<Rightarrow> Message" where
  "applyChatCompletionChoice now message choice =
     completeAssistantTiming (now 2)
       ((finalizeMessage now (updateCurrentVersionContent message (nullish (choice_content choice) []))
           (choice_reasoning choice))\<lparr>status := Some StComplete\<rparr>)"

definition applyChatCompletionResponse :: "clock \<Rightarrow> Message \<Rightarrow> ChatCompletionResponse \<Rightarrow> Message option" where
  "applyChatCompletionResponse now message response =
     map_option (applyChatCompletionChoice now message) (firstChoice response)"

section \<open>Lemmas\<close>

named_theorems message_content \<open>what the operations make of the current version\<close>

lemma getMessageContent_update [message_content]:
  "getMessageContent (updateCurrentVersionContent message txt) = txt"
  by (simp add: getMessageContent_def getCurrentVersion_def updateCurrentVersionContent_def)

lemma getMessageContent_fields [message_content]:
  "getMessageContent (m\<lparr>reasoning := r\<rparr>) = getMessageContent m"
  "getMessageContent (m\<lparr>isReasoningStreaming := b\<rparr>) = getMessageContent m"
  "getMessageContent (m\<lparr>status := st\<rparr>) = getMessageContent m"
  "getMessageContent (m\<lparr>startedAt := t\<rparr>) = getMessageContent m"
  "getMessageContent (m\<lparr>completedAt := t\<rparr>) = getMessageContent m"
  "getMessageContent (m\<lparr>durationMs := t\<rparr>) = getMessageContent m"
  "getMessageContent (m\<lparr>createdAt := t\<rparr>) = getMessageContent m"
  "getMessageContent (m\<lparr>errorCode := e\<rparr>) = getMessageContent m"
  by (simp_all add: getMessageContent_def getCurrentVersion_def)

lemma update_fields [simp]:
  "from_role (updateCurrentVersionContent m txt) = from_role m"
  "reasoning (updateCurrentVersionContent m txt) = reasoning m"
  "status (updateCurrentVersionContent m txt) = status m"
  "startedAt (updateCurrentVersionContent m txt) = startedAt m"
  "createdAt (updateCurrentVersionContent m txt) = createdAt m"
  "isReasoningStreaming (updateCurrentVersionContent m txt) = isReasoningStreaming m"
  "msg_key (updateCurrentVersionContent m txt) = msg_key m"
  "versions (updateCurrentVersionContent m txt) \<noteq> []"
  by (simp_all add: updateCurrentVersionContent_def)

lemma completeReasoningTiming_fields [simp]:
  "from_role (completeReasoningTiming t m) = from_role m"
  "status (completeReasoningTiming t m) = status m"
  "versions (completeReasoningTiming t m) = versions m"
  "startedAt (completeReasoningTiming t m) = startedAt m"
  "createdAt (completeReasoningTiming t m) = createdAt m"
  "isReasoningStreaming (completeReasoningTiming t m) = isReasoningStreaming m"
  "msg_key (completeReasoningTiming t m) = msg_key m"
  "map_option reasoning_content (reasoning (completeReasoningTiming t m)) = map_option reasoning_content (reasoning m)"
  "reasoning (completeReasoningTiming t m) = None \<longleftrightarrow> reasoning m = None"
  by (auto simp: completeReasoningTiming_def Let_def split: option.splits)

lemma completeAssistantTiming_fields [simp]:
  "from_role (completeAssistantTiming t m) = from_role m"
  "status (completeAssistantTiming t m) = status m"
  "versions (completeAssistantTiming t m) = versions m"
  "reasoning (completeAssistantTiming t m) = reasoning m"
  "isReasoningStreaming (completeAssistantTiming t m) = isReasoningStreaming m"
  "msg_key (completeAssistantTiming t m) = msg_key m"
  by (simp_all add: completeAssistantTiming_def Let_def)

lemma getMessageContent_timing [message_content]:
  "getMessageContent (completeReasoningTiming t m) = getMessageContent m"
  "getMessageContent (completeAssistantTiming t m) = getMessageContent m"
  by (simp_all add: getMessageContent_def getCurrentVersion_def)

lemma getMessageContent_process [message_content]:
  "getMessageContent (processStreamingContent now m chunk) = getMessageContent m @ chunk"
  by (simp add: processStreamingContent_def Let_def message_content)

lemma append_appendable:
  "current @ getAppendableChunk current chunk =
     (if current \<noteq> [] \<and> starts_with current chunk then chunk else current @ chunk)"
  by (auto simp: getAppendableChunk_def dest: starts_withE)

lemma getMessageContent_chunk [message_content]:
  "status m \<noteq> Some StError \<Longrightarrow>
     getMessageContent (applyStreamingChunk now m ChunkContent chunk) =
       getMessageContent m @ getAppendableChunk (getMessageContent m) chunk"
  by (simp add: applyStreamingChunk_def Let_def message_content)

lemma status_chunk [simp]:
  "status (applyStreamingChunk now m type chunk) =
     (if status m = Some StError then Some StError else Some StStreaming)"
  by (simp add: applyStreamingChunk_def Let_def split: StreamChunkType.splits)

lemma fields_chunk [simp]:
  "from_role (applyStreamingChunk now m type chunk) = from_role m"
  "msg_key (applyStreamingChunk now m type chunk) = msg_key m"
  by (simp_all add: applyStreamingChunk_def processStreamingContent_def Let_def split: StreamChunkType.splits)

lemma finalize_fields [simp]:
  "from_role (finalizeMessage now m api) = from_role m"
  "msg_key (finalizeMessage now m api) = msg_key m"
  "status (finalizeMessage now m api) = status m"
  "isReasoningStreaming (finalizeMessage now m api) = Some False"
  "startedAt (finalizeMessage now m api) = startedAt m"
  "createdAt (finalizeMessage now m api) = createdAt m"
  by (simp_all add: finalizeMessage_def Let_def)

lemma complete_fields [simp]:
  "from_role (completeAssistantMessage now m) = from_role m"
  "msg_key (completeAssistantMessage now m) = msg_key m"
  "status (completeAssistantMessage now m) = Some StComplete"
  by (simp_all add: completeAssistantMessage_def)

lemma final_iff_not_pending:
  "status m \<noteq> None \<Longrightarrow> isAssistantMessageFinal m \<longleftrightarrow> \<not> isAssistantMessagePending m"
proof -
  assume "status m \<noteq> None"
  then obtain st where "status m = Some st" by blast
  then show ?thesis by (cases st) (simp_all add: isAssistantMessageFinal_def isAssistantMessagePending_def)
qed

subsection \<open>Tags\<close>

lemma tag_shape:
  "\<exists>c q. OPEN_TAG = c # q \<and> c \<notin> set q" "\<exists>c q. CLOSE_TAG = c # q \<and> c \<notin> set q"
  "length OPEN_TAG = 7" "length CLOSE_TAG = 8" "OPEN_TAG \<noteq> []"
  by (simp_all add: OPEN_TAG_def CLOSE_TAG_def js_Cons js_Nil)

lemma index_of_tag:
  "\<not> str_includes OPEN_TAG v \<Longrightarrow> index_of OPEN_TAG (v @ OPEN_TAG @ rest) = Some (length v)"
  "\<not> str_includes CLOSE_TAG v \<Longrightarrow> index_of CLOSE_TAG (v @ CLOSE_TAG @ rest) = Some (length v)"
  using tag_shape index_of_first by (metis append_Cons)+

lemma index_of_None: "\<not> str_includes p v \<Longrightarrow> index_of p v = None"
  by (simp add: str_includes_def)

text \<open>A text as the model writes it: visible parts, each followed by a closed reasoning part.\<close>

definition segment :: "jstring \<times> jstring \<Rightarrow> jstring" where
  "segment p = fst p @ OPEN_TAG @ snd p @ CLOSE_TAG"

definition segment_ok :: "jstring \<times> jstring \<Rightarrow> bool" where
  "segment_ok p \<longleftrightarrow> \<not> str_includes OPEN_TAG (fst p) \<and> \<not> str_includes CLOSE_TAG (snd p)"

text \<open>The end of the text: a visible part, and a reasoning part still open in a stream.\<close>

definition open_end :: "jstring option \<Rightarrow> jstring" where
  "open_end r = (case r of None \<Rightarrow> [] | Some s \<Rightarrow> OPEN_TAG @ s)"

lemma think_loop_segment:
  assumes "segment_ok (v, r)" and "think_loop rest = (vs, rs, u)"
  shows "think_loop (segment (v, r) @ rest) = ((if v = [] then [] else [v]) @ vs, r # rs, u)"
proof -
  have "index_of OPEN_TAG (segment (v, r) @ rest) = Some (length v)"
    using assms(1) index_of_tag(1)[of v "r @ CLOSE_TAG @ rest"] by (simp add: segment_def segment_ok_def)
  moreover have "drop (length v + 7) (segment (v, r) @ rest) = r @ CLOSE_TAG @ rest"
    by (simp add: segment_def tag_shape)
  moreover have "index_of CLOSE_TAG (r @ CLOSE_TAG @ rest) = Some (length r)"
    using assms(1) index_of_tag(2)[of r rest] by (simp add: segment_ok_def)
  moreover have "drop (length r + 8) (r @ CLOSE_TAG @ rest) = rest"
    by (simp add: tag_shape)
  moreover have "take (length v) (segment (v, r) @ rest) = v" by (simp add: segment_def)
  ultimately show ?thesis
    using assms(2) by (subst think_loop.simps) (simp add: Let_def)
qed

lemma think_loop_end:
  assumes "\<not> str_includes OPEN_TAG v" and "case r of None \<Rightarrow> True | Some s \<Rightarrow> \<not> str_includes CLOSE_TAG s"
  shows "think_loop (v @ open_end r) =
     (if v = [] then [] else [v], case r of None \<Rightarrow> [] | Some s \<Rightarrow> [s], r \<noteq> None)"
proof (cases r)
  case None
  with assms show ?thesis by (subst think_loop.simps) (simp add: open_end_def index_of_None)
next
  case (Some s)
  have "index_of OPEN_TAG (v @ OPEN_TAG @ s) = Some (length v)"
    using assms(1) by (rule index_of_tag)
  moreover have "drop (length v + 7) (v @ OPEN_TAG @ s) = s" by (simp add: tag_shape)
  moreover have "index_of CLOSE_TAG s = None" using assms(2) Some by (simp add: index_of_None)
  ultimately show ?thesis
    using Some by (subst think_loop.simps) (simp add: open_end_def Let_def)
qed

lemma think_loop_segments:
  assumes "list_all segment_ok segs" and "\<not> str_includes OPEN_TAG v"
    and "case r of None \<Rightarrow> True | Some s \<Rightarrow> \<not> str_includes CLOSE_TAG s"
  shows "\<exists>vs. think_loop (concat (map segment segs) @ v @ open_end r) =
      (vs, map snd segs @ (case r of None \<Rightarrow> [] | Some s \<Rightarrow> [s]), r \<noteq> None) \<and>
    concat vs = concat (map fst segs) @ v"
  using assms(1)
proof (induction segs)
  case Nil
  show ?case using think_loop_end[OF assms(2,3)] by auto
next
  case (Cons p segs)
  then obtain vs where "think_loop (concat (map segment segs) @ v @ open_end r) =
      (vs, map snd segs @ (case r of None \<Rightarrow> [] | Some s \<Rightarrow> [s]), r \<noteq> None)"
    and vs: "concat vs = concat (map fst segs) @ v" by auto
  moreover obtain w q where p: "p = (w, q)" by (cases p)
  ultimately have "think_loop (segment (w, q) @ concat (map segment segs) @ v @ open_end r) =
      ((if w = [] then [] else [w]) @ vs, q # map snd segs @ (case r of None \<Rightarrow> [] | Some s \<Rightarrow> [s]), r \<noteq> None)"
    using Cons.prems by (intro think_loop_segment) simp_all
  then show ?case using vs p by auto
qed

subsection \<open>Streams of chunks\<close>

type_synonym stream = "(clock \<times> StreamChunkType \<times> jstring) list"

definition stream_chunks :: "Message \<Rightarrow> stream \<Rightarrow> Message" where
  "stream_chunks m chunks = foldl (\<lambda>m (now, type, c). applyStreamingChunk now m type c) m chunks"

definition chunks_of :: "StreamChunkType \<Rightarrow> stream \<Rightarrow> jstring list" where
  "chunks_of type chunks = map (\<lambda>(_, _, c). c) (filter (\<lambda>(_, t, _). t = type) chunks)"

text \<open>Chunks that are increments: none starts with the whole text before it.\<close>

fun increments :: "jstring \<Rightarrow> jstring list \<Rightarrow> bool" where
  "increments acc [] = True"
| "increments acc (c # cs) = ((acc = [] \<or> \<not> starts_with acc c) \<and> increments (acc @ c) cs)"

definition reasoning_text :: "Message \<Rightarrow> jstring" where
  "reasoning_text m = nullish (map_option reasoning_content (reasoning m)) []"

text \<open>What the reader of a message sees.\<close>

definition answer :: "Message \<Rightarrow> jstring \<times> jstring \<times> MessageStatus option" where
  "answer m = (getMessageContent m, reasoning_text m, status m)"

lemma reasoning_text_timing [simp]:
  "reasoning_text (completeReasoningTiming t m) = reasoning_text m"
  "reasoning_text (completeAssistantTiming t m) = reasoning_text m"
  "reasoning_text (m\<lparr>status := st\<rparr>) = reasoning_text m"
  "reasoning_text (m\<lparr>isReasoningStreaming := b\<rparr>) = reasoning_text m"
  "reasoning_text (m\<lparr>reasoning := Some (r\<lparr>reasoning_content := txt\<rparr>)\<rparr>) = txt"
  by (simp_all add: reasoning_text_def)

lemma reasoning_text_start: "reasoning_content (startReasoningTiming t m) = reasoning_text m"
  by (simp add: startReasoningTiming_def reasoning_text_def split: option.splits)

lemma parse_no_tag [simp]: "\<not> str_includes OPEN_TAG c \<Longrightarrow> parsed_reasoning (parseThinkTags c) = []"
  by (simp add: parseThinkTags_def)

lemma reasoning_text_chunk:
  assumes "status m \<noteq> Some StError"
  shows "reasoning_text (applyStreamingChunk now m ChunkReasoning c) =
           reasoning_text m @ getAppendableChunk (reasoning_text m) c"
    and "reasoning_text (applyStreamingChunk now m ChunkContent c) =
      (let p = parsed_reasoning (parseThinkTags (getMessageContent m @ getAppendableChunk (getMessageContent m) c))
       in if p \<noteq> [] then p else reasoning_text m)"
  using assms
  by (simp_all add: applyStreamingChunk_def processStreamingContent_def Let_def reasoning_text_start)
     (simp_all add: reasoning_text_def)

lemma content_reasoning_chunk [message_content]:
  "getMessageContent (applyStreamingChunk now m ChunkReasoning c) = getMessageContent m"
  by (simp add: applyStreamingChunk_def Let_def message_content)

text \<open>The message after a prefix of the stream, with content \<open>c\<close> and reasoning \<open>r\<close> received.\<close>

definition streaming_inv :: "jstring \<Rightarrow> jstring \<Rightarrow> Message \<Rightarrow> bool" where
  "streaming_inv c r m \<longleftrightarrow> status m \<noteq> Some StError \<and> getMessageContent m = c \<and>
     (\<not> str_includes OPEN_TAG c \<longrightarrow> reasoning_text m = r) \<and>
     (str_includes OPEN_TAG c \<and> r = [] \<and> parsed_reasoning (parseThinkTags c) \<noteq> [] \<longrightarrow>
        reasoning_text m = parsed_reasoning (parseThinkTags c))"

lemma includes_mono: "str_includes p c \<Longrightarrow> str_includes p (c @ d)"
  unfolding str_includes_iff by (metis append.assoc)

lemma appendable_increment: "acc = [] \<or> \<not> starts_with acc c \<Longrightarrow> getAppendableChunk acc c = c"
  by (auto simp: getAppendableChunk_def)

lemma appendable_Nil [simp]: "getAppendableChunk acc [] = []"
  by (simp add: getAppendableChunk_def)

lemma streaming_inv_content:
  assumes "streaming_inv c r m" and "getAppendableChunk c d = d"
  shows "streaming_inv (c @ d) r (applyStreamingChunk now m ChunkContent d)"
  using assms includes_mono[of OPEN_TAG c d]
  by (auto simp: streaming_inv_def message_content reasoning_text_chunk Let_def)

lemma streaming_inv_reasoning:
  assumes "streaming_inv c r m" and "getAppendableChunk r d = d"
  shows "streaming_inv c (r @ d) (applyStreamingChunk now m ChunkReasoning d)"
  using assms by (auto simp: streaming_inv_def message_content reasoning_text_chunk Let_def)

lemma streaming_inv_chunks:
  assumes "streaming_inv c r m" and "increments c (chunks_of ChunkContent chunks)"
    and "increments r (chunks_of ChunkReasoning chunks)"
  shows "streaming_inv (c @ concat (chunks_of ChunkContent chunks))
           (r @ concat (chunks_of ChunkReasoning chunks)) (stream_chunks m chunks)"
  using assms
proof (induction chunks arbitrary: c r m)
  case (Cons x chunks)
  obtain now type d where x: "x = (now, type, d)" by (cases x)
  show ?case
  proof (cases type)
    case ChunkReasoning
    with Cons.prems x have "getAppendableChunk r d = d"
      by (intro appendable_increment) (simp add: chunks_of_def)
    then have "streaming_inv c (r @ d) (applyStreamingChunk now m ChunkReasoning d)"
      using Cons.prems(1) by (intro streaming_inv_reasoning)
    from Cons.IH[OF this] Cons.prems x ChunkReasoning show ?thesis
      by (simp add: chunks_of_def stream_chunks_def)
  next
    case ChunkContent
    with Cons.prems x have "getAppendableChunk c d = d"
      by (intro appendable_increment) (simp add: chunks_of_def)
    then have "streaming_inv (c @ d) r (applyStreamingChunk now m ChunkContent d)"
      using Cons.prems(1) by (intro streaming_inv_content)
    from Cons.IH[OF this] Cons.prems x ChunkContent show ?thesis
      by (simp add: chunks_of_def stream_chunks_def)
  qed
qed (simp add: chunks_of_def stream_chunks_def)

lemma content_finalize [message_content]:
  "getMessageContent (finalizeMessage now m api) =
     (if str_includes OPEN_TAG (getMessageContent m)
      then visibleContent (parseThinkTags (getMessageContent m)) else getMessageContent m)"
  by (simp add: finalizeMessage_def Let_def message_content)

lemma reasoning_text_finalize:
  "reasoning_text (finalizeMessage now m api) =
     str_or (nullish api []) (str_or (reasoning_text m) (parsed_reasoning (parseThinkTags (getMessageContent m))))"
  by (simp add: finalizeMessage_def Let_def str_or_def reasoning_text_def)

lemma answer_complete:
  "answer (completeAssistantMessage now m) =
     (getMessageContent (finalizeMessage now m None),
      str_or (reasoning_text m) (parsed_reasoning (parseThinkTags (getMessageContent m))), Some StComplete)"
  by (simp add: answer_def completeAssistantMessage_def message_content reasoning_text_finalize str_or_def)

lemma reasoning_text_update [simp]: "reasoning_text (updateCurrentVersionContent m txt) = reasoning_text m"
  by (simp add: reasoning_text_def)

lemma answer_choice:
  "answer (applyChatCompletionChoice now m choice) =
     (let full = nullish (choice_content choice) [] in
      (getMessageContent (finalizeMessage now (updateCurrentVersionContent m full) None),
       str_or (nullish (choice_reasoning choice) [])
         (str_or (reasoning_text m) (parsed_reasoning (parseThinkTags full))), Some StComplete))"
  by (simp add: answer_def applyChatCompletionChoice_def message_content reasoning_text_finalize Let_def)

lemma streaming_inv_start:
  "status m \<noteq> Some StError \<Longrightarrow> getMessageContent m = [] \<Longrightarrow> reasoning_text m = [] \<Longrightarrow> streaming_inv [] [] m"
  using tag_shape(5) by (auto simp: streaming_inv_def str_includes_def)

lemma streaming_inv_complete:
  assumes "streaming_inv full r m'" and "reasoning_text m = []"
    and "str_includes OPEN_TAG full \<Longrightarrow> r = [] \<and> parsed_reasoning (parseThinkTags full) \<noteq> []"
  shows "answer (completeAssistantMessage now m') =
    answer (applyChatCompletionChoice now' m \<lparr>choice_content = Some full, choice_reasoning = Some r\<rparr>)"
  using assms
  by (cases "str_includes OPEN_TAG full")
     (auto simp: answer_complete answer_choice message_content streaming_inv_def str_or_def)

section \<open>Properties\<close>

text \<open>
  Reasoning and visible text are separated exactly: of a text made of visible parts
  without an opening tag, each followed by a closed reasoning part, and at the end
  possibly an open one, the parser returns the visible parts together, the reasoning
  parts with a blank line between them, and whether the last part is still open.
\<close>

theorem think_tags_separated:
  assumes "list_all segment_ok segs" and "\<not> str_includes OPEN_TAG v"
    and "case r of None \<Rightarrow> True | Some s \<Rightarrow> \<not> str_includes CLOSE_TAG s"
    and "segs \<noteq> [] \<or> r \<noteq> None"
  shows "parseThinkTags (concat (map segment segs) @ v @ open_end r) =
    \<lparr>visibleContent = jtrim (concat (map fst segs) @ v),
     parsed_reasoning = jtrim (join [10, 10] (map snd segs @ (case r of None \<Rightarrow> [] | Some s \<Rightarrow> [s]))),
     hasUnclosedTag = (r \<noteq> None)\<rparr>"
proof -
  have "str_includes OPEN_TAG (concat (map segment segs) @ v @ open_end r)"
  proof (cases segs)
    case Nil
    with assms(4) obtain s where "r = Some s" by auto
    with Nil show ?thesis by (auto simp: open_end_def str_includes_iff)
  next
    case (Cons p ps)
    then show ?thesis by (auto simp: segment_def str_includes_iff)
  qed
  with think_loop_segments[OF assms(1-3)] show ?thesis
    by (auto simp: parseThinkTags_def)
qed

theorem think_tags_separated_witness:
  "parseThinkTags (js ''a<think>b</think>c<think>d'') =
     \<lparr>visibleContent = js ''ac'', parsed_reasoning = js ''b'' @ [10, 10] @ js ''d'', hasUnclosedTag = True\<rparr>"
proof -
  have "js ''a<think>b</think>c<think>d'' =
      concat (map segment [(js ''a'', js ''b'')]) @ js ''c'' @ open_end (Some (js ''d''))"
    by (simp add: segment_def open_end_def OPEN_TAG_def CLOSE_TAG_def js_Cons js_Nil)
  moreover have "list_all segment_ok [(js ''a'', js ''b'')]"
    "\<not> str_includes OPEN_TAG (js ''c'')"
    "case Some (js ''d'') of None \<Rightarrow> True | Some s \<Rightarrow> \<not> str_includes CLOSE_TAG s"
    by (simp_all add: segment_ok_def str_includes_def OPEN_TAG_def CLOSE_TAG_def js_Cons js_Nil starts_with_def)
  ultimately show ?thesis
    using think_tags_separated[of "[(js ''a'', js ''b'')]" "js ''c''" "Some (js ''d'')"]
    by (simp add: jtrim_def js_eval)
qed

text \<open>
  A streamed answer ends with the visible text, reasoning and status of an answer
  received at once: for an empty message without an error, and increments of content and of
  reasoning that arrive in any interleaving, none of which starts with all the text before
  it.  Reasoning comes from one source, its own chunks or non-empty tags in the content.
\<close>

theorem streamed_equals_unstreamed:
  assumes "status m \<noteq> Some StError" and "getMessageContent m = []" and "reasoning m = None"
    and "increments [] (chunks_of ChunkContent chunks)" and "increments [] (chunks_of ChunkReasoning chunks)"
    and "full = concat (chunks_of ChunkContent chunks)" and "r = concat (chunks_of ChunkReasoning chunks)"
    and "str_includes OPEN_TAG full \<Longrightarrow> r = [] \<and> parsed_reasoning (parseThinkTags full) \<noteq> []"
  shows "answer (completeAssistantMessage now (stream_chunks m chunks)) =
    answer (applyChatCompletionChoice now' m \<lparr>choice_content = Some full, choice_reasoning = Some r\<rparr>)"
proof -
  have none: "reasoning_text m = []" using assms(3) by (simp add: reasoning_text_def)
  then have "streaming_inv [] [] m" using assms(1,2) by (intro streaming_inv_start)
  from streaming_inv_chunks[OF this assms(4,5)] have "streaming_inv full r (stream_chunks m chunks)"
    using assms(6,7) by simp
  then show ?thesis using assms(8) none by (intro streaming_inv_complete) simp_all
qed

definition sample_loading :: Message where
  "sample_loading = createLoadingAssistantMessage (js ''k'') (js ''v'') (jint 1000)"

definition sample_stream :: stream where
  "sample_stream = [(\<lambda>_. jint 1100, ChunkContent, js ''<think>a''), (\<lambda>_. jint 1200, ChunkContent, js ''</think>b'')]"

lemma sample_parse:
  "parseThinkTags (js ''<think>a'' @ js ''</think>b'') =
     \<lparr>visibleContent = js ''b'', parsed_reasoning = js ''a'', hasUnclosedTag = False\<rparr>"
  by (simp add: parseThinkTags_def think_loop.simps str_includes_def OPEN_TAG_def CLOSE_TAG_def
      starts_with_def jtrim_def js_eval)

theorem streamed_equals_unstreamed_witness:
  "answer (completeAssistantMessage (\<lambda>_. jint 1300) (stream_chunks sample_loading sample_stream)) =
     (js ''b'', js ''a'', Some StComplete)"
proof -
  let ?full = "js ''<think>a'' @ js ''</think>b''"
  have "answer (completeAssistantMessage (\<lambda>_. jint 1300) (stream_chunks sample_loading sample_stream)) =
    answer (applyChatCompletionChoice (\<lambda>_. jint 1300) sample_loading
      \<lparr>choice_content = Some ?full, choice_reasoning = Some []\<rparr>)"
  proof (rule streamed_equals_unstreamed)
    show "increments [] (chunks_of ChunkContent sample_stream)"
      by (simp add: sample_stream_def chunks_of_def starts_with_def js_eval)
  qed (simp_all add: sample_loading_def createLoadingAssistantMessage_def createMessageVersion_def
      getMessageContent_def getCurrentVersion_def sample_stream_def chunks_of_def sample_parse)
  also have "\<dots> = (js ''b'', js ''a'', Some StComplete)"
  proof -
    have "str_includes OPEN_TAG ?full"
      by (simp add: str_includes_def OPEN_TAG_def starts_with_def js_eval)
    then show ?thesis by (simp add: answer_choice message_content sample_parse Let_def sample_loading_def
        createLoadingAssistantMessage_def reasoning_text_def str_or_def)
  qed
  finally show ?thesis .
qed

text \<open>
  C25.  A content chunk that repeats the text received so far and extends it is taken as a
  cumulative snapshot: the message holds the snapshot, not the text twice.  An increment
  that happens to equal or to start with the whole text so far, such as the second
  ``ha'' of ``haha'', is taken the same way, and its repetition is lost.
\<close>

theorem snapshot_replaces_content:
  assumes "status m \<noteq> Some StError" and "getMessageContent m \<noteq> []"
  shows "getMessageContent (applyStreamingChunk now m ChunkContent (getMessageContent m @ c)) =
    getMessageContent m @ c"
  using assms by (simp add: message_content append_appendable)

theorem snapshot_replaces_content_witness:
  "getMessageContent (stream_chunks sample_loading
     [(\<lambda>_. jint 1100, ChunkContent, js ''ha''), (\<lambda>_. jint 1200, ChunkContent, js ''ha'')]) = js ''ha''"
proof -
  let ?m = "applyStreamingChunk (\<lambda>_. jint 1100) sample_loading ChunkContent (js ''ha'')"
  have "status sample_loading \<noteq> Some StError" "getMessageContent sample_loading = []"
    by (simp_all add: sample_loading_def createLoadingAssistantMessage_def createMessageVersion_def
        getMessageContent_def getCurrentVersion_def)
  then have c: "getMessageContent ?m = js ''ha''" and st: "status ?m \<noteq> Some StError"
    by (simp_all add: message_content append_appendable[of "[]", simplified])
  from st c have "getMessageContent (applyStreamingChunk (\<lambda>_. jint 1200) ?m ChunkContent (getMessageContent ?m @ [])) =
      getMessageContent ?m @ []"
    by (intro snapshot_replaces_content) simp_all
  then show ?thesis by (simp add: stream_chunks_def c)
qed

text \<open>
  A closing tag that arrives in two pieces leaves its first piece behind when the
  reasoning is blank: the streamed message keeps it as reasoning, where the same answer
  received at once has none.
\<close>

theorem partial_close_tag_kept:
  "answer (completeAssistantMessage now (stream_chunks sample_loading
     [(n\<^sub>1, ChunkContent, js ''<think>''), (n\<^sub>2, ChunkContent, js '' </''), (n\<^sub>3, ChunkContent, js ''think>'')])) =
     ([], js ''</'', Some StComplete) \<and>
   answer (applyChatCompletionChoice now sample_loading
     \<lparr>choice_content = Some (js ''<think> </think>''), choice_reasoning = None\<rparr>) =
     ([], [], Some StComplete)"
proof -
  let ?p1 = "js ''<think>''" let ?p2 = "js ''<think> </''" let ?p3 = "js ''<think> </think>''"
  have app: "?p1 @ js '' </'' = ?p2" "?p2 @ js ''think>'' = ?p3" by (simp_all add: js_Cons js_Nil)
  have inc: "getAppendableChunk ?p1 (js '' </'') = js '' </''" "getAppendableChunk ?p2 (js ''think>'') = js ''think>''"
    "getAppendableChunk [] ?p1 = ?p1"
    by (simp_all add: getAppendableChunk_def starts_with_def js_eval)
  have parses: "parsed_reasoning (parseThinkTags ?p1) = []" "parsed_reasoning (parseThinkTags ?p2) = js ''</''"
    "parsed_reasoning (parseThinkTags ?p3) = []" "visibleContent (parseThinkTags ?p3) = []"
    "str_includes OPEN_TAG ?p3"
    by (simp_all add: parseThinkTags_def think_loop.simps str_includes_def OPEN_TAG_def CLOSE_TAG_def
        starts_with_def jtrim_def js_eval)
  have start: "status sample_loading \<noteq> Some StError" "getMessageContent sample_loading = []"
    "reasoning_text sample_loading = []"
    by (simp_all add: sample_loading_def createLoadingAssistantMessage_def createMessageVersion_def
        getMessageContent_def getCurrentVersion_def reasoning_text_def)
  show ?thesis
    by (simp add: stream_chunks_def answer_complete answer_choice message_content reasoning_text_chunk
        start inc app parses str_or_def Let_def)
qed

text \<open>
  A completed assistant message is stable and its times make sense: it is final, its
  reasoning, if any, has stopped streaming and has a duration, and both durations are at
  least zero when the clock and the stored times are finite, even when the clock has been
  set back.
\<close>

definition finite_times :: "Message \<Rightarrow> bool" where
  "finite_times m \<longleftrightarrow> pred_option isFinite (startedAt m) \<and> pred_option isFinite (createdAt m) \<and>
     (case reasoning m of None \<Rightarrow> True
      | Some r \<Rightarrow> pred_option isFinite (reasoning_startedAt r) \<and>
          pred_option (jle (jint 0)) (reasoning_durationMs r))"

lemma elapsed_nonneg: "isFinite a \<Longrightarrow> isFinite b \<Longrightarrow> jle (jint 0) (elapsed a b)"
proof -
  assume "isFinite a" and "isFinite b"
  then have "jsub b a \<noteq> NaN" by (intro jsub_neq_NaN) (auto simp: isFinite_def)
  then show ?thesis by (simp add: elapsed_def jle_jmax_0)
qed

lemma startReasoning_finite:
  "finite_times m \<Longrightarrow> isFinite t \<Longrightarrow> \<exists>s. reasoning_startedAt (startReasoningTiming t m) = Some s \<and> isFinite s"
  by (auto simp: finite_times_def startReasoningTiming_def nullish_def split: option.splits)

lemma completeReasoning_duration:
  assumes "reasoning m = Some r" and "reasoning_startedAt r = Some s" and "isFinite s" and "isFinite t"
    and "pred_option (jle (jint 0)) (reasoning_durationMs r)"
  shows "\<exists>r' d. reasoning (completeReasoningTiming t m) = Some r' \<and> reasoning_durationMs r' = Some d \<and> jle (jint 0) d"
  using assms by (cases "reasoning_durationMs r") (auto simp: completeReasoningTiming_def Let_def elapsed_nonneg)

theorem completed_message_stable:
  assumes "from_role m = RoleAssistant" and "finite_times m" and "\<And>i. isFinite (now i)"
    and "m' = completeAssistantMessage now m"
  shows "isAssistantMessageFinal m' \<and> \<not> isPendingAssistantMessage m' \<and> isReasoningStreaming m' = Some False \<and>
    pred_option (jle (jint 0)) (durationMs m') \<and> durationMs m' \<noteq> None \<and>
    (case reasoning m' of None \<Rightarrow> True
     | Some r \<Rightarrow> reasoning_content r \<noteq> [] \<and> reasoning_durationMs r \<noteq> None \<and>
         pred_option (jle (jint 0)) (reasoning_durationMs r))"
proof -
  have fin: "isAssistantMessageFinal m' \<and> \<not> isPendingAssistantMessage m' \<and> isReasoningStreaming m' = Some False"
    using assms(4) by (simp add: isAssistantMessageFinal_def isPendingAssistantMessage_def
        isAssistantMessagePending_def completeAssistantMessage_def)
  have "isFinite (nullish (startedAt m) (nullish (createdAt m) (now 2)))"
    using assms(2,3) by (auto simp: finite_times_def nullish_def split: option.splits)
  then have dur: "pred_option (jle (jint 0)) (durationMs m') \<and> durationMs m' \<noteq> None"
    using assms(1,3,4) by (simp add: completeAssistantMessage_def completeAssistantTiming_def Let_def elapsed_nonneg)
  have "case reasoning (finalizeMessage now m None) of None \<Rightarrow> True
     | Some r \<Rightarrow> reasoning_content r \<noteq> [] \<and> reasoning_durationMs r \<noteq> None \<and> pred_option (jle (jint 0)) (reasoning_durationMs r)"
  proof (cases "reasoning_text (finalizeMessage now m None) = []")
    case True
    then show ?thesis
      by (auto simp: finalizeMessage_def Let_def completeReasoningTiming_def reasoning_text_def split: option.splits if_splits)
  next
    case False
    then obtain w r where f: "finalizeMessage now m None = completeReasoningTiming (now 1) r"
      and r: "reasoning r = Some ((startReasoningTiming (now 0) m)\<lparr>reasoning_content := w\<rparr>)"
      by (auto simp: finalizeMessage_def Let_def reasoning_text_def completeReasoningTiming_def split: if_splits)
    obtain s where "reasoning_startedAt (startReasoningTiming (now 0) m) = Some s" "isFinite s"
      using startReasoning_finite assms(2,3) by blast
    moreover have "pred_option (jle (jint 0)) (reasoning_durationMs (startReasoningTiming (now 0) m))"
      using assms(2) by (auto simp: finite_times_def startReasoningTiming_def split: option.splits)
    ultimately obtain r' d where "reasoning (finalizeMessage now m None) = Some r'"
      "reasoning_durationMs r' = Some d" "jle (jint 0) d"
      using completeReasoning_duration[OF r, of s "now 1"] assms(3) f by auto
    with False show ?thesis by (simp add: reasoning_text_def)
  qed
  then show ?thesis using fin dur assms(4) by (simp add: completeAssistantMessage_def)
qed

theorem completed_message_stable_witness:
  "durationMs (completeAssistantMessage (\<lambda>_. jint 400) sample_loading) = Some (jint 0) \<and>
   isAssistantMessageFinal (completeAssistantMessage (\<lambda>_. jint 400) sample_loading)"
proof -
  have "from_role sample_loading = RoleAssistant" "finite_times sample_loading"
    by (simp_all add: sample_loading_def createLoadingAssistantMessage_def finite_times_def)
  then have "isAssistantMessageFinal (completeAssistantMessage (\<lambda>_. jint 400) sample_loading)"
    using completed_message_stable[of sample_loading "\<lambda>_. jint 400"] by simp
  moreover have "durationMs (completeAssistantMessage (\<lambda>_. jint 400) sample_loading) = Some (jint 0)"
    by (simp add: completeAssistantMessage_def completeAssistantTiming_def sample_loading_def
        createLoadingAssistantMessage_def elapsed_def jsub_jint max_safe_def Let_def)
  ultimately show ?thesis by simp
qed

end
