(* ===== verification/Playground_Conversation.thy ===== *)
theory Playground_Conversation
  imports Playground_Messages
begin

text \<open>
  Conversations of the web playground: the operations of \<open>lib/message\<close> on the list of
  messages, what the components show of a message, the request payload
  (\<open>lib/streaming/payload-builder.ts\<close>), and the choice of models, groups and input state
  (\<open>lib/options\<close>, \<open>lib/input\<close>).
\<close>

section \<open>Updates of the list\<close>

definition updateLastAssistantMessage :: "(Message \<Rightarrow> Message) \<Rightarrow> Message list \<Rightarrow> Message list" where
  "updateLastAssistantMessage updater messages =
     (if messages = [] then messages
      else let lst = last messages in
        if from_role lst \<noteq> RoleAssistant then messages
        else messages[length messages - 1 := updater lst])"

definition updateAssistantMessageWithError ::
  "clock \<Rightarrow> jstring \<Rightarrow> jstring option \<Rightarrow> jstring \<Rightarrow> Message list \<Rightarrow> Message list" where
  "updateAssistantMessageWithError now errorMessage code title messages =
     updateLastAssistantMessage (\<lambda>message.
       completeAssistantTiming (now 0)
         ((updateCurrentVersionContent message (title @ js '': '' @ errorMessage))
            \<lparr>status := Some StError, isReasoningStreaming := Some False,
             errorCode := Some (case code of Some c \<Rightarrow> if c = [] then None else Some c | None \<Rightarrow> None)\<rparr>))
       messages"

section \<open>Operations of the user\<close>

text \<open>The identifiers that \<open>nanoid()\<close> gives to a new message and to its version.\<close>

type_synonym fresh = "jstring \<times> jstring"

definition appendUserMessagePair :: "fresh \<Rightarrow> fresh \<Rightarrow> jnum \<Rightarrow> Message list \<Rightarrow> jstring \<Rightarrow> Message list" where
  "appendUserMessagePair user assistant submittedAt messages content =
     messages @ [createUserMessage (fst user) (snd user) content submittedAt,
                 createLoadingAssistantMessage (fst assistant) (snd assistant) submittedAt]"

fun find_index :: "('a \<Rightarrow> bool) \<Rightarrow> 'a list \<Rightarrow> nat option" where
  "find_index P [] = None"
| "find_index P (x # xs) = (if P x then Some 0 else map_option Suc (find_index P xs))"

definition createRegeneratedMessages :: "fresh \<Rightarrow> jnum \<Rightarrow> Message list \<Rightarrow> jstring \<Rightarrow> Message list option" where
  "createRegeneratedMessages assistant now messages messageKey =
     (case find_index (\<lambda>m. msg_key m = messageKey) messages of
        None \<Rightarrow> None
      | Some i \<Rightarrow>
          Some (take (if from_role (messages ! i) = RoleUser then i + 1 else i) messages @
                [createLoadingAssistantMessage (fst assistant) (snd assistant) now]))"

definition removeMessageByKey :: "Message list \<Rightarrow> jstring \<Rightarrow> Message list" where
  "removeMessageByKey messages messageKey = filter (\<lambda>m. msg_key m \<noteq> messageKey) messages"

fun getPreviousUserMessage :: "Message list \<Rightarrow> nat \<Rightarrow> Message option" where
  "getPreviousUserMessage messages 0 = None"
| "getPreviousUserMessage messages (Suc i) =
     (if from_role (messages ! i) = RoleUser then Some (messages ! i)
      else getPreviousUserMessage messages i)"

definition edited :: "jstring \<Rightarrow> jstring \<Rightarrow> bool \<Rightarrow> jnum \<Rightarrow> Message \<Rightarrow> Message" where
  "edited messageKey content shouldSubmit submittedAt message =
     (if msg_key message = messageKey
      then (updateCurrentVersionContent message content)
             \<lparr>createdAt := (if shouldSubmit then Some submittedAt else createdAt message)\<rparr>
      else message)"

record ApplyMessageEditResult =
  edit_messages :: "Message list"
  shouldSend :: bool

definition applyMessageEdit ::
  "fresh \<Rightarrow> jnum \<Rightarrow> Message list \<Rightarrow> jstring \<Rightarrow> jstring \<Rightarrow> bool \<Rightarrow> ApplyMessageEditResult option" where
  "applyMessageEdit assistant submittedAt messages messageKey content shouldSubmit =
     (case find_index (\<lambda>m. msg_key m = messageKey) messages of
        None \<Rightarrow> None
      | Some i \<Rightarrow>
          let updated = map (edited messageKey content shouldSubmit submittedAt) messages
          in if \<not> shouldSubmit \<or> from_role (updated ! i) \<noteq> RoleUser
             then Some \<lparr>edit_messages = updated, shouldSend = False\<rparr>
             else Some \<lparr>edit_messages = take (i + 1) updated @
                      [createLoadingAssistantMessage (fst assistant) (snd assistant) submittedAt],
                    shouldSend = True\<rparr>)"

definition getEditingMessageContent :: "Message list \<Rightarrow> jstring option \<Rightarrow> jstring" where
  "getEditingMessageContent messages editingKey =
     (case editingKey of
        None \<Rightarrow> []
      | Some k \<Rightarrow>
          if k = [] then []
          else (case find (\<lambda>m. msg_key m = k) messages of None \<Rightarrow> [] | Some m \<Rightarrow> getMessageContent m))"

section \<open>Messages loaded from storage\<close>

text \<open>
  The last pending assistant message of the list, if there is one, is completed, or marked
  as interrupted when it has neither content nor reasoning.
\<close>

definition sanitizeMessage :: "clock \<Rightarrow> (jstring \<Rightarrow> jstring) \<Rightarrow> Message \<Rightarrow> Message" where
  "sanitizeMessage now t message =
     (let finalized = finalizeMessage now message None;
          hasContent = hasMessageContent finalized;
          hasReasoning = (jtrim (reasoning_text finalized) \<noteq> [])
      in if hasContent \<or> hasReasoning
         then completeAssistantTiming (now 2)
                (finalized\<lparr>status := Some StComplete, isReasoningStreaming := Some False\<rparr>)
         else completeAssistantTiming (now 2)
                ((updateCurrentVersionContent finalized
                    (t (js ''Request error occurred'') @ js '': '' @ t (js ''Generation was interrupted'')))
                   \<lparr>status := Some StError, isReasoningStreaming := Some False\<rparr>))"

fun last_index :: "('a \<Rightarrow> bool) \<Rightarrow> 'a list \<Rightarrow> nat option" where
  "last_index P [] = None"
| "last_index P (x # xs) =
     (case last_index P xs of Some i \<Rightarrow> Some (Suc i) | None \<Rightarrow> if P x then Some 0 else None)"

definition sanitizeMessagesOnLoad :: "clock \<Rightarrow> (jstring \<Rightarrow> jstring) \<Rightarrow> Message list \<Rightarrow> Message list" where
  "sanitizeMessagesOnLoad now t messages =
     (case last_index isPendingAssistantMessage messages of
        None \<Rightarrow> messages
      | Some i \<Rightarrow> messages[i := sanitizeMessage now t (messages ! i)])"

section \<open>Request payload\<close>

datatype ContentPart = TextPart jstring | ImagePart jstring

datatype MessageContent = PlainContent jstring | PartsContent "ContentPart list"

record ChatCompletionMessage =
  payload_role :: MessageRole
  payload_content :: MessageContent

definition buildMessageContent :: "jstring \<Rightarrow> jstring list \<Rightarrow> MessageContent" where
  "buildMessageContent text imageUrls =
     (let valid = filter (\<lambda>u. jtrim u \<noteq> []) imageUrls in
      if valid = [] then PlainContent text
      else PartsContent (TextPart text # map (\<lambda>u. ImagePart (jtrim u)) valid))"

fun is_text_part :: "ContentPart \<Rightarrow> bool" where
  "is_text_part (TextPart _) = True"
| "is_text_part (ImagePart _) = False"

definition getTextContent :: "MessageContent \<Rightarrow> jstring" where
  "getTextContent content =
     (case content of
        PlainContent s \<Rightarrow> s
      | PartsContent ps \<Rightarrow>
          (case find is_text_part ps of Some (TextPart s) \<Rightarrow> s | _ \<Rightarrow> []))"

definition formatMessageForAPI :: "Message \<Rightarrow> ChatCompletionMessage" where
  "formatMessageForAPI message =
     \<lparr>payload_role = from_role message, payload_content = PlainContent (getMessageContent message)\<rparr>"

definition isValidMessage :: "Message \<Rightarrow> bool" where
  "isValidMessage message \<longleftrightarrow>
     versions message \<noteq> [] \<and> \<not> (from_role message = RoleAssistant \<and> \<not> hasMessageContent message)"

record PlaygroundConfig =
  model :: jstring
  cfg_group :: jstring
  temperature :: jnum
  top_p :: jnum
  max_tokens :: jnum
  frequency_penalty :: jnum
  presence_penalty :: jnum
  seed :: "jnum option"
  stream :: bool

record ParameterEnabled =
  en_temperature :: bool
  en_top_p :: bool
  en_max_tokens :: bool
  en_frequency_penalty :: bool
  en_presence_penalty :: bool
  en_seed :: bool

record ChatCompletionRequest =
  req_model :: jstring
  req_group :: jstring
  req_messages :: "ChatCompletionMessage list"
  req_stream :: bool
  req_temperature :: "jnum option"
  req_top_p :: "jnum option"
  req_max_tokens :: "jnum option"
  req_frequency_penalty :: "jnum option"
  req_presence_penalty :: "jnum option"
  req_seed :: "jnum option"

definition only_if :: "bool \<Rightarrow> 'a \<Rightarrow> 'a option" where
  "only_if b x = (if b then Some x else None)"

definition buildChatCompletionPayload ::
  "Message list \<Rightarrow> PlaygroundConfig \<Rightarrow> ParameterEnabled \<Rightarrow> ChatCompletionRequest" where
  "buildChatCompletionPayload messages config enabled =
     \<lparr>req_model = model config, req_group = cfg_group config,
      req_messages = map formatMessageForAPI (filter isValidMessage messages),
      req_stream = stream config,
      req_temperature = only_if (en_temperature enabled) (temperature config),
      req_top_p = only_if (en_top_p enabled) (top_p config),
      req_max_tokens = only_if (en_max_tokens enabled) (max_tokens config),
      req_frequency_penalty = only_if (en_frequency_penalty enabled) (frequency_penalty config),
      req_presence_penalty = only_if (en_presence_penalty enabled) (presence_penalty config),
      req_seed = (if en_seed enabled then seed config else None)\<rparr>"

definition DEFAULT_CONFIG :: PlaygroundConfig where
  "DEFAULT_CONFIG = \<lparr>model = js ''gpt-4o'', cfg_group = js ''default'', temperature = rnd (7 / 10),
     top_p = jint 1, max_tokens = jint 4096, frequency_penalty = jint 0, presence_penalty = jint 0,
     seed = None, stream = True\<rparr>"

definition DEFAULT_PARAMETER_ENABLED :: ParameterEnabled where
  "DEFAULT_PARAMETER_ENABLED = \<lparr>en_temperature = True, en_top_p = True, en_max_tokens = False,
     en_frequency_penalty = True, en_presence_penalty = True, en_seed = False\<rparr>"

section \<open>What is shown of a message\<close>

definition flag :: "bool option \<Rightarrow> bool" where
  "flag b \<longleftrightarrow> b = Some True"

record MessageContentState =
  displayContent :: jstring
  hasSources :: bool
  isAssistant :: bool
  showLoader :: bool
  showMessageContent :: bool
  shown_sources :: "(jstring \<times> jstring) list"
  hasReasoning :: bool
  reasoningContent :: "jstring option"

definition shouldShowMessageLoader :: "Message \<Rightarrow> bool \<Rightarrow> jstring \<Rightarrow> bool" where
  "shouldShowMessageLoader message assistant versionContent \<longleftrightarrow>
     assistant \<and> \<not> flag (isReasoningStreaming message) \<and>
     (status message = Some StLoading \<or> status message = Some StStreaming \<and> versionContent = [])"

definition shouldShowMessageContent :: "Message \<Rightarrow> jstring \<Rightarrow> bool" where
  "shouldShowMessageContent message versionContent \<longleftrightarrow>
     (from_role message = RoleUser \<or> \<not> flag (isReasoningStreaming message)) \<and> 0 < length versionContent"

definition getDisplayContent :: "Message \<Rightarrow> jstring \<Rightarrow> jstring" where
  "getDisplayContent message versionContent =
     (if from_role message \<noteq> RoleAssistant then versionContent
      else if \<not> str_includes OPEN_TAG versionContent then versionContent
      else visibleContent (parseThinkTags versionContent))"

definition getMessageContentState :: "Message \<Rightarrow> jstring \<Rightarrow> MessageContentState" where
  "getMessageContentState message versionContent =
     (let assistant = (from_role message = RoleAssistant);
          srcs = nullish (sources message) [];
          rc = (if assistant then map_option reasoning_content (reasoning message) else None);
          shown = (case rc of Some s \<Rightarrow> s \<noteq> [] | None \<Rightarrow> False)
      in \<lparr>displayContent = getDisplayContent message versionContent, hasSources = (0 < length srcs),
          isAssistant = assistant,
          showLoader = shouldShowMessageLoader message assistant versionContent,
          showMessageContent = shouldShowMessageContent message versionContent,
          shown_sources = srcs, hasReasoning = shown,
          reasoningContent = (if shown then rc else None)\<rparr>)"

record MessageActionState =
  act_content :: jstring
  act_hasContent :: bool
  act_isAssistant :: bool
  act_isLoading :: bool
  act_isUser :: bool

definition getMessageActionState :: "Message \<Rightarrow> MessageActionState" where
  "getMessageActionState message =
     \<lparr>act_content = getMessageContent message, act_hasContent = hasMessageContent message,
      act_isAssistant = (from_role message = RoleAssistant),
      act_isLoading = (status message = Some StLoading \<or> status message = Some StStreaming),
      act_isUser = (from_role message = RoleUser)\<rparr>"

record MessageEditorState =
  canSave :: bool
  hasChanged :: bool
  showSaveAndSubmit :: bool

definition getMessageEditorState :: "Message \<Rightarrow> jstring \<Rightarrow> jstring \<Rightarrow> MessageEditorState" where
  "getMessageEditorState message editText originalText =
     \<lparr>canSave = (0 < length (jtrim editText) \<and> editText \<noteq> originalText),
      hasChanged = (editText \<noteq> originalText), showSaveAndSubmit = (from_role message = RoleUser)\<rparr>"

definition isAdminRole :: "jnum option \<Rightarrow> bool" where
  "isAdminRole role = (case role of None \<Rightarrow> False | Some n \<Rightarrow> jle (jint 10) n)"

definition isErrorMessage :: "Message \<Rightarrow> bool" where
  "isErrorMessage message \<longleftrightarrow> status message = Some StError"

record MessageErrorState =
  err_content :: jstring
  err_model_price :: bool
  showSettingsLink :: bool

definition getMessageErrorState :: "Message \<Rightarrow> bool \<Rightarrow> MessageErrorState option" where
  "getMessageErrorState message isAdmin =
     (if \<not> isErrorMessage message then None
      else let price = (errorCode message = Some (Some (js ''model_price_error'')))
           in Some \<lparr>err_content = str_or (getMessageContent message) (js ''An unknown error occurred''),
                err_model_price = price, showSettingsLink = (price \<and> isAdmin)\<rparr>)"

datatype MessageAlignment = AlignLeft | AlignRight

definition getMessageAlignment :: "Message \<Rightarrow> bool \<Rightarrow> MessageAlignment" where
  "getMessageAlignment message leftMode =
     (if leftMode then AlignLeft else if from_role message = RoleUser then AlignRight else AlignLeft)"

record ChatMessageRenderState =
  alwaysShowActions :: bool
  render_content :: jstring
  isEditing :: bool

definition getChatMessageRenderState ::
  "Message list \<Rightarrow> Message \<Rightarrow> nat \<Rightarrow> jstring option \<Rightarrow> ChatMessageRenderState" where
  "getChatMessageRenderState messages message messageIndex editingKey =
     \<lparr>alwaysShowActions = (int messageIndex = int (length messages) - 1 \<and> from_role message = RoleAssistant),
      render_content = getMessageContent message, isEditing = (editingKey = Some (msg_key message))\<rparr>"

section \<open>Options and input\<close>

text \<open>Options by their \<open>value\<close>.\<close>

definition getModelFallback :: "jstring list \<Rightarrow> jstring \<Rightarrow> jstring option" where
  "getModelFallback models currentModel =
     (if currentModel \<in> set models \<or> models = [] then None else Some (hd models))"

definition shouldClearModelForGroup :: "jstring list \<Rightarrow> jstring \<Rightarrow> bool" where
  "shouldClearModelForGroup models currentModel \<longleftrightarrow>
     (if currentModel = [] then False else currentModel \<notin> set models)"

definition getGroupFallback :: "jstring list \<Rightarrow> jstring \<Rightarrow> jstring option" where
  "getGroupFallback groups currentGroup =
     (if currentGroup \<in> set groups \<or> groups = [] then None
      else Some (nullish (find (\<lambda>g. g = js ''default'') groups) (hd groups)))"

definition getSubmittableInputText :: "jstring option \<Rightarrow> bool \<Rightarrow> jstring option" where
  "getSubmittableInputText text disabled =
     (case text of
        None \<Rightarrow> None
      | Some s \<Rightarrow> if disabled \<or> jtrim s = [] then None else Some s)"

record InputControlState =
  canSubmit :: bool
  isSelectorDisabled :: bool
  shouldShowStop :: bool

definition getInputControlState ::
  "bool \<Rightarrow> jstring list \<Rightarrow> bool \<Rightarrow> bool \<Rightarrow> bool \<Rightarrow> jstring list \<Rightarrow> jstring \<Rightarrow> InputControlState" where
  "getInputControlState disabled groups hasStopHandler isGenerating isModelLoading models text =
     \<lparr>canSubmit = (\<not> disabled \<and> 0 < length models \<and> 0 < length (jtrim text)),
      isSelectorDisabled = (disabled \<or> isModelLoading \<or> length groups = 0),
      shouldShowStop = (isGenerating \<and> hasStopHandler)\<rparr>"

section \<open>Lemmas\<close>

lemma updateLast_snoc [simp]:
  "updateLastAssistantMessage f (ms @ [m]) = ms @ [if from_role m = RoleAssistant then f m else m]"
  by (simp add: updateLastAssistantMessage_def)

lemma updateLast_Nil [simp]: "updateLastAssistantMessage f [] = []"
  by (simp add: updateLastAssistantMessage_def)

definition nothing_pending :: "Message list \<Rightarrow> bool" where
  "nothing_pending ms \<longleftrightarrow> list_all (\<lambda>m. \<not> isPendingAssistantMessage m) ms"

definition only_last_pending :: "Message list \<Rightarrow> bool" where
  "only_last_pending ms \<longleftrightarrow> nothing_pending (butlast ms)"

lemma nothing_pending_simps [simp]:
  "nothing_pending []"
  "nothing_pending (ms @ ms') \<longleftrightarrow> nothing_pending ms \<and> nothing_pending ms'"
  "nothing_pending (m # ms) \<longleftrightarrow> \<not> isPendingAssistantMessage m \<and> nothing_pending ms"
  by (simp_all add: nothing_pending_def)

lemma nothing_pending_take: "nothing_pending ms \<Longrightarrow> nothing_pending (take n ms)"
  unfolding nothing_pending_def list_all_iff by (auto dest: in_set_takeD)

lemma placeholder_simps [simp]:
  "isPendingAssistantMessage (createLoadingAssistantMessage k v t)"
  "\<not> isValidMessage (createLoadingAssistantMessage k v t)"
  "msg_key (createLoadingAssistantMessage k v t) = k"
  "from_role (createLoadingAssistantMessage k v t) = RoleAssistant"
  by (simp_all add: createLoadingAssistantMessage_def isPendingAssistantMessage_def
      isAssistantMessagePending_def isValidMessage_def hasMessageContent_def getMessageContent_def
      getCurrentVersion_def createMessageVersion_def)

lemma user_message_simps [simp]:
  "\<not> isPendingAssistantMessage (createUserMessage k v c t)"
  "isValidMessage (createUserMessage k v c t)"
  "formatMessageForAPI (createUserMessage k v c t) = \<lparr>payload_role = RoleUser, payload_content = PlainContent c\<rparr>"
  "msg_key (createUserMessage k v c t) = k"
  by (simp_all add: createUserMessage_def isPendingAssistantMessage_def isValidMessage_def
      formatMessageForAPI_def getMessageContent_def getCurrentVersion_def createMessageVersion_def)

lemma find_index_SomeD:
  "find_index P xs = Some i \<Longrightarrow> i < length xs \<and> P (xs ! i) \<and> list_all (\<lambda>x. \<not> P x) (take i xs)"
  by (induction xs arbitrary: i) (auto split: if_splits)

lemma last_index_SomeD:
  "last_index P xs = Some i \<Longrightarrow> i < length xs \<and> P (xs ! i) \<and> list_all (\<lambda>x. \<not> P x) (drop (Suc i) xs)"
proof (induction xs arbitrary: i)
  case (Cons x xs)
  show ?case
  proof (cases "last_index P xs")
    case None
    moreover have "list_all (\<lambda>x. \<not> P x) ys" if "last_index P ys = None" for ys
      using that by (induction ys) (auto split: option.splits if_splits)
    ultimately show ?thesis using Cons.prems by (auto split: if_splits)
  next
    case (Some j)
    with Cons show ?thesis by auto
  qed
qed simp

lemma last_index_None_iff: "last_index P xs = None \<longleftrightarrow> list_all (\<lambda>x. \<not> P x) xs"
  by (induction xs) (auto split: option.splits)

lemma edited_fields [simp]:
  "msg_key (edited k c b t m) = msg_key m"
  "from_role (edited k c b t m) = from_role m"
  "isPendingAssistantMessage (edited k c b t m) = isPendingAssistantMessage m"
  by (simp_all add: edited_def isPendingAssistantMessage_def isAssistantMessagePending_def)

lemma keys_edited [simp]: "map msg_key (map (edited k c b t) ms) = map msg_key ms"
  by simp

lemma nothing_pending_edited [simp]: "nothing_pending (map (edited k c b t) ms) = nothing_pending ms"
  by (simp add: nothing_pending_def list_all_iff)

lemma sanitizeMessage_not_pending [simp]: "\<not> isPendingAssistantMessage (sanitizeMessage now t m)"
  by (simp add: sanitizeMessage_def Let_def isPendingAssistantMessage_def isAssistantMessagePending_def)

lemma sanitizeMessage_key [simp]: "msg_key (sanitizeMessage now t m) = msg_key m"
  by (simp add: sanitizeMessage_def Let_def)

text \<open>
  The three operations that ask for an answer: a new question, a regeneration and an edit
  that is submitted.  Each leaves a list of messages before the placeholder of the answer.
\<close>

inductive turn :: "fresh \<Rightarrow> fresh \<Rightarrow> jnum \<Rightarrow> Message list \<Rightarrow> Message list \<Rightarrow> bool"
  for user assistant now ms where
  ask: "turn user assistant now ms (appendUserMessagePair user assistant now ms text)"
| regenerate: "createRegeneratedMessages assistant now ms k = Some ms' \<Longrightarrow> turn user assistant now ms ms'"
| resubmit: "applyMessageEdit assistant now ms k text True = Some \<lparr>edit_messages = ms', shouldSend = True\<rparr> \<Longrightarrow>
    turn user assistant now ms ms'"

inductive_cases turnE: "turn user assistant now ms ms'"

lemma regenerated_shape:
  assumes "createRegeneratedMessages assistant now ms k = Some ms'"
  shows "\<exists>n. ms' = take n ms @ [createLoadingAssistantMessage (fst assistant) (snd assistant) now]"
  using assms by (auto simp: createRegeneratedMessages_def split: option.splits)

lemma resubmitted_shape:
  assumes "applyMessageEdit assistant now ms k text True = Some \<lparr>edit_messages = ms', shouldSend = True\<rparr>"
  shows "\<exists>n. ms' = take n (map (edited k text True now) ms) @
    [createLoadingAssistantMessage (fst assistant) (snd assistant) now]"
  using assms by (auto simp: applyMessageEdit_def Let_def split: option.splits if_splits)

lemma turn_shape:
  assumes "turn user assistant now ms ms'"
  obtains pre where "ms' = pre @ [createLoadingAssistantMessage (fst assistant) (snd assistant) now]"
    and "nothing_pending ms \<Longrightarrow> nothing_pending pre"
    and "distinct (map msg_key ms) \<Longrightarrow> fst user \<notin> set (map msg_key ms) \<Longrightarrow> distinct (map msg_key pre)"
    and "set (map msg_key pre) \<subseteq> insert (fst user) (set (map msg_key ms))"
  using assms
proof (cases rule: turn.cases)
  case (ask question)
  then show ?thesis
    by (intro that[of "ms @ [createUserMessage (fst user) (snd user) question now]"])
       (auto simp: appendUserMessagePair_def)
next
  case (regenerate k)
  from regenerated_shape[OF this] obtain n where
    "ms' = take n ms @ [createLoadingAssistantMessage (fst assistant) (snd assistant) now]" ..
  then show ?thesis
    by (rule that) (auto simp: take_map[symmetric] nothing_pending_take dest: in_set_takeD)
next
  case (resubmit k question)
  from resubmitted_shape[OF this] obtain n where
    "ms' = take n (map (edited k question True now) ms) @
       [createLoadingAssistantMessage (fst assistant) (snd assistant) now]" ..
  then show ?thesis
  proof (rule that)
    let ?pre = "take n (map (edited k question True now) ms)"
    have keys: "map msg_key ?pre = take n (map msg_key ms)" by (simp add: take_map)
    show "nothing_pending ?pre" if "nothing_pending ms"
      using that by (intro nothing_pending_take) simp
    show "distinct (map msg_key ?pre)" if "distinct (map msg_key ms)"
      unfolding keys using that by (rule distinct_take)
    show "set (map msg_key ?pre) \<subseteq> insert (fst user) (set (map msg_key ms))"
      unfolding keys by (auto dest: in_set_takeD)
  qed
qed

section \<open>Properties\<close>

text \<open>
  A turn of the conversation, a question, a regeneration or a resubmitted edit, on a
  conversation in which nothing is pending ends in one placeholder for the answer: it is the
  only pending message, it is not part of the request, and the keys stay distinct when the
  new ones are fresh.
\<close>

theorem turn_leaves_one_placeholder:
  assumes "turn user assistant now ms ms'" and "nothing_pending ms" and "distinct (map msg_key ms)"
    and "fst user \<notin> set (map msg_key ms)" and "fst assistant \<notin> insert (fst user) (set (map msg_key ms))"
  shows "only_last_pending ms' \<and> isPendingAssistantMessage (last ms') \<and> distinct (map msg_key ms') \<and>
    req_messages (buildChatCompletionPayload ms' config enabled) =
      req_messages (buildChatCompletionPayload (butlast ms') config enabled)"
  using assms(1)
proof (rule turn_shape)
  fix pre
  assume ms': "ms' = pre @ [createLoadingAssistantMessage (fst assistant) (snd assistant) now]"
    and "nothing_pending ms \<Longrightarrow> nothing_pending pre"
    and "distinct (map msg_key ms) \<Longrightarrow> fst user \<notin> set (map msg_key ms) \<Longrightarrow> distinct (map msg_key pre)"
    and keys: "set (map msg_key pre) \<subseteq> insert (fst user) (set (map msg_key ms))"
  then have "nothing_pending pre" and "distinct (map msg_key pre)" using assms(2-4) by blast+
  moreover have "fst assistant \<notin> set (map msg_key pre)" using keys assms(5) by blast
  ultimately show ?thesis
    using ms' by (simp add: only_last_pending_def buildChatCompletionPayload_def)
qed

definition sample_user :: fresh where "sample_user = (js ''u'', js ''v'')"
definition sample_assistant :: fresh where "sample_assistant = (js ''a'', js ''w'')"

theorem turn_leaves_one_placeholder_witness:
  "req_messages (buildChatCompletionPayload
     (appendUserMessagePair sample_user sample_assistant (jint 5) [] (js ''hi''))
     DEFAULT_CONFIG DEFAULT_PARAMETER_ENABLED) =
     [\<lparr>payload_role = RoleUser, payload_content = PlainContent (js ''hi'')\<rparr>] \<and>
   only_last_pending (appendUserMessagePair sample_user sample_assistant (jint 5) [] (js ''hi''))"
  using turn_leaves_one_placeholder[OF turn.ask[of sample_user sample_assistant "jint 5" "[]" "js ''hi''"],
      of DEFAULT_CONFIG DEFAULT_PARAMETER_ENABLED]
  by (simp add: sample_user_def sample_assistant_def appendUserMessagePair_def buildChatCompletionPayload_def)

text \<open>
  Reloading the page in the middle of an answer leaves no message stuck: when only the
  last message may be pending, as after every turn, the sanitised list has nothing pending,
  the same keys, and the same messages before the last.
\<close>

theorem reload_leaves_nothing_pending:
  assumes "only_last_pending ms" and "ms' = sanitizeMessagesOnLoad now t ms"
  shows "nothing_pending ms' \<and> map msg_key ms' = map msg_key ms \<and> butlast ms' = butlast ms"
proof (cases "last_index isPendingAssistantMessage ms")
  case None
  then have "ms' = ms" using assms(2) by (simp add: sanitizeMessagesOnLoad_def)
  moreover from None have "nothing_pending ms" by (simp add: nothing_pending_def last_index_None_iff)
  ultimately show ?thesis by simp
next
  case (Some i)
  from last_index_SomeD[OF this] have i: "i < length ms" "isPendingAssistantMessage (ms ! i)" by simp_all
  have "i = length ms - 1"
  proof (rule ccontr)
    assume "i \<noteq> length ms - 1"
    with i have "i < length (butlast ms)" and "butlast ms ! i = ms ! i" by (simp_all add: nth_butlast)
    then have "ms ! i \<in> set (butlast ms)" by (metis nth_mem)
    with assms(1) i show False by (auto simp: only_last_pending_def nothing_pending_def list_all_iff)
  qed
  then have "ms' = butlast ms @ [sanitizeMessage now t (last ms)]"
    using Some assms(2) i(1) by (cases ms rule: rev_cases) (simp_all add: sanitizeMessagesOnLoad_def)
  moreover have "ms = butlast ms @ [last ms]" using i(1) by (cases ms rule: rev_cases) simp_all
  then have "map msg_key ms = map msg_key (butlast ms) @ [msg_key (last ms)]"
    by (metis list.simps(8,9) map_append)
  ultimately show ?thesis using assms(1) by (simp add: only_last_pending_def)
qed

theorem reload_leaves_nothing_pending_witness:
  "nothing_pending (sanitizeMessagesOnLoad (\<lambda>_. jint 9) id [sample_loading]) \<and>
   map getMessageContent (sanitizeMessagesOnLoad (\<lambda>_. jint 9) id [sample_loading]) =
     [js ''Request error occurred: Generation was interrupted'']"
proof -
  have "nothing_pending (sanitizeMessagesOnLoad (\<lambda>_. jint 9) id [sample_loading])"
    using reload_leaves_nothing_pending[of "[sample_loading]"] by (simp add: only_last_pending_def)
  moreover have "\<not> hasMessageContent (finalizeMessage (\<lambda>_. jint 9) sample_loading None)"
    "reasoning_text (finalizeMessage (\<lambda>_. jint 9) sample_loading None) = []"
    "isPendingAssistantMessage sample_loading"
    by (simp_all add: hasMessageContent_def message_content reasoning_text_finalize sample_loading_def)
       (simp_all add: createLoadingAssistantMessage_def getMessageContent_def getCurrentVersion_def
          createMessageVersion_def reasoning_text_def str_or_def str_includes_def parseThinkTags_def tag_shape)
  ultimately show ?thesis
    by (simp add: sanitizeMessagesOnLoad_def sanitizeMessage_def Let_def message_content js_Cons js_Nil)
qed

end
