(* ===== verification/Playground_Stream.thy ===== *)
theory Playground_Stream
  imports JS_JSON Transition
begin

text \<open>
  The stream controller of the web playground (\<open>hooks/use-stream-request.ts\<close>) with the
  reading of stream events (\<open>lib/streaming/stream-utils.ts\<close>).

  Requests are numbered by their generation; the source of a request has its number.  The
  controller is a labelled transition system: \<open>send\<close> suspends until the headers are there,
  the listeners of a source run whenever the source has an event, also after it has been
  closed, and the user may stop or leave at any time.  Calls to the outside (callbacks,
  opening and closing of sources) are collected in a log; callbacks may throw but do not call back.
\<close>

section \<open>Reading of events\<close>

datatype StreamUpdateType = UpdateReasoning | UpdateContent

definition API_REQUEST_ERROR :: jstring where "API_REQUEST_ERROR = js ''Request error occurred''"
definition PARSE_ERROR :: jstring where "PARSE_ERROR = js ''Error parsing response data''"
definition STREAM_START_ERROR :: jstring where "STREAM_START_ERROR = js ''Error establishing connection''"
definition CONNECTION_CLOSED :: jstring where "CONNECTION_CLOSED = js ''Connection closed''"

record StreamErrorDetails =
  err_code :: jsval
  err_message :: jsval

definition parseStreamErrorDetails :: "jstring option \<Rightarrow> StreamErrorDetails" where
  "parseStreamErrorDetails data =
     (case data of
        None \<Rightarrow> \<lparr>err_code = JUndef, err_message = JStr API_REQUEST_ERROR\<rparr>
      | Some d \<Rightarrow>
          if d = [] then \<lparr>err_code = JUndef, err_message = JStr API_REQUEST_ERROR\<rparr>
          else (case JSON_parse d of
                  None \<Rightarrow> \<lparr>err_code = JUndef, err_message = JStr d\<rparr>
                | Some parsed \<Rightarrow>
                    let e = fld parsed ''error'' in
                    if \<not> truthy e then \<lparr>err_code = JUndef, err_message = JStr d\<rparr>
                    else \<lparr>err_code = or_else (fld e ''code'') JUndef,
                          err_message = or_else (fld e ''message'') (JStr d)\<rparr>))"

text \<open>\<open>v?.[0]\<close>\<close>

definition first_element :: "jsval \<Rightarrow> jsval" where
  "first_element v =
     (case v of
        JArr xs \<Rightarrow> (case xs of x # _ \<Rightarrow> x | [] \<Rightarrow> JUndef)
      | JObj _ \<Rightarrow> fld v ''0''
      | JStr (c # _) \<Rightarrow> JStr [c]
      | _ \<Rightarrow> JUndef)"

text \<open>\<open>None\<close> where the parser throws, or the value is \<open>null\<close> and the property read throws.\<close>

definition parseStreamMessageUpdates :: "jstring \<Rightarrow> (StreamUpdateType \<times> jsval) list option" where
  "parseStreamMessageUpdates data =
     (case JSON_parse data of
        None \<Rightarrow> None
      | Some chunk \<Rightarrow>
          if chunk = JNull then None
          else
            let delta = fld (first_element (fld chunk ''choices'')) ''delta'' in
            if \<not> truthy delta then Some []
            else Some
              ((if truthy (fld delta ''reasoning_content'')
                then [(UpdateReasoning, fld delta ''reasoning_content'')] else []) @
               (if truthy (fld delta ''content'') then [(UpdateContent, fld delta ''content'')] else [])))"

definition isStreamDoneMessage :: "jstring \<Rightarrow> bool" where
  "isStreamDoneMessage data \<longleftrightarrow> data = js ''[DONE]''"

definition isStreamClosedReadyState :: "int option \<Rightarrow> bool" where
  "isStreamClosedReadyState readyState \<longleftrightarrow> readyState = Some 2"

definition getStreamReadyStateError :: "int option \<Rightarrow> int option \<Rightarrow> jstring option" where
  "getStreamReadyStateError eventReadyState source_status =
     (case (eventReadyState, source_status) of
        (Some rs, Some stat) \<Rightarrow>
          if 2 \<le> rs \<and> stat \<noteq> 200 then Some (js ''HTTP '' @ show_int stat @ js '': '' @ CONNECTION_CLOSED)
          else None
      | _ \<Rightarrow> None)"

section \<open>The controller\<close>

datatype effect =
    OnUpdate nat StreamUpdateType jsval
  | OnComplete nat
  | OnError nat jsval jsval
  | SetStreaming bool
  | OpenSource nat
  | CloseSource nat

text \<open>Where a request is: waiting for headers, listening (with its \<open>completed\<close> flag), or returned.\<close>

datatype request = AwaitHeaders | Listening bool | Returned

record controller =
  source :: "nat option"
  generation :: nat
  requests :: "nat \<Rightarrow> request option"
  log :: "effect list"

definition emit :: "effect list \<Rightarrow> controller \<Rightarrow> controller" where
  "emit os s = s\<lparr>log := log s @ os\<rparr>"

definition set_request :: "nat \<Rightarrow> request \<Rightarrow> controller \<Rightarrow> controller" where
  "set_request g r s = s\<lparr>requests := (requests s)(g \<mapsto> r)\<rparr>"

definition close_effect :: "nat option \<Rightarrow> effect list" where
  "close_effect src = (case src of None \<Rightarrow> [] | Some g \<Rightarrow> [CloseSource g])"

definition closeActiveSource :: "nat \<Rightarrow> controller \<Rightarrow> controller" where
  "closeActiveSource target s =
     (let s = emit [CloseSource target] s in
      if source s = Some target then emit [SetStreaming False] (s\<lparr>source := None\<rparr>) else s)"

definition send :: "controller \<Rightarrow> controller" where
  "send s =
     (let g = generation s + 1
      in emit (close_effect (source s) @ [SetStreaming False])
           (set_request g AwaitHeaders (s\<lparr>generation := g, source := None\<rparr>)))"

definition isCurrent :: "nat \<Rightarrow> controller \<Rightarrow> bool" where
  "isCurrent g s \<longleftrightarrow> generation s = g \<and> source s = Some g"

definition is_completed :: "nat \<Rightarrow> controller \<Rightarrow> bool" where
  "is_completed g s \<longleftrightarrow> requests s g = Some (Listening True)"

definition handleError :: "nat \<Rightarrow> jsval \<Rightarrow> jsval \<Rightarrow> controller \<Rightarrow> controller" where
  "handleError g errorMessage errorCode s =
     (if \<not> isCurrent g s \<or> is_completed g s then s
      else closeActiveSource g (emit [OnError g errorMessage errorCode] (set_request g (Listening True) s)))"

definition headers_rejected :: "nat \<Rightarrow> jsval \<Rightarrow> controller \<Rightarrow> controller" where
  "headers_rejected g message s =
     (if generation s \<noteq> g then set_request g Returned s
      else emit [OnError g message JUndef] (set_request g Returned s))"

text \<open>The rest of \<open>send\<close>; \<open>starts\<close> is false when \<open>stream()\<close> throws.\<close>

definition headers_ready :: "nat \<Rightarrow> bool \<Rightarrow> controller \<Rightarrow> controller" where
  "headers_ready g starts s =
     (if generation s \<noteq> g then set_request g Returned s
      else
        let s' = emit [OpenSource g, SetStreaming True] (set_request g (Listening False) (s\<lparr>source := Some g\<rparr>))
        in if starts then s' else handleError g (JStr STREAM_START_ERROR) JUndef s')"

text \<open>
  The listener of messages.  The callback of an update may throw, since a chunk is only
  declared to be a text; \<open>throws\<close> is the index of the update whose callback does.
\<close>

definition on_message :: "nat \<Rightarrow> jstring option \<Rightarrow> nat option \<Rightarrow> controller \<Rightarrow> controller" where
  "on_message g data throws s =
     (if \<not> isCurrent g s \<or> is_completed g s then s
      else let d = nullish data [] in
        if isStreamDoneMessage d
        then emit [OnComplete g] (closeActiveSource g (set_request g (Listening True) s))
        else (case parseStreamMessageUpdates d of
                None \<Rightarrow> handleError g (JStr PARSE_ERROR) JUndef s
              | Some updates \<Rightarrow>
                  let called = emit (map (\<lambda>(ty, chunk). OnUpdate g ty chunk)
                    (case throws of Some k \<Rightarrow> take (Suc k) updates | None \<Rightarrow> updates)) s
                  in if \<exists>k. throws = Some k \<and> k < length updates
                     then handleError g (JStr PARSE_ERROR) JUndef called else called))"

definition on_error :: "nat \<Rightarrow> jstring option \<Rightarrow> int option \<Rightarrow> controller \<Rightarrow> controller" where
  "on_error g data readyState s =
     (if \<not> isCurrent g s \<or> is_completed g s then s
      else if isStreamClosedReadyState readyState then s
      else let d = parseStreamErrorDetails data in handleError g (err_message d) (err_code d) s)"

definition on_readystatechange :: "nat \<Rightarrow> int option \<Rightarrow> int option \<Rightarrow> controller \<Rightarrow> controller" where
  "on_readystatechange g readyState source_status s =
     (if \<not> isCurrent g s \<or> is_completed g s then s
      else (case getStreamReadyStateError readyState source_status of
              None \<Rightarrow> s
            | Some m \<Rightarrow> handleError g (JStr m) JUndef s))"

definition cancel :: "bool \<Rightarrow> controller \<Rightarrow> controller" where
  "cancel notify s =
     emit (close_effect (source s) @ (if notify then [SetStreaming False] else []))
       (s\<lparr>generation := generation s + 1, source := None\<rparr>)"

definition createStreamRequestController :: controller where
  "createStreamRequestController = \<lparr>source = None, generation = 0, requests = Map.empty, log = []\<rparr>"

datatype ctl_label =
    Send
  | HeadersRejected nat jsval
  | HeadersReady nat bool
  | SourceMessage nat "jstring option" "nat option"
  | SourceError nat "jstring option" "int option"
  | SourceReadyState nat "int option" "int option"
  | Stop
  | Dispose

inductive ctl_step :: "(controller, ctl_label) lts" where
  send: "ctl_step s Send (send s)"
| headers_rejected: "requests s g = Some AwaitHeaders \<Longrightarrow> ctl_step s (HeadersRejected g e) (headers_rejected g e s)"
| headers_ready: "requests s g = Some AwaitHeaders \<Longrightarrow> ctl_step s (HeadersReady g ok) (headers_ready g ok s)"
| message: "requests s g = Some (Listening c) \<Longrightarrow> ctl_step s (SourceMessage g d k) (on_message g d k s)"
| error: "requests s g = Some (Listening c) \<Longrightarrow> ctl_step s (SourceError g d rs) (on_error g d rs s)"
| ready_state: "requests s g = Some (Listening c) \<Longrightarrow> ctl_step s (SourceReadyState g rs stat) (on_readystatechange g rs stat s)"
| stop: "ctl_step s Stop (cancel True s)"
| dispose: "ctl_step s Dispose (cancel False s)"

inductive_cases ctl_stepE: "ctl_step s l t"

section \<open>Invariant\<close>

fun is_call :: "nat \<Rightarrow> effect \<Rightarrow> bool" where
  "is_call g (OnUpdate h _ _) = (h = g)"
| "is_call g (OnComplete h) = (h = g)"
| "is_call g (OnError h _ _) = (h = g)"
| "is_call g _ = False"

fun is_update :: "effect \<Rightarrow> bool" where
  "is_update (OnUpdate _ _ _) = True"
| "is_update _ = False"

text \<open>The callbacks of a request, in order, and the sources that are open.\<close>

definition calls :: "nat \<Rightarrow> effect list \<Rightarrow> effect list" where
  "calls g os = filter (is_call g) os"

definition open_sources :: "effect list \<Rightarrow> nat set" where
  "open_sources os = {g. OpenSource g \<in> set os \<and> CloseSource g \<notin> set os}"

fun calls_ok :: "request option \<Rightarrow> effect list \<Rightarrow> bool" where
  "calls_ok None cs = (cs = [])"
| "calls_ok (Some AwaitHeaders) cs = (cs = [])"
| "calls_ok (Some (Listening False)) cs = list_all is_update cs"
| "calls_ok (Some (Listening True)) cs = list_all is_update (butlast cs)"
| "calls_ok (Some Returned) cs = list_all is_update (butlast cs)"

definition ctl_inv :: "controller \<Rightarrow> bool" where
  "ctl_inv s \<longleftrightarrow>
     (\<forall>g > generation s. requests s g = None) \<and>
     (\<forall>g. source s = Some g \<longrightarrow> g = generation s \<and> requests s g = Some (Listening False)) \<and>
     (\<forall>g. calls_ok (requests s g) (calls g (log s))) \<and>
     open_sources (log s) \<subseteq> set_option (source s)"

named_theorems ctl_simps \<open>fields and callbacks after an operation of the controller\<close>

lemma emit_fields [ctl_simps]:
  "source (emit os s) = source s" "generation (emit os s) = generation s"
  "requests (emit os s) = requests s" "log (emit os s) = log s @ os"
  by (simp_all add: emit_def)

lemma set_request_fields [ctl_simps]:
  "source (set_request g r s) = source s" "generation (set_request g r s) = generation s"
  "requests (set_request g r s) = (requests s)(g \<mapsto> r)" "log (set_request g r s) = log s"
  by (simp_all add: set_request_def)

lemma calls_append [ctl_simps]: "calls g (xs @ ys) = calls g xs @ calls g ys"
  by (simp add: calls_def)

lemma calls_simps [ctl_simps]:
  "calls g [] = []"
  "calls g (OnUpdate h ty c # os) = (if h = g then [OnUpdate h ty c] else []) @ calls g os"
  "calls g (OnComplete h # os) = (if h = g then [OnComplete h] else []) @ calls g os"
  "calls g (OnError h m c # os) = (if h = g then [OnError h m c] else []) @ calls g os"
  "calls g (SetStreaming b # os) = calls g os"
  "calls g (OpenSource h # os) = calls g os"
  "calls g (CloseSource h # os) = calls g os"
  by (simp_all add: calls_def)

lemma calls_close [ctl_simps]: "calls g (close_effect src) = []"
  by (cases src) (simp_all add: close_effect_def calls_def)

lemma calls_updates [ctl_simps]:
  "calls g (map (\<lambda>(ty, c). OnUpdate h ty c) us) = (if h = g then map (\<lambda>(ty, c). OnUpdate h ty c) us else [])"
  by (induction us) (auto simp: ctl_simps)

lemma updates_are_updates [ctl_simps]: "list_all is_update (map (\<lambda>(ty, c). OnUpdate h ty c) us)"
  by (auto simp: list_all_iff)

lemma open_sources_append:
  "open_sources (os @ os') \<subseteq> (open_sources os - {g. CloseSource g \<in> set os'}) \<union> {g. OpenSource g \<in> set os'}"
  by (auto simp: open_sources_def)

lemma set_close [simp]: "CloseSource g \<in> set (close_effect src) \<longleftrightarrow> src = Some g" "OpenSource g \<notin> set (close_effect src)"
  by (cases src; auto simp: close_effect_def)+

lemma ctl_invI:
  assumes "\<And>g. generation s < g \<Longrightarrow> requests s g = None"
    and "\<And>g. source s = Some g \<Longrightarrow> g = generation s \<and> requests s g = Some (Listening False)"
    and "\<And>g. calls_ok (requests s g) (calls g (log s))"
    and "open_sources (log s) \<subseteq> set_option (source s)"
  shows "ctl_inv s"
  using assms by (simp add: ctl_inv_def)

lemma ctl_invD:
  assumes "ctl_inv s"
  shows "generation s < g \<Longrightarrow> requests s g = None"
    and "source s = Some g \<Longrightarrow> g = generation s \<and> requests s g = Some (Listening False)"
    and "calls_ok (requests s g) (calls g (log s))"
    and "open_sources (log s) \<subseteq> set_option (source s)"
  using assms by (auto simp: ctl_inv_def)

lemma calls_ok_butlast: "calls_ok r cs \<Longrightarrow> list_all is_update (butlast cs)"
  by (induction r cs rule: calls_ok.induct) (auto simp: list_all_iff dest: in_set_butlastD)

lemma inv_send: "ctl_inv s \<Longrightarrow> ctl_inv (send s)"
proof -
  assume inv: "ctl_inv s"
  have "calls (Suc (generation s)) (log s) = []"
    using ctl_invD(3)[OF inv, of "Suc (generation s)"] ctl_invD(1)[OF inv, of "Suc (generation s)"]
    by simp
  moreover have "open_sources (log s @ close_effect (source s) @ [SetStreaming False]) = {}"
    using ctl_invD(4)[OF inv] open_sources_append[of "log s" "close_effect (source s) @ [SetStreaming False]"] by auto
  ultimately show ?thesis
    using ctl_invD(1,3)[OF inv]
    by (intro ctl_invI) (auto simp: send_def Let_def ctl_simps)
qed

lemma inv_cancel: "ctl_inv s \<Longrightarrow> ctl_inv (cancel notify s)"
proof -
  assume inv: "ctl_inv s"
  have "open_sources (log s @ close_effect (source s) @ (if notify then [SetStreaming False] else [])) = {}"
    using ctl_invD(4)[OF inv]
      open_sources_append[of "log s" "close_effect (source s) @ (if notify then [SetStreaming False] else [])"] by auto
  then show ?thesis
    using ctl_invD(1,3)[OF inv]
    by (intro ctl_invI) (auto simp: cancel_def ctl_simps)
qed

text \<open>A terminal callback of the current request closes its source.\<close>

lemma inv_terminal:
  assumes "ctl_inv s" and "source s = Some g" and "calls g os = [c]" and "\<And>h. h \<noteq> g \<Longrightarrow> calls h os = []"
    and "CloseSource g \<in> set os" and "\<And>h. OpenSource h \<notin> set os"
  shows "ctl_inv (emit os (set_request g (Listening True) (s\<lparr>source := None\<rparr>)))"
proof (rule ctl_invI)
  show "open_sources (log (emit os (set_request g (Listening True) (s\<lparr>source := None\<rparr>)))) \<subseteq>
      set_option (source (emit os (set_request g (Listening True) (s\<lparr>source := None\<rparr>))))"
    using ctl_invD(4)[OF assms(1)] assms(2,5,6) open_sources_append[of "log s" os] by (auto simp: ctl_simps)
next
  fix h
  have "requests s g = Some (Listening False)" using ctl_invD(2)[OF assms(1,2)] by blast
  then have "list_all is_update (calls g (log s))" using ctl_invD(3)[OF assms(1), of g] by simp
  then show "calls_ok (requests (emit os (set_request g (Listening True) (s\<lparr>source := None\<rparr>))) h)
      (calls h (log (emit os (set_request g (Listening True) (s\<lparr>source := None\<rparr>)))))"
    using ctl_invD(3)[OF assms(1), of h] assms(3,4)
    by (cases "h = g") (simp_all add: ctl_simps)
qed (use ctl_invD[OF assms(1)] assms(2) in \<open>auto simp: ctl_simps\<close>)

lemma handleError_eq:
  assumes "isCurrent g s" and "\<not> is_completed g s"
  shows "handleError g m c s = emit [OnError g m c, CloseSource g, SetStreaming False]
    (set_request g (Listening True) (s\<lparr>source := None\<rparr>))"
  using assms by (simp add: handleError_def closeActiveSource_def isCurrent_def emit_def set_request_def Let_def)

lemma inv_handleError: "ctl_inv s \<Longrightarrow> ctl_inv (handleError g m c s)"
proof (cases "isCurrent g s \<and> \<not> is_completed g s")
  case True
  moreover assume "ctl_inv s"
  ultimately show ?thesis
    by (simp add: handleError_eq) (intro inv_terminal, simp_all add: isCurrent_def ctl_simps)
qed (auto simp: handleError_def)

lemma inv_updates:
  assumes "ctl_inv s" "isCurrent g s"
  shows "ctl_inv (emit (map (\<lambda>(ty, chunk). OnUpdate g ty chunk) us) s)"
proof -
  have "requests s g = Some (Listening False)" using assms ctl_invD(2) by (simp add: isCurrent_def)
  then have "calls_ok (requests s h) (calls h (log s) @ (if g = h then map (\<lambda>(ty, c). OnUpdate g ty c) us else []))" for h
    using ctl_invD(3)[OF assms(1), of h] by (cases "g = h") (auto simp: ctl_simps)
  moreover have "open_sources (log s @ map (\<lambda>(ty, chunk). OnUpdate g ty chunk) us) \<subseteq> set_option (source s)"
    using ctl_invD(4)[OF assms(1)] open_sources_append[of "log s" "map (\<lambda>(ty, chunk). OnUpdate g ty chunk) us"] by auto
  ultimately show ?thesis using ctl_invD(1,2)[OF assms(1)] by (intro ctl_invI) (auto simp: ctl_simps)
qed

lemma inv_on_message: "ctl_inv s \<Longrightarrow> ctl_inv (on_message g d k s)"
proof -
  assume inv: "ctl_inv s"
  let ?d = "nullish d []"
  consider "\<not> isCurrent g s \<or> is_completed g s" | "isCurrent g s" "isStreamDoneMessage ?d" "\<not> is_completed g s"
    | "isCurrent g s" "\<not> isStreamDoneMessage ?d" "\<not> is_completed g s"
    by blast
  then show ?thesis
  proof cases
    case 2
    then have "on_message g d k s = emit [CloseSource g, SetStreaming False, OnComplete g]
        (set_request g (Listening True) (s\<lparr>source := None\<rparr>))"
      by (simp add: on_message_def closeActiveSource_def isCurrent_def emit_def set_request_def Let_def)
    then show ?thesis using inv 2 by simp (intro inv_terminal, simp_all add: isCurrent_def ctl_simps)
  next
    case 3
    then show ?thesis using inv by (simp add: on_message_def Let_def inv_handleError inv_updates split: option.split)
  qed (use inv in \<open>simp add: on_message_def\<close>)
qed

lemma inv_headers_rejected:
  assumes "ctl_inv s" and "requests s g = Some AwaitHeaders"
  shows "ctl_inv (headers_rejected g e s)"
proof (rule ctl_invI)
  have "open_sources (log s @ [OnError g e JUndef]) \<subseteq> set_option (source s)"
    using ctl_invD(4)[OF assms(1)] open_sources_append[of "log s" "[OnError g e JUndef]"] by auto
  then show "open_sources (log (headers_rejected g e s)) \<subseteq> set_option (source (headers_rejected g e s))"
    using ctl_invD(4)[OF assms(1)] by (simp add: headers_rejected_def ctl_simps)
  show "calls_ok (requests (headers_rejected g e s) h) (calls h (log (headers_rejected g e s)))" for h
    using ctl_invD(3)[OF assms(1), of h] assms(2)
    by (cases "h = g") (auto simp: headers_rejected_def ctl_simps)
  show "requests (headers_rejected g e s) h = None" if "generation (headers_rejected g e s) < h" for h
    using that ctl_invD(1)[OF assms(1), of h] assms(2)
    by (cases "h = g") (auto simp: headers_rejected_def ctl_simps split: if_splits)
  show "h = generation (headers_rejected g e s) \<and> requests (headers_rejected g e s) h = Some (Listening False)"
    if "source (headers_rejected g e s) = Some h" for h
    using that ctl_invD(2)[OF assms(1), of h] assms(2)
    by (auto simp: headers_rejected_def ctl_simps split: if_splits)
qed

lemma inv_headers_ready:
  assumes "ctl_inv s" and "requests s g = Some AwaitHeaders"
  shows "ctl_inv (headers_ready g ok s)"
proof (cases "generation s = g")
  case True
  let ?s = "emit [OpenSource g, SetStreaming True] (set_request g (Listening False) (s\<lparr>source := Some g\<rparr>))"
  have none: "source s = None"
    using ctl_invD(2)[OF assms(1)] assms(2) True by (cases "source s") auto
  have "ctl_inv ?s"
  proof (rule ctl_invI)
    show "open_sources (log ?s) \<subseteq> set_option (source ?s)"
      using ctl_invD(4)[OF assms(1)] none open_sources_append[of "log s" "[OpenSource g, SetStreaming True]"]
      by (auto simp: ctl_simps)
    show "calls_ok (requests ?s h) (calls h (log ?s))" for h
      using ctl_invD(3)[OF assms(1), of h] assms(2) by (cases "h = g") (auto simp: ctl_simps)
  qed (use ctl_invD(1)[OF assms(1)] True in \<open>auto simp: ctl_simps\<close>)
  with True show ?thesis by (simp add: headers_ready_def Let_def inv_handleError)
next
  case False
  show ?thesis
  proof (rule ctl_invI)
    show "open_sources (log (headers_ready g ok s)) \<subseteq> set_option (source (headers_ready g ok s))"
      using ctl_invD(4)[OF assms(1)] False by (simp add: headers_ready_def ctl_simps)
    show "calls_ok (requests (headers_ready g ok s) h) (calls h (log (headers_ready g ok s)))" for h
      using ctl_invD(3)[OF assms(1), of h] assms(2) False
      by (cases "h = g") (auto simp: headers_ready_def ctl_simps)
    show "requests (headers_ready g ok s) h = None" if "generation (headers_ready g ok s) < h" for h
      using that ctl_invD(1)[OF assms(1), of h] assms(2) False
      by (cases "h = g") (auto simp: headers_ready_def ctl_simps)
  qed (use ctl_invD(2)[OF assms(1)] assms(2) False in \<open>auto simp: headers_ready_def ctl_simps\<close>)
qed

lemma inv_step: "ctl_inv s \<Longrightarrow> ctl_step s l t \<Longrightarrow> ctl_inv t"
  by (erule ctl_stepE)
     (simp_all add: inv_send inv_cancel inv_on_message inv_handleError inv_headers_ready
       inv_headers_rejected on_error_def on_readystatechange_def Let_def split: option.split)

interpretation stream_machine: lts_invariant "\<lambda>s. s = createStreamRequestController" ctl_step ctl_inv
proof
  show "s = createStreamRequestController \<Longrightarrow> ctl_inv s" for s
    by (simp add: ctl_inv_def createStreamRequestController_def calls_def open_sources_def)
qed (rule inv_step)

subsection \<open>Superseded requests\<close>

lemma calls_handleError:
  "h < generation s \<Longrightarrow> calls h (log (handleError g m c s)) = calls h (log s)"
  by (cases "isCurrent g s \<and> \<not> is_completed g s")
     (auto simp: handleError_eq ctl_simps isCurrent_def, auto simp: handleError_def isCurrent_def)

lemma gen_handleError [simp]: "generation (handleError g m c s) = generation s"
  by (simp add: handleError_def closeActiveSource_def Let_def ctl_simps)

lemma step_silent:
  assumes "ctl_step s l t" and "h < generation s"
  shows "calls h (log t) = calls h (log s) \<and> generation s \<le> generation t"
  using assms
  by (cases rule: ctl_step.cases)
     (auto simp: send_def cancel_def headers_rejected_def headers_ready_def on_message_def on_error_def
       on_readystatechange_def closeActiveSource_def isCurrent_def Let_def ctl_simps calls_handleError
       split: option.splits)

lemma run_silent:
  "lts_run ctl_step s ls t \<Longrightarrow> h < generation s \<Longrightarrow> calls h (log t) = calls h (log s)"
proof (induction rule: lts_run.induct)
  case (run_Cons s l s' ls s'')
  from step_silent[OF run_Cons(1,4)] run_Cons show ?case by simp
qed simp

section \<open>Properties\<close>

text \<open>
  C23.  In every reachable state the callbacks of each request are a sequence of updates
  with at most one completion or error, at the end; a request that waits for its headers
  has none.
\<close>

theorem stream_callbacks_ordered:
  assumes "lts_reachable (\<lambda>s. s = createStreamRequestController) ctl_step s"
  shows "list_all is_update (butlast (calls g (log s))) \<and>
    (requests s g = Some AwaitHeaders \<longrightarrow> calls g (log s) = [])"
proof -
  from assms have "ctl_inv s" by (rule stream_machine.reachable_inv)
  then have "calls_ok (requests s g) (calls g (log s))" by (rule ctl_invD)
  then show ?thesis using calls_ok_butlast by fastforce
qed

text \<open>A run of one request: headers, an increment, the end of the stream, and a late message.\<close>

definition sample_chunk :: jstring where
  "sample_chunk = js ''{'' @ [34] @ js ''choices'' @ [34] @ js '':[{'' @ [34] @ js ''delta'' @ [34] @ js '':{'' @
     [34] @ js ''content'' @ [34] @ js '':'' @ [34] @ js ''x'' @ [34] @ js ''}}]}''"

definition sample_controller :: controller where
  "sample_controller = on_message 1 (Some sample_chunk) None (on_message 1 (Some (js ''[DONE]'')) None
     (on_message 1 (Some sample_chunk) None (headers_ready 1 True (send createStreamRequestController))))"

lemma sample_updates: "parseStreamMessageUpdates sample_chunk = Some [(UpdateContent, JStr (js ''x''))]"
  by code_simp

lemma sample_not_done: "\<not> isStreamDoneMessage sample_chunk" "isStreamDoneMessage (js ''[DONE]'')"
  by (simp_all add: isStreamDoneMessage_def sample_chunk_def js_Cons js_Nil)

lemmas ctl_ops = headers_ready_def send_def createStreamRequestController_def Let_def emit_def
  set_request_def close_effect_def

lemma sample_listening:
  "requests (headers_ready 1 True (send createStreamRequestController)) 1 = Some (Listening False)"
  "isCurrent 1 (headers_ready 1 True (send createStreamRequestController))"
  "requests (send createStreamRequestController) 1 = Some AwaitHeaders"
  by (simp_all add: ctl_ops isCurrent_def)

lemma sample_log:
  "log sample_controller = [SetStreaming False, OpenSource 1, SetStreaming True,
     OnUpdate 1 UpdateContent (JStr (js ''x'')), CloseSource 1, SetStreaming False, OnComplete 1]"
  by (simp add: sample_controller_def on_message_def sample_updates sample_not_done ctl_ops isCurrent_def
      is_completed_def closeActiveSource_def)

lemma sample_reachable: "lts_reachable (\<lambda>s. s = createStreamRequestController) ctl_step sample_controller"
proof -
  let ?R = "lts_reachable (\<lambda>s. s = createStreamRequestController) ctl_step"
  let ?a = "headers_ready 1 True (send createStreamRequestController)"
  let ?b = "on_message 1 (Some sample_chunk) None ?a"
  let ?c = "on_message 1 (Some (js ''[DONE]'')) None ?b"
  have "?R (send createStreamRequestController)"
    by (blast intro: lts_reachable_step lts_reachable_init ctl_step.send)
  then have "?R ?a" by (rule lts_reachable_step) (rule ctl_step.headers_ready[OF sample_listening(3)])
  then have "?R ?b" by (rule lts_reachable_step) (rule ctl_step.message[OF sample_listening(1)])
  moreover have "requests ?b 1 = Some (Listening False)" "requests ?c 1 = Some (Listening True)"
    by (simp_all add: on_message_def sample_updates sample_not_done ctl_ops isCurrent_def
        is_completed_def closeActiveSource_def)
  ultimately show ?thesis
    unfolding sample_controller_def by (blast intro: lts_reachable_step ctl_step.message)
qed

theorem stream_callbacks_ordered_witness:
  "calls 1 (log sample_controller) = [OnUpdate 1 UpdateContent (JStr (js ''x'')), OnComplete 1] \<and>
   list_all is_update (butlast (calls 1 (log sample_controller)))"
  using stream_callbacks_ordered[OF sample_reachable, of 1] by (simp add: sample_log ctl_simps)

text \<open>
  C24.  Once a newer request has been sent, or the stream stopped or disposed of, a request
  calls back never again, whatever its headers and its source still deliver.
\<close>

theorem superseded_request_silent:
  assumes "ctl_step s l t" and "l \<in> {Send, Stop, Dispose}" and "lts_run ctl_step t ls u"
    and "g \<le> generation s"
  shows "calls g (log u) = calls g (log s)"
proof -
  have "generation t = Suc (generation s)" and c: "calls g (log t) = calls g (log s)"
    using assms(1,2) by (auto elim!: ctl_stepE simp: send_def cancel_def Let_def ctl_simps)
  with assms(4) have "g < generation t" by simp
  from run_silent[OF assms(3) this] c show ?thesis by simp
qed

theorem superseded_request_silent_witness:
  "calls 1 (log (on_message 1 (Some sample_chunk) None (cancel True
     (headers_ready 1 True (send createStreamRequestController))))) = []"
proof -
  let ?s = "headers_ready 1 True (send createStreamRequestController)"
  have "requests (cancel True ?s) 1 = Some (Listening False)"
    using sample_listening(1) by (simp add: cancel_def ctl_simps)
  then have "lts_run ctl_step (cancel True ?s) [SourceMessage 1 (Some sample_chunk) None]
      (on_message 1 (Some sample_chunk) None (cancel True ?s))"
    by (blast intro: run_Cons run_Nil ctl_step.message)
  from superseded_request_silent[OF ctl_step.stop _ this, of 1]
  have "calls 1 (log (on_message 1 (Some sample_chunk) None (cancel True ?s))) = calls 1 (log ?s)"
    by (simp add: ctl_ops)
  then show ?thesis by (simp add: ctl_ops ctl_simps)
qed

text \<open>
  At most one source is open, the current one: every source that was opened and is not
  the source of the current request has been closed.
\<close>

theorem one_source_open:
  assumes "lts_reachable (\<lambda>s. s = createStreamRequestController) ctl_step s"
  shows "open_sources (log s) \<subseteq> set_option (source s) \<and> set_option (source s) \<subseteq> {generation s}"
  using stream_machine.reachable_inv[OF assms] by (auto simp: ctl_inv_def)

theorem one_source_open_witness: "open_sources (log sample_controller) = {}"
proof -
  have "source sample_controller = None"
    by (simp add: sample_controller_def on_message_def sample_updates sample_not_done ctl_ops isCurrent_def
      is_completed_def closeActiveSource_def)
  then show ?thesis using one_source_open[OF sample_reachable] by simp
qed

end
