(* ===== verification/Playground_Chat.thy ===== *)
theory Playground_Chat
  imports Playground_Conversation Playground_Stream
begin

text \<open>
  The chat handler of the web playground (\<open>hooks/use-chat-handler.ts\<close>).  Chunks of a
  stream are buffered and flushed by a timer; every change of the messages is a functional
  state update that React queues and runs later, in order, when it renders (\<open>commit\<close>).
  An update is a value here, and running it reads the generation that is current at that
  moment, as the closures in the code do.  The stream controller of \<open>Playground_Stream\<close> is
  part of the state; its callbacks are steps of their own, which may come at any time.
\<close>

section \<open>State\<close>

datatype updater =
    UFlush nat jstring jstring
  | UComplete nat
  | UError nat jstring "jstring option" jstring
  | UResponse nat ChatCompletionResponse
  | UStop nat

record PendingStreamChunks =
  pend_generation :: nat
  pend_content :: jstring
  pend_reasoning :: jstring

record chat =
  chat_messages :: "Message list"
  queue :: "updater list"
  requestGeneration :: nat
  pendingStreamChunks :: PendingStreamChunks
  streamFlushTimer :: "nat option"
  isRequesting :: bool
  abortController :: "nat option"
  aborted :: "nat set"
  toasts :: "jstring list"
  stream :: controller

definition onMessageUpdate :: "updater \<Rightarrow> chat \<Rightarrow> chat" where
  "onMessageUpdate u s = s\<lparr>queue := queue s @ [u]\<rparr>"

definition apply_if :: "clock \<Rightarrow> StreamChunkType \<Rightarrow> jstring \<Rightarrow> Message \<Rightarrow> Message" where
  "apply_if now type chunk message = (if chunk \<noteq> [] then applyStreamingChunk now message type chunk else message)"

text \<open>The body of each updater; \<open>current\<close> is \<open>requestGenerationRef.current\<close> when it runs.\<close>

fun run_updater :: "clock \<Rightarrow> nat \<Rightarrow> updater \<Rightarrow> Message list \<Rightarrow> Message list" where
  "run_updater now current (UFlush g reason txt) prev =
     (if g \<noteq> current then prev
      else updateLastAssistantMessage
        (\<lambda>m. apply_if (\<lambda>i. now (i + 2)) ChunkContent txt (apply_if now ChunkReasoning reason m)) prev)"
| "run_updater now current (UComplete g) prev =
     (if g \<noteq> current then prev
      else updateLastAssistantMessage
        (\<lambda>m. if isAssistantMessageFinal m then m else completeAssistantMessage now m) prev)"
| "run_updater now current (UError g displayError code title) prev =
     (if g \<noteq> current then prev
      else updateAssistantMessageWithError now displayError code title prev)"
| "run_updater now current (UResponse g response) prev =
     (if current \<noteq> g then prev
      else updateLastAssistantMessage (\<lambda>m. nullish (applyChatCompletionResponse now m response) m) prev)"
| "run_updater now current (UStop g) prev =
     (if current \<noteq> g then prev
      else updateLastAssistantMessage
        (\<lambda>m. if isAssistantMessagePending m then completeAssistantMessage now m else m) prev)"

fun run_queue :: "(nat \<Rightarrow> clock) \<Rightarrow> nat \<Rightarrow> updater list \<Rightarrow> Message list \<Rightarrow> Message list" where
  "run_queue clk current [] prev = prev"
| "run_queue clk current (u # us) prev =
     run_queue (\<lambda>i. clk (Suc i)) current us (run_updater (clk 0) current u prev)"

definition commit :: "(nat \<Rightarrow> clock) \<Rightarrow> chat \<Rightarrow> chat" where
  "commit clk s = s\<lparr>chat_messages := run_queue clk (requestGeneration s) (queue s) (chat_messages s), queue := []\<rparr>"

section \<open>Buffering\<close>

definition mergePendingStreamChunk :: "jstring \<Rightarrow> jstring \<Rightarrow> jstring" where
  "mergePendingStreamChunk currentChunk nextChunk =
     (if currentChunk = [] \<or> \<not> starts_with currentChunk nextChunk then currentChunk @ nextChunk
      else nextChunk)"

definition no_chunks :: "nat \<Rightarrow> PendingStreamChunks" where
  "no_chunks g = \<lparr>pend_generation = g, pend_content = [], pend_reasoning = []\<rparr>"

definition discardPendingStreamUpdates :: "nat \<Rightarrow> chat \<Rightarrow> chat" where
  "discardPendingStreamUpdates g s = s\<lparr>streamFlushTimer := None, pendingStreamChunks := no_chunks g\<rparr>"

definition flushStreamUpdates :: "nat \<Rightarrow> chat \<Rightarrow> chat" where
  "flushStreamUpdates g s =
     (if g \<noteq> requestGeneration s then s
      else
        let s = s\<lparr>streamFlushTimer := None\<rparr>; p = pendingStreamChunks s in
        if pend_generation p \<noteq> g then s
        else if pend_reasoning p = [] \<and> pend_content p = [] then s
        else onMessageUpdate (UFlush g (pend_reasoning p) (pend_content p))
               (s\<lparr>pendingStreamChunks := no_chunks g\<rparr>))"

definition scheduleStreamFlush :: "nat \<Rightarrow> chat \<Rightarrow> chat" where
  "scheduleStreamFlush g s =
     (if g \<noteq> requestGeneration s then s
      else if streamFlushTimer s \<noteq> None then s
      else s\<lparr>streamFlushTimer := Some g\<rparr>)"

definition handleStreamUpdate :: "nat \<Rightarrow> StreamChunkType \<Rightarrow> jstring \<Rightarrow> chat \<Rightarrow> chat" where
  "handleStreamUpdate g type chunk s =
     (if g \<noteq> requestGeneration s then s
      else let p = pendingStreamChunks s in
        if pend_generation p \<noteq> g then s
        else scheduleStreamFlush g (s\<lparr>pendingStreamChunks :=
          (case type of
             ChunkReasoning \<Rightarrow> p\<lparr>pend_reasoning := mergePendingStreamChunk (pend_reasoning p) chunk\<rparr>
           | ChunkContent \<Rightarrow> p\<lparr>pend_content := mergePendingStreamChunk (pend_content p) chunk\<rparr>)\<rparr>))"

section \<open>End of a request\<close>

definition handleStreamComplete :: "nat \<Rightarrow> chat \<Rightarrow> chat" where
  "handleStreamComplete g s =
     (if g \<noteq> requestGeneration s then s
      else onMessageUpdate (UComplete g) ((flushStreamUpdates g s)\<lparr>isRequesting := False\<rparr>))"

definition KNOWN_ERROR_MESSAGES :: "jstring list" where
  "KNOWN_ERROR_MESSAGES = [js ''Request error occurred'',
     js ''Network connection failed or server not responding'', js ''Error parsing response data'',
     js ''Error establishing connection'', js ''Connection closed'', js ''Generation was interrupted'']"

definition getDisplayError :: "(jstring \<Rightarrow> jstring) \<Rightarrow> jstring \<Rightarrow> jstring" where
  "getDisplayError t error =
     (let closed = js ''Connection closed'' in
      if error \<in> set KNOWN_ERROR_MESSAGES then t error
      else if ends_with (js '': '' @ closed) error
           then take (length error - length closed) error @ t closed
           else error)"

definition handleStreamError :: "(jstring \<Rightarrow> jstring) \<Rightarrow> nat \<Rightarrow> jstring \<Rightarrow> jstring option \<Rightarrow> chat \<Rightarrow> chat" where
  "handleStreamError t g error code s =
     (if g \<noteq> requestGeneration s then s
      else
        let s' = (flushStreamUpdates g s)\<lparr>isRequesting := False\<rparr>;
            displayError = getDisplayError t error
        in onMessageUpdate (UError g displayError code (t (js ''Request error occurred'')))
             (s'\<lparr>toasts := toasts s' @ [displayError]\<rparr>))"

section \<open>Requests\<close>

definition abort :: "chat \<Rightarrow> chat" where
  "abort s = s\<lparr>aborted := aborted s \<union> set_option (abortController s), abortController := None\<rparr>"

definition stopStream :: "chat \<Rightarrow> chat" where
  "stopStream s = s\<lparr>stream := cancel True (stream s)\<rparr>"

text \<open>The payload of the request is \<open>buildChatCompletionPayload\<close> of the messages given.\<close>

definition sendStreamingChat :: "chat \<Rightarrow> chat" where
  "sendStreamingChat s =
     (let g = requestGeneration s + 1
      in (discardPendingStreamUpdates g (abort (s\<lparr>requestGeneration := g\<rparr>)))
           \<lparr>isRequesting := True, stream := send (stream s)\<rparr>)"

definition sendNonStreamingChat :: "chat \<Rightarrow> chat" where
  "sendNonStreamingChat s =
     (let g = requestGeneration s + 1
      in (abort (discardPendingStreamUpdates g (stopStream (s\<lparr>requestGeneration := g\<rparr>))))
           \<lparr>abortController := Some g, isRequesting := True\<rparr>)"

text \<open>
  What the code reads of a rejected request, by the type it declares for it: its message,
  and code and message of the response body.
\<close>

record RequestErrorLike =
  error_message :: "jstring option"
  response_code :: "jstring option"
  response_message :: "jstring option"

record RequestErrorDetails =
  detail_code :: "jstring option"
  detail_message :: jstring

definition parseRequestErrorDetails :: "RequestErrorLike \<Rightarrow> RequestErrorDetails" where
  "parseRequestErrorDetails error =
     \<lparr>detail_code = (case response_code error of Some c \<Rightarrow> if c = [] then None else Some c | None \<Rightarrow> None),
      detail_message = str_or (nullish (response_message error) [])
        (str_or (nullish (error_message error) []) (js ''Request error occurred''))\<rparr>"

definition nonStreaming_finally :: "nat \<Rightarrow> chat \<Rightarrow> chat" where
  "nonStreaming_finally g s =
     (if requestGeneration s = g then s\<lparr>abortController := None, isRequesting := False\<rparr> else s)"

definition nonStreaming_response :: "(jstring \<Rightarrow> jstring) \<Rightarrow> nat \<Rightarrow> ChatCompletionResponse \<Rightarrow> chat \<Rightarrow> chat" where
  "nonStreaming_response t g response s = nonStreaming_finally g
     (if g \<in> aborted s \<or> requestGeneration s \<noteq> g then s
      else if \<not> hasChatCompletionChoice response
           then handleStreamError t g (js ''Request error occurred'') None s
           else onMessageUpdate (UResponse g response) s)"

definition nonStreaming_failed :: "(jstring \<Rightarrow> jstring) \<Rightarrow> nat \<Rightarrow> RequestErrorLike \<Rightarrow> chat \<Rightarrow> chat" where
  "nonStreaming_failed t g error s = nonStreaming_finally g
     (if g \<in> aborted s \<or> requestGeneration s \<noteq> g then s
      else let d = parseRequestErrorDetails error
           in handleStreamError t g (detail_message d) (detail_code d) s)"

definition stopGeneration :: "chat \<Rightarrow> chat" where
  "stopGeneration s =
     (let stopped = requestGeneration s;
          idle = stopped + 1;
          s1 = (flushStreamUpdates stopped s)\<lparr>requestGeneration := idle\<rparr>
      in onMessageUpdate (UStop idle) ((abort (stopStream (discardPendingStreamUpdates idle s1)))\<lparr>isRequesting := False\<rparr>))"

text \<open>Both cleanups, that of the handler and that of the stream request.\<close>

definition unmount :: "chat \<Rightarrow> chat" where
  "unmount s = abort (s\<lparr>requestGeneration := requestGeneration s + 1, streamFlushTimer := None,
     stream := cancel False (stream s)\<rparr>)"

text \<open>What the hook returns; \<open>isStreaming\<close> is the last value that was set.\<close>

fun isStreaming :: "effect list \<Rightarrow> bool" where
  "isStreaming [] = False"
| "isStreaming (SetStreaming b # os) = (if \<exists>c. SetStreaming c \<in> set os then isStreaming os else b)"
| "isStreaming (_ # os) = isStreaming os"

definition isGenerating :: "chat \<Rightarrow> bool" where
  "isGenerating s \<longleftrightarrow> isStreaming (log (stream s)) \<or> isRequesting s"

section \<open>The handler as a transition system\<close>

datatype chat_label =
    Streaming
  | NonStreaming
  | Update nat StreamChunkType jstring
  | Timer
  | Complete nat
  | Failed nat jstring "jstring option"
  | Response nat ChatCompletionResponse
  | Rejected nat RequestErrorLike
  | StopPressed
  | Unmount
  | Commit "nat \<Rightarrow> clock"
  | Source ctl_label

inductive chat_step :: "(jstring \<Rightarrow> jstring) \<Rightarrow> (chat, chat_label) lts" for t where
  "chat_step t s Streaming (sendStreamingChat s)"
| "chat_step t s NonStreaming (sendNonStreamingChat s)"
| "chat_step t s (Update g ty c) (handleStreamUpdate g ty c s)"
| "streamFlushTimer s = Some g \<Longrightarrow> chat_step t s Timer (flushStreamUpdates g s)"
| "chat_step t s (Complete g) (handleStreamComplete g s)"
| "chat_step t s (Failed g e c) (handleStreamError t g e c s)"
| "chat_step t s (Response g r) (nonStreaming_response t g r s)"
| "chat_step t s (Rejected g e) (nonStreaming_failed t g e s)"
| "chat_step t s StopPressed (stopGeneration s)"
| "chat_step t s Unmount (unmount s)"
| "chat_step t s (Commit clk) (commit clk s)"
| "ctl_step (stream s) l c \<Longrightarrow> l \<notin> {Send, Stop, Dispose} \<Longrightarrow> chat_step t s (Source l) (s\<lparr>stream := c\<rparr>)"

inductive_cases chat_stepE: "chat_step t s l s'"

definition initial_chat :: "chat \<Rightarrow> bool" where
  "initial_chat s \<longleftrightarrow> queue s = [] \<and> requestGeneration s = 0 \<and> pendingStreamChunks s = no_chunks 0 \<and>
     streamFlushTimer s = None \<and> \<not> isRequesting s \<and> abortController s = None \<and> aborted s = {} \<and> toasts s = [] \<and>
     stream s = createStreamRequestController"

definition buffered :: "chat \<Rightarrow> bool" where
  "buffered s \<longleftrightarrow> pend_reasoning (pendingStreamChunks s) \<noteq> [] \<or> pend_content (pendingStreamChunks s) \<noteq> []"

text \<open>
  The timer belongs to the current generation; buffered text of the current generation has
  a timer; a generation is never behind the buffer.
\<close>

definition chat_inv :: "chat \<Rightarrow> bool" where
  "chat_inv s \<longleftrightarrow>
     pred_option (\<lambda>g. g = requestGeneration s) (streamFlushTimer s) \<and>
     pend_generation (pendingStreamChunks s) \<le> requestGeneration s \<and>
     (pend_generation (pendingStreamChunks s) = requestGeneration s \<longrightarrow> buffered s \<longrightarrow> streamFlushTimer s \<noteq> None)"

lemma no_chunks_simps [simp]:
  "pend_generation (no_chunks g) = g" "pend_content (no_chunks g) = []" "pend_reasoning (no_chunks g) = []"
  by (simp_all add: no_chunks_def)

lemma inv_flush: "chat_inv s \<Longrightarrow> chat_inv (flushStreamUpdates g s)"
  by (auto simp: chat_inv_def flushStreamUpdates_def onMessageUpdate_def buffered_def Let_def)

lemma inv_frame:
  "chat_inv (s\<lparr>isRequesting := b\<rparr>) = chat_inv s" "chat_inv (s\<lparr>toasts := ts\<rparr>) = chat_inv s"
  "chat_inv (s\<lparr>abortController := a\<rparr>) = chat_inv s" "chat_inv (onMessageUpdate u s) = chat_inv s"
  "chat_inv (commit clk s) = chat_inv s" "chat_inv (abort s) = chat_inv s"
  "chat_inv (s\<lparr>stream := c\<rparr>) = chat_inv s" "chat_inv (stopStream s) = chat_inv s"
  by (simp_all add: chat_inv_def buffered_def onMessageUpdate_def commit_def abort_def stopStream_def)

lemma inv_discard: "requestGeneration s = g \<Longrightarrow> chat_inv (discardPendingStreamUpdates g s)"
  by (simp add: chat_inv_def buffered_def discardPendingStreamUpdates_def)

lemma gen_fields [simp]:
  "requestGeneration (abort s) = requestGeneration s" "requestGeneration (flushStreamUpdates g s) = requestGeneration s"
  "requestGeneration (onMessageUpdate u s) = requestGeneration s" "requestGeneration (stopStream s) = requestGeneration s"
  "requestGeneration (discardPendingStreamUpdates g s) = requestGeneration s"
  by (simp_all add: abort_def flushStreamUpdates_def onMessageUpdate_def stopStream_def discardPendingStreamUpdates_def Let_def)

lemma inv_update: "chat_inv s \<Longrightarrow> chat_inv (handleStreamUpdate g ty c s)"
  by (auto simp: chat_inv_def buffered_def handleStreamUpdate_def scheduleStreamFlush_def Let_def
      split: StreamChunkType.splits)

lemma inv_error: "chat_inv s \<Longrightarrow> chat_inv (handleStreamError t g e c s)"
  by (simp add: handleStreamError_def Let_def inv_frame inv_flush)

lemma inv_chat_step: "chat_inv s \<Longrightarrow> chat_step t s l s' \<Longrightarrow> chat_inv s'"
proof (erule chat_stepE)
  assume "chat_inv s" and "s' = unmount s"
  then show "chat_inv s'" by (simp add: unmount_def inv_frame) (auto simp: chat_inv_def)
qed (simp_all add: sendStreamingChat_def sendNonStreamingChat_def inv_update inv_flush handleStreamComplete_def
     inv_error nonStreaming_response_def nonStreaming_failed_def nonStreaming_finally_def stopGeneration_def
     inv_frame inv_discard Let_def)

interpretation chat_machine: lts_invariant initial_chat "chat_step t" chat_inv for t
proof
  show "initial_chat s \<Longrightarrow> chat_inv s" for s
    by (simp add: initial_chat_def chat_inv_def buffered_def)
qed (rule inv_chat_step)

section \<open>Delivery of a stream\<close>





















lemma run_queue_append:
  "run_queue clk g (us @ vs) ms = run_queue (\<lambda>i. clk (i + length us)) g vs (run_queue clk g us ms)"
  by (induction us arbitrary: clk ms) simp_all


section \<open>Properties\<close>

text \<open>
  Buffered text is never stranded: in every reachable state, text that is buffered for
  the current request has a timer of that request running, and when it fires the whole
  buffer becomes one queued update.
\<close>

theorem buffer_has_timer:
  assumes "lts_reachable initial_chat (chat_step t) s" and "buffered s"
    and "pend_generation (pendingStreamChunks s) = requestGeneration s"
  shows "streamFlushTimer s = Some (requestGeneration s) \<and>
    \<not> buffered (flushStreamUpdates (requestGeneration s) s) \<and>
    queue (flushStreamUpdates (requestGeneration s) s) = queue s @
      [UFlush (requestGeneration s) (pend_reasoning (pendingStreamChunks s)) (pend_content (pendingStreamChunks s))]"
proof -
  from assms(1) have "chat_inv s" by (rule chat_machine.reachable_inv)
  with assms(2,3) have "streamFlushTimer s = Some (requestGeneration s)"
    by (cases "streamFlushTimer s") (auto simp: chat_inv_def)
  with assms(2,3) show ?thesis
    by (auto simp: flushStreamUpdates_def onMessageUpdate_def buffered_def Let_def)
qed

definition sample_chat :: chat where
  "sample_chat = \<lparr>chat_messages = [sample_loading], queue = [], requestGeneration = 0,
     pendingStreamChunks = no_chunks 0, streamFlushTimer = None, isRequesting = False,
     abortController = None, aborted = {}, toasts = [], stream = createStreamRequestController\<rparr>"

definition sample_buffered :: chat where
  "sample_buffered = handleStreamUpdate 1 ChunkContent (js ''hi'') (sendStreamingChat sample_chat)"

lemmas chat_ops = sendStreamingChat_def discardPendingStreamUpdates_def abort_def handleStreamUpdate_def
  scheduleStreamFlush_def mergePendingStreamChunk_def Let_def sample_chat_def

lemma sample_buffered_reachable: "lts_reachable initial_chat (chat_step id) sample_buffered"
proof -
  have "lts_reachable initial_chat (chat_step id) sample_chat"
    by (rule lts_reachable_init) (simp add: initial_chat_def sample_chat_def)
  then show ?thesis unfolding sample_buffered_def by (blast intro: lts_reachable_step chat_step.intros)
qed

theorem buffer_has_timer_witness: "streamFlushTimer sample_buffered = Some 1 \<and> buffered sample_buffered"
proof -
  have "buffered sample_buffered" "requestGeneration sample_buffered = 1"
    "pend_generation (pendingStreamChunks sample_buffered) = 1"
    by (simp_all add: buffered_def sample_buffered_def chat_ops)
  then show ?thesis using buffer_has_timer [OF sample_buffered_reachable] by simp
qed




lemma butlast_updateLast [simp]: "butlast (updateLastAssistantMessage f ms) = butlast ms"
  by (cases ms rule: rev_cases) simp_all

lemma butlast_run_updater [simp]: "butlast (run_updater now g u ms) = butlast ms"
  by (cases u) (simp_all add: updateAssistantMessageWithError_def)

lemma butlast_run_queue [simp]: "butlast (run_queue clk g us ms) = butlast ms"
  by (induction us arbitrary: clk ms) simp_all

lemma queue_stop: "\<exists>us. queue (stopGeneration s) = us @ [UStop (requestGeneration (stopGeneration s))]"
  by (simp add: stopGeneration_def onMessageUpdate_def discardPendingStreamUpdates_def Let_def)

lemma run_stop:
  assumes "only_last_pending ms"
  shows "nothing_pending (run_updater now g (UStop g) ms)"
  using assms
  by (cases ms rule: rev_cases)
     (auto simp: only_last_pending_def isPendingAssistantMessage_def, auto simp: isAssistantMessagePending_def)

lemma stream_fields [simp]:
  "stream (abort s) = stream s" "stream (flushStreamUpdates g s) = stream s" "stream (onMessageUpdate u s) = stream s"
  "stream (discardPendingStreamUpdates g s) = stream s" "stream (commit clk s) = stream s"
  "stream (handleStreamUpdate g ty c s) = stream s" "stream (handleStreamComplete g s) = stream s"
  "stream (handleStreamError t g e code s) = stream s" "stream (nonStreaming_response t g r s) = stream s"
  "stream (nonStreaming_failed t g err s) = stream s" "stream (stopStream s) = cancel True (stream s)"
  by (simp_all add: abort_def flushStreamUpdates_def onMessageUpdate_def discardPendingStreamUpdates_def commit_def
      handleStreamUpdate_def scheduleStreamFlush_def handleStreamComplete_def handleStreamError_def nonStreaming_response_def
      nonStreaming_failed_def nonStreaming_finally_def stopStream_def Let_def split: StreamChunkType.split)

lemma stream_stop: "stream (stopGeneration s) = cancel True (stream s)"
  by (simp add: stopGeneration_def Let_def)

interpretation chat_stream: lts_invariant initial_chat "chat_step t" "\<lambda>s. ctl_inv (stream s)" for t
proof
  show "initial_chat s \<Longrightarrow> ctl_inv (stream s)" for s
    using stream_machine.reachable_inv [OF lts_reachable_init] by (simp add: initial_chat_def)
  show "ctl_inv (stream s) \<Longrightarrow> chat_step t s l s' \<Longrightarrow> ctl_inv (stream s')" for s l s'
    by (erule chat_stepE)
       (auto simp: sendStreamingChat_def sendNonStreamingChat_def unmount_def stream_stop inv_send inv_cancel Let_def intro: inv_step)
qed

lemma isStreaming_append: "isStreaming (os @ [SetStreaming b]) = b"
proof (induction os)
  case (Cons e os)
  then show ?case by (cases e) auto
qed simp

lemma open_sources_cancel: "ctl_inv c \<Longrightarrow> open_sources (log (cancel True c)) = {}"
  using ctl_invD(4) [OF inv_cancel [of c True]] by (auto simp: cancel_def ctl_simps)

text \<open>
  C22.  Stopping a generation, in a reachable state in which only the last message can be pending:
  whatever updates are still queued, once they have run no message is pending, the hook
  reports that nothing is generated, the request without a stream has been told to abort,
  and the stream is closed; whatever its headers and its source still deliver, no request
  of it calls back again.
\<close>

theorem stop_leaves_nothing_pending:
  assumes "lts_reachable initial_chat (chat_step t) s" and "only_last_pending (chat_messages s)"
    and "s' = commit clk (stopGeneration s)"
  shows "nothing_pending (chat_messages s') \<and> \<not> isGenerating s' \<and>
    set_option (abortController s) \<subseteq> aborted s' \<and> source (stream s') = None \<and> open_sources (log (stream s')) = {} \<and>
    (\<forall>ls u g. lts_run ctl_step (stream s') ls u \<and> g \<le> generation (stream s) \<longrightarrow> calls g (log u) = calls g (log (stream s)))"
proof (intro conjI allI impI)
  let ?g = "requestGeneration (stopGeneration s)"
  obtain us where us: "queue (stopGeneration s) = us @ [UStop ?g]" using queue_stop by blast
  have msgs: "chat_messages (stopGeneration s) = chat_messages s"
    by (simp add: stopGeneration_def onMessageUpdate_def discardPendingStreamUpdates_def abort_def stopStream_def
        flushStreamUpdates_def Let_def)
  have "only_last_pending (run_queue clk ?g us (chat_messages s))"
    using assms(2) by (simp add: only_last_pending_def)
  then show "nothing_pending (chat_messages s')"
    by (simp add: assms(3) commit_def us msgs run_queue_append run_stop del: run_updater.simps)
  have st: "stream s' = cancel True (stream s)" by (simp add: assms(3) stream_stop)
  have "isStreaming (log (cancel True (stream s))) = False"
    unfolding cancel_def by (simp add: ctl_simps isStreaming_append flip: append_assoc)
  then show "\<not> isGenerating s'"
    by (simp add: isGenerating_def st) (simp add: assms(3) commit_def stopGeneration_def onMessageUpdate_def Let_def)
  show "set_option (abortController s) \<subseteq> aborted s'"
    by (auto simp: assms(3) commit_def stopGeneration_def onMessageUpdate_def abort_def stopStream_def discardPendingStreamUpdates_def
        flushStreamUpdates_def Let_def)
  show "source (stream s') = None" by (simp add: st cancel_def ctl_simps)
  show "open_sources (log (stream s')) = {}" unfolding st by (intro open_sources_cancel chat_stream.reachable_inv [OF assms(1)])
  fix ls u g assume "lts_run ctl_step (stream s') ls u \<and> g \<le> generation (stream s)"
  then have "calls g (log u) = calls g (log (cancel True (stream s)))"
    unfolding st by (intro run_silent [of "cancel True (stream s)" ls u g]) (simp_all add: cancel_def ctl_simps)
  then show "calls g (log u) = calls g (log (stream s))" by (simp add: cancel_def ctl_simps)
qed

theorem stop_leaves_nothing_pending_witness:
  "nothing_pending (chat_messages (commit (\<lambda>_ _. jint 9) (stopGeneration sample_buffered))) \<and>
   \<not> isGenerating (commit (\<lambda>_ _. jint 9) (stopGeneration sample_buffered))"
proof -
  have "only_last_pending (chat_messages sample_buffered)"
    by (simp add: sample_buffered_def chat_ops only_last_pending_def)
  from stop_leaves_nothing_pending [OF sample_buffered_reachable this refl] show ?thesis by simp
qed

text \<open>
  The flush that \<open>stopGeneration\<close> queues is checked against the generation that is current
  when it runs; run after the stop, it no longer changes the messages, so the text that was
  buffered when the user stopped is lost.
\<close>

lemma stop_drops_buffer:
  assumes "queue s = []" and "buffered s" and "pend_generation (pendingStreamChunks s) = requestGeneration s"
  shows "chat_messages (commit clk (stopGeneration s)) = chat_messages (commit (\<lambda>i. clk (Suc i))
    (stopGeneration (s\<lparr>pendingStreamChunks := no_chunks (requestGeneration s)\<rparr>)))"
  using assms
  by (auto simp: stopGeneration_def flushStreamUpdates_def commit_def onMessageUpdate_def abort_def
      stopStream_def discardPendingStreamUpdates_def buffered_def Let_def)

end
