(* ===== verification/Playground_Storage.thy ===== *)
theory Playground_Storage
  imports Playground_Conversation JS_JSON
begin

text \<open>
  What the web playground keeps in \<open>localStorage\<close> (\<open>lib/storage\<close>): the limits, the
  repair of stored messages, loading and saving.  The schema validation of zod and
  \<open>JSON.stringify\<close> of a validated list are arguments: \<open>schema\<close> returns the messages of a
  valid value, \<open>serialize\<close> the text that is written, \<open>None\<close> where they throw.
\<close>

definition MAX_STORED_MESSAGES :: nat where "MAX_STORED_MESSAGES = 100"
definition MAX_STORED_MESSAGES_BYTES :: nat where "MAX_STORED_MESSAGES_BYTES = 1048576"
definition MAX_LOADED_MESSAGES_CHARS :: nat where "MAX_LOADED_MESSAGES_CHARS = 120000"
definition MAX_LOADED_MESSAGE_CHARS :: nat where "MAX_LOADED_MESSAGE_CHARS = 40000"

definition TRUNCATED_CONTENT_SUFFIX :: jstring where
  "TRUNCATED_CONTENT_SUFFIX = [10, 10] @ js ''[...]''"
definition MIN_PREFIX_COLLAPSE_LENGTH :: nat where "MIN_PREFIX_COLLAPSE_LENGTH = 2000"
definition MIN_REPEATED_SECTION_COUNT :: nat where "MIN_REPEATED_SECTION_COUNT = 3"

section \<open>Stored values\<close>

type_synonym local_storage = "jstring \<Rightarrow> jstring option"

definition MESSAGES_KEY :: jstring where "MESSAGES_KEY = js ''playground_messages''"

datatype 'a read = Absent | Malformed | Present 'a

definition readStoredMessagesValue :: "local_storage \<Rightarrow> jsval read \<times> local_storage" where
  "readStoredMessagesValue st =
     (case st MESSAGES_KEY of
        None \<Rightarrow> (Absent, st)
      | Some saved \<Rightarrow>
          if saved = [] then (Absent, st)
          else if MAX_STORED_MESSAGES_BYTES < length saved then (Absent, st(MESSAGES_KEY := None))
          else (case JSON_parse saved of
                  None \<Rightarrow> (Malformed, st)
                | Some v \<Rightarrow> (if truthy v then Present v else Absent, st)))"

definition has_prop :: "jsval \<Rightarrow> string \<Rightarrow> bool" where
  "has_prop v k = (case v of JObj ps \<Rightarrow> map_of ps (js k) \<noteq> None | _ \<Rightarrow> False)"

definition unwrapStoredValue :: "jsval \<Rightarrow> jsval" where
  "unwrapStoredValue v =
     (if \<not> truthy v \<or> \<not> is_object v then v
      else if has_prop v ''version'' \<and> has_prop v ''data'' then fld v ''data'' else v)"

section \<open>Limits\<close>

definition trimMessages :: "Message list \<Rightarrow> Message list" where
  "trimMessages messages =
     (if length messages \<le> MAX_STORED_MESSAGES then messages else slice_last MAX_STORED_MESSAGES messages)"

definition getMessageSize :: "Message \<Rightarrow> nat" where
  "getMessageSize message =
     sum_list (map (length \<circ> version_content) (versions message)) + length (reasoning_text message)"

definition truncateText :: "jstring \<Rightarrow> nat \<Rightarrow> jstring" where
  "truncateText text maxLength =
     (if length text \<le> maxLength then text
      else if maxLength \<le> length TRUNCATED_CONTENT_SUFFIX then take maxLength text
      else take (maxLength - length TRUNCATED_CONTENT_SUFFIX) text @ TRUNCATED_CONTENT_SUFFIX)"

text \<open>The loop from the last message to the first.\<close>

fun size_loop :: "nat \<Rightarrow> nat \<Rightarrow> Message list \<Rightarrow> Message list" where
  "size_loop count acc [] = []"
| "size_loop count acc (m # ms) =
     (if 0 < count \<and> MAX_LOADED_MESSAGES_CHARS < acc + getMessageSize m then []
      else m # size_loop (Suc count) (acc + getMessageSize m) ms)"

definition trimMessagesByContentSize :: "Message list \<Rightarrow> Message list" where
  "trimMessagesByContentSize messages = rev (size_loop 0 0 (rev messages))"

section \<open>Repeated sections\<close>

text \<open>
  \<open>/^#{2,6}\s+\d+\.\s+.+$/gm\<close> at the start of a line: the length of the match.  White
  space may cross lines; the second run of it gives back characters until one that is not
  a line terminator is left for the rest of the heading.
\<close>

definition is_terminator :: "jchar \<Rightarrow> bool" where
  "is_terminator c \<longleftrightarrow> c = 10 \<or> c = 13 \<or> c = 0x2028 \<or> c = 0x2029"

fun give_back :: "nat \<Rightarrow> jstring \<Rightarrow> nat option" where
  "give_back 0 s = None"
| "give_back (Suc k) s =
     (case drop (Suc k) s of
        c # _ \<Rightarrow> if is_terminator c then give_back k s else Some (Suc k)
      | [] \<Rightarrow> give_back k s)"

definition heading_at :: "jstring \<Rightarrow> nat option" where
  "heading_at s =
     (let (hs, r1) = span_while (\<lambda>c. c = u16 (CHR ''#'')) s;
          (ws, r2) = span_while is_ws r1;
          (ds, r3) = span_while is_digit r2
      in if length hs < 2 \<or> 6 < length hs \<or> ws = [] \<or> ds = [] then None
         else (case r3 of
             [] \<Rightarrow> None
           | c # r4 \<Rightarrow>
               if c \<noteq> u16 (CHR ''.'') then None
               else (case give_back (length (takeWhile is_ws r4)) r4 of
                   None \<Rightarrow> None
                 | Some k \<Rightarrow> Some (length hs + length ws + length ds + 1 + k +
                     length (takeWhile (\<lambda>c. \<not> is_terminator c) (drop k r4))))))"

lemma heading_at_pos: "heading_at s = Some n \<Longrightarrow> 0 < n"
  by (auto simp: heading_at_def Let_def split: prod.splits if_splits list.splits option.splits)

text \<open>Headings with their positions; \<open>bol\<close> says whether the text is at the start of a line.\<close>

function section_scan :: "bool \<Rightarrow> nat \<Rightarrow> jstring \<Rightarrow> (jstring \<times> nat) list" where
  "section_scan bol i [] = []"
| "section_scan bol i (c # s) =
     (case (if bol then heading_at (c # s) else None) of
        None \<Rightarrow> section_scan (is_terminator c) (i + 1) s
      | Some n \<Rightarrow> (take n (c # s), i) # section_scan False (i + n) (drop n (c # s)))"
  by pat_completeness auto

termination
  by (relation "measure (\<lambda>(_, _, s). length s)") (auto dest!: heading_at_pos split: if_splits)

definition getSectionOccurrences :: "jstring \<Rightarrow> (jstring \<times> nat) list" where
  "getSectionOccurrences text = section_scan True 0 text"

definition getHeadingCounts :: "(jstring \<times> nat) list \<Rightarrow> jstring \<Rightarrow> nat" where
  "getHeadingCounts occurrences heading = length (filter (\<lambda>(h, _). h = heading) occurrences)"

text \<open>The loop from the last occurrence to the first, with the headings seen.\<close>

fun repeated_loop :: "(jstring \<Rightarrow> nat) \<Rightarrow> jstring set \<Rightarrow> (jstring \<times> nat) list \<Rightarrow> nat list" where
  "repeated_loop counts seen [] = []"
| "repeated_loop counts seen ((h, i) # rest) =
     (if counts h < MIN_REPEATED_SECTION_COUNT \<or> h \<in> seen then repeated_loop counts seen rest
      else i # repeated_loop counts (insert h seen) rest)"

definition findLastRepeatedSectionRunStart :: "jstring \<Rightarrow> nat option" where
  "findLastRepeatedSectionRunStart text =
     (let occurrences = getSectionOccurrences text;
          idx = repeated_loop (getHeadingCounts occurrences) {} (rev occurrences)
      in if idx = [] then None else Some (Min (set idx)))"

definition collapseRepeatedSectionSnapshots :: "jstring \<Rightarrow> jstring" where
  "collapseRepeatedSectionSnapshots text =
     (if length text < MIN_PREFIX_COLLAPSE_LENGTH then text
      else (case findLastRepeatedSectionRunStart text of None \<Rightarrow> text | Some i \<Rightarrow> drop i text))"

section \<open>Loading and saving\<close>

text \<open>
  A version or reasoning that the limits do not change is copied unchanged, so the copy
  the code makes only when something changed has the same value in both cases.
\<close>

definition shorten :: "Message \<Rightarrow> Message" where
  "shorten message = message
     \<lparr>versions := map (\<lambda>v. v\<lparr>version_content :=
         truncateText (collapseRepeatedSectionSnapshots (version_content v)) MAX_LOADED_MESSAGE_CHARS\<rparr>)
         (versions message),
      reasoning := map_option (\<lambda>r. r\<lparr>reasoning_content :=
         truncateText (reasoning_content r) MAX_LOADED_MESSAGE_CHARS\<rparr>) (reasoning message)\<rparr>"

definition normalizeStoredMessageForLoad :: "clock \<Rightarrow> Message \<Rightarrow> Message" where
  "normalizeStoredMessageForLoad now message =
     (let normalized = shorten message in
      if \<not> isAssistantMessagePending normalized then normalized
      else if \<not> hasMessageContent normalized \<and> jtrim (reasoning_text normalized) = [] then normalized
      else
        let completed = nullish (completedAt normalized)
              (nullish (Option.bind (reasoning normalized) reasoning_completedAt)
                (nullish (startedAt normalized) (nullish (createdAt normalized) (now 0))))
        in completeAssistantTiming completed
             ((finalizeMessage (\<lambda>i. now (Suc i)) normalized None)
                \<lparr>status := Some StComplete, isReasoningStreaming := Some False\<rparr>))"

definition saveMessages :: "(Message list \<Rightarrow> jstring option) \<Rightarrow> Message list \<Rightarrow> local_storage \<Rightarrow> local_storage" where
  "saveMessages serialize messages st =
     (case serialize (trimMessages messages) of
        None \<Rightarrow> st
      | Some s \<Rightarrow> st(MESSAGES_KEY := Some s))"

text \<open>
  The messages of a stored list after the limits and repairs.  \<open>clk i\<close> is the clock during
  the repair of the \<open>i\<close>-th message and, for \<open>i\<close> the length of the list, during the
  sanitisation.
\<close>

definition pruned :: "(nat \<Rightarrow> clock) \<Rightarrow> Message list \<Rightarrow> Message list" where
  "pruned clk parsed = trimMessagesByContentSize (trimMessages
     (map (\<lambda>(i, m). normalizeStoredMessageForLoad (clk i) m) (enumerate 0 parsed)))"

text \<open>
  The size-trimmed array is always a new one, so the comparison that guards the write
  holds on every load: the sanitised list is always saved.
\<close>

definition loadMessages ::
  "(jsval \<Rightarrow> Message list option) \<Rightarrow> (Message list \<Rightarrow> jstring option) \<Rightarrow> (nat \<Rightarrow> clock) \<Rightarrow>
   (jstring \<Rightarrow> jstring) \<Rightarrow> local_storage \<Rightarrow> Message list option \<times> local_storage" where
  "loadMessages schema serialize clk t st =
     (case readStoredMessagesValue st of
        (Present v, st') \<Rightarrow>
          (case schema (unwrapStoredValue v) of
             None \<Rightarrow> (None, st')
           | Some parsed \<Rightarrow>
               let sanitized = sanitizeMessagesOnLoad (clk (length parsed)) t (pruned clk parsed)
               in (Some sanitized, saveMessages serialize sanitized st'))
      | (_, st') \<Rightarrow> (None, st'))"

definition clearPlaygroundData :: "local_storage \<Rightarrow> local_storage" where
  "clearPlaygroundData st =
     st(js ''playground_config'' := None, js ''playground_parameter_enabled'' := None, MESSAGES_KEY := None)"

section \<open>Lemmas\<close>

lemma length_truncateText: "length (truncateText s n) \<le> n"
  by (simp add: truncateText_def)

lemma size_loop_prefix: "\<exists>n. size_loop count acc ms = take n ms"
proof (induction ms arbitrary: count acc)
  case (Cons m ms)
  show ?case
  proof (cases "0 < count \<and> MAX_LOADED_MESSAGES_CHARS < acc + getMessageSize m")
    case True
    then have "size_loop count acc (m # ms) = take 0 (m # ms)" by simp
    then show ?thesis by blast
  next
    case False
    obtain n where "size_loop (Suc count) (acc + getMessageSize m) ms = take n ms"
      using Cons.IH by blast
    with False have "size_loop count acc (m # ms) = take (Suc n) (m # ms)" by auto
    then show ?thesis by blast
  qed
qed simp

lemma size_loop_total:
  "0 < count \<Longrightarrow> acc \<le> MAX_LOADED_MESSAGES_CHARS \<Longrightarrow>
     acc + sum_list (map getMessageSize (size_loop count acc ms)) \<le> MAX_LOADED_MESSAGES_CHARS"
proof (induction ms arbitrary: count acc)
  case (Cons m ms)
  show ?case
  proof (cases "MAX_LOADED_MESSAGES_CHARS < acc + getMessageSize m")
    case False
    then have "acc + getMessageSize m + sum_list (map getMessageSize (size_loop (Suc count) (acc + getMessageSize m) ms))
      \<le> MAX_LOADED_MESSAGES_CHARS" by (intro Cons.IH) simp_all
    with False show ?thesis by simp
  qed (use Cons.prems in simp)
qed simp

lemma size_loop_full:
  "0 < count \<Longrightarrow> MAX_LOADED_MESSAGES_CHARS < acc \<Longrightarrow> size_loop count acc ms = []"
  by (cases ms) simp_all

lemma trimBySize_suffix: "\<exists>pre. ms = pre @ trimMessagesByContentSize ms"
proof -
  obtain n where "size_loop 0 0 (rev ms) = take n (rev ms)" using size_loop_prefix by blast
  then have "ms = rev (drop n (rev ms)) @ trimMessagesByContentSize ms"
    unfolding trimMessagesByContentSize_def by (metis append_take_drop_id rev_append rev_rev_ident)
  then show ?thesis by blast
qed

lemma trimBySize_bound:
  "length (trimMessagesByContentSize ms) \<le> 1 \<or>
   sum_list (map getMessageSize (trimMessagesByContentSize ms)) \<le> MAX_LOADED_MESSAGES_CHARS"
proof (cases "rev ms")
  case (Cons m rest)
  show ?thesis
  proof (cases "getMessageSize m \<le> MAX_LOADED_MESSAGES_CHARS")
    case True
    have "getMessageSize m + sum_list (map getMessageSize (size_loop (Suc 0) (getMessageSize m) rest)) \<le> MAX_LOADED_MESSAGES_CHARS"
      using True by (intro size_loop_total) simp_all
    then show ?thesis using Cons
      by (simp add: trimMessagesByContentSize_def rev_map[symmetric] sum_list_rev add.commute)
  next
    case False
    then show ?thesis using Cons by (simp add: trimMessagesByContentSize_def size_loop_full)
  qed
qed (simp add: trimMessagesByContentSize_def)

lemma trimBySize_nonempty: "ms \<noteq> [] \<Longrightarrow> trimMessagesByContentSize ms \<noteq> []"
  by (cases ms rule: rev_cases) (simp_all add: trimMessagesByContentSize_def)

lemma trimMessages_suffix: "\<exists>pre. ms = pre @ trimMessages ms"
  unfolding trimMessages_def slice_last_def by (metis append_Nil append_take_drop_id)

lemma length_trimMessages: "length (trimMessages ms) \<le> MAX_STORED_MESSAGES"
  by (simp add: trimMessages_def)

lemma trimMessages_nonempty: "ms \<noteq> [] \<Longrightarrow> trimMessages ms \<noteq> []"
  by (auto simp: trimMessages_def slice_last_def MAX_STORED_MESSAGES_def)

lemma length_jtrim: "length (jtrim s) \<le> length s"
proof -
  have "length (jtrim s) \<le> length (dropWhile is_ws s)"
    unfolding jtrim_def length_rev by (metis length_dropWhile_le length_rev)
  then show ?thesis using length_dropWhile_le le_trans by blast
qed

lemma think_loop_length: "think_loop rest = (vs, rs, u) \<Longrightarrow> length (concat vs) \<le> length rest"
proof (induction rest arbitrary: vs rs u rule: think_loop.induct)
  case (1 rest)
  show ?case
  proof (cases "index_of OPEN_TAG rest")
    case None
    with 1(2) show ?thesis by (auto simp: think_loop.simps split: if_splits)
  next
    case (Some p)
    let ?inner = "drop (p + 7) rest"
    have p: "p \<le> length rest" using index_of_SomeD[OF Some] by simp
    show ?thesis
    proof (cases "index_of CLOSE_TAG ?inner")
      case None
      with 1(2) Some p show ?thesis by (auto simp: think_loop.simps Let_def split: if_splits)
    next
      case c: (Some q)
      obtain vs' rs' u' where r: "think_loop (drop (q + 8) ?inner) = (vs', rs', u')"
        by (metis prod_cases3)
      from 1(1)[OF Some refl refl c r] have "length (concat vs') \<le> length rest - (q + 8 + (p + 7))" by simp
      moreover have "concat vs = (if 0 < p then take p rest else []) @ concat vs'"
        using 1(2) Some c r by (auto simp: think_loop.simps[of rest] Let_def split: if_splits)
      moreover have "p + 7 \<le> length rest" using index_of_SomeD[OF Some] by (simp add: tag_shape)
      moreover have "length (if 0 < p then take p rest else []) \<le> p" by simp
      ultimately show ?thesis by (simp only: length_append)
    qed
  qed
qed

lemma visible_length: "length (visibleContent (parseThinkTags s)) \<le> length s"
proof (cases "str_includes OPEN_TAG s")
  case True
  obtain vs rs u where l: "think_loop s = (vs, rs, u)" by (metis prod_cases3)
  have "length (jtrim (concat vs)) \<le> length s"
    using length_jtrim[of "concat vs"] think_loop_length[OF l] by linarith
  with True l show ?thesis by (simp add: parseThinkTags_def)
qed (simp add: parseThinkTags_def)

definition short_versions :: "Message \<Rightarrow> bool" where
  "short_versions m \<longleftrightarrow> list_all (\<lambda>v. length (version_content v) \<le> MAX_LOADED_MESSAGE_CHARS) (versions m)"

lemma short_versions_shorten: "short_versions (shorten m)"
  by (simp add: short_versions_def shorten_def list_all_iff length_truncateText)

lemma versions_finalize: "versions (finalizeMessage now m api) =
    [(getCurrentVersion m)\<lparr>version_content := getMessageContent (finalizeMessage now m api)\<rparr>]"
  by (simp add: finalizeMessage_def Let_def message_content updateCurrentVersionContent_def)
     (simp add: getMessageContent_def getCurrentVersion_def)

lemma short_versions_finalize:
  assumes "short_versions m"
  shows "short_versions (finalizeMessage now m api)"
proof -
  have "length (getMessageContent m) \<le> MAX_LOADED_MESSAGE_CHARS"
    using assms by (auto simp: short_versions_def getMessageContent_def getCurrentVersion_def split: list.splits)
  then have "length (getMessageContent (finalizeMessage now m api)) \<le> MAX_LOADED_MESSAGE_CHARS"
    using visible_length[of "getMessageContent m"] by (simp add: message_content)
  then show ?thesis by (simp add: short_versions_def versions_finalize)
qed

lemma short_versions_normalize: "short_versions (normalizeStoredMessageForLoad now m)"
  using short_versions_finalize[OF short_versions_shorten] short_versions_shorten
  by (simp add: normalizeStoredMessageForLoad_def Let_def short_versions_def)

lemma normalize_key [simp]: "msg_key (normalizeStoredMessageForLoad now m) = msg_key m"
  by (simp add: normalizeStoredMessageForLoad_def Let_def shorten_def)

lemma sanitize_keys [simp]: "map msg_key (sanitizeMessagesOnLoad now t ms) = map msg_key ms"
  by (auto simp: sanitizeMessagesOnLoad_def map_update list_update_same_conv split: option.splits
      dest: last_index_SomeD)

lemma pruned_suffix:
  "\<exists>pre. map (\<lambda>(i, m). normalizeStoredMessageForLoad (clk i) m) (enumerate 0 parsed) = pre @ pruned clk parsed"
  unfolding pruned_def by (metis append.assoc trimBySize_suffix trimMessages_suffix)

lemma length_pruned: "length (pruned clk parsed) \<le> MAX_STORED_MESSAGES"
proof -
  let ?ms = "trimMessages (map (\<lambda>(i, m). normalizeStoredMessageForLoad (clk i) m) (enumerate 0 parsed))"
  obtain pre where "?ms = pre @ trimMessagesByContentSize ?ms" using trimBySize_suffix by blast
  then have "length (trimMessagesByContentSize ?ms) \<le> length ?ms" by (metis length_append le_add2)
  then show ?thesis unfolding pruned_def using length_trimMessages le_trans by blast
qed

lemma keys_normalized:
  "map msg_key (map (\<lambda>(i, m). normalizeStoredMessageForLoad (clk i) m) (enumerate n parsed)) = map msg_key parsed"
  by (induction parsed arbitrary: n) auto

lemma short_pruned: "list_all short_versions (pruned clk parsed)"
proof -
  obtain pre where pre: "map (\<lambda>(i, m). normalizeStoredMessageForLoad (clk i) m) (enumerate 0 parsed) = pre @ pruned clk parsed"
    using pruned_suffix by blast
  have "list_all short_versions (map (\<lambda>(i, m). normalizeStoredMessageForLoad (clk i) m) (enumerate 0 parsed))"
    by (auto simp: list_all_iff short_versions_normalize)
  then show ?thesis unfolding pre by simp
qed

lemma load_result:
  assumes "loadMessages schema serialize clk t st = (Some ms, st')"
  obtains saved v parsed kept where "st MESSAGES_KEY = Some saved" and "JSON_parse saved = Some v"
    and "schema (unwrapStoredValue v) = Some parsed"
    and "ms = sanitizeMessagesOnLoad (clk (length parsed)) t kept"
    and "\<exists>pre. map msg_key parsed = pre @ map msg_key ms"
    and "length ms \<le> 100" and "list_all short_versions kept"
    and "length kept \<le> 1 \<or> sum_list (map getMessageSize kept) \<le> 120000"
    and "ms = [] \<longleftrightarrow> parsed = []"
    and "st' MESSAGES_KEY = (case serialize ms of None \<Rightarrow> st MESSAGES_KEY | Some s \<Rightarrow> Some s)"
proof -
  from assms obtain saved v parsed where saved: "st MESSAGES_KEY = Some saved" "JSON_parse saved = Some v"
    and sch: "schema (unwrapStoredValue v) = Some parsed"
    and ms: "ms = sanitizeMessagesOnLoad (clk (length parsed)) t (pruned clk parsed)"
    and st': "st' = saveMessages serialize ms st"
    by (auto simp: loadMessages_def readStoredMessagesValue_def Let_def
        split: option.splits if_splits read.splits prod.splits)
  have len: "length ms = length (pruned clk parsed)" using ms by (metis length_map sanitize_keys)
  show thesis
  proof (rule that[OF saved sch ms])
    obtain pre where "map (\<lambda>(i, m). normalizeStoredMessageForLoad (clk i) m) (enumerate 0 parsed) = pre @ pruned clk parsed"
      using pruned_suffix by blast
    then have "map msg_key parsed = map msg_key (pre @ pruned clk parsed)" by (metis keys_normalized)
    then show "\<exists>pre. map msg_key parsed = pre @ map msg_key ms" using ms by simp
    show "length ms \<le> 100" using length_pruned len by (simp add: MAX_STORED_MESSAGES_def)
    then show "st' MESSAGES_KEY = (case serialize ms of None \<Rightarrow> st MESSAGES_KEY | Some s \<Rightarrow> Some s)"
      using st' by (simp add: saveMessages_def trimMessages_def MAX_STORED_MESSAGES_def split: option.splits)
    show "list_all short_versions (pruned clk parsed)" by (rule short_pruned)
    show "length (pruned clk parsed) \<le> 1 \<or> sum_list (map getMessageSize (pruned clk parsed)) \<le> 120000"
      unfolding pruned_def using trimBySize_bound unfolding MAX_LOADED_MESSAGES_CHARS_def by blast
    have "pruned clk parsed = [] \<longleftrightarrow> parsed = []"
    proof
      assume "pruned clk parsed = []"
      then have "map (\<lambda>(i, m). normalizeStoredMessageForLoad (clk i) m) (enumerate 0 parsed) = []"
        unfolding pruned_def using trimBySize_nonempty trimMessages_nonempty by metis
      then show "parsed = []" by (metis keys_normalized list.map_disc_iff)
    qed (simp add: pruned_def trimMessagesByContentSize_def trimMessages_def)
    then show "ms = [] \<longleftrightarrow> parsed = []" using len by (metis length_0_conv)
  qed
qed

section \<open>Properties\<close>

text \<open>
  C26.  What a load hands to the page is bounded: from any stored text the schema accepts,
  at most a hundred messages, the most recent ones with their keys in order, are kept;
  none is longer than the limit for one message, and together they stay within the limit
  for a conversation unless a single message is left.  A conversation is never emptied,
  and the list that is returned is the one that is written back.
\<close>

theorem load_bounded:
  assumes "loadMessages schema serialize clk t st = (Some ms, st')"
  shows "\<exists>saved v parsed kept. st MESSAGES_KEY = Some saved \<and> JSON_parse saved = Some v \<and>
    schema (unwrapStoredValue v) = Some parsed \<and>
    ms = sanitizeMessagesOnLoad (clk (length parsed)) t kept \<and>
    (\<exists>pre. map msg_key parsed = pre @ map msg_key ms) \<and> length ms \<le> 100 \<and>
    list_all short_versions kept \<and>
    (length kept \<le> 1 \<or> sum_list (map getMessageSize kept) \<le> 120000) \<and>
    (ms = [] \<longleftrightarrow> parsed = []) \<and>
    st' MESSAGES_KEY = (case serialize ms of None \<Rightarrow> st MESSAGES_KEY | Some s \<Rightarrow> Some s)"
  using assms by (rule load_result) blast

theorem load_bounded_witness:
  "\<exists>ms st'. loadMessages (\<lambda>_. Some [sample_loading]) (\<lambda>_. Some (js ''x'')) (\<lambda>_ _. jint 9) id
      (\<lambda>_. Some (js ''[]'')) = (Some ms, st') \<and> length ms \<le> 100 \<and> st' MESSAGES_KEY = Some (js ''x'')"
proof -
  have "JSON_parse (js ''[]'') = Some (JArr [])" by code_simp
  then have "\<exists>ms st'. loadMessages (\<lambda>_. Some [sample_loading]) (\<lambda>_. Some (js ''x'')) (\<lambda>_ _. jint 9) id
      (\<lambda>_. Some (js ''[]'')) = (Some ms, st')"
    by (simp add: loadMessages_def readStoredMessagesValue_def MAX_STORED_MESSAGES_BYTES_def Let_def)
  then obtain ms st' where l: "loadMessages (\<lambda>_. Some [sample_loading]) (\<lambda>_. Some (js ''x'')) (\<lambda>_ _. jint 9) id
      (\<lambda>_. Some (js ''[]'')) = (Some ms, st')" by blast
  from load_bounded[OF this] have "length ms \<le> 100 \<and> st' MESSAGES_KEY = Some (js ''x'')" by auto
  with l show ?thesis by blast
qed

end
