(* ===== verification/Playground_Parameters.thy ===== *)
theory Playground_Parameters
  imports JS_Convert
begin

text \<open>
  The sampling parameters of the web playground (\<open>lib/parameters/playground-parameters.ts\<close>):
  the controls with their ranges, and the normalisation of what the user enters.
\<close>

datatype PlaygroundParameterKey =
  Temperature | TopP | FrequencyPenalty | PresencePenalty | MaxTokens | Seed

record PlaygroundParameterControl =
  ctl_min :: jnum
  ctl_max :: jnum
  ctl_step :: jnum

text \<open>\<open>PLAYGROUND_PARAMETER_CONTROLS\<close>, without the texts; the number literals are rounded.\<close>

fun PLAYGROUND_PARAMETER_CONTROLS :: "PlaygroundParameterKey \<Rightarrow> PlaygroundParameterControl" where
  "PLAYGROUND_PARAMETER_CONTROLS Temperature = \<lparr>ctl_min = rnd (1 / 10), ctl_max = jint 1, ctl_step = rnd (1 / 10)\<rparr>"
| "PLAYGROUND_PARAMETER_CONTROLS TopP = \<lparr>ctl_min = rnd (1 / 10), ctl_max = jint 1, ctl_step = rnd (1 / 10)\<rparr>"
| "PLAYGROUND_PARAMETER_CONTROLS FrequencyPenalty = \<lparr>ctl_min = jint (- 2), ctl_max = jint 2, ctl_step = rnd (1 / 10)\<rparr>"
| "PLAYGROUND_PARAMETER_CONTROLS PresencePenalty = \<lparr>ctl_min = jint (- 2), ctl_max = jint 2, ctl_step = rnd (1 / 10)\<rparr>"
| "PLAYGROUND_PARAMETER_CONTROLS MaxTokens = \<lparr>ctl_min = jint 0, ctl_max = jint 200000, ctl_step = jint 1\<rparr>"
| "PLAYGROUND_PARAMETER_CONTROLS Seed = \<lparr>ctl_min = jint 0, ctl_max = jint 2147483647, ctl_step = jint 1\<rparr>"

text \<open>
  \<open>Number(x.toFixed(1))\<close> for a small number: the closest multiple of a tenth, the larger
  one on a tie (of the absolute value, as the sign is split off first), read back as a
  number.
\<close>

definition fixed_tenths :: "rat \<Rightarrow> int" where
  "fixed_tenths x = (if x < 0 then - \<lfloor>- x * 10 + 1 / 2\<rfloor> else \<lfloor>x * 10 + 1 / 2\<rfloor>)"

fun toFixed_tenths :: "jnum \<Rightarrow> jnum" where
  "toFixed_tenths (Fin x) = rnd (of_int (fixed_tenths x) / 10)"
| "toFixed_tenths x = x"

datatype ParameterInput = InputText jstring | InputNumber jnum

definition clamp :: "PlaygroundParameterControl \<Rightarrow> jnum \<Rightarrow> jnum" where
  "clamp control x = jmin (ctl_max control) (jmax (ctl_min control) x)"

definition parsed_input :: "ParameterInput \<Rightarrow> jnum" where
  "parsed_input v = (case v of InputNumber n \<Rightarrow> n | InputText s \<Rightarrow> parse_float s)"

text \<open>The precision of a step of a tenth is one decimal.  \<open>None\<close> is \<open>null\<close>.\<close>

definition normalizeParameterNumberValue :: "PlaygroundParameterKey \<Rightarrow> ParameterInput \<Rightarrow> jnum option" where
  "normalizeParameterNumberValue key v =
     (if v = InputText [] then (if key = Seed then None else Some (jint 0))
      else
        let control = PLAYGROUND_PARAMETER_CONTROLS key; parsed = parsed_input v in
        if parsed = NaN then (if key = Seed then None else Some (jint 0))
        else
          let clamped = clamp control parsed in
          if jle (jint 1) (ctl_step control) then Some (jtrunc clamped)
          else Some (toFixed_tenths clamped))"

section \<open>Lemmas\<close>

lemma tenth: "rnd (1 / 10) = Fin (3602879701896397 / 36028797018963968)"
  by code_simp

lemma clamp_range:
  assumes "x \<noteq> NaN" and "ctl_min c = Fin lo" and "ctl_max c = Fin hi" and "lo \<le> hi"
  shows "\<exists>q. clamp c x = Fin q \<and> lo \<le> q \<and> q \<le> hi"
  using assms by (cases x) (auto simp: clamp_def jmin_def jmax_def)

text \<open>Rounding a number that is close to a multiple of a tenth finds the multiple again.\<close>

lemma fixed_tenths_close:
  assumes "\<bar>v - of_int n / 10\<bar> \<le> 1 / 100" and "n = 0 \<Longrightarrow> v = 0"
  shows "fixed_tenths v = n"
proof -
  consider "n = 0" | "1 \<le> n" | "n \<le> - 1" by linarith
  then show ?thesis
  proof cases
    case 1
    with assms(2) show ?thesis by (simp add: fixed_tenths_def floor_eq_iff)
  next
    case 2
    then have "(1 :: rat) \<le> of_int n" by simp
    then have "\<not> v < 0" using assms(1) by (auto simp: abs_if split: if_splits)
    moreover have "\<lfloor>v * 10 + 1 / 2\<rfloor> = n"
      using assms(1) by (intro floor_unique) (auto simp: abs_if split: if_splits)
    ultimately show ?thesis by (simp add: fixed_tenths_def)
  next
    case 3
    then have "of_int n \<le> (- 1 :: rat)" by (metis of_int_1 of_int_le_iff of_int_minus)
    then have "v < 0" using assms(1) by (auto simp: abs_if split: if_splits)
    moreover have "\<lfloor>- v * 10 + 1 / 2\<rfloor> = - n"
      using assms(1) by (intro floor_unique) (auto simp: abs_if split: if_splits)
    ultimately show ?thesis by (simp add: fixed_tenths_def)
  qed
qed

lemma fixed_tenths_range:
  assumes "of_int a / 10 \<le> q" and "q \<le> of_int b / 10"
  shows "a \<le> fixed_tenths q" and "fixed_tenths q \<le> b"
  using assms by (auto simp: fixed_tenths_def le_floor_iff floor_le_iff split: if_splits) linarith+

lemma rnd_tenths:
  assumes "\<bar>n\<bar> \<le> 20"
  obtains v where "rnd (of_int n / 10) = Fin v" and "\<bar>v - of_int n / 10\<bar> \<le> 1 / 1000" and "fixed_tenths v = n"
proof -
  have "\<bar>of_int n / 10 :: rat\<bar> \<le> 4" using assms by (auto simp: abs_if split: if_splits)
  then obtain v where v: "rnd (of_int n / 10) = Fin v" "\<bar>v - of_int n / 10\<bar> \<le> 1 / 2 ^ 51" by (rule rnd_close)
  moreover have "(1 :: rat) / 2 ^ 51 \<le> 1 / 1000" by simp
  ultimately have e: "\<bar>v - of_int n / 10\<bar> \<le> 1 / 1000" by linarith
  then have "\<bar>v - of_int n / 10\<bar> \<le> 1 / 100" by linarith
  moreover have "n = 0 \<Longrightarrow> v = 0" using v(1) by (simp add: rnd_def)
  ultimately show ?thesis using v(1) e by (intro that fixed_tenths_close)
qed

text \<open>A control whose bounds are multiples of a tenth keeps its normalised values.\<close>

lemma normalize_tenths:
  assumes "rnd (of_int a / 10) = Fin lo" and "rnd (of_int b / 10) = Fin hi" and "of_int a / 10 \<le> lo" and "hi = of_int b / 10"
    and "- 20 \<le> a" and "b \<le> 20" and "lo \<le> q" and "q \<le> hi"
  shows "\<exists>v. toFixed_tenths (Fin q) = Fin v \<and> lo \<le> v \<and> v \<le> hi \<and> toFixed_tenths (Fin v) = Fin v"
proof -
  let ?n = "fixed_tenths q"
  have n: "a \<le> ?n" "?n \<le> b" using assms fixed_tenths_range[of a q b] by auto
  then have "\<bar>?n\<bar> \<le> 20" and a: "\<bar>a\<bar> \<le> 20" using assms(5,6) by linarith+
  then obtain v where v: "rnd (of_int ?n / 10) = Fin v" "\<bar>v - of_int ?n / 10\<bar> \<le> 1 / 1000" "fixed_tenths v = ?n"
    using rnd_tenths by blast
  obtain u where "rnd (of_int a / 10) = Fin u" "\<bar>u - of_int a / 10\<bar> \<le> 1 / 1000"
    using a by (rule rnd_tenths)
  then have err: "\<bar>lo - of_int a / 10\<bar> \<le> 1 / 1000" using assms(1) by simp
  have "lo \<le> v"
  proof (cases "?n = a")
    case True
    with v(1) assms(1) show ?thesis by simp
  next
    case False
    with n(1) have "a + 1 \<le> ?n" by simp
    then have "(of_int a + 1 :: rat) \<le> of_int ?n" by (metis of_int_1 of_int_add of_int_le_iff)
    with v(2) err show ?thesis by (auto simp: abs_if split: if_splits)
  qed
  moreover have "v \<le> hi"
  proof (cases "?n = b")
    case True
    with v(1) assms(2) show ?thesis by simp
  next
    case False
    with n(2) have "?n + 1 \<le> b" by simp
    then have "(of_int ?n + 1 :: rat) \<le> of_int b" by (metis of_int_1 of_int_add of_int_le_iff)
    with v(2) assms(4) show ?thesis by (auto simp: abs_if split: if_splits)
  qed
  ultimately show ?thesis using v by auto
qed

lemma clamp_id:
  "ctl_min c = Fin lo \<Longrightarrow> ctl_max c = Fin hi \<Longrightarrow> lo \<le> q \<Longrightarrow> q \<le> hi \<Longrightarrow> clamp c (Fin q) = Fin q"
  by (auto simp: clamp_def jmin_def jmax_def)

lemma normalize_trunc:
  fixes q :: rat
  assumes "of_int a \<le> q" and "q \<le> of_int b" and "0 \<le> a"
  shows "\<exists>k. jtrunc (Fin q) = Fin (of_int k) \<and> a \<le> k \<and> k \<le> b"
proof -
  have "0 \<le> q" using assms(1,3) by (metis of_int_0_le_iff order_trans)
  then show ?thesis using assms by (auto simp: le_floor_iff floor_le_iff)
qed

text \<open>The two kinds of controls: sliders with steps of a tenth, and whole numbers.\<close>

lemma control_kinds:
  obtains (slider) a b lo hi where "ctl_min (PLAYGROUND_PARAMETER_CONTROLS key) = Fin lo"
      "ctl_max (PLAYGROUND_PARAMETER_CONTROLS key) = Fin hi" "lo \<le> hi"
      "\<not> jle (jint 1) (ctl_step (PLAYGROUND_PARAMETER_CONTROLS key))"
      "rnd (of_int a / 10) = Fin lo" "rnd (of_int b / 10) = Fin hi" "of_int a / 10 \<le> lo" "hi = of_int b / 10"
      "- 20 \<le> a" "b \<le> 20"
    | (number) b where "ctl_min (PLAYGROUND_PARAMETER_CONTROLS key) = Fin 0"
      "ctl_max (PLAYGROUND_PARAMETER_CONTROLS key) = Fin (of_int b)" "0 \<le> b"
      "jle (jint 1) (ctl_step (PLAYGROUND_PARAMETER_CONTROLS key))"
proof -
  let ?t = "3602879701896397 / 36028797018963968 :: rat"
  have r1: "rnd 1 = Fin 1" "rnd 2 = Fin 2" "rnd (- 2) = Fin (- 2)"
    using rnd_of_int[of 1] rnd_of_int[of 2] rnd_of_int[of "- 2"] by (simp_all add: max_safe_def)
  note literals = tenth jint_def r1 jle_def
  show ?thesis
  proof (cases key)
    case Temperature
    then show ?thesis by (intro slider[of ?t 1 1 10]) (simp_all add: literals)
  next
    case TopP
    then show ?thesis by (intro slider[of ?t 1 1 10]) (simp_all add: literals)
  next
    case FrequencyPenalty
    then show ?thesis by (intro slider[of "- 2" 2 "- 20" 20]) (simp_all add: literals)
  next
    case PresencePenalty
    then show ?thesis by (intro slider[of "- 2" 2 "- 20" 20]) (simp_all add: literals)
  next
    case MaxTokens
    then show ?thesis by (intro number[of 200000]) (simp_all add: literals)
  next
    case Seed
    then show ?thesis by (intro number[of 2147483647]) (simp_all add: literals)
  qed
qed

section \<open>Properties\<close>

text \<open>
  A number entered for a parameter is normalised into the range of its control, and
  normalising the result changes nothing: binary rounding of the tenths never leaves the
  range nor moves a value to another tenth.
\<close>

theorem parameter_normalised:
  assumes "v \<noteq> InputText []" and "parsed_input v \<noteq> NaN"
  shows "\<exists>n. normalizeParameterNumberValue key v = Some n \<and>
    jle (ctl_min (PLAYGROUND_PARAMETER_CONTROLS key)) n \<and> jle n (ctl_max (PLAYGROUND_PARAMETER_CONTROLS key)) \<and>
    normalizeParameterNumberValue key (InputNumber n) = Some n"
proof -
  let ?c = "PLAYGROUND_PARAMETER_CONTROLS key"
  show ?thesis
  proof (cases rule: control_kinds[of key])
    case (slider a b lo hi)
    from clamp_range[OF assms(2) slider(1-3)] obtain q where q: "clamp ?c (parsed_input v) = Fin q" "lo \<le> q" "q \<le> hi"
      by blast
    from normalize_tenths[OF slider(5-10) q(2,3)] obtain w where
      w: "toFixed_tenths (Fin q) = Fin w" "lo \<le> w" "w \<le> hi" "toFixed_tenths (Fin w) = Fin w" by blast
    have "clamp ?c (Fin w) = Fin w" using slider(1,2) w by (intro clamp_id)
    moreover have "jle (Fin lo) (Fin w)" "jle (Fin w) (Fin hi)" using w(2,3) by (auto simp: jle_def)
    ultimately show ?thesis
      using assms q(1) w(1,4)
      by (intro exI[of _ "Fin w"])
         (simp add: normalizeParameterNumberValue_def Let_def parsed_input_def slider(1,2,4)
            del: toFixed_tenths.simps)
  next
    case (number b)
    from clamp_range[OF assms(2) number(1,2)] number(3) obtain q where
      q: "clamp ?c (parsed_input v) = Fin q" "0 \<le> q" "q \<le> of_int b" by auto
    from normalize_trunc[of 0 q b] q obtain k where k: "jtrunc (Fin q) = Fin (of_int k)" "0 \<le> k" "k \<le> b" by auto
    have "(0 :: rat) \<le> of_int k" "(of_int k :: rat) \<le> of_int b" using k(2,3) by simp_all
    then have "clamp ?c (Fin (of_int k)) = Fin (of_int k)" using number(1,2) by (intro clamp_id)
    moreover have "jtrunc (Fin (of_int k)) = Fin (of_int k)" using k(2) by simp
    moreover have "jle (Fin 0) (Fin (of_int k))" "jle (Fin (of_int k)) (Fin (of_int b))"
      using k(2,3) by (auto simp: jle_def)
    ultimately show ?thesis
      using assms number(1,2,4) q(1) k(1)
      by (intro exI[of _ "Fin (of_int k)"])
         (simp add: normalizeParameterNumberValue_def Let_def parsed_input_def del: jtrunc.simps)
  qed
qed

theorem parameter_normalised_witness:
  "\<exists>n. normalizeParameterNumberValue MaxTokens (InputNumber (jint 300000)) = Some n \<and> n = jint 200000 \<and>
     normalizeParameterNumberValue MaxTokens (InputNumber n) = Some n"
proof -
  have "normalizeParameterNumberValue MaxTokens (InputNumber (jint 300000)) = Some (jint 200000)"
    by (simp add: normalizeParameterNumberValue_def parsed_input_def clamp_def jmin_def jmax_def jint_def jle_def)
  then show ?thesis
    using parameter_normalised[of "InputNumber (jint 300000)" MaxTokens] by (simp add: parsed_input_def jint_def)
qed

end
