(* ===== verification/JS_Stringify.thy ===== *)
theory JS_Stringify
  imports JS_JSON
begin

text \<open>
  \<open>JSON.stringify\<close>: strings with their escapes, and values printed with an indentation,
  with the proof that \<open>JSON.parse\<close> reads them back.
\<close>

section \<open>Strings\<close>

definition QUOTE :: jchar where "QUOTE = 34"

text \<open>A string literal of the source, between quotes in the generated text.\<close>

definition in_quotes :: "jstring \<Rightarrow> jstring" where
  "in_quotes s = [QUOTE] @ s @ [QUOTE]"

definition hex_digit :: "nat \<Rightarrow> jchar" where
  "hex_digit n = (if n < 10 then of_nat (48 + n) else of_nat (87 + n))"

definition unicode_escape :: "jchar \<Rightarrow> jstring" where
  "unicode_escape c = (let n = unat c in
     [92, u16 (CHR ''u''), hex_digit (n div 4096), hex_digit (n div 256 mod 16),
      hex_digit (n div 16 mod 16), hex_digit (n mod 16)])"

definition is_lead :: "jchar \<Rightarrow> bool" where "is_lead c \<longleftrightarrow> 0xD800 \<le> unat c \<and> unat c \<le> 0xDBFF"
definition is_trail :: "jchar \<Rightarrow> bool" where "is_trail c \<longleftrightarrow> 0xDC00 \<le> unat c \<and> unat c \<le> 0xDFFF"

definition quote_unit :: "jchar \<Rightarrow> jstring" where
  "quote_unit c =
     (case map_of [(8, CHR ''b''), (9, CHR ''t''), (10, CHR ''n''), (12, CHR ''f''), (13, CHR ''r'')] c of
        Some e \<Rightarrow> [92, u16 e]
      | None \<Rightarrow> if c = QUOTE \<or> c = 92 then [92, c] else if unat c < 32 then unicode_escape c else [c])"

fun quote_body :: "jstring \<Rightarrow> jstring" where
  "quote_body [] = []"
| "quote_body (c # s) =
     (if is_lead c then
        (case s of
           d # s' \<Rightarrow> if is_trail d then c # d # quote_body s' else unicode_escape c @ quote_body s
         | [] \<Rightarrow> unicode_escape c)
      else if is_trail c then unicode_escape c @ quote_body s
      else quote_unit c @ quote_body s)"

definition JSON_stringify_string :: "jstring \<Rightarrow> jstring" where
  "JSON_stringify_string s = in_quotes (quote_body s)"

section \<open>Strings are read back\<close>

lemma unat_hex_digit: "k < 16 \<Longrightarrow> unat (hex_digit k) = (if k < 10 then 48 + k else 87 + k)"
  by (simp add: hex_digit_def unat_of_nat take_bit_eq_mod del: of_nat_add)

lemma radix_digit_hex [simp]: "k < 16 \<Longrightarrow> radix_digit 16 (hex_digit k) = Some k"
  by (auto simp: radix_digit_def is_digit_def digit_val_def unat_hex_digit Let_def)

lemma hex_digits_sum:
  fixes n :: nat
  shows "n div 4096 * 4096 + n div 256 mod 16 * 256 + n div 16 mod 16 * 16 + n mod 16 = n"
proof -
  have "n div 256 = n div 16 div 16" "n div 4096 = n div 16 div 16 div 16"
    by (simp_all add: div_mult2_eq [symmetric])
  moreover have "q3 * 4096 + r2 * 256 + r1 * 16 + r0 = n"
    if "q1 * 16 + r0 = n" "q2 * 16 + r1 = q1" "q3 * 16 + r2 = q2" for q1 q2 q3 r0 r1 r2 :: nat
    using that by linarith
  ultimately show ?thesis by (metis div_mult_mod_eq)
qed

lemma hex4_escape: "hex4 (drop 2 (unicode_escape c) @ r) = Some (c, r)"
proof -
  have "unat c < 65536" using unsigned_less [of c] by simp
  then have "unat c div 4096 < 16" by auto
  then show ?thesis by (simp add: unicode_escape_def hex4_def Let_def hex_digits_sum del: of_nat_add of_nat_mult)
qed

lemma unicode_escape_Cons: "unicode_escape c = 92 # 117 # drop 2 (unicode_escape c)"
  by (simp add: unicode_escape_def Let_def u16_eq_numeral)

lemma string_body_escape:
  "string_body (Suc n) (unicode_escape c @ r) = map_option (map_prod ((#) c) id) (string_body n r)"
  by (subst unicode_escape_Cons) (simp add: hex4_escape del: drop_append)

lemma string_body_raw:
  "c \<noteq> 34 \<Longrightarrow> c \<noteq> 92 \<Longrightarrow> 32 \<le> unat c \<Longrightarrow>
     string_body (Suc n) (c # r) = map_option (map_prod ((#) c) id) (string_body n r)"
  by simp

lemma quote_unit_cases:
  obtains (short) e where "quote_unit c = [92, e]" "e \<noteq> 117" "escape_char e = Some c"
  | (long) "quote_unit c = unicode_escape c"
  | (raw) "quote_unit c = [c]" "c \<noteq> 34" "c \<noteq> 92" "32 \<le> unat c"
  by (cases "c \<in> {8, 9, 10, 12, 13, 34, 92}"; cases "unat c < 32")
     (auto simp: quote_unit_def QUOTE_def escape_char_def u16_eq_numeral split: if_splits)

lemma string_body_unit:
  "string_body (Suc n) (quote_unit c @ r) = map_option (map_prod ((#) c) id) (string_body n r)"
  by (cases c rule: quote_unit_cases) (simp_all add: string_body_escape string_body_raw del: string_body.simps(2),
      simp_all)

lemma string_body_close: "string_body (Suc n) (34 # r) = Some ([], r)"
  by simp

lemma surrogate_raw: "is_lead c \<or> is_trail c \<Longrightarrow> c \<noteq> 34 \<and> c \<noteq> 92 \<and> 32 \<le> unat c"
  by (auto simp: is_lead_def is_trail_def)

text \<open>Induction along the quoted text: a surrogate pair, or one unit in one of its two forms.\<close>

lemma quote_induct [case_names Nil pair single]:
  assumes "P []"
    and pair: "\<And>c d s. is_lead c \<Longrightarrow> is_trail d \<Longrightarrow> quote_body (c # d # s) = c # d # quote_body s \<Longrightarrow> P s \<Longrightarrow> P (c # d # s)"
    and single: "\<And>c w s. w = unicode_escape c \<or> w = quote_unit c \<Longrightarrow> quote_body (c # s) = w @ quote_body s \<Longrightarrow> P s \<Longrightarrow> P (c # s)"
  shows "P s"
proof (induction s rule: length_induct)
  case (1 s)
  then have IH: "P t" if "length t < length s" for t using that by simp
  show ?case
  proof (cases s)
    case (Cons c t)
    show ?thesis
    proof (cases "is_lead c \<and> t \<noteq> [] \<and> is_trail (hd t)")
      case True
      then obtain d t' where "t = d # t'" "is_trail d" by (cases t) auto
      with True Cons pair IH [of t'] show ?thesis by simp
    next
      case False
      then have "quote_body (c # t) = (if is_lead c \<or> is_trail c then unicode_escape c else quote_unit c) @ quote_body t"
        by (cases t) auto
      with Cons single [of _ c t] IH [of t] show ?thesis by (metis impossible_Cons not_less)
    qed
  qed (use assms(1) in simp)
qed

declare quote_body.simps(2) [simp del]

lemma string_body_quote:
  "length s < n \<Longrightarrow> string_body n (quote_body s @ QUOTE # r) = Some (s, r)"
proof (induction s arbitrary: n rule: quote_induct)
  case Nil
  then show ?case by (cases n) (simp_all add: QUOTE_def)
next
  case (pair c d s)
  then obtain m where "n = Suc (Suc m)" "length s < m" by (cases n; cases "n - 1") auto
  with pair surrogate_raw [of c] surrogate_raw [of d] show ?case
    by (simp add: string_body_raw del: string_body.simps)
next
  case (single c w s)
  then obtain m where "n = Suc m" "length s < m" by (cases n) auto
  with single show ?case
    by (auto simp: string_body_escape string_body_unit simp del: string_body.simps)
qed

lemma quote_unit_neq_Nil [simp]: "quote_unit c \<noteq> []"
  by (cases c rule: quote_unit_cases) (simp_all add: unicode_escape_def Let_def)

lemma length_quote_body: "length s \<le> length (quote_body s)"
proof (induction s rule: quote_induct)
  case (single c w s)
  then have "w \<noteq> []" using quote_unit_neq_Nil [of c] by (metis list.distinct(1) unicode_escape_Cons)
  then have "1 \<le> length w" by (simp add: Suc_le_eq)
  with single show ?case by simp
qed simp_all

lemma json_value_string:
  "json_value (Suc n) (34 # rest) = map_option (map_prod JStr id) (string_body (length rest + 1) rest)"
proof -
  have "skip (34 # rest) = 34 # rest" by (simp add: skip_def json_ws_def)
  moreover have "(34 :: jchar) \<noteq> u16 (CHR ''{'')" "(34 :: jchar) \<noteq> u16 (CHR ''['')"
    by (simp_all add: numeral_eq_u16)
  ultimately show ?thesis by (subst json_value.simps(2)) (simp only: list.case if_False if_True refl)
qed

lemma JSON_parse_stringify: "JSON_parse (JSON_stringify_string s) = Some (JStr s)"
proof -
  let ?r = "quote_body s @ [QUOTE]"
  have s: "JSON_stringify_string s = 34 # ?r" by (simp add: JSON_stringify_string_def in_quotes_def QUOTE_def)
  have "string_body (length ?r + 1) ?r = Some (s, [])"
    using length_quote_body [of s] string_body_quote [of s _ "[]"] by (simp del: string_body.simps)
  then have "json_value (Suc (2 * length (34 # ?r) + 1)) (34 # ?r) = Some (JStr s, [])"
    unfolding json_value_string by simp
  then show ?thesis unfolding JSON_parse_def s by (simp add: skip_def)
qed

section \<open>Values\<close>

text \<open>\<open>JSON.stringify(v, null, 2)\<close> at an indentation depth.\<close>

definition newline :: "nat \<Rightarrow> jstring" where
  "newline d = 10 # replicate (2 * d) 32"

text \<open>Texts between brackets, with a gap before each of them and one before the closing bracket.\<close>

definition enclosed :: "char \<Rightarrow> char \<Rightarrow> jstring \<Rightarrow> jstring \<Rightarrow> jstring list \<Rightarrow> jstring" where
  "enclosed a b w w' es =
     (if es = [] then [u16 a, u16 b] else u16 a # w @ join (u16 (CHR '','') # w) es @ w' @ [u16 b])"

definition bracketed :: "char \<Rightarrow> char \<Rightarrow> nat \<Rightarrow> jstring list \<Rightarrow> jstring" where
  "bracketed a b d es = enclosed a b (newline (Suc d)) (newline d) es"

definition entry_text :: "jstring \<Rightarrow> jstring \<Rightarrow> jstring \<Rightarrow> jstring" where
  "entry_text w k e = JSON_stringify_string k @ u16 (CHR '':'') # w @ e"

definition member_text :: "jstring \<Rightarrow> jstring \<Rightarrow> jstring" where
  "member_text k e = entry_text [32] k e"

fun json_pretty :: "(jnum \<Rightarrow> jstring) \<Rightarrow> nat \<Rightarrow> jsval \<Rightarrow> jstring" where
  "json_pretty numstr d JUndef = js ''null''"
| "json_pretty numstr d JNull = js ''null''"
| "json_pretty numstr d (JBool b) = (if b then js ''true'' else js ''false'')"
| "json_pretty numstr d (JNum n) = (case n of Fin _ \<Rightarrow> numstr n | _ \<Rightarrow> js ''null'')"
| "json_pretty numstr d (JStr s) = JSON_stringify_string s"
| "json_pretty numstr d (JArr xs) = bracketed (CHR ''['') (CHR '']'') d (map (json_pretty numstr (Suc d)) xs)"
| "json_pretty numstr d (JObj ps) = bracketed (CHR ''{'') (CHR ''}'') d
     (concat (map (\<lambda>(k, v). if v = JUndef then [] else [member_text k (json_pretty numstr (Suc d) v)]) ps))"

text \<open>\<open>JSON.stringify(v)\<close>.\<close>

fun JSON_stringify :: "(jnum \<Rightarrow> jstring) \<Rightarrow> jsval \<Rightarrow> jstring" where
  "JSON_stringify numstr JUndef = js ''null''"
| "JSON_stringify numstr JNull = js ''null''"
| "JSON_stringify numstr (JBool b) = (if b then js ''true'' else js ''false'')"
| "JSON_stringify numstr (JNum n) = (case n of Fin _ \<Rightarrow> numstr n | _ \<Rightarrow> js ''null'')"
| "JSON_stringify numstr (JStr s) = JSON_stringify_string s"
| "JSON_stringify numstr (JArr xs) = enclosed (CHR ''['') (CHR '']'') [] [] (map (JSON_stringify numstr) xs)"
| "JSON_stringify numstr (JObj ps) = enclosed (CHR ''{'') (CHR ''}'') [] []
     (concat (map (\<lambda>(k, v). if v = JUndef then [] else [entry_text [] k (JSON_stringify numstr v)]) ps))"

section \<open>Values are read back\<close>

text \<open>Values of strings, booleans, null, arrays and objects whose names are no array indices.\<close>

fun printable :: "jsval \<Rightarrow> bool" where
  "printable JNull = True"
| "printable (JBool _) = True"
| "printable (JStr _) = True"
| "printable (JArr xs) = list_all printable xs"
| "printable (JObj ps) = (distinct (map fst ps) \<and> list_all (\<lambda>(k, v). array_index k = None \<and> printable v) ps)"
| "printable _ = False"

definition blank :: "jstring \<Rightarrow> bool" where
  "blank w \<longleftrightarrow> list_all json_ws w"

lemma blank_newline [simp]: "blank (newline d)"
  by (simp add: blank_def newline_def json_ws_def list_all_iff)

lemma skip_blank [simp]: "blank w \<Longrightarrow> skip (w @ s) = skip s"
  by (induction w) (auto simp: blank_def skip_def)

lemma skip_Cons: "\<not> json_ws c \<Longrightarrow> skip (c # s) = c # s"
  by (simp add: skip_def)

lemma json_value_blank: "blank w \<Longrightarrow> json_value n (w @ s) = json_value n s"
  by (cases n) (simp_all add: json_value.simps)

lemma json_key_blank: "blank w \<Longrightarrow> json_key (w @ s) = json_key s"
  by (simp add: json_key_def)

lemma json_elements_blank: "blank w \<Longrightarrow> json_elements n (w @ s) = json_elements n s"
  by (cases n) (simp_all add: json_elements.simps json_value_blank)

lemma json_members_blank: "blank w \<Longrightarrow> json_members n acc (w @ s) = json_members n acc s"
  by (cases n) (simp_all add: json_members.simps json_key_blank)

text \<open>What may follow a value: nothing, a blank, a comma or a closing bracket.\<close>

definition delimited :: "jstring \<Rightarrow> bool" where
  "delimited r \<longleftrightarrow> r = [] \<or> json_ws (hd r) \<or> hd r \<in> u16 ` {CHR '','', CHR '']'', CHR ''}''}"

definition reads :: "jstring \<Rightarrow> jsval \<Rightarrow> bool" where
  "reads e v \<longleftrightarrow> e \<noteq> [] \<and> (\<forall>n r. length e \<le> n \<longrightarrow> delimited r \<longrightarrow> json_value n (e @ r) = Some (v, r))"

lemma readsD: "reads e v \<Longrightarrow> length e \<le> n \<Longrightarrow> delimited r \<Longrightarrow> json_value n (e @ r) = Some (v, r)"
  by (simp add: reads_def)

lemma delimited_punctuation [simp]:
  "delimited []" "delimited (u16 (CHR '','') # r)" "delimited (u16 (CHR '']'') # r)" "delimited (u16 (CHR ''}'') # r)"
  by (simp_all add: delimited_def)

lemma delimited_blank [simp]: "blank w \<Longrightarrow> delimited r \<Longrightarrow> delimited (w @ r)"
  by (cases w) (simp_all add: delimited_def blank_def)

lemma json_elements_Suc:
  assumes "json_value n s = Some (v, w @ c # r)" "blank w" "\<not> json_ws c"
  shows "json_elements (Suc n) s =
     (if c = u16 (CHR '']'') then Some ([v], r)
      else if c = u16 (CHR '','') then map_option (map_prod ((#) v) id) (json_elements n r) else None)"
  using assms by (simp add: json_elements.simps(2) skip_Cons)

lemma punctuation_no_ws [simp]:
  "\<not> json_ws (u16 (CHR '']''))" "\<not> json_ws (u16 (CHR '',''))" "\<not> json_ws (u16 (CHR ''}''))"
  "\<not> json_ws (u16 (CHR ''[''))" "\<not> json_ws (u16 (CHR ''{''))" "\<not> json_ws (u16 (CHR '':''))"
  by (simp_all add: json_ws_u16)

lemma elements_read:
  assumes "\<forall>x\<in>set xs. reads (p x) x" "xs \<noteq> []" "blank w" "blank w'"
    and "length (join (u16 (CHR '','') # w) (map p xs)) < n"
  shows "json_elements n (join (u16 (CHR '','') # w) (map p xs) @ w' @ u16 (CHR '']'') # r) = Some (xs, r)"
  using assms
proof (induction xs arbitrary: n)
  case (Cons x xs)
  then obtain m where n: "n = Suc m" by (cases n) auto
  have x: "reads (p x) x" using Cons.prems by simp
  show ?case
  proof (cases xs)
    case Nil
    then show ?thesis
      using readsD [OF x, of m "w' @ u16 (CHR '']'') # r"] Cons.prems n
      by (simp add: json_elements_Suc [of m _ x w' "u16 (CHR '']'')" r])
  next
    case (Cons y ys)
    let ?rest = "join (u16 (CHR '','') # w) (map p xs) @ w' @ u16 (CHR '']'') # r"
    have "json_value m (p x @ [] @ u16 (CHR '','') # w @ ?rest) = Some (x, [] @ u16 (CHR '','') # w @ ?rest)"
      using readsD [OF x, of m] Cons.prems n Cons by simp
    then have "json_elements (Suc m) (p x @ [] @ u16 (CHR '','') # w @ ?rest) =
        map_option (map_prod ((#) x) id) (json_elements m (w @ ?rest))"
      using json_elements_Suc [of m _ x "[]" "u16 (CHR '','')"] by (simp add: blank_def)
    moreover have "json_elements m ?rest = Some (xs, r)"
      using Cons.prems n Cons x by (intro Cons.IH) (auto simp: reads_def)
    ultimately show ?thesis using Cons Cons.prems n by (simp add: json_elements_blank)
  qed
qed simp

lemma json_key_entry: "json_key (entry_text w k e @ r) = Some (k, w @ e @ r)"
proof -
  let ?t = "u16 (CHR '':'') # w @ e @ r"
  have "entry_text w k e @ r = 34 # quote_body k @ QUOTE # ?t"
    by (simp add: entry_text_def JSON_stringify_string_def in_quotes_def QUOTE_def)
  moreover have "string_body (length (quote_body k @ QUOTE # ?t) + 1) (quote_body k @ QUOTE # ?t) = Some (k, ?t)"
    using length_quote_body [of k] by (intro string_body_quote) simp
  moreover have "skip (34 # s) = 34 # s" for s by (rule skip_Cons) (simp add: json_ws_def)
  ultimately show ?thesis by (simp add: json_key_def skip_Cons del: string_body.simps)
qed

lemma json_members_Suc:
  assumes "json_value n (e @ w @ c # r) = Some (v, w @ c # r)" "blank w" "\<not> json_ws c" "blank u"
  shows "json_members (Suc n) acc (entry_text u k e @ w @ c # r) =
     (if c = u16 (CHR ''}'') then Some (put k v acc, r)
      else if c = u16 (CHR '','') then json_members n (put k v acc) r else None)"
  using assms json_key_entry [of u k e "w @ c # r"] json_value_blank [of u n "e @ w @ c # r"]
  by (simp add: json_members.simps(2) skip_Cons)

lemma put_new: "k \<notin> fst ` set ps \<Longrightarrow> put k v ps = ps @ [(k, v)]"
  by (induction ps) auto

lemma members_read:
  assumes "\<forall>(k, v)\<in>set ps. reads (p v) v" "ps \<noteq> []" "blank w" "blank w'" "distinct (map fst (acc @ ps))" "blank u"
    and "length (join (u16 (CHR '','') # w) (map (\<lambda>(k, v). entry_text u k (p v)) ps)) < n"
  shows "json_members n acc (join (u16 (CHR '','') # w) (map (\<lambda>(k, v). entry_text u k (p v)) ps) @ w' @ u16 (CHR ''}'') # r) =
     Some (acc @ ps, r)"
  using assms
proof (induction ps arbitrary: n acc)
  case (Cons x ps)
  obtain k v where x: "x = (k, v)" by (cases x)
  from Cons.prems obtain m where n: "n = Suc m" by (cases n) auto
  have v: "reads (p v) v" using Cons.prems x by simp
  have put: "put k v acc = acc @ [(k, v)]" using Cons.prems x by (intro put_new) auto
  show ?case
  proof (cases ps)
    case Nil
    then show ?thesis
      using json_members_Suc [of m "p v" w' "u16 (CHR ''}'')" r v u acc k] readsD [OF v, of m] Cons.prems n x put
      by (simp add: entry_text_def)
  next
    case (Cons y ys)
    let ?rest = "join (u16 (CHR '','') # w) (map (\<lambda>(k, v). entry_text u k (p v)) ps) @ w' @ u16 (CHR ''}'') # r"
    have "json_members (Suc m) acc (entry_text u k (p v) @ [] @ u16 (CHR '','') # w @ ?rest) =
        json_members m (acc @ [(k, v)]) (w @ ?rest)"
      using json_members_Suc [of m "p v" "[]" "u16 (CHR '','')" "w @ ?rest" v u acc k] readsD [OF v, of m] Cons.prems n x put Cons
      by (simp add: blank_def entry_text_def)
    moreover have "json_members m (acc @ [(k, v)]) ?rest = Some ((acc @ [(k, v)]) @ ps, r)"
      using Cons.prems n Cons x by (intro Cons.IH) (auto simp: entry_text_def)
    ultimately show ?thesis using Cons Cons.prems n x by (simp add: json_members_blank)
  qed
qed simp

lemma json_value_literal:
  assumes "w = c # w'" "c \<in> set ''tfn''" "w \<in> {''null'', ''true'', ''false''}"
  shows "json_value (Suc n) (js w @ r) =
     Some (if w = ''null'' then JNull else JBool (w = ''true''), r)"
proof -
  have skip: "skip (js w @ r) = u16 c # js w' @ r"
    using assms(1,2) by (auto simp: js_Cons json_ws_u16 intro!: skip_Cons)
  have lit: "literal w v (u16 c # js w' @ r) = Some (v, r)" for v
    unfolding literal_def assms(1) by (simp add: js_Cons starts_with_def)
  show ?thesis
    unfolding json_value.simps(2) skip list.case using assms lit by (auto simp: u16_eq_numeral)
qed

lemma json_value_word:
  "json_value (Suc n) (js ''null'' @ r) = Some (JNull, r)"
  "json_value (Suc n) (js ''true'' @ r) = Some (JBool True, r)"
  "json_value (Suc n) (js ''false'' @ r) = Some (JBool False, r)"
  using json_value_literal [of "''null''" "CHR ''n''" "''ull''" n r]
    json_value_literal [of "''true''" "CHR ''t''" "''rue''" n r]
    json_value_literal [of "''false''" "CHR ''f''" "''alse''" n r]
  by simp_all

lemma readsI:
  assumes "e \<noteq> []" "\<And>n r. length e \<le> Suc n \<Longrightarrow> delimited r \<Longrightarrow> json_value (Suc n) (e @ r) = Some (v, r)"
  shows "reads e v"
  unfolding reads_def
proof (intro conjI allI impI)
  fix n r assume "length e \<le> n" "delimited r"
  with assms(1) obtain m where "n = Suc m" by (cases n) auto
  with assms(2) \<open>length e \<le> n\<close> \<open>delimited r\<close> show "json_value n (e @ r) = Some (v, r)" by simp
qed (rule assms(1))

lemma reads_word: "reads (js ''null'') JNull" "reads (if b then js ''true'' else js ''false'') (JBool b)"
  by (intro readsI; simp add: json_value_word)+

lemma reads_string: "reads (JSON_stringify_string s) (JStr s)"
proof (rule readsI)
  show "JSON_stringify_string s \<noteq> []" by (simp add: JSON_stringify_string_def in_quotes_def)
  fix n r
  have "JSON_stringify_string s @ r = 34 # quote_body s @ QUOTE # r"
    by (simp add: JSON_stringify_string_def in_quotes_def QUOTE_def)
  moreover have "string_body (length (quote_body s @ QUOTE # r) + 1) (quote_body s @ QUOTE # r) = Some (s, r)"
    using length_quote_body [of s] by (intro string_body_quote) simp
  ultimately show "json_value (Suc n) (JSON_stringify_string s @ r) = Some (JStr s, r)"
    by (simp only: json_value_string) simp
qed

lemma json_value_array:
  assumes "skip s = c # s'" "c \<noteq> u16 (CHR '']'')"
  shows "json_value (Suc n) (u16 (CHR ''['') # s) = map_option (map_prod JArr id) (json_elements n s)"
  using assms by (simp add: json_value.simps(2) skip_Cons)

lemma json_value_object:
  assumes "skip s = c # s'" "c \<noteq> u16 (CHR ''}'')"
  shows "json_value (Suc n) (u16 (CHR ''{'') # s) = map_option (map_prod (JObj \<circ> own_order) id) (json_members n [] s)"
  using assms by (simp add: json_value.simps(2) skip_Cons)

lemma json_value_empty:
  "json_value (Suc n) (u16 (CHR ''['') # u16 (CHR '']'') # r) = Some (JArr [], r)"
  "json_value (Suc n) (u16 (CHR ''{'') # u16 (CHR ''}'') # r) = Some (JObj [], r)"
  by (simp_all add: json_value.simps(2) skip_Cons)

text \<open>The first character of a printed value is no blank and no closing bracket.\<close>

definition opens :: "jstring \<Rightarrow> bool" where
  "opens e \<longleftrightarrow> (\<exists>c s. e = c # s \<and> \<not> json_ws c \<and> c \<noteq> u16 (CHR '']'') \<and> c \<noteq> u16 (CHR ''}''))"

lemma opens_Cons [simp]: "opens (c # s) \<longleftrightarrow> \<not> json_ws c \<and> c \<noteq> u16 (CHR '']'') \<and> c \<noteq> u16 (CHR ''}'')"
  by (simp add: opens_def)

lemma opens_append: "opens e \<Longrightarrow> opens (e @ s)"
  by (auto simp: opens_def)

lemma opens_string: "opens (JSON_stringify_string s)"
  by (simp add: opens_def JSON_stringify_string_def in_quotes_def QUOTE_def json_ws_def numeral_eq_u16)

lemma opens_pretty: "printable v \<Longrightarrow> opens (json_pretty numstr d v)"
  by (cases v) (auto simp: opens_string bracketed_def enclosed_def js_Cons json_ws_u16)

lemma opens_join: "es \<noteq> [] \<Longrightarrow> opens (hd es) \<Longrightarrow> opens (join sep es)"
  by (cases "(sep, es)" rule: join.cases) (auto simp: opens_append)

lemma skip_opens: "blank w \<Longrightarrow> opens e \<Longrightarrow> \<exists>c s. skip (w @ e) = c # s \<and> c \<noteq> u16 (CHR '']'') \<and> c \<noteq> u16 (CHR ''}'')"
  by (auto simp: opens_def skip_Cons)

lemma reads_array:
  assumes "\<forall>x\<in>set xs. reads (p x) x \<and> opens (p x)" "blank w" "blank w'"
  shows "reads (enclosed (CHR ''['') (CHR '']'') w w' (map p xs)) (JArr xs)"
proof (cases "xs = []")
  case True
  then show ?thesis by (auto intro!: readsI simp: enclosed_def json_value_empty)
next
  case False
  let ?j = "join (u16 (CHR '','') # w) (map p xs)"
  show ?thesis
  proof (rule readsI)
    fix n r assume n: "length (enclosed (CHR ''['') (CHR '']'') w w' (map p xs)) \<le> Suc n"
    let ?s = "?j @ w' @ u16 (CHR '']'') # r"
    have "opens ?s" using assms(1) False by (intro opens_append opens_join) (auto simp: hd_map)
    then obtain c s where "skip (w @ ?s) = c # s" "c \<noteq> u16 (CHR '']'')" using skip_opens assms(2) by metis
    moreover have "json_elements n ?s = Some (xs, r)"
      using assms False n by (intro elements_read) (auto simp: enclosed_def)
    ultimately show "json_value (Suc n) (enclosed (CHR ''['') (CHR '']'') w w' (map p xs) @ r) = Some (JArr xs, r)"
      using False json_value_array [of "w @ ?s" c s n] by (simp add: enclosed_def json_elements_blank assms(2))
  qed (simp add: enclosed_def)
qed

lemma own_order_names: "list_all (\<lambda>(k, v). array_index k = None) ps \<Longrightarrow> own_order ps = ps"
proof -
  assume ps: "list_all (\<lambda>(k, v). array_index k = None) ps"
  have "filter (\<lambda>(k, _). array_index k \<noteq> None) ps = []" "filter (\<lambda>(k, _). array_index k = None) ps = ps"
    using ps by (auto simp: list_all_iff filter_empty_conv intro!: filter_True)
  then show ?thesis by (simp add: own_order_def js_sort_def)
qed

lemma opens_entry: "opens (entry_text w k e)"
  unfolding entry_text_def by (intro opens_append opens_string)

lemma reads_object:
  assumes "\<forall>(k, v)\<in>set ps. reads (p v) v" "distinct (map fst ps)" "list_all (\<lambda>(k, v). array_index k = None) ps"
    and "blank w" "blank w'" "blank u"
  shows "reads (enclosed (CHR ''{'') (CHR ''}'') w w' (map (\<lambda>(k, v). entry_text u k (p v)) ps)) (JObj ps)"
proof (cases "ps = []")
  case True
  then show ?thesis by (auto intro!: readsI simp: enclosed_def json_value_empty)
next
  case False
  let ?es = "map (\<lambda>(k, v). entry_text u k (p v)) ps"
  let ?j = "join (u16 (CHR '','') # w) ?es"
  show ?thesis
  proof (rule readsI)
    fix n r assume n: "length (enclosed (CHR ''{'') (CHR ''}'') w w' ?es) \<le> Suc n"
    let ?s = "?j @ w' @ u16 (CHR ''}'') # r"
    have "opens ?s" using False opens_entry by (intro opens_append opens_join) (auto simp: hd_map split: prod.splits)
    then obtain c s where "skip (w @ ?s) = c # s" "c \<noteq> u16 (CHR ''}'')" using skip_opens assms(4) by metis
    moreover have "json_members n [] ?s = Some ([] @ ps, r)"
      using assms False n by (intro members_read) (auto simp: enclosed_def)
    ultimately show "json_value (Suc n) (enclosed (CHR ''{'') (CHR ''}'') w w' ?es @ r) = Some (JObj ps, r)"
      using False json_value_object [of "w @ ?s" c s n] assms(3)
      by (simp add: enclosed_def json_members_blank own_order_names assms(4))
  qed (simp add: enclosed_def)
qed

lemma printable_not_undef: "printable v \<Longrightarrow> v \<noteq> JUndef"
  by auto

lemma defined_members:
  "list_all (\<lambda>(k, v). v \<noteq> JUndef) ps \<Longrightarrow> concat (map (\<lambda>(k, v). if v = JUndef then [] else [f k v]) ps) = map (\<lambda>(k, v). f k v) ps"
  by (induction ps) auto

lemma blank_gaps [simp]: "blank []" "blank [32]"
  by (simp_all add: blank_def json_ws_def)

lemma reads_pretty: "printable v \<Longrightarrow> reads (json_pretty numstr d v) v"
proof (induction numstr d v rule: json_pretty.induct)
  case (6 numstr d xs)
  then show ?case using opens_pretty by (auto simp: list_all_iff bracketed_def intro!: reads_array)
next
  case (7 numstr d ps)
  have "list_all (\<lambda>(k, v). v \<noteq> JUndef) ps" using 7(2) printable_not_undef by (auto simp: list_all_iff)
  moreover have "reads (enclosed (CHR ''{'') (CHR ''}'') (newline (Suc d)) (newline d)
      (map (\<lambda>(k, v). entry_text [32] k (json_pretty numstr (Suc d) v)) ps)) (JObj ps)"
    using 7 printable_not_undef by (intro reads_object) (fastforce simp: list_all_iff)+
  ultimately show ?case by (simp add: defined_members bracketed_def member_text_def)
qed (use reads_word reads_string in auto)

lemma JSON_parse_reads: "reads e v \<Longrightarrow> JSON_parse e = Some v"
  using readsD [of e v "2 * length e + 2" "[]"] by (simp add: JSON_parse_def skip_def)

theorem JSON_parse_pretty: "printable v \<Longrightarrow> JSON_parse (json_pretty numstr d v) = Some v"
  by (intro JSON_parse_reads reads_pretty)

section \<open>Numbers\<close>

text \<open>A number whose text is read back as this number.\<close>

definition number_text :: "(jnum \<Rightarrow> jstring) \<Rightarrow> jnum \<Rightarrow> bool" where
  "number_text numstr n \<longleftrightarrow> (case n of Fin _ \<Rightarrow> opens (numstr n) \<and> reads (numstr n) (JNum n) | _ \<Rightarrow> False)"

lemma show_nat_leading: "hd (show_nat n) = u16 (CHR ''0'') \<Longrightarrow> n = 0"
proof (induction n rule: show_nat.induct)
  case (1 n)
  show ?case
  proof (cases "n < 10")
    case True
    then have "digit_char n = u16 (CHR ''0'')" using 1(2) by (simp add: show_nat.simps [of n])
    then have "48 + n = (48::nat)" using unat_digit_char [OF True] unat_u16 [of "CHR ''0''"] by simp
    then show ?thesis by simp
  next
    case False
    then have "hd (show_nat n) = hd (show_nat (n div 10))" by (subst show_nat.simps) simp
    then show ?thesis using 1 False by auto
  qed
qed

lemma delimited_digits:
  "delimited r \<Longrightarrow> r = [] \<or> \<not> is_digit (hd r) \<and> hd r \<noteq> u16 (CHR ''.'') \<and> hd r \<noteq> u16 (CHR ''e'') \<and> hd r \<noteq> u16 (CHR ''E'')"
  by (auto simp: delimited_def json_ws_def is_digit_def numeral_eq_u16 unat_u16 u16_eq_numeral)

lemma json_number_nat:
  assumes "delimited r"
  shows "json_number (show_nat k @ r) = Some (rnd (of_nat k), r)"
proof -
  obtain c cs where c: "show_nat k = c # cs" "is_digit c" using show_nat_hd by blast
  have d: "c \<noteq> u16 (CHR ''-'')" using c(2) by (auto simp: is_digit_u16)
  have z: "c = u16 (CHR ''0'') \<Longrightarrow> cs = []" using show_nat_leading [of k] c(1) by (auto simp: show_nat.simps [of 0])
  have "span_while is_digit (show_nat k @ r) = (show_nat k, r)" using delimited_digits [OF assms] by (intro span_digits) auto
  then show ?thesis using delimited_digits [OF assms] c(1) d z parse_dec_show_nat [of k]
    by (cases r) (auto simp: json_number_def exponent_part_def pow10_def)
qed

lemma number_text_nat:
  assumes "numstr (jint (int k)) = show_nat k" "int k \<le> max_safe"
  shows "number_text numstr (jint (int k))"
proof -
  obtain c cs where c: "show_nat k = c # cs" "is_digit c" using show_nat_hd by blast
  have "opens (show_nat k)" using c by (auto simp: json_ws_def is_digit_def unat_u16)
  moreover have "reads (show_nat k) (JNum (jint (int k)))"
  proof (rule readsI)
    fix n r assume "delimited r"
    moreover have "skip (show_nat k @ r) = show_nat k @ r" using \<open>opens (show_nat k)\<close> c by (simp add: skip_Cons)
    moreover have "rnd (of_nat k) = jint (int k)" using assms(2) rnd_of_int [of "int k"] by (simp add: jint_def)
    ultimately show "json_value (Suc n) (show_nat k @ r) = Some (JNum (jint (int k)), r)"
      using json_number_nat [of r k] c by (auto simp: json_value.simps(2) is_digit_def unat_u16)
  qed simp
  ultimately show ?thesis using assms(1) by (simp add: number_text_def jint_def)
qed

fun storable :: "(jnum \<Rightarrow> jstring) \<Rightarrow> jsval \<Rightarrow> bool" where
  "storable numstr JUndef = False"
| "storable numstr JNull = True"
| "storable numstr (JBool _) = True"
| "storable numstr (JNum n) = number_text numstr n"
| "storable numstr (JStr _) = True"
| "storable numstr (JArr xs) = list_all (storable numstr) xs"
| "storable numstr (JObj ps) = (distinct (map fst ps) \<and> list_all (\<lambda>(k, v). array_index k = None \<and> storable numstr v) ps)"

lemma opens_stringify: "storable numstr v \<Longrightarrow> opens (JSON_stringify numstr v)"
  by (cases v) (auto simp: opens_string enclosed_def js_Cons json_ws_u16 number_text_def split: jnum.splits)

lemma reads_stringify: "storable numstr v \<Longrightarrow> reads (JSON_stringify numstr v) v"
proof (induction numstr v rule: JSON_stringify.induct)
  case (4 numstr n)
  then show ?case by (auto simp: number_text_def split: jnum.splits)
next
  case (6 numstr xs)
  then show ?case using opens_stringify by (auto simp: list_all_iff intro!: reads_array)
next
  case (7 numstr ps)
  have def: "list_all (\<lambda>(k, v). v \<noteq> JUndef) ps" using 7(2) by (auto simp: list_all_iff)
  have "\<forall>(k, v)\<in>set ps. reads (JSON_stringify numstr v) v" using 7 def by (fastforce simp: list_all_iff)
  then have "reads (enclosed (CHR ''{'') (CHR ''}'') [] [] (map (\<lambda>(k, v). entry_text [] k (JSON_stringify numstr v)) ps)) (JObj ps)"
    using 7(2) by (intro reads_object) (auto simp: list_all_iff)
  then show ?case using def by (simp add: defined_members)
qed (use reads_word reads_string in auto)

theorem JSON_parse_stringified: "storable numstr v \<Longrightarrow> JSON_parse (JSON_stringify numstr v) = Some v"
  by (intro JSON_parse_reads reads_stringify)

end
