(* ===== verification/Billing_Rules.thy ===== *)
theory Billing_Rules
  imports JS_Stringify "HOL-Library.Monad_Syntax"
begin

text \<open>
  Request rules of billing expressions (\<open>web/src/features/pricing/lib/billing-expr.ts\<close>):
  a billing expression is a base expression times factors \<open>(condition ? multiplier : 1)\<close>.
  The editor builds the text of the factors from its groups of conditions, and reads the
  text back into groups.

  The regular expressions of the source are anchored, and each of their repetitions is
  followed by a character that it cannot consume, so they are read from left to right
  without backtracking; the one greedy prefix is read from the right.
  \<open>numstr\<close> is the conversion of a number to a string.
\<close>

section \<open>Conditions\<close>

definition TIME_FUNCS :: "jstring list" where
  "TIME_FUNCS = [js ''hour'', js ''minute'', js ''weekday'', js ''month'', js ''day'']"

datatype RequestCondition =
    TimeCondition (timeFunc: jstring) (timezone: jstring) (tc_mode: jstring) (tc_value: jstring)
      (rangeStart: jstring) (rangeEnd: jstring)
  | ParamHeaderCondition (is_header: bool) (ph_path: jstring) (ph_mode: jstring) (ph_value: jstring)

record RequestRuleGroup =
  conditions :: "RequestCondition list"
  multiplier :: jstring
  conditionText :: "jstring option"
  matched :: "bool option"

record RequestRuleTrace =
  trace_cond :: jstring
  trace_multiplier :: jnum
  trace_matched :: bool

section \<open>Literals\<close>

text \<open>\<open>/^-?(?:\d+\.?\d*|\.\d+)(?:[eE][+-]?\d+)?$/\<close>\<close>

definition mantissa_rest :: "jstring \<Rightarrow> jstring option" where
  "mantissa_rest s =
     (let (ip, r) = span_while is_digit s in
      case r of
        c # r' \<Rightarrow>
          if c = u16 (CHR ''.'')
          then let (fp, r'') = span_while is_digit r' in if ip = [] \<and> fp = [] then None else Some r''
          else if ip = [] then None else Some r
      | [] \<Rightarrow> if ip = [] then None else Some [])"

definition exponent_ok :: "jstring \<Rightarrow> bool" where
  "exponent_ok r =
     (case r of
        [] \<Rightarrow> True
      | c # r1 \<Rightarrow>
          (c = u16 (CHR ''e'') \<or> c = u16 (CHR ''E'')) \<and>
          (let r2 = (case r1 of d # ds \<Rightarrow> if d = u16 (CHR ''+'') \<or> d = u16 (CHR ''-'') then ds else r1 | [] \<Rightarrow> r1)
           in r2 \<noteq> [] \<and> list_all is_digit r2))"

definition NUMERIC_LITERAL_REGEX :: "jstring \<Rightarrow> bool" where
  "NUMERIC_LITERAL_REGEX s =
     (let t = (case s of c # r \<Rightarrow> if c = u16 (CHR ''-'') then r else s | [] \<Rightarrow> s)
      in case mantissa_rest t of None \<Rightarrow> False | Some r \<Rightarrow> exponent_ok r)"

text \<open>\<open>String(v)\<close> of a parsed value.\<close>

fun js_String :: "(jnum \<Rightarrow> jstring) \<Rightarrow> jsval \<Rightarrow> jstring" where
  "js_String numstr JUndef = js ''undefined''"
| "js_String numstr JNull = js ''null''"
| "js_String numstr (JBool b) = (if b then js ''true'' else js ''false'')"
| "js_String numstr (JNum n) = numstr n"
| "js_String numstr (JStr s) = s"
| "js_String numstr (JArr xs) = join (js '','')
     (map (\<lambda>x. if x = JNull \<or> x = JUndef then [] else js_String numstr x) xs)"
| "js_String numstr (JObj _) = js ''[object Object]''"

definition parseExprLiteral :: "jstring \<Rightarrow> jsval option" where
  "parseExprLiteral raw =
     (let text = jtrim raw in
      if text = js ''true'' \<or> text = js ''false'' then Some (JStr text)
      else if NUMERIC_LITERAL_REGEX text then Some (JStr text)
      else (case JSON_parse text of
              None \<Rightarrow> None
            | Some v \<Rightarrow> if v = JNull then None else Some v))"

section \<open>Splitting at the top level\<close>

text \<open>
  The loop of \<open>splitTopLevelMultiply\<close> and \<open>splitTopLevelAnd\<close>: \<open>cur\<close> is the part since
  \<open>start\<close>.
\<close>

definition paren_depth :: "jchar \<Rightarrow> int" where
  "paren_depth c = (if c = u16 (CHR ''('') then 1 else if c = u16 (CHR '')'') then - 1 else 0)"

function split_loop :: "jstring \<Rightarrow> int \<Rightarrow> jstring \<Rightarrow> jstring \<Rightarrow> jstring list" where
  "split_loop sep depth cur [] = [jtrim cur]"
| "split_loop sep depth cur (c # s) =
     (let depth = depth + paren_depth c in
      if depth = 0 \<and> sep \<noteq> [] \<and> starts_with sep (c # s)
      then jtrim cur # split_loop sep depth [] (drop (length sep) (c # s))
      else split_loop sep depth (cur @ [c]) s)"
  by pat_completeness auto

termination
  by (relation "measure (\<lambda>(sep, _, _, s). length s)") auto

definition split_top :: "jstring \<Rightarrow> jstring \<Rightarrow> jstring list" where
  "split_top sep expr = filter (\<lambda>p. p \<noteq> []) (split_loop sep 0 [] expr)"

definition splitTopLevelMultiply :: "jstring \<Rightarrow> jstring list" where
  "splitTopLevelMultiply expr = split_top (js '' * '') expr"

definition splitTopLevelAnd :: "jstring \<Rightarrow> jstring list" where
  "splitTopLevelAnd expr = split_top (js '' && '') expr"

section \<open>Reading conditions\<close>

text \<open>The pieces of the regular expressions: a literal, \<open>("([^"]+)")\<close>, \<open>[\d.eE+-]+\<close>, the end.\<close>

definition strip :: "jstring \<Rightarrow> jstring \<Rightarrow> jstring option" where
  "strip p s = (if starts_with p s then Some (drop (length p) s) else None)"

definition quoted :: "jstring \<Rightarrow> (jstring \<times> jstring) option" where
  "quoted s = do {
     r \<leftarrow> strip [QUOTE] s;
     let (body, r') = span_while (\<lambda>c. c \<noteq> QUOTE) r;
     r'' \<leftarrow> strip [QUOTE] r';
     if body = [] then None else Some (body, r'') }"

definition quoted_arg :: "jstring \<Rightarrow> (jstring \<times> jstring) option" where
  "quoted_arg s = do {
     r \<leftarrow> strip (js ''('') s;
     (a, r') \<leftarrow> quoted r;
     r'' \<leftarrow> strip (js '')'') r';
     Some (a, r'') }"

definition number_char :: "jchar \<Rightarrow> bool" where
  "number_char c \<longleftrightarrow> is_digit c \<or> c \<in> set (js ''.eE+-'')"

definition number_run :: "jstring \<Rightarrow> (jstring \<times> jstring) option" where
  "number_run s = (let (n, r) = span_while number_char s in if n = [] then None else Some (n, r))"

definition at_end :: "jstring \<Rightarrow> 'a \<Rightarrow> 'a option" where
  "at_end r x = (if r = [] then Some x else None)"

fun first_of :: "('a \<Rightarrow> 'b option) \<Rightarrow> 'a list \<Rightarrow> 'b option" where
  "first_of f [] = None"
| "first_of f (x # xs) = (case f x of Some y \<Rightarrow> Some y | None \<Rightarrow> first_of f xs)"

definition time_call :: "jstring \<Rightarrow> (jstring \<times> jstring \<times> jstring) option" where
  "time_call s = first_of (\<lambda>f. do { r \<leftarrow> strip f s; (z, r') \<leftarrow> quoted_arg r; Some (f, z, r') }) TIME_FUNCS"

definition time_range :: "jstring \<Rightarrow> (RequestCondition \<times> jstring) option" where
  "time_range s = do {
     (f, z, r) \<leftarrow> time_call s;
     r \<leftarrow> strip (js '' >= '') r;
     (a, r) \<leftarrow> number_run r;
     r \<leftarrow> strip (js '' || '') r;
     r \<leftarrow> strip (f @ js ''('' @ in_quotes z @ js '')'') r;
     r \<leftarrow> strip (js '' < '') r;
     (b, r) \<leftarrow> number_run r;
     Some (TimeCondition f z (js ''range'') [] a b, r) }"

definition time_compare :: "jstring \<Rightarrow> RequestCondition option" where
  "time_compare s = do {
     (f, z, r) \<leftarrow> time_call s;
     (mode, r) \<leftarrow> first_of (\<lambda>(tok, mode). map_option (Pair mode) (strip tok r))
       [(js '' == '', js ''eq''), (js '' >= '', js ''gte''), (js '' < '', js ''lt'')];
     (v, r) \<leftarrow> number_run r;
     at_end r (TimeCondition f z mode v [] []) }"

definition tryParseTimeCondition :: "jstring \<Rightarrow> RequestCondition option" where
  "tryParseTimeCondition expr =
     (case Option.bind (time_range expr) (\<lambda>(c, r). at_end r c) of
        Some c \<Rightarrow> Some c
      | None \<Rightarrow>
          (case do { r \<leftarrow> strip (js ''('') expr; (c, r) \<leftarrow> time_range r; r \<leftarrow> strip (js '')'') r; at_end r c } of
             Some c \<Rightarrow> Some c
           | None \<Rightarrow> time_compare expr))"

text \<open>\<open>"(?:[^"\\]|\\.)*"\<close>: the literal with its quotes, and the rest.\<close>

fun literal_body :: "jstring \<Rightarrow> (jstring \<times> jstring) option" where
  "literal_body [] = None"
| "literal_body (c # s) =
     (if c = QUOTE then Some ([c], s)
      else if c = 92 then
        (case s of
           d # s' \<Rightarrow> if d = 10 \<or> d = 13 \<or> d = 0x2028 \<or> d = 0x2029 then None
                     else map_option (map_prod ((@) [c, d]) id) (literal_body s')
         | [] \<Rightarrow> None)
      else map_option (map_prod ((#) c) id) (literal_body s))"

definition string_literal :: "jstring \<Rightarrow> (jstring \<times> jstring) option" where
  "string_literal s = do { r \<leftarrow> strip [QUOTE] s; (b, r') \<leftarrow> literal_body r; Some (QUOTE # b, r') }"

text \<open>What reading a condition comes to; \<open>JSON.parse\<close> of a matched literal may throw.\<close>

datatype 'a parse = Throws | NoMatch | Matched 'a

definition parsed_literal :: "jstring \<Rightarrow> (jstring \<Rightarrow> 'a) \<Rightarrow> 'a parse" where
  "parsed_literal l f = (case JSON_parse l of None \<Rightarrow> Throws | Some v \<Rightarrow> Matched (f (the_str v)))"

definition header_exists :: "jstring \<Rightarrow> RequestCondition option" where
  "header_exists s = do {
     r \<leftarrow> strip (js ''header'') s; (path, r) \<leftarrow> quoted_arg r;
     r \<leftarrow> strip (js '' != '' @ in_quotes []) r;
     at_end r (ParamHeaderCondition True path (js ''exists'') []) }"

definition param_exists :: "jstring \<Rightarrow> RequestCondition option" where
  "param_exists s = do {
     r \<leftarrow> strip (js ''param'') s; (path, r) \<leftarrow> quoted_arg r;
     r \<leftarrow> strip (js '' != nil'') r;
     at_end r (ParamHeaderCondition False path (js ''exists'') []) }"

definition header_contains :: "jstring \<Rightarrow> (jstring \<times> jstring) option" where
  "header_contains s = do {
     r \<leftarrow> strip (js ''has(header'') s; (path, r) \<leftarrow> quoted_arg r;
     r \<leftarrow> strip (js '', '') r; (l, r) \<leftarrow> string_literal r; r \<leftarrow> strip (js '')'') r;
     at_end r (path, l) }"

definition param_guard :: "jstring \<Rightarrow> (jstring \<times> jstring) option" where
  "param_guard s = do {
     r \<leftarrow> strip (js ''param'') s; (path, r) \<leftarrow> quoted_arg r;
     r \<leftarrow> strip (js '' != nil && '') r;
     Some (path, r) }"

definition param_contains :: "jstring \<Rightarrow> (jstring \<times> jstring) option" where
  "param_contains s = do {
     (path, r) \<leftarrow> param_guard s;
     r \<leftarrow> strip (js ''has(param'') r; (path', r) \<leftarrow> quoted_arg r;
     r \<leftarrow> strip (js '', '') r; (l, r) \<leftarrow> string_literal r; r \<leftarrow> strip (js '')'') r;
     if path = path' then at_end r (path, l) else None }"

definition param_compare :: "jstring \<Rightarrow> RequestCondition option" where
  "param_compare s = do {
     (path, r) \<leftarrow> param_guard s;
     r \<leftarrow> strip (js ''param'') r; (path', r) \<leftarrow> quoted_arg r;
     (mode, r) \<leftarrow> first_of (\<lambda>(tok, mode). map_option (Pair mode) (strip tok r))
       [(js '' > '', js ''gt''), (js '' >= '', js ''gte''), (js '' < '', js ''lt''), (js '' <= '', js ''lte'')];
     (v, r) \<leftarrow> number_run r;
     if path = path' then at_end r (ParamHeaderCondition False path mode v) else None }"

definition equals_literal :: "jstring \<Rightarrow> (bool \<times> jstring \<times> jstring) option" where
  "equals_literal s = do {
     (header, r) \<leftarrow> first_of (\<lambda>(tok, h). map_option (Pair h) (strip tok s)) [(js ''param'', False), (js ''header'', True)];
     (path, r) \<leftarrow> quoted_arg r;
     r \<leftarrow> strip (js '' == '') r;
     if r = [] \<or> \<not> list_all (\<lambda>c. c \<noteq> 10 \<and> c \<noteq> 13 \<and> c \<noteq> 0x2028 \<and> c \<noteq> 0x2029) r then None
     else Some (header, path, r) }"

fun or_parse :: "'a option \<Rightarrow> 'a parse \<Rightarrow> 'a parse" where
  "or_parse (Some x) _ = Matched x"
| "or_parse None p = p"

definition tryParseRequestCondition :: "(jnum \<Rightarrow> jstring) \<Rightarrow> jstring \<Rightarrow> RequestCondition parse" where
  "tryParseRequestCondition numstr expr =
     or_parse (tryParseTimeCondition expr) (or_parse (header_exists expr) (or_parse (param_exists expr)
       (case header_contains expr of
          Some (path, l) \<Rightarrow> parsed_literal l (ParamHeaderCondition True path (js ''contains''))
        | None \<Rightarrow>
       (case param_contains expr of
          Some (path, l) \<Rightarrow> parsed_literal l (ParamHeaderCondition False path (js ''contains''))
        | None \<Rightarrow> or_parse (param_compare expr)
       (case equals_literal expr of
          Some (header, path, l) \<Rightarrow>
            (case parseExprLiteral l of
               None \<Rightarrow> NoMatch
             | Some v \<Rightarrow> Matched (ParamHeaderCondition header path (js ''eq'') (js_String numstr v)))
        | None \<Rightarrow> NoMatch)))))"

fun parse_each :: "('a \<Rightarrow> 'b parse) \<Rightarrow> 'a list \<Rightarrow> 'b list parse" where
  "parse_each f [] = Matched []"
| "parse_each f (x # xs) =
     (case f x of
        Throws \<Rightarrow> Throws
      | NoMatch \<Rightarrow> NoMatch
      | Matched y \<Rightarrow>
          (case parse_each f xs of Throws \<Rightarrow> Throws | NoMatch \<Rightarrow> NoMatch | Matched ys \<Rightarrow> Matched (y # ys)))"

definition tryParseRequestConditions :: "(jnum \<Rightarrow> jstring) \<Rightarrow> jstring \<Rightarrow> RequestCondition list parse" where
  "tryParseRequestConditions numstr conditionStr =
     (case parse_each (\<lambda>p. tryParseRequestCondition numstr (jtrim p)) (splitTopLevelAnd conditionStr) of
        Throws \<Rightarrow> Throws
      | NoMatch \<Rightarrow> NoMatch
      | Matched cs \<Rightarrow> if cs = [] then NoMatch else Matched cs)"

text \<open>
  \<open>/^\((.+) \? ([\d.eE+-]+) : 1\)$/s\<close>: the number is the run of its characters before
  \<open> : 1)\<close>, as a blank comes before it.
\<close>

definition rule_factor :: "jstring \<Rightarrow> (jstring \<times> jstring) option" where
  "rule_factor part = do {
     r \<leftarrow> strip (js ''('') part;
     r \<leftarrow> strip (rev (js '' : 1)'')) (rev r);
     (n, r) \<leftarrow> number_run r;
     r \<leftarrow> strip (rev (js '' ? '')) r;
     if r = [] then None else Some (rev r, rev n) }"

definition tryParseRuleGroupFactor :: "(jnum \<Rightarrow> jstring) \<Rightarrow> jstring \<Rightarrow> RequestRuleGroup parse" where
  "tryParseRuleGroupFactor numstr part =
     (case rule_factor part of
        None \<Rightarrow> NoMatch
      | Some (cond, m) \<Rightarrow>
          (case tryParseRequestConditions numstr cond of
             Throws \<Rightarrow> Throws
           | NoMatch \<Rightarrow> NoMatch
           | Matched cs \<Rightarrow> Matched \<lparr>conditions = cs, multiplier = m, conditionText = None, matched = None\<rparr>))"

text \<open>\<open>Throws\<close> when reading a condition does.\<close>

definition requestRuleGroupsFromTrace :: "(jnum \<Rightarrow> jstring) \<Rightarrow> RequestRuleTrace list \<Rightarrow> RequestRuleGroup list parse" where
  "requestRuleGroupsFromTrace numstr rules = parse_each (\<lambda>rule.
     let text = jtrim (trace_cond rule);
         group = (\<lambda>cs. \<lparr>conditions = cs, multiplier = numstr (trace_multiplier rule),
                    conditionText = Some text, matched = Some (trace_matched rule)\<rparr>)
     in (case tryParseRequestConditions numstr text of
           Throws \<Rightarrow> Throws | NoMatch \<Rightarrow> Matched (group []) | Matched cs \<Rightarrow> Matched (group cs))) rules"

definition tryParseRequestRuleExpr :: "(jnum \<Rightarrow> jstring) \<Rightarrow> jstring \<Rightarrow> RequestRuleGroup list parse" where
  "tryParseRequestRuleExpr numstr expr =
     (let trimmed = jtrim expr in
      if trimmed = [] then Matched []
      else parse_each (tryParseRuleGroupFactor numstr) (splitTopLevelMultiply trimmed))"

section \<open>Combining and splitting\<close>

text \<open>The loop of \<open>hasFullOuterParens\<close>: the depth returns to zero only at the last character.\<close>

fun outer_loop :: "int \<Rightarrow> jstring \<Rightarrow> bool" where
  "outer_loop depth [] \<longleftrightarrow> depth = 0"
| "outer_loop depth (c # s) \<longleftrightarrow>
     (let depth = depth + paren_depth c in \<not> (depth = 0 \<and> s \<noteq> []) \<and> outer_loop depth s)"

definition hasFullOuterParens :: "jstring \<Rightarrow> bool" where
  "hasFullOuterParens expr \<longleftrightarrow>
     starts_with (js ''('') expr \<and> ends_with (js '')'') expr \<and> outer_loop 0 expr"

text \<open>\<open>current.slice(1, -1)\<close>\<close>

definition inner_slice :: "jstring \<Rightarrow> jstring" where
  "inner_slice s = butlast (drop 1 s)"

function unwrap_loop :: "jstring \<Rightarrow> jstring" where
  "unwrap_loop cur = (if hasFullOuterParens cur then unwrap_loop (jtrim (inner_slice cur)) else cur)"
  by pat_completeness auto

termination
proof (relation "measure length")
  fix cur assume "hasFullOuterParens cur"
  then have "cur \<noteq> []" by (auto simp: hasFullOuterParens_def starts_with_def)
  then show "(jtrim (inner_slice cur), cur) \<in> measure length"
    using length_jtrim_le [of "inner_slice cur"] by (cases cur) (auto simp: inner_slice_def)
qed simp

definition unwrapOuterParens :: "jstring \<Rightarrow> jstring" where
  "unwrapOuterParens expr = unwrap_loop (jtrim expr)"

record SplitBilling =
  billingExpr :: jstring
  requestRuleExpr :: jstring

text \<open>Whether reading a part as rules gives at least one group; \<open>None\<close> when it throws.\<close>

definition is_rule_part :: "(jnum \<Rightarrow> jstring) \<Rightarrow> jstring \<Rightarrow> bool option" where
  "is_rule_part numstr part =
     (case tryParseRequestRuleExpr numstr part of
        Throws \<Rightarrow> None | NoMatch \<Rightarrow> Some False | Matched gs \<Rightarrow> Some (gs \<noteq> []))"

fun sort_parts :: "(jstring \<Rightarrow> bool option) \<Rightarrow> jstring list \<Rightarrow> (jstring list \<times> jstring list) option" where
  "sort_parts f [] = Some ([], [])"
| "sort_parts f (p # ps) = do {
     b \<leftarrow> f p;
     (rules, bases) \<leftarrow> sort_parts f ps;
     Some (if b then (p # rules, bases) else (rules, p # bases)) }"

definition splitBillingExprAndRequestRules :: "(jnum \<Rightarrow> jstring) \<Rightarrow> jstring \<Rightarrow> SplitBilling option" where
  "splitBillingExprAndRequestRules numstr expr =
     (let trimmed = jtrim expr; parts = splitTopLevelMultiply trimmed;
          whole = \<lparr>billingExpr = trimmed, requestRuleExpr = []\<rparr> in
      if trimmed = [] then Some \<lparr>billingExpr = [], requestRuleExpr = []\<rparr>
      else if length parts \<le> 1 then Some whole
      else do {
        (ruleParts, baseParts) \<leftarrow> sort_parts (is_rule_part numstr) parts;
        Some (if ruleParts = [] \<or> length baseParts \<noteq> 1 then whole
              else \<lparr>billingExpr = unwrapOuterParens (baseParts ! 0),
                    requestRuleExpr = join (js '' * '') ruleParts\<rparr>) })"

definition combineBillingExpr :: "jstring \<Rightarrow> jstring \<Rightarrow> jstring" where
  "combineBillingExpr baseExpr rulesExpr =
     (let base = jtrim baseExpr; rules = jtrim rulesExpr in
      if base = [] then [] else if rules = [] then base
      else js ''('' @ base @ js '') * '' @ rules)"

section \<open>The editor\<close>

definition createEmptyCondition :: RequestCondition where
  "createEmptyCondition = ParamHeaderCondition False [] (js ''eq'') []"

definition createEmptyTimeCondition :: RequestCondition where
  "createEmptyTimeCondition = TimeCondition (js ''hour'') (js ''Asia/Shanghai'') (js ''gte'') [] [] []"

definition createEmptyRuleGroup :: RequestRuleGroup where
  "createEmptyRuleGroup =
     \<lparr>conditions = [createEmptyCondition], multiplier = [], conditionText = None, matched = None\<rparr>"

definition createEmptyTimeRuleGroup :: RequestRuleGroup where
  "createEmptyTimeRuleGroup =
     \<lparr>conditions = [createEmptyTimeCondition], multiplier = [], conditionText = None, matched = None\<rparr>"

definition getRequestRuleMatchOptions :: "jstring \<Rightarrow> (jstring \<times> jstring) list" where
  "getRequestRuleMatchOptions source =
     (let base = [(js ''eq'', js ''Equals''), (js ''contains'', js ''Contains''), (js ''exists'', js ''Exists'')] in
      if source = js ''time'' then
        [(js ''eq'', js ''Equals''), (js ''gte'', js ''Greater than or equal''),
         (js ''lt'', js ''Less than''), (js ''range'', js ''Overnight range'')]
      else if source = js ''header'' then base
      else base @ [(js ''gt'', js ''Greater than''), (js ''gte'', js ''Greater than or equal''),
                   (js ''lt'', js ''Less than''), (js ''lte'', js ''Less than or equal'')])"

text \<open>A partial condition: the fields an object of the union may have, each possibly absent.\<close>

record PartialCondition =
  raw_source :: "jstring option"
  raw_timeFunc :: "jstring option"
  raw_timezone :: "jstring option"
  raw_mode :: "jstring option"
  raw_value :: "jstring option"
  raw_rangeStart :: "jstring option"
  raw_rangeEnd :: "jstring option"
  raw_path :: "jstring option"

definition isTimeFunc :: "jstring option \<Rightarrow> bool" where
  "isTimeFunc v = (case v of None \<Rightarrow> False | Some f \<Rightarrow> f \<in> set TIME_FUNCS)"

definition or_empty :: "jstring option \<Rightarrow> jstring" where
  "or_empty v = (case v of None \<Rightarrow> [] | Some s \<Rightarrow> s)"

definition mode_or :: "jstring \<Rightarrow> jstring \<Rightarrow> jstring option \<Rightarrow> jstring" where
  "mode_or source def m =
     (case m of None \<Rightarrow> def
      | Some mode \<Rightarrow> if mode \<in> fst ` set (getRequestRuleMatchOptions source) then mode else def)"

definition normalizeCondition :: "PartialCondition \<Rightarrow> RequestCondition" where
  "normalizeCondition c =
     (if raw_source c = Some (js ''time'') then
        TimeCondition (if isTimeFunc (raw_timeFunc c) then or_empty (raw_timeFunc c) else js ''hour'')
          (if or_empty (raw_timezone c) = [] then js ''Asia/Shanghai'' else or_empty (raw_timezone c))
          (mode_or (js ''time'') (js ''gte'') (raw_mode c))
          (or_empty (raw_value c)) (or_empty (raw_rangeStart c)) (or_empty (raw_rangeEnd c))
      else
        (let source = (if raw_source c = Some (js ''header'') then js ''header'' else js ''param'') in
         ParamHeaderCondition (source = js ''header'') (or_empty (raw_path c))
           (mode_or source (js ''eq'') (raw_mode c)) (or_empty (raw_value c))))"

fun as_partial :: "RequestCondition \<Rightarrow> PartialCondition" where
  "as_partial (TimeCondition f z m v a b) =
     \<lparr>raw_source = Some (js ''time''), raw_timeFunc = Some f, raw_timezone = Some z, raw_mode = Some m,
      raw_value = Some v, raw_rangeStart = Some a, raw_rangeEnd = Some b, raw_path = None\<rparr>"
| "as_partial (ParamHeaderCondition h p m v) =
     \<lparr>raw_source = Some (if h then js ''header'' else js ''param''), raw_timeFunc = None,
      raw_timezone = None, raw_mode = Some m, raw_value = Some v, raw_rangeStart = None,
      raw_rangeEnd = None, raw_path = Some p\<rparr>"

section \<open>Building the text\<close>

definition buildExprLiteral :: "jstring \<Rightarrow> jstring \<Rightarrow> jstring" where
  "buildExprLiteral mode v =
     (let text = jtrim v in
      if mode = js ''contains'' then JSON_stringify_string text
      else if text = js ''true'' \<or> text = js ''false'' then text
      else if NUMERIC_LITERAL_REGEX text then text
      else JSON_stringify_string text)"

definition buildTimeConditionExpr :: "RequestCondition \<Rightarrow> jstring" where
  "buildTimeConditionExpr cond =
     (case normalizeCondition (as_partial cond) of
        TimeCondition f z mode v a b \<Rightarrow>
          (let fn = f @ js ''('' @ JSON_stringify_string z @ js '')'' in
           if mode = js ''range'' then
             (let s = jtrim a; e = jtrim b in
              if \<not> NUMERIC_LITERAL_REGEX s \<or> \<not> NUMERIC_LITERAL_REGEX e then []
              else fn @ js '' >= '' @ s @ js '' || '' @ fn @ js '' < '' @ e)
           else
             (let v = jtrim v in
              if \<not> NUMERIC_LITERAL_REGEX v then []
              else fn @ js '' '' @
                (if mode = js ''eq'' then js ''=='' else if mode = js ''gte'' then js ''>=''
                 else if mode = js ''lt'' then js ''<'' else js ''=='') @ js '' '' @ v))
      | ParamHeaderCondition _ _ _ _ \<Rightarrow> [])"

definition source_expr :: "bool \<Rightarrow> jstring \<Rightarrow> jstring" where
  "source_expr h path = (if h then js ''header('' else js ''param('') @ JSON_stringify_string path @ js '')''"

definition compare_ops :: "(jstring \<times> jstring) list" where
  "compare_ops = [(js ''gt'', js ''>''), (js ''gte'', js ''>=''), (js ''lt'', js ''<''), (js ''lte'', js ''<='')]"

definition buildRequestConditionExpr :: "RequestCondition \<Rightarrow> jstring" where
  "buildRequestConditionExpr cond =
     (case (cond, normalizeCondition (as_partial cond)) of
        (TimeCondition _ _ _ _ _ _, _) \<Rightarrow> buildTimeConditionExpr cond
      | (_, TimeCondition _ _ _ _ _ _) \<Rightarrow> []
      | (_, ParamHeaderCondition h p mode v) \<Rightarrow>
          (let path = jtrim p; src = source_expr h path in
           if path = [] then []
           else if mode = js ''exists'' then src @ (if h then js '' != '' @ in_quotes [] else js '' != nil'')
           else if mode = js ''contains'' then
             (if h then [] else src @ js '' != nil && '') @
             js ''has('' @ src @ js '', '' @ buildExprLiteral mode v @ js '')''
           else
             (case map_of compare_ops mode of
                Some oper \<Rightarrow>
                  (let numText = jtrim v in
                   if \<not> NUMERIC_LITERAL_REGEX numText then []
                   else src @ js '' != nil && '' @ src @ js '' '' @ oper @ js '' '' @ numText)
              | None \<Rightarrow> src @ js '' == '' @ buildExprLiteral mode v)))"

definition buildRuleGroupFactor :: "RequestRuleGroup \<Rightarrow> jstring" where
  "buildRuleGroupFactor g =
     (let m = jtrim (multiplier g);
          condExprs = filter (\<lambda>e. e \<noteq> []) (map buildRequestConditionExpr (conditions g));
          combined = (if length condExprs = 1 then condExprs ! 0
                      else join (js '' && '')
                        (map (\<lambda>e. if str_includes (js '' || '') e then js ''('' @ e @ js '')'' else e) condExprs))
      in if \<not> NUMERIC_LITERAL_REGEX m then [] else if condExprs = [] then []
         else js ''('' @ combined @ js '' ? '' @ m @ js '' : 1)'')"

definition buildRequestRuleExpr :: "RequestRuleGroup list \<Rightarrow> jstring" where
  "buildRequestRuleExpr gs = join (js '' * '') (filter (\<lambda>e. e \<noteq> []) (map buildRuleGroupFactor gs))"

end
