(* ===== verification/Billing_Text.thy ===== *)
theory Billing_Text
  imports Billing_Rules
begin

text \<open>
  Laws of the texts that request rules are read from: parenthesis depth, splitting at the
  top level, string and number literals.
\<close>

section \<open>Depth of parentheses\<close>

definition depth_of :: "jstring \<Rightarrow> int" where
  "depth_of s = sum_list (map paren_depth s)"

lemma depth_of_simps [simp]:
  "depth_of [] = 0" "depth_of (c # s) = paren_depth c + depth_of s" "depth_of (s @ t) = depth_of s + depth_of t"
  by (simp_all add: depth_of_def)

text \<open>The depth stays positive from a start depth on.\<close>

fun nested :: "int \<Rightarrow> jstring \<Rightarrow> bool" where
  "nested d [] \<longleftrightarrow> True"
| "nested d (c # s) \<longleftrightarrow> 0 < d + paren_depth c \<and> nested (d + paren_depth c) s"

lemma nested_append [simp]: "nested d (s @ t) \<longleftrightarrow> nested d s \<and> nested (d + depth_of s) t"
  by (induction s arbitrary: d) (auto simp: add.assoc)

lemma nested_mono: "nested d s \<Longrightarrow> d \<le> e \<Longrightarrow> nested e s"
proof (induction s arbitrary: d e)
  case (Cons c s)
  then show ?case using Cons.IH [of "d + paren_depth c" "e + paren_depth c"] by auto
qed simp

definition balanced :: "jstring \<Rightarrow> bool" where
  "balanced s \<longleftrightarrow> nested 1 s \<and> depth_of s = 0"

lemma balanced_Nil [simp]: "balanced []"
  by (simp add: balanced_def)

lemma paren_depth_u16 [js_eval]:
  "paren_depth (u16 c) = (if c = CHR ''('' then 1 else if c = CHR '')'' then - 1 else 0)"
  by (simp add: paren_depth_def)

lemma balanced_Cons [simp]: "paren_depth c = 0 \<Longrightarrow> balanced (c # s) \<longleftrightarrow> balanced s"
  by (simp add: balanced_def)

lemma balanced_append [intro]: "balanced s \<Longrightarrow> balanced t \<Longrightarrow> balanced (s @ t)"
  by (simp add: balanced_def)

lemma balanced_parens: "balanced s \<Longrightarrow> balanced (js ''('' @ s @ js '')'')"
  by (auto simp: balanced_def js_eval paren_depth_def elim: nested_mono)

definition no_parens :: "jstring \<Rightarrow> bool" where
  "no_parens s \<longleftrightarrow> list_all (\<lambda>c. paren_depth c = 0) s"

lemma balanced_no_parens: "no_parens s \<Longrightarrow> balanced s"
  unfolding no_parens_def by (induction s) (auto simp: balanced_def)

lemma balanced_join: "balanced sep \<Longrightarrow> \<forall>p\<in>set ps. balanced p \<Longrightarrow> balanced (join sep ps)"
  by (induction sep ps rule: join.induct) auto

lemma outer_loop_nested: "nested d s \<Longrightarrow> t \<noteq> [] \<Longrightarrow> outer_loop d (s @ t) \<longleftrightarrow> outer_loop (d + depth_of s) t"
  by (induction s arbitrary: d) (auto simp: Let_def add.assoc)

lemma outer_loop_parens:
  assumes "balanced s"
  shows "outer_loop 0 (js ''('' @ s @ js '')'')"
  using assms outer_loop_nested [of 1 s "js '')''"]
  by (simp add: balanced_def js_eval paren_depth_def)

lemma hasFullOuterParens_wrap: "balanced s \<Longrightarrow> hasFullOuterParens (js ''('' @ s @ js '')'')"
  using outer_loop_parens [of s]
  by (simp add: hasFullOuterParens_def ends_with_def js_eval starts_with_def)

section \<open>Splitting\<close>

lemma starts_with_Cons [simp]:
  "starts_with (a # p) (b # s) \<longleftrightarrow> a = b \<and> starts_with p s" "\<not> starts_with (a # p) []" "starts_with [] s"
  by (auto simp: starts_with_def)

lemma split_loop_sep:
  "depth_of [a] = 0 \<Longrightarrow> split_loop (a # w) 0 cur (a # w @ r) = jtrim cur # split_loop (a # w) 0 [] r"
  by simp

text \<open>A part without the second character of the separator.\<close>

lemma split_loop_avoid:
  assumes "b \<notin> set p" "r = [] \<or> hd r \<noteq> b"
  shows "split_loop (a # b # w) d cur (p @ r) = split_loop (a # b # w) (d + depth_of p) (cur @ p) r"
  using assms(1)
proof (induction p arbitrary: d cur)
  case (Cons c p)
  have "\<not> starts_with (b # w) (p @ r)"
    using Cons.prems assms(2) by (cases p; cases r) auto
  with Cons show ?case by (simp add: Let_def add.assoc)
qed simp

text \<open>A part inside parentheses.\<close>

lemma split_loop_outer:
  "outer_loop d p \<Longrightarrow> p \<noteq> [] \<Longrightarrow> last p \<noteq> a \<Longrightarrow>
     split_loop (a # w) d cur (p @ r) = split_loop (a # w) 0 (cur @ p) r"
proof (induction p arbitrary: d cur)
  case (Cons c p)
  show ?case
  proof (cases "p = []")
    case False
    with Cons.prems have "\<not> (d + paren_depth c = 0)" by (simp add: Let_def)
    with Cons False show ?thesis by (simp add: Let_def)
  qed (use Cons.prems in \<open>simp add: Let_def\<close>)
qed simp

lemma split_loop_join:
  assumes part: "\<And>p cur r. p \<in> set ps \<Longrightarrow> r = [] \<or> (\<exists>t. r = a # w @ t) \<Longrightarrow>
      split_loop (a # w) 0 cur (p @ r) = split_loop (a # w) 0 (cur @ p) r"
    and trim: "\<forall>p\<in>set ps. jtrim p = p" and ne: "ps \<noteq> []" and a: "paren_depth a = 0"
  shows "split_loop (a # w) 0 [] (join (a # w) ps) = ps"
  using part trim ne
proof (induction "a # w" ps rule: join.induct)
  case (2 x)
  then show ?case using "2.prems"(1)[of x "[]" "[]"] by simp
next
  case (3 x y zs)
  from "3.prems"(1)[of x "a # w @ join (a # w) (y # zs)" "[]"] 3 a show ?case by simp
qed simp

lemma split_top_join:
  assumes "\<And>p cur r. p \<in> set ps \<Longrightarrow> r = [] \<or> (\<exists>t. r = a # w @ t) \<Longrightarrow>
      split_loop (a # w) 0 cur (p @ r) = split_loop (a # w) 0 (cur @ p) r"
    and "\<forall>p\<in>set ps. jtrim p = p \<and> p \<noteq> []" "ps \<noteq> []" "paren_depth a = 0"
  shows "split_top (a # w) (join (a # w) ps) = ps"
  using split_loop_join [of ps a w] assms by (simp add: split_top_def)

lemma splitTopLevelAnd_join:
  assumes "\<forall>p\<in>set ps. balanced p \<and> u16 (CHR ''&'') \<notin> set p \<and> trimmed p \<and> p \<noteq> []" "ps \<noteq> []"
  shows "splitTopLevelAnd (join (js '' && '') ps) = ps"
proof -
  have "split_loop (js '' && '') 0 cur (p @ r) = split_loop (js '' && '') 0 (cur @ p) r"
    if "p \<in> set ps" "r = [] \<or> (\<exists>t. r = u16 (CHR '' '') # js ''&& '' @ t)" for p cur r
    using split_loop_avoid [of "u16 (CHR ''&'')" p r "u16 (CHR '' '')" "js ''& ''" 0 cur] assms that
    by (auto simp: js_eval balanced_def)
  then show ?thesis
    unfolding splitTopLevelAnd_def
    using split_top_join [of ps "u16 (CHR '' '')" "js ''&& ''"] assms
    by (simp add: js_eval paren_depth_def jtrim_trimmed)
qed

lemma splitTopLevelMultiply_join:
  assumes "\<forall>p\<in>set ps. \<exists>q. p = js ''('' @ q @ js '')'' \<and> balanced q" "ps \<noteq> []"
  shows "splitTopLevelMultiply (join (js '' * '') ps) = ps"
proof -
  have t: "jtrim p = p \<and> p \<noteq> []" if "p \<in> set ps" for p
    using assms that by (force simp: js_eval trimmed_def is_ws_u16 intro!: jtrim_trimmed)
  have "split_loop (js '' * '') 0 cur (p @ r) = split_loop (js '' * '') 0 (cur @ p) r"
    if "p \<in> set ps" for p cur r
  proof -
    from assms that obtain q where "p = js ''('' @ q @ js '')''" "balanced q" by blast
    with outer_loop_parens [of q] show ?thesis
      using split_loop_outer [of 0 p "u16 (CHR '' '')" "js ''* ''" cur r] by (simp add: js_eval)
  qed
  then show ?thesis
    unfolding splitTopLevelMultiply_def
    using split_top_join [of ps "u16 (CHR '' '')" "js ''* ''"] t assms(2)
    by (simp add: js_eval paren_depth_def)
qed

section \<open>String literals\<close>

text \<open>The regular expression of a string literal reads what \<open>JSON.stringify\<close> writes.\<close>

lemma literal_body_raw: "c \<noteq> 34 \<Longrightarrow> c \<noteq> 92 \<Longrightarrow> literal_body (c # r) = map_option (map_prod ((#) c) id) (literal_body r)"
  by (simp add: QUOTE_def)

lemma hex_digit_raw: "k < 16 \<Longrightarrow> hex_digit k \<noteq> 34 \<and> hex_digit k \<noteq> 92"
  using unat_hex_digit [of k] by (auto split: if_splits)

lemma literal_body_escape:
  "literal_body (unicode_escape c @ r) = map_option (map_prod ((@) (unicode_escape c)) id) (literal_body r)"
proof -
  have "unat c < 65536" using unsigned_less [of c] by simp
  then have "unat c div 4096 < 16" by auto
  then show ?thesis
    using hex_digit_raw by (cases "literal_body r") (auto simp: unicode_escape_def Let_def QUOTE_def u16_eq_numeral)
qed

lemma literal_body_unit:
  "literal_body (quote_unit c @ r) = map_option (map_prod ((@) (quote_unit c)) id) (literal_body r)"
proof (cases c rule: quote_unit_cases)
  case (short e)
  then have "e \<noteq> 10 \<and> e \<noteq> 13 \<and> e \<noteq> 0x2028 \<and> e \<noteq> 0x2029"
    by (auto simp: escape_char_def split: if_splits)
  with short show ?thesis by (simp add: QUOTE_def)
qed (simp_all add: literal_body_escape QUOTE_def map_prod_def)

lemma literal_body_quote:
  "literal_body (quote_body s @ QUOTE # r) = Some (quote_body s @ [QUOTE], r)"
proof (induction s rule: quote_induct)
  case (pair c d s)
  then show ?case
    using surrogate_raw [of c] surrogate_raw [of d] by (simp add: literal_body_raw del: literal_body.simps)
next
  case (single c w s)
  then show ?case by (auto simp: literal_body_escape literal_body_unit simp del: literal_body.simps)
qed (simp add: QUOTE_def)

lemma string_literal_stringify:
  "string_literal (JSON_stringify_string s @ r) = Some (JSON_stringify_string s, r)"
  by (simp add: string_literal_def JSON_stringify_string_def in_quotes_def strip_def literal_body_quote)

text \<open>
  Text that does not disturb the splitting: no parentheses, no \<open>&\<close> and \<open>|\<close>, no line
  separators that are left as they are.
\<close>

definition calm :: "jchar \<Rightarrow> bool" where
  "calm c \<longleftrightarrow> c \<notin> set (js ''()&|'') \<and> c \<noteq> 0x2028 \<and> c \<noteq> 0x2029"

definition unescaped :: "jchar \<Rightarrow> bool" where
  "unescaped c \<longleftrightarrow> 32 \<le> unat c \<and> c \<noteq> 34 \<and> c \<noteq> 92 \<and> \<not> is_lead c \<and> \<not> is_trail c"

lemma quote_unescaped: "list_all unescaped s \<Longrightarrow> quote_body s = s"
proof (induction s)
  case (Cons c s)
  then have "32 \<le> unat c" by (simp add: unescaped_def)
  then have "c \<noteq> 8" "c \<noteq> 9" "c \<noteq> 10" "c \<noteq> 12" "c \<noteq> 13" by auto
  with Cons have "quote_unit c = [c]" by (simp add: unescaped_def quote_unit_def QUOTE_def)
  with Cons show ?case by (simp add: quote_body.simps unescaped_def)
qed simp

lemma stringify_unescaped: "list_all unescaped s \<Longrightarrow> JSON_stringify_string s = in_quotes s"
  by (simp add: JSON_stringify_string_def quote_unescaped)

lemma calm_alnum: "48 \<le> unat c \<Longrightarrow> unat c \<le> 122 \<Longrightarrow> calm c"
  by (auto simp: calm_def js_eval unat_u16)

text \<open>A character the quoted text may have: calm, and no line break.\<close>

definition quiet :: "jchar \<Rightarrow> bool" where
  "quiet c \<longleftrightarrow> calm c \<and> c \<noteq> 10 \<and> c \<noteq> 13"

lemma quiet_hex_digit: "k < 16 \<Longrightarrow> quiet (hex_digit k)"
  using unat_hex_digit [of k] calm_alnum [of "hex_digit k"] by (auto simp: quiet_def split: if_splits)

lemma quiet_balanced: "list_all quiet s \<Longrightarrow> balanced s"
proof -
  have "quiet c \<Longrightarrow> paren_depth c = 0" for c by (simp add: quiet_def calm_def paren_depth_def js_eval)
  moreover assume "list_all quiet s"
  ultimately have "no_parens s" by (auto simp: no_parens_def list_all_iff)
  then show ?thesis by (rule balanced_no_parens)
qed

lemma quiet_absent: "list_all quiet s \<Longrightarrow> u16 (CHR ''&'') \<notin> set s \<and> u16 (CHR ''|'') \<notin> set s"
  by (auto simp: list_all_iff quiet_def calm_def js_eval)

lemma quiet_escape: "list_all quiet (unicode_escape c)"
proof -
  have "unat c < 65536" using unsigned_less [of c] by simp
  then have "unat c div 4096 < 16" by auto
  moreover have "quiet 92" "quiet (u16 (CHR ''u''))" by (simp_all add: quiet_def calm_def js_eval)
  ultimately show ?thesis by (simp add: unicode_escape_def Let_def quiet_hex_digit)
qed

lemma quiet_unit: "calm c \<Longrightarrow> list_all quiet (quote_unit c)"
proof (cases c rule: quote_unit_cases)
  case (short e)
  then have "e \<in> {34, 92, 47, 98, 102, 110, 114, 116}" by (auto simp: escape_char_def split: if_splits)
  with short show ?thesis by (auto simp: quiet_def calm_def js_eval)
next
  case raw
  then show "calm c \<Longrightarrow> ?thesis" by (auto simp: quiet_def)
qed (simp add: quiet_escape)

lemma quiet_quote_body: "list_all calm s \<Longrightarrow> list_all quiet (quote_body s)"
proof (induction s rule: quote_induct)
  case (pair c d s)
  then show ?case by (auto simp: quiet_def is_lead_def is_trail_def)
next
  case (single c w s)
  then show ?case using quiet_escape [of c] quiet_unit [of c] by auto
qed simp

lemma quiet_stringify: "list_all calm s \<Longrightarrow> list_all quiet (JSON_stringify_string s)"
  using quiet_quote_body [of s] by (simp add: JSON_stringify_string_def in_quotes_def QUOTE_def quiet_def calm_def js_eval)

section \<open>Number literals\<close>

lemma number_char_cases: "number_char c \<Longrightarrow> quiet c \<and> \<not> is_ws c \<and> c \<noteq> 34"
proof -
  assume "number_char c"
  then consider "48 \<le> unat c" "unat c \<le> 57" | "c \<in> set (js ''.eE+-'')"
    by (auto simp: number_char_def is_digit_def)
  then show ?thesis
  proof cases
    case 1
    then have "calm c" by (intro calm_alnum) auto
    moreover have "c \<noteq> 10 \<and> c \<noteq> 13 \<and> c \<noteq> 34" using 1 by auto
    moreover have "\<not> is_ws c" using 1 by (auto simp: is_ws_def Let_def)
    ultimately show ?thesis by (simp add: quiet_def)
  next
    case 2
    then show ?thesis by (auto simp: js_eval quiet_def calm_def)
  qed
qed

lemma digits_number: "list_all number_char (takeWhile is_digit s)"
  by (auto simp: list_all_iff number_char_def dest: set_takeWhileD)

lemma mantissa_restD:
  assumes "mantissa_rest t = Some r"
  shows "\<exists>p. t = p @ r \<and> p \<noteq> [] \<and> list_all number_char p"
proof -
  let ?ip = "takeWhile is_digit t" and ?r = "dropWhile is_digit t"
  have ip: "list_all number_char ?ip" "t = ?ip @ ?r"
    by (simp_all add: digits_number)
  show ?thesis
  proof (cases ?r)
    case Nil
    with assms have "r = []" "?ip \<noteq> []" by (simp_all add: mantissa_rest_def span_while_def Nil split: if_splits)
    with ip Nil show ?thesis by (intro exI [of _ ?ip]) simp
  next
    case (Cons c u)
    let ?fp = "takeWhile is_digit u"
    have fp: "list_all number_char ?fp" by (rule digits_number)
    show ?thesis
    proof (cases "c = u16 (CHR ''.'')")
      case True
      then have "r = dropWhile is_digit u"
        using assms by (simp add: mantissa_rest_def span_while_def Cons split: if_splits)
      with ip fp Cons True show ?thesis
        by (intro exI [of _ "?ip @ c # ?fp"]) (simp add: number_char_def js_eval)
    next
      case False
      with assms have "r = c # u" "?ip \<noteq> []"
        by (simp_all add: mantissa_rest_def span_while_def Cons split: if_splits)
      with ip Cons show ?thesis by (intro exI [of _ ?ip]) simp
    qed
  qed
qed

lemma exponent_ok_chars: "exponent_ok r \<Longrightarrow> list_all number_char r"
  by (auto simp: exponent_ok_def number_char_def js_eval list_all_iff split: list.splits if_splits)

lemma numeric_chars: "NUMERIC_LITERAL_REGEX s \<Longrightarrow> s \<noteq> [] \<and> list_all number_char s"
proof -
  assume s: "NUMERIC_LITERAL_REGEX s"
  define t where "t = (case s of c # r \<Rightarrow> if c = u16 (CHR ''-'') then r else s | [] \<Rightarrow> s)"
  with s obtain r where "mantissa_rest t = Some r" "exponent_ok r"
    by (auto simp: NUMERIC_LITERAL_REGEX_def split: option.splits)
  then obtain p where "t = p @ r" "p \<noteq> []" "list_all number_char p" "list_all number_char r"
    using mantissa_restD exponent_ok_chars by blast
  then have "t \<noteq> [] \<and> list_all number_char t" by simp
  moreover have "number_char (u16 (CHR ''-''))" by (simp add: number_char_def js_eval)
  ultimately show ?thesis by (auto simp: t_def split: list.splits if_splits)
qed

lemma numeric_trim [simp]: "NUMERIC_LITERAL_REGEX s \<Longrightarrow> jtrim s = s"
  using numeric_chars number_char_cases by (intro jtrim_no_ws) (auto simp: list_all_iff)

lemma numeric_quiet: "NUMERIC_LITERAL_REGEX s \<Longrightarrow> list_all quiet s"
  using numeric_chars number_char_cases by (auto simp: list_all_iff)

section \<open>Reading the pieces\<close>

lemma strip_simps [simp]:
  "strip [] s = Some s" "strip (a # p) [] = None"
  "strip (a # p) (b # s) = (if a = b then strip p s else None)" "strip p (p @ s) = Some s"
  by (auto simp: strip_def)

lemma number_run_chars:
  assumes "n \<noteq> []" "list_all number_char n" "r = [] \<or> \<not> number_char (hd r)"
  shows "number_run (n @ r) = Some (n, r)"
proof -
  have "takeWhile number_char (n @ r) = n" "dropWhile number_char (n @ r) = r"
    using assms by (cases r; auto simp: list_all_iff)+
  then show ?thesis using assms(1) by (simp add: number_run_def span_while_def)
qed

lemma number_run_numeric:
  assumes "NUMERIC_LITERAL_REGEX n" "r = [] \<or> \<not> number_char (hd r)"
  shows "number_run (n @ r) = Some (n, r)"
  using number_run_chars numeric_chars assms by blast

lemma quoted_arg_in_quotes:
  assumes "s \<noteq> []" "list_all unescaped s"
  shows "quoted_arg (u16 (CHR ''('') # in_quotes s @ u16 (CHR '')'') # r) = Some (s, r)"
proof -
  have "takeWhile (\<lambda>c. c \<noteq> QUOTE) (s @ QUOTE # t) = s" "dropWhile (\<lambda>c. c \<noteq> QUOTE) (s @ QUOTE # t) = QUOTE # t" for t
    using assms(2) by (induction s) (auto simp: unescaped_def QUOTE_def)
  then show ?thesis
    using assms(1) by (simp add: quoted_arg_def quoted_def in_quotes_def span_while_def js_eval)
qed

end
