(* ===== verification/Billing_Conditions.thy ===== *)
theory Billing_Conditions
  imports Billing_Text
begin

text \<open>
  A condition that the editor builds is read back as the same condition, for the modes
  whose text is one condition of the reader; the modes whose text is a conjunction are
  not read back.
\<close>

section \<open>Conditions with a text of their own\<close>

definition plain :: "jstring \<Rightarrow> bool" where
  "plain s \<longleftrightarrow> s \<noteq> [] \<and> list_all unescaped s \<and> list_all calm s"

fun storable :: "RequestCondition \<Rightarrow> bool" where
  "storable (TimeCondition f z m v a b) \<longleftrightarrow>
     f \<in> set TIME_FUNCS \<and> plain z \<and>
     (if m = js ''range'' then v = [] \<and> NUMERIC_LITERAL_REGEX a \<and> NUMERIC_LITERAL_REGEX b
      else m \<in> {js ''eq'', js ''gte'', js ''lt''} \<and> NUMERIC_LITERAL_REGEX v \<and> a = [] \<and> b = [])"
| "storable (ParamHeaderCondition h p m v) \<longleftrightarrow>
     plain p \<and> trimmed p \<and> trimmed v \<and> list_all calm v \<and>
     (m = js ''exists'' \<and> v = [] \<or> m = js ''contains'' \<and> h \<or> m = js ''eq'')"

section \<open>The texts\<close>

definition time_fn :: "jstring \<Rightarrow> jstring \<Rightarrow> jstring" where
  "time_fn f z = f @ u16 (CHR ''('') # in_quotes z @ u16 (CHR '')'') # []"

lemma normalize_storable:
  assumes "storable c" shows "normalizeCondition (as_partial c) = c"
  using assms
  by (cases c) (auto simp: normalizeCondition_def mode_or_def getRequestRuleMatchOptions_def isTimeFunc_def
      or_empty_def plain_def Let_def split: if_splits)

lemma build_time:
  assumes "storable (TimeCondition f z m v a b)"
  shows "buildRequestConditionExpr (TimeCondition f z m v a b) = time_fn f z @
     (if m = js ''range'' then js '' >= '' @ a @ js '' || '' @ time_fn f z @ js '' < '' @ b
      else (if m = js ''eq'' then js '' == '' else if m = js ''gte'' then js '' >= '' else js '' < '') @ v)"
  using assms normalize_storable [OF assms]
  by (auto simp: buildRequestConditionExpr_def buildTimeConditionExpr_def time_fn_def plain_def
      stringify_unescaped js_eval Let_def split: if_splits)

definition ph_fn :: "bool \<Rightarrow> jstring \<Rightarrow> jstring" where
  "ph_fn h p = (if h then js ''header'' else js ''param'') @ u16 (CHR ''('') # in_quotes p @ u16 (CHR '')'') # []"

lemma source_expr_plain: "plain p \<Longrightarrow> source_expr h p = ph_fn h p"
  by (simp add: source_expr_def ph_fn_def plain_def stringify_unescaped js_eval)

lemma build_param_header:
  assumes "storable (ParamHeaderCondition h p m v)"
  shows "buildRequestConditionExpr (ParamHeaderCondition h p m v) =
     (if m = js ''exists'' then ph_fn h p @ js '' != '' @ (if h then in_quotes [] else js ''nil'')
      else if m = js ''contains'' then js ''has('' @ ph_fn h p @ js '', '' @ JSON_stringify_string v @ js '')''
      else ph_fn h p @ js '' == '' @ buildExprLiteral m v)"
  using assms normalize_storable [OF assms]
  by (auto simp: buildRequestConditionExpr_def source_expr_plain compare_ops_def jtrim_trimmed plain_def
      buildExprLiteral_def js_eval Let_def split: if_splits)

section \<open>Reading them back\<close>

lemma time_call_fn:
  assumes "f \<in> set TIME_FUNCS" "plain z"
  shows "time_call (time_fn f z @ r) = Some (f, z, r)"
  using assms by (auto simp: TIME_FUNCS_def time_call_def time_fn_def plain_def quoted_arg_in_quotes js_eval)

lemma time_call_not: "s \<noteq> [] \<Longrightarrow> hd s \<notin> set (js ''hmwd'') \<Longrightarrow> time_call s = None"
  by (cases s) (auto simp: time_call_def TIME_FUNCS_def js_eval)

lemma time_range_fn:
  assumes "f \<in> set TIME_FUNCS" "plain z" "NUMERIC_LITERAL_REGEX a" "NUMERIC_LITERAL_REGEX b"
    and "r = [] \<or> \<not> number_char (hd r)"
  shows "time_range (time_fn f z @ js '' >= '' @ a @ js '' || '' @ time_fn f z @ js '' < '' @ b @ r) =
     Some (TimeCondition f z (js ''range'') [] a b, r)"
proof -
  have "\<not> number_char (u16 (CHR '' ''))" by (simp add: number_char_def js_eval is_digit_u16)
  then have a: "number_run (a @ js '' || '' @ s) = Some (a, js '' || '' @ s)" for s
    using assms by (intro number_run_numeric) (simp_all add: js_eval)
  have fz: "strip (f @ js ''('' @ in_quotes z @ js '')'') (time_fn f z @ s) = Some s" for s
    using strip_simps(4) [of "time_fn f z" s] by (simp add: time_fn_def js_eval)
  show ?thesis
    using assms by (simp add: time_range_def time_call_fn a fz number_run_numeric)
qed

lemma blank_no_number: "\<not> number_char (u16 (CHR '' ''))" "\<not> number_char (u16 (CHR '')''))"
  by (simp_all add: number_char_def js_eval is_digit_u16)

lemma time_compare_fn:
  assumes "f \<in> set TIME_FUNCS" "plain z" "NUMERIC_LITERAL_REGEX v" "m \<in> {js ''eq'', js ''gte'', js ''lt''}"
  shows "time_compare (time_fn f z @
     (if m = js ''eq'' then js '' == '' else if m = js ''gte'' then js '' >= '' else js '' < '') @ v) =
     Some (TimeCondition f z m v [] [])"
  using assms number_run_numeric [of v "[]"]
  by (auto simp: time_compare_def time_call_fn js_eval at_end_def)

lemma time_range_not_compare:
  assumes "f \<in> set TIME_FUNCS" "plain z" "NUMERIC_LITERAL_REGEX v"
  shows "time_range (time_fn f z @
     (if m = js ''eq'' then js '' == '' else if m = js ''gte'' then js '' >= '' else js '' < '') @ v) = None"
  using assms number_run_numeric [of v "[]"] by (auto simp: time_range_def time_call_fn js_eval)

lemma time_fn_no_paren: "f \<in> set TIME_FUNCS \<Longrightarrow> strip (js ''('') (time_fn f z @ s) = None"
  by (auto simp: TIME_FUNCS_def time_fn_def js_eval)

lemma parse_time_condition:
  assumes "storable (TimeCondition f z m v a b)"
  shows "tryParseTimeCondition (buildRequestConditionExpr (TimeCondition f z m v a b)) =
     Some (TimeCondition f z m v a b)"
proof (cases "m = js ''range''")
  case True
  with assms time_range_fn [of f z a b "[]"] show ?thesis
    by (simp add: build_time tryParseTimeCondition_def at_end_def)
next
  case False
  with assms have *: "f \<in> set TIME_FUNCS" "plain z" "NUMERIC_LITERAL_REGEX v" "m \<in> {js ''eq'', js ''gte'', js ''lt''}"
      "a = []" "b = []"
    by auto
  show ?thesis
    unfolding build_time [OF assms] tryParseTimeCondition_def
    using False time_compare_fn [OF *(1-4)] time_range_not_compare [OF *(1-3), of m] time_fn_no_paren [OF *(1)] *(5,6)
    by simp
qed

lemma parse_range_parens:
  assumes "storable (TimeCondition f z (js ''range'') v a b)"
  shows "tryParseTimeCondition (js ''('' @ buildRequestConditionExpr (TimeCondition f z (js ''range'') v a b) @ js '')'') =
     Some (TimeCondition f z (js ''range'') v a b)"
proof -
  have "time_call (u16 (CHR ''('') # s) = None" for s by (rule time_call_not) (simp_all add: js_eval)
  then have "time_range (js ''('' @ s) = None" for s by (simp add: time_range_def js_eval)
  with assms time_range_fn [of f z a b "js '')''"] blank_no_number show ?thesis
    by (simp add: build_time tryParseTimeCondition_def at_end_def js_eval)
qed

lemma not_time:
  assumes "s \<noteq> []" "hd s \<notin> set (js ''hmwd('')"
  shows "tryParseTimeCondition s = None"
proof -
  have "time_call s = None" using assms by (intro time_call_not) (auto simp: js_eval)
  moreover have "strip (js ''('') s = None" using assms by (cases s) (auto simp: js_eval)
  ultimately show ?thesis by (simp add: tryParseTimeCondition_def time_range_def time_compare_def)
qed

lemma header_not_time: "tryParseTimeCondition (js ''header'' @ s) = None"
proof -
  have "time_call (js ''header'' @ s) = None" "strip (js ''('') (js ''header'' @ s) = None"
    by (simp_all add: time_call_def TIME_FUNCS_def js_eval)
  then show ?thesis by (simp add: tryParseTimeCondition_def time_range_def time_compare_def)
qed

lemma has_not_time: "tryParseTimeCondition (js ''has('' @ s) = None"
proof -
  have "time_call (js ''has('' @ s) = None" "strip (js ''('') (js ''has('' @ s) = None"
    by (simp_all add: time_call_def TIME_FUNCS_def js_eval)
  then show ?thesis by (simp add: tryParseTimeCondition_def time_range_def time_compare_def)
qed

lemma ph_not_time: "tryParseTimeCondition (ph_fn h p @ s) = None"
  using header_not_time not_time [of "ph_fn h p @ s"] by (cases h) (simp_all add: ph_fn_def js_eval)

lemma quoted_arg_ph: "plain p \<Longrightarrow> quoted_arg (u16 (CHR ''('') # in_quotes p @ u16 (CHR '')'') # r) = Some (p, r)"
  by (simp add: plain_def quoted_arg_in_quotes)

lemma parse_exists:
  assumes "plain p"
  shows "tryParseRequestCondition numstr (ph_fn h p @ js '' != '' @ (if h then in_quotes [] else js ''nil'')) =
     Matched (ParamHeaderCondition h p (js ''exists'') [])"
  unfolding tryParseRequestCondition_def ph_not_time or_parse.simps
  using assms by (cases h) (simp_all add: header_exists_def param_exists_def
      ph_fn_def quoted_arg_ph in_quotes_def [of "[]"] js_eval at_end_def)

lemma stringify_trimmed: "trimmed (JSON_stringify_string s)"
  by (simp add: trimmed_def JSON_stringify_string_def in_quotes_def QUOTE_def is_ws_def Let_def)

lemma stringify_not_numeric: "\<not> NUMERIC_LITERAL_REGEX (JSON_stringify_string s)"
  using numeric_chars [of "JSON_stringify_string s"] number_char_cases
  by (auto simp: JSON_stringify_string_def in_quotes_def QUOTE_def)

lemma stringify_not_bool: "JSON_stringify_string s \<noteq> js ''true''" "JSON_stringify_string s \<noteq> js ''false''"
  by (simp_all add: JSON_stringify_string_def in_quotes_def QUOTE_def js_eval)

lemma parse_built_literal:
  assumes "trimmed v"
  shows "parseExprLiteral (buildExprLiteral (js ''eq'') v) = Some (JStr v)"
proof -
  have "jtrim v = v" using assms by (rule jtrim_trimmed)
  moreover have "jtrim (JSON_stringify_string v) = JSON_stringify_string v"
    using stringify_trimmed by (rule jtrim_trimmed)
  ultimately show ?thesis
    by (auto simp: parseExprLiteral_def buildExprLiteral_def Let_def JSON_parse_stringify
        stringify_not_numeric stringify_not_bool)
qed

lemma built_literal_quiet:
  assumes "trimmed v" "list_all calm v"
  shows "list_all quiet (buildExprLiteral (js ''eq'') v) \<and> buildExprLiteral (js ''eq'') v \<noteq> []"
proof -
  have "list_all quiet (js ''true'')" "list_all quiet (js ''false'')" by (simp_all add: js_eval quiet_def calm_def)
  moreover have "JSON_stringify_string v \<noteq> []" by (simp add: JSON_stringify_string_def in_quotes_def)
  ultimately show ?thesis
    using assms numeric_quiet [of v] numeric_chars [of v] quiet_stringify [of v]
    by (auto simp: buildExprLiteral_def jtrim_trimmed Let_def)
qed

lemma equals_literal_text:
  assumes "plain p" "list_all quiet l" "l \<noteq> []"
  shows "equals_literal (ph_fn h p @ js '' == '' @ l) = Some (h, p, l)"
proof -
  have "list_all (\<lambda>c. c \<noteq> 10 \<and> c \<noteq> 13 \<and> c \<noteq> 0x2028 \<and> c \<noteq> 0x2029) l"
    using assms(2) by (auto simp: list_all_iff quiet_def calm_def)
  then show ?thesis using assms(1,3) by (cases h) (simp_all add: equals_literal_def ph_fn_def quoted_arg_ph js_eval)
qed

lemma ph_equals_only:
  assumes "plain p"
  shows "header_exists (ph_fn h p @ js '' == '' @ l) = None" "param_exists (ph_fn h p @ js '' == '' @ l) = None"
    "header_contains (ph_fn h p @ s) = None" "param_contains (ph_fn h p @ js '' == '' @ l) = None"
    "param_compare (ph_fn h p @ js '' == '' @ l) = None"
  using assms
  by (cases h; simp add: header_exists_def param_exists_def header_contains_def param_contains_def
      param_compare_def param_guard_def ph_fn_def quoted_arg_ph js_eval)+

lemma parse_equals:
  assumes "plain p" "trimmed v" "list_all calm v"
  shows "tryParseRequestCondition numstr (ph_fn h p @ js '' == '' @ buildExprLiteral (js ''eq'') v) =
     Matched (ParamHeaderCondition h p (js ''eq'') v)"
proof -
  have "list_all quiet (buildExprLiteral (js ''eq'') v)" "buildExprLiteral (js ''eq'') v \<noteq> []"
    using built_literal_quiet [OF assms(2,3)] by simp_all
  then show ?thesis
    using assms by (simp add: tryParseRequestCondition_def ph_not_time ph_equals_only equals_literal_text
        parse_built_literal)
qed

lemma parse_contains:
  assumes "plain p"
  shows "tryParseRequestCondition numstr
     (js ''has('' @ ph_fn True p @ js '', '' @ JSON_stringify_string v @ js '')'') =
     Matched (ParamHeaderCondition True p (js ''contains'') v)"
proof -
  let ?t = "js ''has('' @ ph_fn True p @ js '', '' @ JSON_stringify_string v @ js '')''"
  have "header_contains ?t = Some (p, JSON_stringify_string v)"
    using assms by (simp add: header_contains_def ph_fn_def quoted_arg_ph string_literal_stringify js_eval at_end_def)
  moreover have "header_exists ?t = None" "param_exists ?t = None"
    by (simp_all add: header_exists_def param_exists_def js_eval)
  ultimately show ?thesis
    unfolding tryParseRequestCondition_def has_not_time
    by (simp add: parsed_literal_def JSON_parse_stringify)
qed

theorem condition_read_back:
  assumes "storable c"
  shows "tryParseRequestCondition numstr (buildRequestConditionExpr c) = Matched c"
proof (cases c)
  case (TimeCondition f z m v a b)
  then show ?thesis
    using parse_time_condition [OF assms [unfolded TimeCondition]] by (simp add: tryParseRequestCondition_def)
next
  case (ParamHeaderCondition h p m v)
  with assms parse_exists [of p numstr h] parse_contains [of p numstr v] parse_equals [of p v numstr h]
  show ?thesis unfolding ParamHeaderCondition build_param_header [OF assms [unfolded ParamHeaderCondition]] by auto
qed

end
