(* ===== verification/Billing_Groups.thy ===== *)
theory Billing_Groups
  imports Billing_Conditions
begin

text \<open>
  Rule groups and rule expressions: what the editor builds is read back, and the split of
  a combined billing expression gives the base and the rules back.
\<close>

section \<open>The shape of a condition's text\<close>

definition is_range :: "RequestCondition \<Rightarrow> bool" where
  "is_range c = (case c of TimeCondition _ _ m _ _ _ \<Rightarrow> m = js ''range'' | ParamHeaderCondition _ _ _ _ \<Rightarrow> False)"

definition part_ok :: "jstring \<Rightarrow> bool" where
  "part_ok t \<longleftrightarrow> balanced t \<and> u16 (CHR ''&'') \<notin> set t \<and> trimmed t \<and> t \<noteq> []"

lemma balanced_quoted: "plain z \<Longrightarrow> list_all quiet (in_quotes z)"
  using quiet_stringify [of z] by (simp add: plain_def stringify_unescaped)

lemma balanced_call:
  assumes "list_all quiet f" "plain z"
  shows "balanced (f @ u16 (CHR ''('') # in_quotes z @ u16 (CHR '')'') # [])"
  using balanced_append [OF quiet_balanced [OF assms(1)] balanced_parens [OF quiet_balanced [OF balanced_quoted [OF assms(2)]]]]
  by (simp add: js_eval)

lemma quiet_names: "f \<in> set TIME_FUNCS \<Longrightarrow> list_all quiet f" "list_all quiet (js ''header'')" "list_all quiet (js ''param'')"
  by (auto simp: TIME_FUNCS_def js_eval quiet_def calm_def)

lemma absent_call:
  assumes "list_all quiet f" "plain z"
  shows "u16 (CHR ''&'') \<notin> set (f @ u16 (CHR ''('') # in_quotes z @ u16 (CHR '')'') # [])"
    "u16 (CHR ''|'') \<notin> set (f @ u16 (CHR ''('') # in_quotes z @ u16 (CHR '')'') # [])"
  using quiet_absent [OF assms(1)] quiet_absent [OF balanced_quoted [OF assms(2)]] by auto

lemma time_fn_ok:
  assumes "f \<in> set TIME_FUNCS" "plain z"
  shows "balanced (time_fn f z)" "u16 (CHR ''&'') \<notin> set (time_fn f z)" "u16 (CHR ''|'') \<notin> set (time_fn f z)"
    "time_fn f z \<noteq> []" "\<not> is_ws (hd (time_fn f z))"
  using balanced_call [OF quiet_names(1)] absent_call [OF quiet_names(1)] assms
  by (simp_all add: time_fn_def) (auto simp: TIME_FUNCS_def js_eval)

lemma ph_fn_ok:
  assumes "plain p"
  shows "balanced (ph_fn h p)" "u16 (CHR ''&'') \<notin> set (ph_fn h p)" "u16 (CHR ''|'') \<notin> set (ph_fn h p)"
    "ph_fn h p \<noteq> []" "\<not> is_ws (hd (ph_fn h p))"
  using balanced_call [OF quiet_names(2)] absent_call [OF quiet_names(2)]
    balanced_call [OF quiet_names(3)] absent_call [OF quiet_names(3)] assms
  by (simp_all add: ph_fn_def) (simp_all add: js_eval)

lemma numeric_last: "NUMERIC_LITERAL_REGEX n \<Longrightarrow> n \<noteq> [] \<and> \<not> is_ws (last n)"
  using numeric_chars [of n] number_char_cases by (auto simp: list_all_iff)

lemma part_okI:
  assumes "balanced a" "balanced b" "u16 (CHR ''&'') \<notin> set a" "u16 (CHR ''&'') \<notin> set b"
    "a \<noteq> []" "\<not> is_ws (hd a)" "b \<noteq> []" "\<not> is_ws (last b)"
  shows "part_ok (a @ b)"
  using assms by (auto simp: part_ok_def trimmed_def)

lemma time_part:
  assumes "storable (TimeCondition f z m v a b)"
  shows "part_ok (buildRequestConditionExpr (TimeCondition f z m v a b))"
proof (cases "m = js ''range''")
  case True
  with assms have *: "f \<in> set TIME_FUNCS" "plain z" "NUMERIC_LITERAL_REGEX a" "NUMERIC_LITERAL_REGEX b" by auto
  with time_fn_ok [OF *(1,2)] numeric_last [of b] numeric_quiet [of a] numeric_quiet [of b] quiet_balanced quiet_absent
  show ?thesis unfolding build_time [OF assms] using True
    by (intro part_okI) (auto simp: js_eval intro!: balanced_append)
next
  case False
  with assms have *: "f \<in> set TIME_FUNCS" "plain z" "NUMERIC_LITERAL_REGEX v" by auto
  with time_fn_ok [OF *(1,2)] numeric_last [of v] numeric_quiet [of v] quiet_balanced quiet_absent
  show ?thesis unfolding build_time [OF assms] using False
    by (intro part_okI) (auto simp: js_eval intro!: balanced_append)
qed

lemma stringify_last: "JSON_stringify_string v \<noteq> []" "\<not> is_ws (last (JSON_stringify_string v))"
  using stringify_trimmed [of v] by (auto simp: JSON_stringify_string_def in_quotes_def trimmed_def)

lemma built_literal_last:
  assumes "trimmed v" shows "\<not> is_ws (last (buildExprLiteral (js ''eq'') v))"
  using assms numeric_last [of v] stringify_last [of v]
  by (auto simp: buildExprLiteral_def jtrim_trimmed Let_def js_eval)

lemma ph_part:
  assumes "storable (ParamHeaderCondition h p m v)"
  shows "part_ok (buildRequestConditionExpr (ParamHeaderCondition h p m v))"
proof -
  from assms have *: "plain p" "trimmed v" "list_all calm v" by auto
  note fn = ph_fn_ok [OF *(1), of h]
  consider "m = js ''exists''" | "m = js ''contains''" | "m = js ''eq''" using assms by auto
  then show ?thesis
  proof cases
    case 1
    have "paren_depth 34 = 0" "\<not> is_ws 34" by (simp_all add: paren_depth_def numeral_eq_u16 is_ws_def)
    then have "part_ok (ph_fn h p @ js '' != '' @ (if h then in_quotes [] else js ''nil''))" using fn
      by (cases h; intro part_okI; simp add: js_eval in_quotes_def QUOTE_def)
    with 1 show ?thesis unfolding build_param_header [OF assms] by simp
  next
    case 2
    have "balanced (js ''('' @ (ph_fn h p @ js '', '' @ JSON_stringify_string v) @ js '')'')"
      using fn quiet_balanced [OF quiet_stringify [OF *(3)]]
      by (intro balanced_parens) (auto simp: js_eval)
    then show ?thesis unfolding build_param_header [OF assms] using 2 fn quiet_absent [OF quiet_stringify [OF *(3)]]
      by (auto simp: part_ok_def js_eval trimmed_def)
  next
    case 3
    have "part_ok (ph_fn h p @ js '' == '' @ buildExprLiteral (js ''eq'') v)"
      using fn built_literal_quiet [OF *(2,3)] quiet_balanced quiet_absent built_literal_last [OF *(2)]
      by (intro part_okI) (auto simp: js_eval)
    with 3 show ?thesis unfolding build_param_header [OF assms] by simp
  qed
qed

lemma condition_part: "storable c \<Longrightarrow> part_ok (buildRequestConditionExpr c)"
  using time_part ph_part by (cases c) auto

lemma includes_bar: "str_includes (js '' || '') s \<Longrightarrow> u16 (CHR ''|'') \<in> set s"
  by (auto simp: str_includes_iff js_eval)

lemma condition_includes_or:
  assumes "storable c"
  shows "str_includes (js '' || '') (buildRequestConditionExpr c) \<longleftrightarrow> is_range c"
proof (cases c)
  case (TimeCondition f z m v a b)
  note build = build_time [OF assms [unfolded TimeCondition]]
  from assms TimeCondition have fz: "f \<in> set TIME_FUNCS" "plain z" by auto
  show ?thesis
  proof (cases "m = js ''range''")
    case True
    then have "buildRequestConditionExpr c = (time_fn f z @ js '' >= '' @ a) @ js '' || '' @ time_fn f z @ js '' < '' @ b"
      using build TimeCondition by simp
    then show ?thesis using True TimeCondition by (simp only: str_includes_append is_range_def RequestCondition.case simp_thms)
  next
    case False
    with assms TimeCondition have "list_all quiet v" by (auto intro: numeric_quiet)
    then have "u16 (CHR ''|'') \<notin> set (buildRequestConditionExpr c)"
      using False quiet_absent [of v] time_fn_ok [OF fz] unfolding TimeCondition build by (simp add: js_eval)
    then show ?thesis using False TimeCondition includes_bar by (auto simp: is_range_def)
  qed
next
  case (ParamHeaderCondition h p m v)
  with assms have *: "plain p" "trimmed v" "list_all calm v" by auto
  have "u16 (CHR ''|'') \<notin> set (in_quotes [])" by (simp add: in_quotes_def QUOTE_def u16_eq_numeral)
  moreover have "m \<noteq> js ''exists'' \<Longrightarrow> m \<noteq> js ''contains'' \<Longrightarrow> m = js ''eq''" using assms ParamHeaderCondition by auto
  ultimately have "u16 (CHR ''|'') \<notin> set (buildRequestConditionExpr c)"
    using quiet_absent [OF quiet_stringify [OF *(3)]] quiet_absent built_literal_quiet [OF *(2,3)] ph_fn_ok [OF *(1)]
    unfolding ParamHeaderCondition build_param_header [OF assms [unfolded ParamHeaderCondition]]
    by (auto simp: js_eval)
  then show ?thesis using ParamHeaderCondition includes_bar by (auto simp: is_range_def)
qed

section \<open>Groups\<close>

definition storable_group :: "RequestRuleGroup \<Rightarrow> bool" where
  "storable_group g \<longleftrightarrow> conditions g \<noteq> [] \<and> list_all storable (conditions g) \<and>
     NUMERIC_LITERAL_REGEX (multiplier g) \<and> conditionText g = None \<and> matched g = None"

definition wrapped :: "jstring \<Rightarrow> jstring" where
  "wrapped e = (if str_includes (js '' || '') e then js ''('' @ e @ js '')'' else e)"

lemma wrapped_part: "part_ok e \<Longrightarrow> part_ok (wrapped e)"
  using balanced_parens [of e] by (auto simp: part_ok_def wrapped_def trimmed_def js_eval)

lemma wrapped_read_back:
  assumes "storable c"
  shows "tryParseRequestCondition numstr (wrapped (buildRequestConditionExpr c)) = Matched c"
proof (cases "is_range c")
  case True
  then obtain f z v a b where c: "c = TimeCondition f z (js ''range'') v a b"
    by (auto simp: is_range_def split: RequestCondition.splits)
  show ?thesis
    using parse_range_parens [OF assms [unfolded c]] True condition_includes_or [OF assms]
    unfolding wrapped_def tryParseRequestCondition_def c by simp
next
  case False
  then show ?thesis using condition_read_back [OF assms] condition_includes_or [OF assms] by (simp add: wrapped_def)
qed

lemma parse_each_map: "\<forall>x\<in>set xs. f (g x) = Matched x \<Longrightarrow> parse_each f (map g xs) = Matched xs"
  by (induction xs) auto

text \<open>The text of a group's conditions: alone as it is, several of them joined.\<close>

definition conjunction :: "jstring list \<Rightarrow> jstring" where
  "conjunction es = (if length es = 1 then es ! 0 else join (js '' && '') (map wrapped es))"

lemma conjunction_read_back:
  assumes "list_all storable cs" "cs \<noteq> []"
  shows "tryParseRequestConditions numstr (conjunction (map buildRequestConditionExpr cs)) = Matched cs"
proof -
  obtain w where w: "conjunction (map buildRequestConditionExpr cs) = join (js '' && '') (map (\<lambda>c. w (buildRequestConditionExpr c)) cs)"
      and ok: "\<And>c. c \<in> set cs \<Longrightarrow> part_ok (w (buildRequestConditionExpr c)) \<and>
        tryParseRequestCondition numstr (w (buildRequestConditionExpr c)) = Matched c"
  proof (cases "length cs = 1")
    case True
    then obtain c where "cs = [c]" by (metis One_nat_def length_0_conv length_Suc_conv)
    then show ?thesis using assms that [of id] condition_part [of c] condition_read_back [of c]
      by (simp add: conjunction_def)
  next
    case False
    then show ?thesis using assms that [of wrapped] wrapped_part condition_part wrapped_read_back
      by (simp add: conjunction_def list_all_iff comp_def)
  qed
  have "splitTopLevelAnd (conjunction (map buildRequestConditionExpr cs)) = map (\<lambda>c. w (buildRequestConditionExpr c)) cs"
    unfolding w using assms(2) ok by (intro splitTopLevelAnd_join) (auto simp: part_ok_def)
  moreover have "tryParseRequestCondition numstr (jtrim (w (buildRequestConditionExpr c))) = Matched c" if "c \<in> set cs" for c
    using ok [OF that] by (simp add: part_ok_def jtrim_trimmed)
  ultimately show ?thesis
    using assms(2) parse_each_map [of cs "\<lambda>p. tryParseRequestCondition numstr (jtrim p)" "\<lambda>c. w (buildRequestConditionExpr c)"]
    by (simp add: tryParseRequestConditions_def)
qed

definition factor :: "jstring \<Rightarrow> jstring \<Rightarrow> jstring" where
  "factor cond m = js ''('' @ (cond @ js '' ? '' @ m @ js '' : 1'') @ js '')''"

lemma rule_factor_text:
  assumes "NUMERIC_LITERAL_REGEX m" "cond \<noteq> []"
  shows "rule_factor (factor cond m) = Some (cond, m)"
proof -
  have "number_run (rev m @ rev (js '' ? '') @ rev cond) = Some (rev m, rev (js '' ? '') @ rev cond)"
    using numeric_chars [OF assms(1)] blank_no_number
    by (intro number_run_chars) (auto simp: js_eval list_all_iff)
  moreover have "rev (cond @ js '' ? '' @ m @ js '' : 1'' @ js '')'') =
      rev (js '' : 1)'') @ rev m @ rev (js '' ? '') @ rev cond"
    by (simp add: js_eval)
  moreover have "strip (js ''('') (factor cond m) = Some (cond @ js '' ? '' @ m @ js '' : 1'' @ js '')'')"
    by (simp add: factor_def)
  ultimately show ?thesis using assms(2) unfolding rule_factor_def by (simp only: Option.bind.simps(2) strip_simps(4)) simp
qed

lemma build_group:
  assumes "storable_group g"
  shows "buildRuleGroupFactor g = factor (conjunction (map buildRequestConditionExpr (conditions g))) (multiplier g)"
proof -
  have "filter (\<lambda>e. e \<noteq> []) (map buildRequestConditionExpr (conditions g)) = map buildRequestConditionExpr (conditions g)"
    using assms condition_part by (auto simp: storable_group_def list_all_iff part_ok_def intro!: filter_True)
  with assms show ?thesis
    by (simp add: storable_group_def buildRuleGroupFactor_def conjunction_def factor_def wrapped_def comp_def js_eval Let_def)
qed

lemma conjunction_balanced:
  assumes "list_all storable cs" "cs \<noteq> []"
  shows "balanced (conjunction (map buildRequestConditionExpr cs))"
    "conjunction (map buildRequestConditionExpr cs) \<noteq> []"
proof -
  have part: "part_ok (buildRequestConditionExpr c)" if "c \<in> set cs" for c
    using assms that condition_part by (auto simp: list_all_iff)
  have sep: "balanced (js '' && '')" by (simp add: js_eval)
  show "balanced (conjunction (map buildRequestConditionExpr cs))"
    using part wrapped_part assms(2) sep
    by (auto simp: conjunction_def part_ok_def length_Suc_conv intro!: balanced_join)
  show "conjunction (map buildRequestConditionExpr cs) \<noteq> []"
    using conjunction_read_back [OF assms] by (auto simp: tryParseRequestConditions_def splitTopLevelAnd_def split_top_def split: if_splits)
qed

lemma factor_balanced: "balanced cond \<Longrightarrow> NUMERIC_LITERAL_REGEX m \<Longrightarrow> balanced (cond @ js '' ? '' @ m @ js '' : 1'')"
  using numeric_quiet [of m] quiet_balanced [of m] by (auto simp: js_eval intro!: balanced_append)

lemma group_read_back:
  assumes "storable_group g"
  shows "tryParseRuleGroupFactor numstr (buildRuleGroupFactor g) = Matched g"
  using assms conjunction_read_back [of "conditions g" numstr] conjunction_balanced [of "conditions g"]
  unfolding build_group [OF assms]
  by (simp add: storable_group_def tryParseRuleGroupFactor_def rule_factor_text)

section \<open>Rule expressions\<close>

lemma factors_split:
  assumes "list_all storable_group gs" "gs \<noteq> []"
  shows "\<forall>e\<in>set (map buildRuleGroupFactor gs). \<exists>q. e = js ''('' @ q @ js '')'' \<and> balanced q"
proof
  fix e assume "e \<in> set (map buildRuleGroupFactor gs)"
  then obtain g where g: "g \<in> set gs" "e = buildRuleGroupFactor g" by auto
  with assms have ok: "storable_group g" by (simp add: list_all_iff)
  then have "balanced (conjunction (map buildRequestConditionExpr (conditions g)) @ js '' ? '' @ multiplier g @ js '' : 1'')"
    by (intro factor_balanced conjunction_balanced) (simp_all add: storable_group_def)
  then show "\<exists>q. e = js ''('' @ q @ js '')'' \<and> balanced q"
    using g(2) build_group [OF ok] unfolding factor_def by blast
qed

lemma build_rules:
  assumes "list_all storable_group gs"
  shows "buildRequestRuleExpr gs = join (js '' * '') (map buildRuleGroupFactor gs)"
proof -
  have "filter (\<lambda>e. e \<noteq> []) (map buildRuleGroupFactor gs) = map buildRuleGroupFactor gs"
    using assms by (auto simp: list_all_iff build_group factor_def js_eval intro!: filter_True)
  then show ?thesis by (simp add: buildRequestRuleExpr_def)
qed

lemma join_parens_trimmed:
  assumes "\<forall>e\<in>set es. \<exists>q. e = js ''('' @ q @ js '')''" "es \<noteq> []"
  shows "trimmed (join sep es) \<and> join sep es \<noteq> []"
proof -
  have "\<exists>q. join sep es = js ''('' @ q @ js '')''"
    using assms
  proof (induction sep es rule: join.induct)
    case (3 sep x y zs)
    then obtain q r where "x = js ''('' @ q @ js '')''" "join sep (y # zs) = js ''('' @ r @ js '')''" by auto
    then show ?case by (intro exI [of _ "q @ js '')'' @ sep @ js ''('' @ r"]) simp
  qed auto
  then show ?thesis by (auto simp: trimmed_def js_eval)
qed

lemma read_back_rules:
  assumes "list_all storable_group gs"
  shows "tryParseRequestRuleExpr numstr (buildRequestRuleExpr gs) = Matched gs"
proof (cases "gs = []")
  case False
  let ?es = "map buildRuleGroupFactor gs"
  note parts = factors_split [OF assms False]
  have "trimmed (join (js '' * '') ?es)" "join (js '' * '') ?es \<noteq> []"
    using join_parens_trimmed [of ?es "js '' * ''"] parts False by auto
  moreover have "splitTopLevelMultiply (join (js '' * '') ?es) = ?es"
    using parts False by (intro splitTopLevelMultiply_join) auto
  moreover have "parse_each (tryParseRuleGroupFactor numstr) ?es = Matched gs"
    using assms by (intro parse_each_map) (auto simp: list_all_iff group_read_back)
  ultimately show ?thesis by (simp add: build_rules [OF assms] tryParseRequestRuleExpr_def jtrim_trimmed)
qed (simp add: buildRequestRuleExpr_def tryParseRequestRuleExpr_def)

section \<open>Base and rules together\<close>

definition base_ok :: "jstring \<Rightarrow> bool" where
  "base_ok b \<longleftrightarrow> b \<noteq> [] \<and> trimmed b \<and> balanced b \<and> \<not> hasFullOuterParens b \<and> \<not> ends_with (js '' : 1'') b"

definition parens :: "jstring \<Rightarrow> jstring" where
  "parens b = js ''('' @ b @ js '')''"

lemma combine_join:
  assumes "base_ok b" "\<forall>e\<in>set es. \<exists>q. e = js ''('' @ q @ js '')''" "es \<noteq> []"
  shows "combineBillingExpr b (join (js '' * '') es) = join (js '' * '') (parens b # es)"
proof -
  have "trimmed (join (js '' * '') es)" "join (js '' * '') es \<noteq> []" using join_parens_trimmed [OF assms(2,3)] by auto
  with assms show ?thesis
    by (cases es) (simp_all add: combineBillingExpr_def base_ok_def jtrim_trimmed parens_def js_eval)
qed

lemma parens_is_no_rule:
  assumes "base_ok b" shows "is_rule_part numstr (parens b) = Some False"
proof -
  have split: "splitTopLevelMultiply (parens b) = [parens b]"
    using splitTopLevelMultiply_join [of "[parens b]"] assms by (auto simp: parens_def base_ok_def)
  have "strip (rev (js '' : 1)'')) (rev (b @ js '')'')) = None"
    using assms by (simp add: base_ok_def ends_with_def js_eval strip_def)
  then have "rule_factor (parens b) = None" by (simp add: rule_factor_def parens_def)
  moreover have "jtrim (parens b) = parens b" "parens b \<noteq> []"
    by (auto intro!: jtrim_trimmed simp: parens_def trimmed_def js_eval)
  ultimately show ?thesis
    using split by (simp add: is_rule_part_def tryParseRequestRuleExpr_def tryParseRuleGroupFactor_def)
qed

lemma unwrap_parens:
  assumes "base_ok b" shows "unwrapOuterParens (parens b) = b"
proof -
  have "jtrim (parens b) = parens b" by (rule jtrim_trimmed) (simp add: parens_def trimmed_def js_eval)
  moreover have "hasFullOuterParens (parens b)" using assms hasFullOuterParens_wrap by (simp add: parens_def base_ok_def)
  moreover have "jtrim (inner_slice (parens b)) = b" using assms by (simp add: inner_slice_def parens_def base_ok_def jtrim_trimmed js_eval)
  ultimately show ?thesis using assms
    by (simp add: unwrapOuterParens_def unwrap_loop.simps [of "parens b"] unwrap_loop.simps [of b] base_ok_def del: unwrap_loop.simps)
qed

lemma sort_parts_split:
  assumes "f b = Some False" "\<forall>e\<in>set es. f e = Some True"
  shows "sort_parts f (b # es) = Some (es, [b])"
proof -
  have "sort_parts f es = Some (es, [])" using assms(2) by (induction es) auto
  with assms(1) show ?thesis by simp
qed

lemma factor_is_rule:
  assumes "storable_group g" shows "is_rule_part numstr (buildRuleGroupFactor g) = Some True"
  using read_back_rules [of "[g]" numstr] build_rules [of "[g]"] assms by (simp add: is_rule_part_def)

lemma split_parts:
  assumes "base_ok b" "\<forall>e\<in>set es. \<exists>q. e = js ''('' @ q @ js '')'' \<and> balanced q" "es \<noteq> []"
  shows "splitTopLevelMultiply (combineBillingExpr b (join (js '' * '') es)) = parens b # es"
    "jtrim (combineBillingExpr b (join (js '' * '') es)) = combineBillingExpr b (join (js '' * '') es)"
    "combineBillingExpr b (join (js '' * '') es) \<noteq> []"
proof -
  have ps: "\<forall>e\<in>set (parens b # es). \<exists>q. e = js ''('' @ q @ js '')'' \<and> balanced q"
    using assms by (auto simp: parens_def base_ok_def)
  have comb: "combineBillingExpr b (join (js '' * '') es) = join (js '' * '') (parens b # es)"
    using assms by (intro combine_join) auto
  show "splitTopLevelMultiply (combineBillingExpr b (join (js '' * '') es)) = parens b # es"
    unfolding comb using ps by (intro splitTopLevelMultiply_join) auto
  have "trimmed (join (js '' * '') (parens b # es)) \<and> join (js '' * '') (parens b # es) \<noteq> []"
    using ps by (intro join_parens_trimmed) auto
  then show "jtrim (combineBillingExpr b (join (js '' * '') es)) = combineBillingExpr b (join (js '' * '') es)"
    "combineBillingExpr b (join (js '' * '') es) \<noteq> []"
    unfolding comb by (auto intro: jtrim_trimmed)
qed

section \<open>Conditions whose text is a conjunction\<close>

text \<open>
  A parameter that contains a text, or is compared, is guarded by a test that it is
  present: its text is a conjunction, which the reader takes apart first.
\<close>

fun guarded :: "RequestCondition \<Rightarrow> bool" where
  "guarded (ParamHeaderCondition h p m v) \<longleftrightarrow> \<not> h \<and> plain p \<and> trimmed p \<and>
     (if m = js ''contains'' then trimmed v \<and> list_all calm v
      else m \<in> fst ` set compare_ops \<and> NUMERIC_LITERAL_REGEX v)"
| "guarded (TimeCondition _ _ _ _ _ _) \<longleftrightarrow> False"

fun guarded_rest :: "RequestCondition \<Rightarrow> jstring" where
  "guarded_rest (ParamHeaderCondition h p m v) =
     (if m = js ''contains'' then js ''has('' @ ph_fn False p @ js '', '' @ JSON_stringify_string v @ js '')''
      else ph_fn False p @ js '' '' @ the (map_of compare_ops m) @ js '' '' @ v)"
| "guarded_rest (TimeCondition _ _ _ _ _ _) = []"

lemma build_guarded:
  assumes "guarded c"
  shows "buildRequestConditionExpr c = join (js '' && '') [ph_fn False (ph_path c) @ js '' != nil'', guarded_rest c]"
proof (cases c)
  case (ParamHeaderCondition h p m v)
  with assms have "normalizeCondition (as_partial c) = c"
    by (auto simp: normalizeCondition_def mode_or_def getRequestRuleMatchOptions_def compare_ops_def
        or_empty_def Let_def split: if_splits)
  with assms ParamHeaderCondition show ?thesis
    by (auto simp: buildRequestConditionExpr_def source_expr_plain compare_ops_def buildExprLiteral_def
        jtrim_trimmed plain_def js_eval Let_def split: if_splits)
qed (use assms in simp)

lemma compare_not_read:
  assumes "plain p" "m \<in> fst ` set compare_ops"
  shows "tryParseRequestCondition numstr (ph_fn False p @ js '' '' @ the (map_of compare_ops m) @ js '' '' @ v) = NoMatch"
  unfolding tryParseRequestCondition_def ph_not_time
  using assms by (auto simp: header_exists_def param_exists_def header_contains_def param_contains_def
      param_compare_def param_guard_def equals_literal_def ph_fn_def quoted_arg_ph compare_ops_def js_eval)

lemma guarded_rest_not_read:
  assumes "guarded c" shows "tryParseRequestCondition numstr (guarded_rest c) = NoMatch"
proof (cases c)
  case (ParamHeaderCondition h p m v)
  have "tryParseRequestCondition numstr (js ''has('' @ ph_fn False p @ s) = NoMatch" for s
    unfolding tryParseRequestCondition_def has_not_time
    by (simp add: header_exists_def param_exists_def header_contains_def param_contains_def
        param_compare_def param_guard_def equals_literal_def ph_fn_def js_eval)
  then show ?thesis using assms ParamHeaderCondition compare_not_read [of p m numstr v] by (auto split: if_splits)
qed (use assms in simp)

lemma compare_ops_quiet: "m \<in> fst ` set compare_ops \<Longrightarrow> list_all quiet (the (map_of compare_ops m))"
  by (auto simp: compare_ops_def js_eval quiet_def calm_def)

lemma guarded_parts:
  assumes "guarded c"
  shows "part_ok (ph_fn False (ph_path c) @ js '' != nil'')" "part_ok (guarded_rest c)"
proof -
  obtain p m v where c: "c = ParamHeaderCondition False p m v" using assms by (cases c) auto
  with assms have p: "plain p" by simp
  note fn = ph_fn_ok [OF p, of False]
  show "part_ok (ph_fn False (ph_path c) @ js '' != nil'')"
    using fn by (intro part_okI) (simp_all add: c js_eval)
  show "part_ok (guarded_rest c)"
  proof (cases "m = js ''contains''")
    case True
    with assms c have v: "list_all calm v" by simp
    have "balanced (js ''('' @ (ph_fn False p @ js '', '' @ JSON_stringify_string v) @ js '')'')"
      using fn quiet_balanced [OF quiet_stringify [OF v]] by (intro balanced_parens) (auto simp: js_eval)
    then show ?thesis using True c fn quiet_absent [OF quiet_stringify [OF v]]
      by (auto simp: part_ok_def js_eval trimmed_def)
  next
    case False
    with assms c have m: "m \<in> fst ` set compare_ops" and v: "NUMERIC_LITERAL_REGEX v" by auto
    have "part_ok (ph_fn False p @ js '' '' @ the (map_of compare_ops m) @ js '' '' @ v)"
      using fn quiet_balanced quiet_absent compare_ops_quiet [OF m] numeric_quiet [OF v] numeric_last [OF v]
      by (intro part_okI) (auto simp: js_eval intro!: balanced_append)
    then show ?thesis using False c by simp
  qed
qed

lemma guarded_conditions_not_read:
  assumes "guarded c" shows "tryParseRequestConditions numstr (buildRequestConditionExpr c) = NoMatch"
proof -
  let ?a = "ph_fn False (ph_path c) @ js '' != nil''"
  have split: "splitTopLevelAnd (buildRequestConditionExpr c) = [?a, guarded_rest c]"
    unfolding build_guarded [OF assms] using guarded_parts [OF assms]
    by (intro splitTopLevelAnd_join) (auto simp: part_ok_def)
  have "plain (ph_path c)" using assms by (cases c) auto
  then have "tryParseRequestCondition numstr (jtrim ?a) = Matched (ParamHeaderCondition False (ph_path c) (js ''exists'') [])"
    using parse_exists [of "ph_path c" numstr False] guarded_parts(1) [OF assms]
    by (simp add: part_ok_def jtrim_trimmed js_eval)
  moreover have "tryParseRequestCondition numstr (jtrim (guarded_rest c)) = NoMatch"
    using guarded_rest_not_read [OF assms] guarded_parts(2) [OF assms] by (simp add: part_ok_def jtrim_trimmed)
  ultimately show ?thesis by (simp add: tryParseRequestConditions_def split)
qed

lemma guarded_factor:
  assumes "guarded c" "NUMERIC_LITERAL_REGEX m" "conditions g = [c]" "multiplier g = m"
  shows "buildRuleGroupFactor g = factor (buildRequestConditionExpr c) m"
    "buildRequestRuleExpr [g] = factor (buildRequestConditionExpr c) m"
    "\<exists>q. factor (buildRequestConditionExpr c) m = js ''('' @ q @ js '')'' \<and> balanced q"
    "tryParseRuleGroupFactor numstr (factor (buildRequestConditionExpr c) m) = NoMatch"
proof -
  have ne: "buildRequestConditionExpr c \<noteq> []" by (simp add: build_guarded [OF assms(1)])
  have "balanced (js '' && '')" by (simp add: js_eval)
  then have bal: "balanced (buildRequestConditionExpr c)"
    unfolding build_guarded [OF assms(1)] using guarded_parts [OF assms(1)]
    by (intro balanced_join) (auto simp: part_ok_def)
  show "buildRuleGroupFactor g = factor (buildRequestConditionExpr c) m"
    "buildRequestRuleExpr [g] = factor (buildRequestConditionExpr c) m"
    using assms ne by (simp_all add: buildRequestRuleExpr_def buildRuleGroupFactor_def factor_def js_eval Let_def)
  show "\<exists>q. factor (buildRequestConditionExpr c) m = js ''('' @ q @ js '')'' \<and> balanced q"
    using factor_balanced [OF bal assms(2)] unfolding factor_def by blast
  show "tryParseRuleGroupFactor numstr (factor (buildRequestConditionExpr c) m) = NoMatch"
    using guarded_conditions_not_read [OF assms(1)] ne assms(2)
    by (simp add: tryParseRuleGroupFactor_def rule_factor_text)
qed

lemma single_rule_not_read:
  assumes "tryParseRuleGroupFactor numstr e = NoMatch" "e = js ''('' @ q @ js '')''" "balanced q"
  shows "tryParseRequestRuleExpr numstr e = NoMatch"
proof -
  have "jtrim e = e" "e \<noteq> []" using assms(2) by (auto intro!: jtrim_trimmed simp: trimmed_def js_eval)
  moreover have "splitTopLevelMultiply e = [e]" using splitTopLevelMultiply_join [of "[e]"] assms by auto
  ultimately show ?thesis using assms(1) by (simp add: tryParseRequestRuleExpr_def)
qed

section \<open>Properties\<close>

text \<open>
  C27.  The rule expression that the editor builds is read back as the groups it was built
  from, for any number of groups and conditions: clock conditions with a comparison or an
  overnight range, tests that a header or parameter is present or equal to a value, and
  headers that contain a text, where names need no escaping and values have no
  parentheses, ampersands or bars.
\<close>

theorem rules_read_back:
  assumes "list_all storable_group gs"
  shows "tryParseRequestRuleExpr numstr (buildRequestRuleExpr gs) = Matched gs"
  using assms by (rule read_back_rules)

definition night_rule :: RequestRuleGroup where
  "night_rule =
     \<lparr>conditions = [TimeCondition (js ''hour'') (js ''Asia/Shanghai'') (js ''range'') [] (js ''21'') (js ''6''),
                    ParamHeaderCondition True (js ''x-tier'') (js ''eq'') (js ''gold'')],
      multiplier = js ''0.5'', conditionText = None, matched = None\<rparr>"

lemma night_rule_storable: "storable_group night_rule"
  by (simp add: night_rule_def storable_group_def plain_def TIME_FUNCS_def NUMERIC_LITERAL_REGEX_def
      mantissa_rest_def exponent_ok_def span_while_def trimmed_def calm_def unescaped_def is_lead_def
      is_trail_def unat_u16 js_eval)

theorem rules_read_back_witness:
  "tryParseRequestRuleExpr (\<lambda>_. []) (buildRequestRuleExpr [night_rule, night_rule]) = Matched [night_rule, night_rule]"
  using night_rule_storable by (intro rules_read_back) simp

text \<open>
  Splitting a combined billing expression gives back the base expression and the rule
  expression, for a base with balanced parentheses that is neither wrapped in
  parentheses as a whole nor ends like a rule factor.
\<close>

theorem split_combine_roundtrip:
  assumes "base_ok b" "list_all storable_group gs" "gs \<noteq> []"
  shows "splitBillingExprAndRequestRules numstr (combineBillingExpr b (buildRequestRuleExpr gs)) =
     Some \<lparr>billingExpr = b, requestRuleExpr = buildRequestRuleExpr gs\<rparr>"
proof -
  let ?es = "map buildRuleGroupFactor gs"
  have "\<forall>e\<in>set ?es. is_rule_part numstr e = Some True"
    using assms(2) by (auto simp: list_all_iff factor_is_rule)
  then have "sort_parts (is_rule_part numstr) (parens b # ?es) = Some (?es, [parens b])"
    using parens_is_no_rule [OF assms(1)] by (intro sort_parts_split)
  moreover note split_parts [OF assms(1) factors_split [OF assms(2,3)]]
  ultimately show ?thesis
    using assms(3) by (simp add: splitBillingExprAndRequestRules_def build_rules [OF assms(2)] unwrap_parens [OF assms(1)])
qed

theorem split_combine_roundtrip_witness:
  "splitBillingExprAndRequestRules (\<lambda>_. []) (combineBillingExpr (js ''tier(p * 2)'') (buildRequestRuleExpr [night_rule])) =
     Some \<lparr>billingExpr = js ''tier(p * 2)'', requestRuleExpr = buildRequestRuleExpr [night_rule]\<rparr>"
  using night_rule_storable
  by (intro split_combine_roundtrip)
    (simp_all add: base_ok_def trimmed_def balanced_def hasFullOuterParens_def ends_with_def js_eval)

text \<open>
  C28.  A rule on a parameter that contains a text or is compared with a number is not read
  back: its text is a conjunction, which is split before the patterns for these
  conditions are tried.  The rule editor gets nothing back, and splitting the combined
  billing expression leaves the rule inside the base expression.
\<close>

theorem guarded_rule_not_read_back:
  assumes "guarded c" "NUMERIC_LITERAL_REGEX m" "base_ok b" "conditions g = [c]" "multiplier g = m"
  shows "tryParseRequestRuleExpr numstr (buildRequestRuleExpr [g]) = NoMatch \<and>
     splitBillingExprAndRequestRules numstr (combineBillingExpr b (buildRequestRuleExpr [g])) =
       Some \<lparr>billingExpr = combineBillingExpr b (buildRequestRuleExpr [g]), requestRuleExpr = []\<rparr>"
proof -
  let ?e = "buildRequestRuleExpr [g]"
  note g = guarded_factor [OF assms(1,2,4,5)]
  then have no: "tryParseRequestRuleExpr numstr ?e = NoMatch" using single_rule_not_read by metis
  then have "sort_parts (is_rule_part numstr) [parens b, ?e] = Some ([], [parens b, ?e])"
    using parens_is_no_rule [OF assms(3)] by (simp add: is_rule_part_def)
  moreover have "\<forall>e\<in>set [?e]. \<exists>q. e = js ''('' @ q @ js '')'' \<and> balanced q" using g by simp
  from split_parts [OF assms(3) this] have "splitTopLevelMultiply (combineBillingExpr b ?e) = [parens b, ?e]"
    "jtrim (combineBillingExpr b ?e) = combineBillingExpr b ?e" "combineBillingExpr b ?e \<noteq> []"
    by simp_all
  ultimately show ?thesis using no by (simp add: splitBillingExprAndRequestRules_def)
qed

definition long_rule :: RequestRuleGroup where
  "long_rule =
     \<lparr>conditions = [ParamHeaderCondition False (js ''max_tokens'') (js ''gt'') (js ''1000'')],
      multiplier = js ''2'', conditionText = None, matched = None\<rparr>"

theorem guarded_rule_not_read_back_witness:
  "tryParseRequestRuleExpr (\<lambda>_. []) (buildRequestRuleExpr [long_rule]) = NoMatch \<and>
     splitBillingExprAndRequestRules (\<lambda>_. []) (combineBillingExpr (js ''tier(p * 2)'') (buildRequestRuleExpr [long_rule])) =
       Some \<lparr>billingExpr = combineBillingExpr (js ''tier(p * 2)'') (buildRequestRuleExpr [long_rule]), requestRuleExpr = []\<rparr>"
  by (rule guarded_rule_not_read_back [of "ParamHeaderCondition False (js ''max_tokens'') (js ''gt'') (js ''1000'')" "js ''2''"])
    (simp_all add: long_rule_def plain_def NUMERIC_LITERAL_REGEX_def mantissa_rest_def exponent_ok_def span_while_def
      compare_ops_def calm_def unescaped_def is_lead_def is_trail_def unat_u16
      base_ok_def trimmed_def balanced_def hasFullOuterParens_def ends_with_def js_eval)

end
