(* ===== verification/Channel_Routes.thy ===== *)
theory Channel_Routes
  imports JS_Stringify
begin

text \<open>
  Routes of an advanced custom channel (\<open>web/src/features/channels/lib/advanced-custom.ts\<close>):
  each route forwards an incoming path to an upstream path, for all models or for the
  models of its rules.  The configuration is edited, printed, parsed and validated here.
  \<open>parseURL\<close> is the constructor of \<open>URL\<close>: the host and the protocol of an absolute URL,
  \<open>None\<close> when it throws.
\<close>

section \<open>Configurations\<close>

record AdvancedCustomRouteAuth =
  auth_type :: "jstring option"
  auth_name :: "jstring option"
  auth_value :: "jstring option"

record AdvancedCustomRoute =
  incoming_path :: "jstring option"
  upstream_path :: "jstring option"
  converter :: "jstring option"
  route_models :: "jstring list option"
  route_auth :: "AdvancedCustomRouteAuth option"

record AdvancedCustomConfig =
  advanced_routes :: "AdvancedCustomRoute list option"

record AdvancedCustomValidationError =
  message :: jstring
  routeIndex :: "nat option"

definition ADVANCED_CUSTOM_MODEL_LIST_PATH :: jstring where
  "ADVANCED_CUSTOM_MODEL_LIST_PATH = js ''/v1/models''"

definition ADVANCED_CUSTOM_BALANCE_PATH :: jstring where
  "ADVANCED_CUSTOM_BALANCE_PATH = js ''/v1/dashboard/billing/credit_grants''"

text \<open>Value, label and label of the trigger of each converter.\<close>

definition ADVANCED_CUSTOM_CONVERTER_OPTIONS :: "(jstring \<times> jstring \<times> jstring) list" where
  "ADVANCED_CUSTOM_CONVERTER_OPTIONS =
     [(js ''none'', js ''Native forwarding'', js ''Native forwarding''),
      (js ''anthropic_messages_to_openai_chat_completions'', js ''Anthropic Messages to OpenAI Chat'', js ''To OpenAI Chat''),
      (js ''openai_chat_completions_to_anthropic_messages'', js ''OpenAI Chat to Anthropic Messages'', js ''To Anthropic Messages''),
      (js ''openai_chat_completions_to_openai_responses'', js ''OpenAI Chat to OpenAI Responses'', js ''To OpenAI Responses''),
      (js ''openai_responses_to_openai_chat_completions'', js ''OpenAI Responses to OpenAI Chat'', js ''To OpenAI Chat''),
      (js ''openai_responses_to_gemini_generate_content'', js ''OpenAI Responses to Gemini Generate Content'', js ''To Gemini Generate Content''),
      (js ''gemini_generate_content_to_openai_chat_completions'', js ''Gemini Generate Content to OpenAI Chat'', js ''To OpenAI Chat''),
      (js ''openai_chat_completions_to_gemini_generate_content'', js ''OpenAI Chat to Gemini Generate Content'', js ''To Gemini Generate Content'')]"

definition ADVANCED_CUSTOM_AUTH_MODE_OPTIONS :: "(jstring \<times> jstring) list" where
  "ADVANCED_CUSTOM_AUTH_MODE_OPTIONS =
     [(js ''default'', js ''Default Bearer''), (js ''none'', js ''No Auth''), (js ''header'', js ''Header''), (js ''query'', js ''Query'')]"

definition ADVANCED_CUSTOM_INCOMING_PATH_OPTIONS :: "(jstring \<times> jstring) list" where
  "ADVANCED_CUSTOM_INCOMING_PATH_OPTIONS =
     [(js ''/v1/chat/completions'', js ''OpenAI Chat''),
      (js ''/v1/responses'', js ''OpenAI Responses''),
      (js ''/v1/responses/compact'', js ''OpenAI Responses Compact''),
      (js ''/v1/alpha/search'', js ''Codex Alpha Search''),
      (js ''/v1/embeddings'', js ''OpenAI Embeddings''),
      (js ''/v1/images/generations'', js ''OpenAI Image Generations''),
      (js ''/v1/images/edits'', js ''OpenAI Image Edits''),
      (js ''/v1/completions'', js ''OpenAI Completions''),
      (js ''/v1/audio/speech'', js ''OpenAI Audio Speech''),
      (js ''/v1/audio/transcriptions'', js ''OpenAI Audio Transcriptions''),
      (js ''/v1/audio/translations'', js ''OpenAI Audio Translations''),
      (js ''/v1/rerank'', js ''Rerank''),
      (js ''/v1/realtime'', js ''OpenAI Realtime''),
      (js ''/v1/messages'', js ''Claude Messages''),
      (js ''/v1beta/models/{model}:generateContent'', js ''Gemini Generate Content''),
      (js ''/v1beta/models/{model}:embedContent'', js ''Gemini Embed Content''),
      (js ''/v1beta/models/{model}:batchEmbedContents'', js ''Gemini Batch Embed Contents'')]"

definition ADVANCED_CUSTOM_ROUTE_SUMMARY_LABELS :: "(jstring \<times> jstring) list" where
  "ADVANCED_CUSTOM_ROUTE_SUMMARY_LABELS =
     [(js ''/v1/chat/completions'', js ''OpenAI Chat''),
      (ADVANCED_CUSTOM_MODEL_LIST_PATH, js ''OpenAI Models''),
      (ADVANCED_CUSTOM_BALANCE_PATH, js ''Balance Query'')]"

definition openAIChatPath :: jstring where "openAIChatPath = js ''/v1/chat/completions''"
definition openAIResponsesPath :: jstring where "openAIResponsesPath = js ''/v1/responses''"
definition claudeMessagesPath :: jstring where "claudeMessagesPath = js ''/v1/messages''"
definition geminiGenerateContentPath :: jstring where
  "geminiGenerateContentPath = js ''/v1beta/models/{model}:generateContent''"

definition bearerHeaderAuth :: AdvancedCustomRouteAuth where
  "bearerHeaderAuth = \<lparr>auth_type = Some (js ''header''), auth_name = Some (js ''Authorization''),
     auth_value = Some (js ''Bearer {api_key}'')\<rparr>"

definition apiKeyHeaderAuth :: AdvancedCustomRouteAuth where
  "apiKeyHeaderAuth = \<lparr>auth_type = Some (js ''header''), auth_name = Some (js ''x-api-key''),
     auth_value = Some (js ''{api_key}'')\<rparr>"

definition geminiQueryAuth :: AdvancedCustomRouteAuth where
  "geminiQueryAuth = \<lparr>auth_type = Some (js ''query''), auth_name = Some (js ''key''),
     auth_value = Some (js ''{api_key}'')\<rparr>"

definition native_route :: "AdvancedCustomRouteAuth \<Rightarrow> jstring \<Rightarrow> AdvancedCustomRoute" where
  "native_route a path = \<lparr>incoming_path = Some path, upstream_path = Some path, converter = Some (js ''none''),
     route_models = None, route_auth = Some a\<rparr>"

definition createOpenAINativeRoutes :: "AdvancedCustomRoute list" where
  "createOpenAINativeRoutes = map (native_route bearerHeaderAuth)
     [js ''/v1/chat/completions'', js ''/v1/completions'', js ''/v1/responses'', js ''/v1/responses/compact'',
      js ''/v1/embeddings'', js ''/v1/images/generations'', js ''/v1/images/edits'', js ''/v1/audio/speech'',
      js ''/v1/audio/transcriptions'', js ''/v1/audio/translations'', js ''/v1/realtime'']"

definition createClaudeNativeRoutes :: "AdvancedCustomRoute list" where
  "createClaudeNativeRoutes = [native_route apiKeyHeaderAuth (js ''/v1/messages'')]"

definition createGeminiNativeRoutes :: "AdvancedCustomRoute list" where
  "createGeminiNativeRoutes = map (native_route geminiQueryAuth)
     [js ''/v1beta/models/{model}:generateContent'', js ''/v1beta/models/{model}:embedContent'',
      js ''/v1beta/models/{model}:batchEmbedContents'']"

definition createGatewayNativeRoutes :: "AdvancedCustomRoute list" where
  "createGatewayNativeRoutes = map (native_route bearerHeaderAuth) [js ''/v1/alpha/search'', js ''/v1/rerank'']"

text \<open>Key, label and configuration of each template.\<close>

definition ADVANCED_CUSTOM_TEMPLATE_OPTIONS :: "(jstring \<times> jstring \<times> AdvancedCustomConfig) list" where
  "ADVANCED_CUSTOM_TEMPLATE_OPTIONS =
     [(js ''all_protocols'', js ''All routes'',
       \<lparr>advanced_routes = Some (createOpenAINativeRoutes @ createClaudeNativeRoutes @
          createGeminiNativeRoutes @ createGatewayNativeRoutes)\<rparr>),
      (js ''openai_only'', js ''OpenAI only'', \<lparr>advanced_routes = Some createOpenAINativeRoutes\<rparr>),
      (js ''claude_only'', js ''Claude only'', \<lparr>advanced_routes = Some createClaudeNativeRoutes\<rparr>),
      (js ''gemini_only'', js ''Gemini only'', \<lparr>advanced_routes = Some createGeminiNativeRoutes\<rparr>)]"

definition getAdvancedCustomTemplateConfig :: "jstring \<Rightarrow> AdvancedCustomConfig" where
  "getAdvancedCustomTemplateConfig templateKey =
     snd (snd (case find (\<lambda>(value, _). value = templateKey) ADVANCED_CUSTOM_TEMPLATE_OPTIONS of
                 Some t \<Rightarrow> t | None \<Rightarrow> hd ADVANCED_CUSTOM_TEMPLATE_OPTIONS))"

section \<open>Normalisation\<close>

text \<open>\<open>v || ''\<close> and \<open>v || d\<close> on an optional string.\<close>

definition text_or :: "jstring \<Rightarrow> jstring option \<Rightarrow> jstring" where
  "text_or d v = (case v of None \<Rightarrow> d | Some s \<Rightarrow> if s = [] then d else s)"

definition getAdvancedCustomRouteUpstreamPath :: "AdvancedCustomRoute \<Rightarrow> jstring" where
  "getAdvancedCustomRouteUpstreamPath route = jtrim (text_or [] (upstream_path route))"

text \<open>\<open>route.incoming_path?.trim() || ''\<close>\<close>

definition incomingPath :: "AdvancedCustomRoute \<Rightarrow> jstring" where
  "incomingPath route = jtrim (text_or [] (incoming_path route))"

definition normalizeAdvancedCustomRouteModels :: "jstring list option \<Rightarrow> jstring list" where
  "normalizeAdvancedCustomRouteModels ms =
     (case ms of None \<Rightarrow> [] | Some xs \<Rightarrow> filter (\<lambda>m. m \<noteq> []) (map jtrim xs))"

definition normalizeAdvancedCustomRoute :: "AdvancedCustomRoute \<Rightarrow> AdvancedCustomRoute" where
  "normalizeAdvancedCustomRoute route =
     (let ms = normalizeAdvancedCustomRouteModels (route_models route) in
      \<lparr>incoming_path = Some (text_or [] (incoming_path route)),
       upstream_path = Some (getAdvancedCustomRouteUpstreamPath route),
       converter = Some (text_or (js ''none'') (converter route)),
       route_models = (if ms \<noteq> [] then Some ms else None),
       route_auth = map_option (\<lambda>a. \<lparr>auth_type = auth_type a, auth_name = Some (text_or [] (auth_name a)),
          auth_value = Some (text_or [] (auth_value a))\<rparr>) (route_auth route)\<rparr>)"

definition normalizeAdvancedCustomConfig :: "AdvancedCustomConfig \<Rightarrow> AdvancedCustomConfig" where
  "normalizeAdvancedCustomConfig config =
     \<lparr>advanced_routes = Some (case advanced_routes config of None \<Rightarrow> [] | Some rs \<Rightarrow> map normalizeAdvancedCustomRoute rs)\<rparr>"

text \<open>\<open>normalizeAdvancedCustomConfig(config).advanced_routes || []\<close>\<close>

definition normal_routes :: "AdvancedCustomConfig \<Rightarrow> AdvancedCustomRoute list" where
  "normal_routes config = (case advanced_routes (normalizeAdvancedCustomConfig config) of None \<Rightarrow> [] | Some rs \<Rightarrow> rs)"

section \<open>Management and forwarding routes\<close>

definition isAdvancedCustomManagementPath :: "jstring \<Rightarrow> bool" where
  "isAdvancedCustomManagementPath path \<longleftrightarrow>
     path = ADVANCED_CUSTOM_MODEL_LIST_PATH \<or> path = ADVANCED_CUSTOM_BALANCE_PATH"

definition getAdvancedCustomManagementRoute :: "AdvancedCustomConfig \<Rightarrow> jstring \<Rightarrow> AdvancedCustomRoute option" where
  "getAdvancedCustomManagementRoute config path = find (\<lambda>r. incomingPath r = path) (normal_routes config)"

text \<open>\<open>findIndex\<close>, \<open>None\<close> standing for \<open>-1\<close>.\<close>

fun find_index :: "('a \<Rightarrow> bool) \<Rightarrow> 'a list \<Rightarrow> nat option" where
  "find_index p [] = None"
| "find_index p (x # xs) = (if p x then Some 0 else map_option Suc (find_index p xs))"

definition replaceAdvancedCustomManagementRoute ::
    "AdvancedCustomConfig \<Rightarrow> jstring \<Rightarrow> AdvancedCustomRoute option \<Rightarrow> AdvancedCustomConfig" where
  "replaceAdvancedCustomManagementRoute config path route =
     (let routes = normal_routes config;
          index = find_index (\<lambda>r. incomingPath r = path) routes
      in \<lparr>advanced_routes = Some
           (case route of
              None \<Rightarrow> (case index of None \<Rightarrow> routes | Some i \<Rightarrow> take i routes @ drop (Suc i) routes)
            | Some r \<Rightarrow>
                (let managementRoute = \<lparr>incoming_path = Some path, upstream_path = Some (text_or [] (upstream_path r)),
                       converter = Some (js ''none''), route_models = Some [], route_auth = route_auth r\<rparr>
                 in case index of None \<Rightarrow> routes @ [managementRoute] | Some i \<Rightarrow> routes[i := managementRoute]))\<rparr>)"

definition replaceAdvancedCustomForwardingRoutes ::
    "AdvancedCustomConfig \<Rightarrow> AdvancedCustomRoute list \<Rightarrow> AdvancedCustomConfig" where
  "replaceAdvancedCustomForwardingRoutes config forwardingRoutes =
     (let routes = normal_routes config;
          management = (\<lambda>r. isAdvancedCustomManagementPath (incomingPath r))
      in \<lparr>advanced_routes = Some
           (case find_index (\<lambda>r. \<not> management r) routes of
              None \<Rightarrow> filter management routes @ forwardingRoutes
            | Some i \<Rightarrow> filter management (take i routes) @ forwardingRoutes @ filter management (drop i routes))\<rparr>)"

definition createAdvancedCustomRoute :: AdvancedCustomRoute where
  "createAdvancedCustomRoute = \<lparr>incoming_path = Some openAIChatPath, upstream_path = Some openAIChatPath,
     converter = Some (js ''none''), route_models = None, route_auth = None\<rparr>"

definition createAdvancedCustomConfig :: AdvancedCustomConfig where
  "createAdvancedCustomConfig = \<lparr>advanced_routes = Some [createAdvancedCustomRoute]\<rparr>"

definition createAdvancedCustomManagementRoute :: "jstring \<Rightarrow> AdvancedCustomRoute" where
  "createAdvancedCustomManagementRoute path = \<lparr>incoming_path = Some path, upstream_path = Some path,
     converter = Some (js ''none''), route_models = Some [], route_auth = None\<rparr>"

section \<open>Converters\<close>

definition isConverterPathAllowed :: "jstring \<Rightarrow> jstring \<Rightarrow> bool" where
  "isConverterPathAllowed path conv =
     (if conv = js ''none'' then True
      else if path = js ''/v1/alpha/search'' then False
      else if conv = js ''anthropic_messages_to_openai_chat_completions'' then path = js ''/v1/messages''
      else if conv = js ''openai_chat_completions_to_anthropic_messages'' \<or>
              conv = js ''openai_chat_completions_to_openai_responses'' \<or>
              conv = js ''openai_chat_completions_to_gemini_generate_content''
        then path = js ''/v1/chat/completions''
      else if conv = js ''openai_responses_to_openai_chat_completions'' then path = js ''/v1/responses''
      else if conv = js ''openai_responses_to_gemini_generate_content'' then path = js ''/v1/responses''
      else str_includes (js '':generateContent'') path \<or> str_includes (js '':streamGenerateContent'') path)"

definition getAdvancedCustomIncomingPathOptions :: "jstring \<Rightarrow> (jstring \<times> jstring) list" where
  "getAdvancedCustomIncomingPathOptions conv =
     filter (\<lambda>(value, _). isConverterPathAllowed value conv) ADVANCED_CUSTOM_INCOMING_PATH_OPTIONS"

definition getDefaultAdvancedCustomIncomingPath :: "jstring \<Rightarrow> jstring" where
  "getDefaultAdvancedCustomIncomingPath conv =
     (case getAdvancedCustomIncomingPathOptions conv of
        [] \<Rightarrow> js ''/v1/chat/completions''
      | (value, _) # _ \<Rightarrow> str_or value (js ''/v1/chat/completions''))"

definition isAdvancedCustomIncomingPathAllowed :: "jstring \<Rightarrow> jstring \<Rightarrow> bool" where
  "isAdvancedCustomIncomingPathAllowed path conv = isConverterPathAllowed path conv"

definition getAdvancedCustomConverterOptions :: "jstring \<Rightarrow> (jstring \<times> jstring \<times> jstring) list" where
  "getAdvancedCustomConverterOptions path =
     (let normalizedIncomingPath = jtrim path in
      filter (\<lambda>(value, _). value = js ''none'' \<or> isConverterPathAllowed normalizedIncomingPath value)
        ADVANCED_CUSTOM_CONVERTER_OPTIONS)"

definition getAdvancedCustomIncomingPathLabel :: "jstring \<Rightarrow> jstring" where
  "getAdvancedCustomIncomingPathLabel value =
     text_or value (map_option snd (find (\<lambda>(v, _). v = value) ADVANCED_CUSTOM_INCOMING_PATH_OPTIONS))"

definition getAdvancedCustomNativeAuth :: "jstring \<Rightarrow> AdvancedCustomRouteAuth" where
  "getAdvancedCustomNativeAuth path =
     (if path = claudeMessagesPath then apiKeyHeaderAuth
      else if str_includes (js '':generateContent'') path \<or> str_includes (js '':streamGenerateContent'') path \<or>
              str_includes (js '':embedContent'') path \<or> str_includes (js '':batchEmbedContents'') path
        then geminiQueryAuth
      else bearerHeaderAuth)"

record AdvancedCustomConverterDefaults =
  default_upstream_path :: jstring
  default_auth :: AdvancedCustomRouteAuth

definition getAdvancedCustomConverterDefaults :: "jstring \<Rightarrow> jstring \<Rightarrow> AdvancedCustomConverterDefaults" where
  "getAdvancedCustomConverterDefaults conv path =
     (let normalizedIncomingPath = str_or (jtrim path) (getDefaultAdvancedCustomIncomingPath conv) in
      if conv = js ''none'' then
        \<lparr>default_upstream_path = normalizedIncomingPath, default_auth = getAdvancedCustomNativeAuth normalizedIncomingPath\<rparr>
      else if conv = js ''anthropic_messages_to_openai_chat_completions'' \<or>
              conv = js ''gemini_generate_content_to_openai_chat_completions'' \<or>
              conv = js ''openai_responses_to_openai_chat_completions'' then
        \<lparr>default_upstream_path = openAIChatPath, default_auth = bearerHeaderAuth\<rparr>
      else if conv = js ''openai_chat_completions_to_openai_responses'' then
        \<lparr>default_upstream_path = openAIResponsesPath, default_auth = bearerHeaderAuth\<rparr>
      else if conv = js ''openai_chat_completions_to_anthropic_messages'' then
        \<lparr>default_upstream_path = claudeMessagesPath, default_auth = apiKeyHeaderAuth\<rparr>
      else if conv = js ''openai_chat_completions_to_gemini_generate_content'' \<or>
              conv = js ''openai_responses_to_gemini_generate_content'' then
        \<lparr>default_upstream_path = geminiGenerateContentPath, default_auth = geminiQueryAuth\<rparr>
      else
        \<lparr>default_upstream_path = str_or normalizedIncomingPath openAIChatPath,
         default_auth = getAdvancedCustomNativeAuth normalizedIncomingPath\<rparr>)"

text \<open>The incoming path is optional and defaults to that of the converter.\<close>

definition getAdvancedCustomUpstreamPathPlaceholder :: "jstring \<Rightarrow> jstring option \<Rightarrow> jstring" where
  "getAdvancedCustomUpstreamPathPlaceholder conv path =
     default_upstream_path (getAdvancedCustomConverterDefaults conv
       (case path of None \<Rightarrow> getDefaultAdvancedCustomIncomingPath conv | Some p \<Rightarrow> p))"

definition getAdvancedCustomAuthMode :: "AdvancedCustomRoute \<Rightarrow> jstring" where
  "getAdvancedCustomAuthMode route = text_or (js ''default'') (Option.bind (route_auth route) auth_type)"

definition buildAdvancedCustomAuth ::
    "jstring \<Rightarrow> AdvancedCustomRouteAuth option \<Rightarrow> AdvancedCustomRouteAuth option" where
  "buildAdvancedCustomAuth mode previousAuth =
     (if mode = js ''default'' then None
      else if mode = js ''none'' then Some \<lparr>auth_type = Some (js ''none''), auth_name = None, auth_value = None\<rparr>
      else if mode = js ''header'' then
        Some \<lparr>auth_type = Some (js ''header''),
              auth_name = Some (text_or (js ''Authorization'') (Option.bind previousAuth auth_name)),
              auth_value = Some (text_or (js ''Bearer {api_key}'') (Option.bind previousAuth auth_value))\<rparr>
      else
        Some \<lparr>auth_type = Some (js ''query''),
              auth_name = Some (text_or (js ''api_key'') (Option.bind previousAuth auth_name)),
              auth_value = Some (text_or (js ''{api_key}'') (Option.bind previousAuth auth_value))\<rparr>)"

section \<open>Model rules\<close>

definition parseAdvancedCustomRouteModels :: "jstring \<Rightarrow> jstring list" where
  "parseAdvancedCustomRouteModels value =
     uniq (filter (\<lambda>m. m \<noteq> []) (map jtrim (split_on (u16 (CHR '','')) value)))"

definition ADVANCED_CUSTOM_MODEL_REGEX_PREFIX :: jstring where
  "ADVANCED_CUSTOM_MODEL_REGEX_PREFIX = js ''re:''"

definition getAdvancedCustomModelRuleKind :: "jstring \<Rightarrow> jstring" where
  "getAdvancedCustomModelRuleKind modelRule =
     (if starts_with ADVANCED_CUSTOM_MODEL_REGEX_PREFIX modelRule then js ''regex'' else js ''exact'')"

definition getAdvancedCustomRegexModelPattern :: "jstring \<Rightarrow> jstring" where
  "getAdvancedCustomRegexModelPattern modelRule = drop (length ADVANCED_CUSTOM_MODEL_REGEX_PREFIX) modelRule"

record PathRules =
  catchAllIndex :: "nat option"
  rule_models :: "jstring \<rightharpoonup> nat"

definition route_error :: "nat \<Rightarrow> jstring \<Rightarrow> AdvancedCustomValidationError" where
  "route_error i m = \<lparr>message = m, routeIndex = Some i\<rparr>"

text \<open>The loop over the models of a route; \<open>seen\<close> is \<open>seenInRoute\<close>.\<close>

fun rule_loop :: "nat \<Rightarrow> jstring set \<Rightarrow> (jstring \<rightharpoonup> nat) \<Rightarrow> jstring list \<Rightarrow>
    AdvancedCustomValidationError + (jstring \<rightharpoonup> nat)" where
  "rule_loop i seen known [] = Inr known"
| "rule_loop i seen known (m # ms) =
     (if getAdvancedCustomModelRuleKind m = js ''regex'' \<and> getAdvancedCustomRegexModelPattern m = []
      then Inl (route_error i (js ''Model regex cannot be empty''))
      else if m \<in> seen then Inl (route_error i (js ''Duplicate model in route models''))
      else if known m \<noteq> None then Inl (route_error i (js ''Route models must be unique for the same incoming path''))
      else rule_loop i (insert m seen) (known(m \<mapsto> i)) ms)"

definition validateAdvancedCustomRouteModels ::
    "nat \<Rightarrow> jstring \<Rightarrow> jstring list \<Rightarrow> (jstring \<rightharpoonup> PathRules) \<Rightarrow>
     AdvancedCustomValidationError + (jstring \<rightharpoonup> PathRules)" where
  "validateAdvancedCustomRouteModels i path ms byPath =
     (let state = (case byPath path of Some s \<Rightarrow> s | None \<Rightarrow> \<lparr>catchAllIndex = None, rule_models = Map.empty\<rparr>) in
      if ms = [] then
        (if catchAllIndex state \<noteq> None
         then Inl (route_error i (js ''Only one catch-all route is allowed for the same incoming path''))
         else Inr (byPath(path \<mapsto> state\<lparr>catchAllIndex := Some i\<rparr>)))
      else if catchAllIndex state \<noteq> None
        then Inl (route_error i (js ''Catch-all route must be last for the same incoming path''))
      else (case rule_loop i {} (rule_models state) ms of
              Inl e \<Rightarrow> Inl e
            | Inr known \<Rightarrow> Inr (byPath(path \<mapsto> state\<lparr>rule_models := known\<rparr>))))"

section \<open>Validation\<close>

text \<open>The host and the protocol that \<open>new URL(value)\<close> finds.\<close>

type_synonym url_parser = "jstring \<Rightarrow> (jstring \<times> jstring) option"

definition isFullHttpURLOrAbsolutePath :: "url_parser \<Rightarrow> jstring \<Rightarrow> bool" where
  "isFullHttpURLOrAbsolutePath parseURL value =
     (if starts_with (js ''/'') value then \<not> starts_with (js ''//'') value
      else (case parseURL value of
              None \<Rightarrow> False
            | Some (host, protocol) \<Rightarrow> host \<noteq> [] \<and> (protocol = js ''http:'' \<or> protocol = js ''https:'')))"

definition isAdvancedCustomConverter :: "jstring \<Rightarrow> bool" where
  "isAdvancedCustomConverter value \<longleftrightarrow> value \<in> fst ` set ADVANCED_CUSTOM_CONVERTER_OPTIONS"

definition validateRouteAuth :: "AdvancedCustomRouteAuth option \<Rightarrow> jstring option" where
  "validateRouteAuth auth =
     (case auth of
        None \<Rightarrow> None
      | Some a \<Rightarrow>
          if auth_type a = Some (js ''none'') then None
          else if auth_type a \<noteq> Some (js ''header'') \<and> auth_type a \<noteq> Some (js ''query'') then Some (js ''Auth type is invalid'')
          else if jtrim (text_or [] (auth_name a)) = [] then Some (js ''Auth name is required'')
          else if jtrim (text_or [] (auth_value a)) = [] then Some (js ''Auth value is required'')
          else None)"

text \<open>The variables of the loop over the routes.\<close>

record validation =
  routeModelsByPath :: "jstring \<rightharpoonup> PathRules"
  modelListRouteIndex :: "nat option"
  balanceRouteIndex :: "nat option"

definition ensure :: "bool \<Rightarrow> nat \<Rightarrow> jstring \<Rightarrow> (AdvancedCustomValidationError + 'a) \<Rightarrow> AdvancedCustomValidationError + 'a" where
  "ensure b i m k = (if b then k else Inl (route_error i m))"

definition validate_management ::
    "nat \<Rightarrow> AdvancedCustomRoute \<Rightarrow> validation \<Rightarrow> AdvancedCustomValidationError + validation" where
  "validate_management i route s =
     (let isModelListRoute = (incomingPath route = ADVANCED_CUSTOM_MODEL_LIST_PATH);
          existingIndex = (if isModelListRoute then modelListRouteIndex s else balanceRouteIndex s);
          routeLabel = (if isModelListRoute then js ''OpenAI Models'' else js ''Balance Query'');
          s' = (if isModelListRoute then s\<lparr>modelListRouteIndex := Some i\<rparr> else s\<lparr>balanceRouteIndex := Some i\<rparr>)
      in ensure (existingIndex = None) i (js ''Only one '' @ routeLabel @ js '' route is allowed'')
         (ensure (normalizeAdvancedCustomRouteModels (route_models route) = []) i
            (routeLabel @ js '' route does not support client model rules'')
         (ensure (text_or (js ''none'') (converter route) = js ''none'') i
            (routeLabel @ js '' route must use native forwarding'')
         (ensure (\<not> str_includes (js ''{model}'') (getAdvancedCustomRouteUpstreamPath route)) i
            (routeLabel @ js '' upstream path must not contain {model}'')
         (Inr s')))))"

definition validate_route ::
    "url_parser \<Rightarrow> nat \<Rightarrow> AdvancedCustomRoute \<Rightarrow> validation \<Rightarrow> AdvancedCustomValidationError + validation" where
  "validate_route parseURL i route s =
     (let path = incomingPath route;
          upstreamPath = getAdvancedCustomRouteUpstreamPath route;
          conv = text_or (js ''none'') (converter route);
          ms = normalizeAdvancedCustomRouteModels (route_models route)
      in ensure (path \<noteq> []) i (js ''Incoming path is required'')
         (ensure (starts_with (js ''/'') path) i (js ''Incoming path must start with /'')
         (ensure (\<not> str_includes (js ''?'') path) i (js ''Incoming path must not include query'')
         (case (if isAdvancedCustomManagementPath path then validate_management i route s else Inr s) of
            Inl e \<Rightarrow> Inl e
          | Inr s' \<Rightarrow>
            (case validateAdvancedCustomRouteModels i path ms (routeModelsByPath s') of
               Inl e \<Rightarrow> Inl e
             | Inr byPath \<Rightarrow>
                 ensure (upstreamPath \<noteq> []) i (js ''Upstream path is required'')
                 (ensure (isFullHttpURLOrAbsolutePath parseURL upstreamPath) i
                    (js ''Upstream path must be a full URL or a path starting with /'')
                 (ensure (isAdvancedCustomConverter conv) i (js ''Converter is not registered'')
                 (ensure (isConverterPathAllowed path conv) i (js ''Converter does not match incoming path'')
                 (case validateRouteAuth (route_auth route) of
                    Some e \<Rightarrow> Inl (route_error i e)
                  | None \<Rightarrow> Inr (s'\<lparr>routeModelsByPath := byPath\<rparr>))))))))))"

fun validate_loop ::
    "url_parser \<Rightarrow> nat \<Rightarrow> AdvancedCustomRoute list \<Rightarrow> validation \<Rightarrow> AdvancedCustomValidationError option" where
  "validate_loop parseURL i [] s = None"
| "validate_loop parseURL i (r # rs) s =
     (case validate_route parseURL i r s of Inl e \<Rightarrow> Some e | Inr s' \<Rightarrow> validate_loop parseURL (Suc i) rs s')"

definition no_routes :: validation where
  "no_routes = \<lparr>routeModelsByPath = Map.empty, modelListRouteIndex = None, balanceRouteIndex = None\<rparr>"

definition validateAdvancedCustomConfig :: "url_parser \<Rightarrow> AdvancedCustomConfig option \<Rightarrow> AdvancedCustomValidationError option" where
  "validateAdvancedCustomConfig parseURL config =
     (case config of
        None \<Rightarrow> Some \<lparr>message = js ''Advanced custom configuration is required'', routeIndex = None\<rparr>
      | Some c \<Rightarrow>
          if normal_routes c = []
          then Some \<lparr>message = js ''Advanced custom configuration requires at least one route'', routeIndex = None\<rparr>
          else validate_loop parseURL 0 (normal_routes c) no_routes)"

definition hasValidAdvancedCustomModelListRoute :: "url_parser \<Rightarrow> AdvancedCustomConfig option \<Rightarrow> bool" where
  "hasValidAdvancedCustomModelListRoute parseURL config =
     (case config of
        None \<Rightarrow> False
      | Some c \<Rightarrow> validateAdvancedCustomConfig parseURL config = None \<and>
          list_ex (\<lambda>r. incomingPath r = ADVANCED_CUSTOM_MODEL_LIST_PATH) (normal_routes c))"

definition advancedCustomConfigUsesRelativeUpstreamPath :: "AdvancedCustomConfig option \<Rightarrow> bool" where
  "advancedCustomConfigUsesRelativeUpstreamPath config =
     (case config of
        None \<Rightarrow> False
      | Some c \<Rightarrow> list_ex (\<lambda>r. starts_with (js ''/'') (getAdvancedCustomRouteUpstreamPath r)) (normal_routes c))"

section \<open>Printing and parsing\<close>

text \<open>An object of the declared type as a value, without its absent properties, and back.\<close>

definition opt_member :: "string \<Rightarrow> ('a \<Rightarrow> jsval) \<Rightarrow> 'a option \<Rightarrow> (jstring \<times> jsval) list" where
  "opt_member k f v = (case v of None \<Rightarrow> [] | Some x \<Rightarrow> [(js k, f x)])"

definition auth_value_of :: "AdvancedCustomRouteAuth \<Rightarrow> jsval" where
  "auth_value_of a = JObj (opt_member ''type'' JStr (auth_type a) @ opt_member ''name'' JStr (auth_name a) @
     opt_member ''value'' JStr (auth_value a))"

definition route_value_of :: "AdvancedCustomRoute \<Rightarrow> jsval" where
  "route_value_of r = JObj (opt_member ''incoming_path'' JStr (incoming_path r) @
     opt_member ''upstream_path'' JStr (upstream_path r) @ opt_member ''converter'' JStr (converter r) @
     opt_member ''models'' (\<lambda>ms. JArr (map JStr ms)) (route_models r) @ opt_member ''auth'' auth_value_of (route_auth r))"

definition config_value_of :: "AdvancedCustomConfig \<Rightarrow> jsval" where
  "config_value_of c = JObj (opt_member ''advanced_routes'' (\<lambda>rs. JArr (map route_value_of rs)) (advanced_routes c))"

definition stringifyAdvancedCustomConfig :: "(jnum \<Rightarrow> jstring) \<Rightarrow> AdvancedCustomConfig \<Rightarrow> jstring" where
  "stringifyAdvancedCustomConfig numstr config = json_pretty numstr 0 (config_value_of (normalizeAdvancedCustomConfig config))"

text \<open>
  The parsed value is used at the declared type without a check; \<open>None\<close> of these readers
  is a value of another type.
\<close>

definition opt_read :: "(jsval \<Rightarrow> 'a option) \<Rightarrow> jsval \<Rightarrow> 'a option option" where
  "opt_read f v = (if v = JUndef then Some None else map_option Some (f v))"

fun read_string :: "jsval \<Rightarrow> jstring option" where
  "read_string (JStr s) = Some s"
| "read_string _ = None"

fun read_list :: "(jsval \<Rightarrow> 'a option) \<Rightarrow> jsval \<Rightarrow> 'a list option" where
  "read_list f (JArr xs) = those (map f xs)"
| "read_list f _ = None"

definition auth_of :: "jsval \<Rightarrow> AdvancedCustomRouteAuth option" where
  "auth_of v =
     (case (v, opt_read read_string (fld v ''type''), opt_read read_string (fld v ''name''), opt_read read_string (fld v ''value'')) of
        (JObj _, Some t, Some n, Some x) \<Rightarrow> Some \<lparr>auth_type = t, auth_name = n, auth_value = x\<rparr>
      | _ \<Rightarrow> None)"

definition route_of :: "jsval \<Rightarrow> AdvancedCustomRoute option" where
  "route_of v =
     (case (v, opt_read read_string (fld v ''incoming_path''), opt_read read_string (fld v ''upstream_path''),
            opt_read read_string (fld v ''converter''), opt_read (read_list read_string) (fld v ''models''),
            opt_read auth_of (fld v ''auth'')) of
        (JObj _, Some i, Some u, Some c, Some ms, Some a) \<Rightarrow>
          Some \<lparr>incoming_path = i, upstream_path = u, converter = c, route_models = ms, route_auth = a\<rparr>
      | _ \<Rightarrow> None)"

definition config_of :: "jsval \<Rightarrow> AdvancedCustomConfig option" where
  "config_of v = map_option (\<lambda>rs. \<lparr>advanced_routes = rs\<rparr>) (opt_read (read_list route_of) (fld v ''advanced_routes''))"

datatype parsed_config = NoConfig | ParsedConfig AdvancedCustomConfig | OtherType jsval

definition parseAdvancedCustomConfig :: "jstring option \<Rightarrow> parsed_config" where
  "parseAdvancedCustomConfig value =
     (case value of
        None \<Rightarrow> NoConfig
      | Some text \<Rightarrow>
          if jtrim text = [] then NoConfig
          else (case JSON_parse text of
                  None \<Rightarrow> NoConfig
                | Some v \<Rightarrow>
                    if \<not> truthy v \<or> \<not> is_object v \<or> is_array v then NoConfig
                    else (case config_of v of
                            None \<Rightarrow> OtherType v
                          | Some c \<Rightarrow> ParsedConfig (normalizeAdvancedCustomConfig c))))"

definition getAdvancedCustomRouteSummaryLabel :: "AdvancedCustomRoute \<Rightarrow> jstring option" where
  "getAdvancedCustomRouteSummaryLabel route =
     (if incomingPath route = [] then None
      else Some (text_or (getAdvancedCustomIncomingPathLabel (incomingPath route))
                   (map_of ADVANCED_CUSTOM_ROUTE_SUMMARY_LABELS (incomingPath route))))"

record AdvancedCustomStats =
  routeCount :: nat
  stats_valid :: bool
  routeTypeLabels :: "jstring list"

text \<open>The labels in the order of their first occurrence; \<open>None\<close> for a value of another type.\<close>

definition getAdvancedCustomStats :: "url_parser \<Rightarrow> jstring option \<Rightarrow> AdvancedCustomStats option" where
  "getAdvancedCustomStats parseURL value =
     (case parseAdvancedCustomConfig value of
        OtherType _ \<Rightarrow> None
      | NoConfig \<Rightarrow> Some \<lparr>routeCount = 0, stats_valid = False, routeTypeLabels = []\<rparr>
      | ParsedConfig c \<Rightarrow>
          Some \<lparr>routeCount = length (normal_routes c),
                stats_valid = (validateAdvancedCustomConfig parseURL (Some (normalizeAdvancedCustomConfig c)) = None),
                routeTypeLabels = uniq (filter (\<lambda>l. l \<noteq> []) (List.map_filter getAdvancedCustomRouteSummaryLabel (normal_routes c)))\<rparr>)"

end
