(* ===== verification/Channel_Form.thy ===== *)
theory Channel_Form
  imports Channel_Routes JS_Stringify
begin

text \<open>
  The form of a channel (\<open>web/src/features/channels/lib/channel-form.ts\<close>): from a channel of
  the server to form values, from form values to the payloads that create or update a
  channel, and the checks of the form.

  A channel carries two JSON texts, \<open>setting\<close> and \<open>settings\<close>, whose parsed values the code
  uses without checking their types; fields of the form that come from them are values of
  unknown type.  An operation that calls a method on such a value may throw.  The text of a
  number is the argument \<open>numstr\<close>; the constructor of \<open>URL\<close> is an argument too.  A parsed
  object converts to a string as \<open>[object Object]\<close>: an own property \<open>toString\<close> is not called.
\<close>

section \<open>Data\<close>

definition CHANNEL_TYPE_NEW_API :: int where "CHANNEL_TYPE_NEW_API = 60"
definition CHANNEL_TYPE_VOLC_NATIVE :: int where "CHANNEL_TYPE_VOLC_NATIVE = 61"
definition CHANNEL_TYPE_DOUBAO_VIDEO :: int where "CHANNEL_TYPE_DOUBAO_VIDEO = 54"
definition CHANNEL_TYPE_ADVANCED_CUSTOM :: int where "CHANNEL_TYPE_ADVANCED_CUSTOM = 58"

definition BASE64_STAGING_CHANNEL_TYPES :: "int set" where
  "BASE64_STAGING_CHANNEL_TYPES = {CHANNEL_TYPE_DOUBAO_VIDEO, CHANNEL_TYPE_VOLC_NATIVE}"

definition MODEL_FETCHABLE_TYPES :: "int set" where
  "MODEL_FETCHABLE_TYPES =
     {1, 4, 14, 17, 20, 23, 24, 25, 26, 27, 31, 34, 35, 40, 42, 43, 47, 48, 57, 58, 59, 60}"

definition FIELD_PASSTHROUGH_TYPES :: "int set" where
  "FIELD_PASSTHROUGH_TYPES = {1, 14, 57, 58, 59, CHANNEL_TYPE_NEW_API}"

definition OPENAI_FIELD_PASSTHROUGH_TYPES :: "int set" where
  "OPENAI_FIELD_PASSTHROUGH_TYPES = {1, 57, 58, 59, CHANNEL_TYPE_NEW_API}"

definition CLAUDE_FIELD_PASSTHROUGH_TYPES :: "int set" where
  "CLAUDE_FIELD_PASSTHROUGH_TYPES = {14, 58, 59, CHANNEL_TYPE_NEW_API}"

text \<open>What the form reads of a channel; \<open>null\<close> and absent are both \<open>None\<close>.\<close>

record Channel =
  c_name :: jstring
  c_type :: int
  c_base_url :: "jstring option"
  c_openai_organization :: "jstring option"
  c_models :: jstring
  c_group :: jstring
  c_model_mapping :: "jstring option"
  c_priority :: "jnum option"
  c_weight :: "jnum option"
  c_test_model :: "jstring option"
  c_auto_ban :: "jnum option"
  c_status :: jnum
  c_status_code_mapping :: "jstring option"
  c_tag :: "jstring option"
  c_remark :: jstring
  c_cost_discount :: "jstring option"
  c_setting :: "jstring option"
  c_param_override :: "jstring option"
  c_header_override :: "jstring option"
  c_settings :: jstring
  c_other :: jstring
  c_multi_key_mode :: jstring

text \<open>The settings that the form keeps in the text \<open>setting\<close>.\<close>

record ExtraSettings =
  f_force_format :: jsval
  f_thinking_to_content :: jsval
  f_proxy :: jsval
  f_http_protocol :: "jstring option"
  f_http2_connection_shards :: jsval
  f_pass_through_body_enabled :: jsval
  f_moonshot_facade_mode :: "jstring option"
  f_system_prompt :: jsval
  f_system_prompt_override :: jsval

text \<open>The settings that it keeps in the text \<open>settings\<close>, which depend on the type.\<close>

record TypeSettings =
  f_is_enterprise_account :: "bool option"
  f_vertex_key_type :: jsval
  f_azure_responses_version :: jsval
  f_aws_key_type :: jsval
  f_allow_service_tier :: "bool option"
  f_disable_store :: "bool option"
  f_allow_safety_identifier :: "bool option"
  f_allow_include_obfuscation :: "bool option"
  f_allow_inference_geo :: "bool option"
  f_allow_speed :: "bool option"
  f_claude_beta_query :: "bool option"
  f_disable_task_polling_sleep :: "bool option"
  f_return_task_id_compat :: "bool option"
  f_base64_staging_enabled :: "bool option"
  f_base64_staging_models :: "jstring option"
  f_video_content_delivery_mode :: "jstring option"
  f_upstream_model_update_check_enabled :: "bool option"
  f_upstream_model_update_auto_sync_enabled :: "bool option"
  f_upstream_model_update_ignored_models :: "jstring option"
  f_advanced_custom :: "jstring option"

record ChannelFormValues =
  f_name :: jstring
  f_type :: int
  f_base_url :: "jstring option"
  f_key :: jstring
  f_openai_organization :: "jstring option"
  f_models :: jstring
  f_group :: "jstring list"
  f_model_mapping :: "jstring option"
  f_priority :: "jnum option"
  f_weight :: "jnum option"
  f_test_model :: "jstring option"
  f_auto_ban :: "jnum option"
  f_status :: jnum
  f_status_code_mapping :: "jstring option"
  f_tag :: "jstring option"
  f_remark :: "jstring option"
  f_cost_discount :: jstring
  f_setting :: "jstring option"
  f_param_override :: "jstring option"
  f_header_override :: "jstring option"
  f_settings :: "jstring option"
  f_other :: "jstring option"
  f_multi_key_mode :: "jstring option"
  f_multi_key_type :: "jstring option"
  f_batch_add_set_key_prefix_2_name :: "bool option"
  f_key_mode :: "jstring option"
  f_extra :: ExtraSettings
  f_typed :: TypeSettings

text \<open>
  The result of an operation on values of unknown type: done, a thrown \<open>TypeError\<close>, or a
  value that the code would use at a type it does not have.
\<close>

datatype 'a outcome = Done 'a | Threw | Untyped

text \<open>\<open>v || ''\<close> on an optional string, \<open>v ?? d\<close>, and \<open>flag === true\<close>.\<close>

definition or_empty :: "jstring option \<Rightarrow> jstring" where
  "or_empty v = (case v of Some s \<Rightarrow> s | None \<Rightarrow> [])"

definition if_missing :: "'a \<Rightarrow> 'a option \<Rightarrow> 'a" where
  "if_missing d v = (case v of Some x \<Rightarrow> x | None \<Rightarrow> d)"

abbreviation on :: "bool option \<Rightarrow> bool" where "on b \<equiv> b = Some True"

text \<open>\<open>String(v)\<close> and the text of an array joined by commas.\<close>

fun to_text :: "(jnum \<Rightarrow> jstring) \<Rightarrow> jsval \<Rightarrow> jstring" where
  "to_text numstr JUndef = js ''undefined''"
| "to_text numstr JNull = js ''null''"
| "to_text numstr (JBool b) = (if b then js ''true'' else js ''false'')"
| "to_text numstr (JNum n) =
     (case n of Fin _ \<Rightarrow> numstr n | NaN \<Rightarrow> js ''NaN'' | PInf \<Rightarrow> js ''Infinity'' | NInf \<Rightarrow> js ''-Infinity'')"
| "to_text numstr (JStr s) = s"
| "to_text numstr (JArr xs) = join (js '','') (map (\<lambda>v. if v = JUndef \<or> v = JNull then [] else to_text numstr v) xs)"
| "to_text numstr (JObj _) = js ''[object Object]''"

definition array_join :: "(jnum \<Rightarrow> jstring) \<Rightarrow> jsval list \<Rightarrow> jstring" where
  "array_join numstr xs = to_text numstr (JArr xs)"

section \<open>Normal forms\<close>

definition HTTP_PROTOCOL_AUTO :: jstring where "HTTP_PROTOCOL_AUTO = js ''auto''"
definition HTTP_PROTOCOL_HTTP1 :: jstring where "HTTP_PROTOCOL_HTTP1 = js ''http1''"
definition MAX_HTTP2_CONNECTION_SHARDS :: int where "MAX_HTTP2_CONNECTION_SHARDS = 8"
definition MOONSHOT_FACADE_MODE_EMULATE :: jstring where "MOONSHOT_FACADE_MODE_EMULATE = js ''emulate''"
definition MOONSHOT_FACADE_MODE_KIMI_PASSTHROUGH :: jstring where
  "MOONSHOT_FACADE_MODE_KIMI_PASSTHROUGH = js ''kimi_passthrough''"

definition normalizeMoonshotFacadeMode :: "jsval \<Rightarrow> jstring" where
  "normalizeMoonshotFacadeMode v =
     (if v = JStr MOONSHOT_FACADE_MODE_KIMI_PASSTHROUGH then MOONSHOT_FACADE_MODE_KIMI_PASSTHROUGH
      else MOONSHOT_FACADE_MODE_EMULATE)"

text \<open>
  \<open>toLowerCase\<close> on the letters of ASCII; no other code unit becomes one of the characters
  of \<open>http1\<close>.
\<close>

definition lower_ascii :: "jchar \<Rightarrow> jchar" where
  "lower_ascii c = (if 65 \<le> unat c \<and> unat c \<le> 90 then c + 32 else c)"

definition normalizeHttpProtocol :: "(jnum \<Rightarrow> jstring) \<Rightarrow> jsval \<Rightarrow> jstring" where
  "normalizeHttpProtocol numstr v =
     (let normalized = map lower_ascii (jtrim (to_text numstr (or_else v (JStr [])))) in
      if normalized = HTTP_PROTOCOL_HTTP1 then HTTP_PROTOCOL_HTTP1 else HTTP_PROTOCOL_AUTO)"

definition normalizeHttp2ConnectionShards :: "jsval \<Rightarrow> jsval" where
  "normalizeHttp2ConnectionShards v =
     (if v = JUndef \<or> v = JNull \<or> v = JNum NaN \<or> v = JNum (jint 0) then JNum (jint 1)
      else if jlt (to_number v) (jint 1) then JNum (jint 1)
      else if jlt (jint MAX_HTTP2_CONNECTION_SHARDS) (to_number v) then JNum (jint MAX_HTTP2_CONNECTION_SHARDS)
      else v)"

definition parseGroups :: "jstring \<Rightarrow> jstring list" where
  "parseGroups groups =
     (if groups = [] then []
      else filter (\<lambda>g. g \<noteq> []) (map jtrim (split_on (u16 (CHR '','')) groups)))"

definition parseModels :: "jstring \<Rightarrow> jstring list" where
  "parseModels models =
     (if models = [] then []
      else filter (\<lambda>m. m \<noteq> []) (map jtrim (split_on (u16 (CHR '','')) models)))"

definition formatModels :: "jstring list \<Rightarrow> jstring" where "formatModels models = join (js '','') models"
definition formatGroups :: "jstring list \<Rightarrow> jstring" where "formatGroups groups = join (js '','') groups"

text \<open>\<open>replace(/\/+$/, '')\<close> after a trim.\<close>

definition normalizeBaseUrl :: "jstring option \<Rightarrow> jstring" where
  "normalizeBaseUrl v = rev (dropWhile (\<lambda>c. c = u16 (CHR ''/'')) (rev (jtrim (or_empty v))))"

section \<open>Default values\<close>

definition default_extra :: ExtraSettings where
  "default_extra = \<lparr>f_force_format = JBool False, f_thinking_to_content = JBool False, f_proxy = JStr [],
     f_http_protocol = Some HTTP_PROTOCOL_AUTO, f_http2_connection_shards = JNum (jint 1),
     f_pass_through_body_enabled = JBool False, f_moonshot_facade_mode = Some MOONSHOT_FACADE_MODE_EMULATE,
     f_system_prompt = JStr [], f_system_prompt_override = JBool False\<rparr>"

definition default_typed :: TypeSettings where
  "default_typed = \<lparr>f_is_enterprise_account = Some False, f_vertex_key_type = JStr (js ''json''),
     f_azure_responses_version = JStr [], f_aws_key_type = JStr (js ''ak_sk''), f_allow_service_tier = Some False,
     f_disable_store = Some False, f_allow_safety_identifier = Some False, f_allow_include_obfuscation = Some False,
     f_allow_inference_geo = Some False, f_allow_speed = Some False, f_claude_beta_query = Some False,
     f_disable_task_polling_sleep = Some False, f_return_task_id_compat = Some False,
     f_base64_staging_enabled = Some False, f_base64_staging_models = Some [],
     f_video_content_delivery_mode = Some (js ''redirect''), f_upstream_model_update_check_enabled = Some False,
     f_upstream_model_update_auto_sync_enabled = Some False, f_upstream_model_update_ignored_models = Some [],
     f_advanced_custom = Some []\<rparr>"

definition CHANNEL_FORM_DEFAULT_VALUES :: ChannelFormValues where
  "CHANNEL_FORM_DEFAULT_VALUES = \<lparr>f_name = [], f_type = 1, f_base_url = Some [], f_key = [],
     f_openai_organization = Some [], f_models = [], f_group = [js ''default''], f_model_mapping = Some [],
     f_priority = Some (jint 0), f_weight = Some (jint 0), f_test_model = Some [], f_auto_ban = Some (jint 1),
     f_status = jint 1, f_status_code_mapping = Some [], f_tag = Some [], f_remark = Some [], f_cost_discount = [],
     f_setting = Some [], f_param_override = Some [], f_header_override = Some [], f_settings = Some (js ''{}''),
     f_other = Some [], f_multi_key_mode = Some (js ''single''), f_multi_key_type = Some (js ''random''),
     f_batch_add_set_key_prefix_2_name = Some False, f_key_mode = Some (js ''append''),
     f_extra = default_extra, f_typed = default_typed\<rparr>"

section \<open>From a channel to the form\<close>

text \<open>The settings of the parsed value of \<open>setting\<close>; a property of \<open>null\<close> cannot be read.\<close>

definition parsed_extra :: "(jnum \<Rightarrow> jstring) \<Rightarrow> jsval \<Rightarrow> ExtraSettings" where
  "parsed_extra numstr parsed =
     (let protocol = normalizeHttpProtocol numstr (fld parsed ''http_protocol'');
          shards = normalizeHttp2ConnectionShards (fld parsed ''http2_connection_shards'')
      in \<lparr>f_force_format = or_else (fld parsed ''force_format'') (JBool False),
          f_thinking_to_content = or_else (fld parsed ''thinking_to_content'') (JBool False),
          f_proxy = or_else (fld parsed ''proxy'') (JStr []),
          f_http_protocol = Some protocol,
          f_http2_connection_shards = (if protocol = HTTP_PROTOCOL_HTTP1 then JNum (jint 1) else shards),
          f_pass_through_body_enabled = or_else (fld parsed ''pass_through_body_enabled'') (JBool False),
          f_moonshot_facade_mode = Some (normalizeMoonshotFacadeMode (fld parsed ''moonshot_facade_mode'')),
          f_system_prompt = or_else (fld parsed ''system_prompt'') (JStr []),
          f_system_prompt_override = or_else (fld parsed ''system_prompt_override'') (JBool False)\<rparr>)"

definition extraSettings :: "(jnum \<Rightarrow> jstring) \<Rightarrow> jstring option \<Rightarrow> ExtraSettings" where
  "extraSettings numstr setting =
     (if or_empty setting = [] then default_extra
      else (case JSON_parse (or_empty setting) of
              None \<Rightarrow> default_extra
            | Some parsed \<Rightarrow> if parsed = JNull then default_extra else parsed_extra numstr parsed))"

text \<open>
  The initial values of the variables for the settings of a type, and the values a parsed
  object gives them.  The text of the advanced configuration is made last: when that
  fails the other settings have been read.
\<close>

definition initial_typed :: TypeSettings where
  "initial_typed = default_typed\<lparr>f_video_content_delivery_mode := Some (js ''proxy'')\<rparr>"

definition is_true :: "jsval \<Rightarrow> bool option" where
  "is_true v = Some (v = JBool True)"

definition joined_models :: "(jnum \<Rightarrow> jstring) \<Rightarrow> jsval \<Rightarrow> jstring option" where
  "joined_models numstr v = Some (case v of JArr xs \<Rightarrow> array_join numstr xs | _ \<Rightarrow> [])"

definition parsed_typed :: "(jnum \<Rightarrow> jstring) \<Rightarrow> jsval \<Rightarrow> TypeSettings" where
  "parsed_typed numstr parsed =
     \<lparr>f_is_enterprise_account = is_true (fld parsed ''openrouter_enterprise''),
      f_vertex_key_type = or_else (fld parsed ''vertex_key_type'') (JStr (js ''json'')),
      f_azure_responses_version = or_else (fld parsed ''azure_responses_version'') (JStr []),
      f_aws_key_type = or_else (fld parsed ''aws_key_type'') (JStr (js ''ak_sk'')),
      f_allow_service_tier = is_true (fld parsed ''allow_service_tier''),
      f_disable_store = is_true (fld parsed ''disable_store''),
      f_allow_safety_identifier = is_true (fld parsed ''allow_safety_identifier''),
      f_allow_include_obfuscation = is_true (fld parsed ''allow_include_obfuscation''),
      f_allow_inference_geo = is_true (fld parsed ''allow_inference_geo''),
      f_allow_speed = is_true (fld parsed ''allow_speed''),
      f_claude_beta_query = is_true (fld parsed ''claude_beta_query''),
      f_disable_task_polling_sleep = is_true (fld parsed ''disable_task_polling_sleep''),
      f_return_task_id_compat = is_true (fld parsed ''return_task_id_compat''),
      f_base64_staging_enabled = is_true (fld (fld parsed ''base64_staging'') ''enabled''),
      f_base64_staging_models = joined_models numstr (fld (fld parsed ''base64_staging'') ''models''),
      f_video_content_delivery_mode =
        Some (if fld parsed ''video_content_delivery_mode'' = JStr (js ''proxy'') then js ''proxy'' else js ''redirect''),
      f_upstream_model_update_check_enabled = is_true (fld parsed ''upstream_model_update_check_enabled''),
      f_upstream_model_update_auto_sync_enabled = is_true (fld parsed ''upstream_model_update_auto_sync_enabled''),
      f_upstream_model_update_ignored_models = joined_models numstr (fld parsed ''upstream_model_update_ignored_models''),
      f_advanced_custom = Some []\<rparr>"

definition typeSettings :: "(jnum \<Rightarrow> jstring) \<Rightarrow> jstring \<Rightarrow> TypeSettings outcome" where
  "typeSettings numstr settings =
     (if settings = [] then Done initial_typed
      else (case JSON_parse settings of
              None \<Rightarrow> Done initial_typed
            | Some parsed \<Rightarrow>
                if parsed = JNull then Done initial_typed
                else if \<not> truthy (fld parsed ''advanced_custom'') then Done (parsed_typed numstr parsed)
                else (case config_of (fld parsed ''advanced_custom'') of
                        Some c \<Rightarrow> Done ((parsed_typed numstr parsed)\<lparr>f_advanced_custom := Some (stringifyAdvancedCustomConfig numstr c)\<rparr>)
                      | None \<Rightarrow> Untyped)))"

definition channel_values :: "(jnum \<Rightarrow> jstring) \<Rightarrow> Channel \<Rightarrow> TypeSettings \<Rightarrow> ChannelFormValues" where
  "channel_values numstr c typed =
     \<lparr>f_name = c_name c, f_type = c_type c, f_base_url = Some (or_empty (c_base_url c)), f_key = [],
      f_openai_organization = Some (or_empty (c_openai_organization c)), f_models = c_models c,
      f_group = parseGroups (if c_group c = [] then js ''default'' else c_group c),
      f_model_mapping = Some (or_empty (c_model_mapping c)),
      f_priority = Some (if num_truthy (if_missing (jint 0) (c_priority c)) then if_missing (jint 0) (c_priority c) else jint 0),
      f_weight = Some (if num_truthy (if_missing (jint 0) (c_weight c)) then if_missing (jint 0) (c_weight c) else jint 0),
      f_test_model = Some (or_empty (c_test_model c)), f_auto_ban = Some (if_missing (jint 1) (c_auto_ban c)),
      f_status = c_status c, f_status_code_mapping = Some (or_empty (c_status_code_mapping c)),
      f_tag = Some (or_empty (c_tag c)), f_remark = Some (c_remark c), f_cost_discount = or_empty (c_cost_discount c),
      f_setting = Some (or_empty (c_setting c)), f_param_override = Some (or_empty (c_param_override c)),
      f_header_override = Some (or_empty (c_header_override c)),
      f_settings = Some (if c_settings c = [] then js ''{}'' else c_settings c), f_other = Some (c_other c),
      f_multi_key_mode = Some (js ''single''),
      f_multi_key_type = Some (if c_multi_key_mode c = [] then js ''random'' else c_multi_key_mode c),
      f_batch_add_set_key_prefix_2_name = Some False, f_key_mode = Some (js ''append''),
      f_extra = extraSettings numstr (c_setting c), f_typed = typed\<rparr>"

definition transformChannelToFormDefaults :: "(jnum \<Rightarrow> jstring) \<Rightarrow> Channel \<Rightarrow> ChannelFormValues outcome" where
  "transformChannelToFormDefaults numstr c = map_outcome (channel_values numstr c) (typeSettings numstr (c_settings c))"

section \<open>The two texts of settings\<close>

text \<open>\<open>v?.trim() || ''\<close> on a value of unknown type.\<close>

fun trimmed_text :: "jsval \<Rightarrow> jstring option" where
  "trimmed_text JUndef = Some []"
| "trimmed_text JNull = Some []"
| "trimmed_text (JStr s) = Some (jtrim s)"
| "trimmed_text _ = None"

definition extra_object :: "(jnum \<Rightarrow> jstring) \<Rightarrow> ExtraSettings \<Rightarrow> jstring \<Rightarrow> (jstring \<times> jsval) list" where
  "extra_object numstr x proxy =
     (let protocol = normalizeHttpProtocol numstr (case f_http_protocol x of None \<Rightarrow> JUndef | Some p \<Rightarrow> JStr p);
          shards = (if protocol = HTTP_PROTOCOL_HTTP1 then JNum (jint 1)
                    else normalizeHttp2ConnectionShards (f_http2_connection_shards x))
      in [(js ''force_format'', or_else (f_force_format x) (JBool False)),
          (js ''thinking_to_content'', or_else (f_thinking_to_content x) (JBool False)),
          (js ''proxy'', JStr proxy),
          (js ''pass_through_body_enabled'', or_else (f_pass_through_body_enabled x) (JBool False)),
          (js ''system_prompt'', or_else (f_system_prompt x) (JStr [])),
          (js ''system_prompt_override'', or_else (f_system_prompt_override x) (JBool False))] @
         (if protocol = HTTP_PROTOCOL_HTTP1 then [(js ''http_protocol'', JStr HTTP_PROTOCOL_HTTP1)]
          else if jlt (jint 1) (to_number shards) then [(js ''http2_connection_shards'', shards)] else []) @
         (if f_moonshot_facade_mode x = Some MOONSHOT_FACADE_MODE_KIMI_PASSTHROUGH
          then [(js ''moonshot_facade_mode'', JStr MOONSHOT_FACADE_MODE_KIMI_PASSTHROUGH)] else []))"

definition buildSettingJSON :: "(jnum \<Rightarrow> jstring) \<Rightarrow> ChannelFormValues \<Rightarrow> jstring outcome" where
  "buildSettingJSON numstr f =
     (case trimmed_text (f_proxy (f_extra f)) of
        None \<Rightarrow> Threw
      | Some proxy \<Rightarrow> Done (JSON_stringify numstr (JObj (extra_object numstr (f_extra f) proxy))))"

text \<open>A property that is set when there is a value for it, and deleted otherwise.\<close>

definition own :: "string \<Rightarrow> jsval option \<Rightarrow> (jstring \<times> jsval) list \<Rightarrow> (jstring \<times> jsval) list" where
  "own k v ps = (case v of Some x \<Rightarrow> put (js k) x ps | None \<Rightarrow> remove_key (js k) ps)"

abbreviation provided :: "bool \<Rightarrow> 'a \<Rightarrow> 'a option" where
  "provided b x \<equiv> (if b then Some x else None)"

text \<open>\<open>[...new Set(text.split(',').map(trim).filter(Boolean))]\<close>\<close>

definition model_list :: "jstring option \<Rightarrow> jsval" where
  "model_list v = JArr (map JStr (uniq (filter (\<lambda>m. m \<noteq> []) (map jtrim (split_on (u16 (CHR '','')) (or_empty v))))))"

definition base64_staging :: "TypeSettings \<Rightarrow> jsval" where
  "base64_staging x = JObj [(js ''enabled'', JBool True), (js ''storage_policy'', JStr (js ''relay_media_temp'')),
     (js ''models'', model_list (f_base64_staging_models x))]"

text \<open>The settings of the model update, for the types whose models can be fetched.\<close>

definition own_model_update :: "TypeSettings \<Rightarrow> (jstring \<times> jsval) list \<Rightarrow> (jstring \<times> jsval) list" where
  "own_model_update x ps =
     (let check = on (f_upstream_model_update_check_enabled x);
          ps = put (js ''upstream_model_update_check_enabled'') (JBool check) ps;
          ps = put (js ''upstream_model_update_auto_sync_enabled'')
                 (JBool (check \<and> on (f_upstream_model_update_auto_sync_enabled x))) ps;
          ps = put (js ''upstream_model_update_ignored_models'') (model_list (f_upstream_model_update_ignored_models x)) ps;
          ps = (if \<not> is_array (fld (JObj ps) ''upstream_model_update_last_detected_models'') \<or> \<not> check
                then put (js ''upstream_model_update_last_detected_models'') (JArr []) ps else ps)
      in if \<not> is_number (fld (JObj ps) ''upstream_model_update_last_check_time'')
         then put (js ''upstream_model_update_last_check_time'') (JNum (jint 0)) ps else ps)"

text \<open>All the settings but the advanced configuration.\<close>

definition own_settings :: "int \<Rightarrow> TypeSettings \<Rightarrow> (jstring \<times> jsval) list \<Rightarrow> (jstring \<times> jsval) list" where
  "own_settings t x ps =
     (let ps = own ''vertex_key_type'' (provided (t = 41) (or_else (f_vertex_key_type x) (JStr (js ''json'')))) ps;
          ps = own ''azure_responses_version''
                 (provided (t = 3 \<and> truthy (f_azure_responses_version x)) (f_azure_responses_version x)) ps;
          ps = own ''openrouter_enterprise'' (provided (t = 20) (JBool (on (f_is_enterprise_account x)))) ps;
          ps = own ''aws_key_type'' (provided (t = 33) (or_else (f_aws_key_type x) (JStr (js ''ak_sk'')))) ps;
          ps = own ''allow_service_tier''
                 (provided (t \<in> FIELD_PASSTHROUGH_TYPES) (JBool (on (f_allow_service_tier x)))) ps;
          ps = own ''disable_store''
                 (provided (t \<in> OPENAI_FIELD_PASSTHROUGH_TYPES) (JBool (on (f_disable_store x)))) ps;
          ps = own ''allow_safety_identifier''
                 (provided (t \<in> OPENAI_FIELD_PASSTHROUGH_TYPES) (JBool (on (f_allow_safety_identifier x)))) ps;
          ps = own ''allow_include_obfuscation''
                 (provided (t \<in> OPENAI_FIELD_PASSTHROUGH_TYPES) (JBool (on (f_allow_include_obfuscation x)))) ps;
          ps = own ''allow_inference_geo''
                 (provided (t \<in> OPENAI_FIELD_PASSTHROUGH_TYPES \<or> t \<in> CLAUDE_FIELD_PASSTHROUGH_TYPES)
                   (JBool (on (f_allow_inference_geo x)))) ps;
          ps = own ''allow_speed''
                 (provided (t \<in> CLAUDE_FIELD_PASSTHROUGH_TYPES) (JBool (on (f_allow_speed x)))) ps;
          ps = own ''claude_beta_query'' (provided (t = 14) (JBool (on (f_claude_beta_query x)))) ps;
          ps = put (js ''disable_task_polling_sleep'') (JBool (on (f_disable_task_polling_sleep x))) ps;
          ps = own ''return_task_id_compat''
                 (provided (t = CHANNEL_TYPE_VOLC_NATIVE \<and> on (f_return_task_id_compat x)) (JBool True)) ps;
          ps = own ''base64_staging''
                 (provided (t \<in> BASE64_STAGING_CHANNEL_TYPES \<and> on (f_base64_staging_enabled x)) (base64_staging x)) ps;
          ps = own ''video_content_delivery_mode''
                 (provided (t = CHANNEL_TYPE_DOUBAO_VIDEO)
                   (JStr (if f_video_content_delivery_mode x = Some (js ''redirect'') then js ''redirect'' else js ''proxy''))) ps
      in if t \<in> MODEL_FETCHABLE_TYPES then own_model_update x ps else ps)"

definition own_advanced :: "int \<Rightarrow> TypeSettings \<Rightarrow> (jstring \<times> jsval) list \<Rightarrow> (jstring \<times> jsval) list outcome" where
  "own_advanced t x ps =
     (if t = CHANNEL_TYPE_ADVANCED_CUSTOM
      then (case parseAdvancedCustomConfig (f_advanced_custom x) of
              NoConfig \<Rightarrow> Done ps
            | ParsedConfig c \<Rightarrow> Done (put (js ''advanced_custom'') (config_value_of c) ps)
            | OtherType _ \<Rightarrow> Untyped)
      else Done (remove_key (js ''advanced_custom'') ps))"

text \<open>
  The object the settings start from: the parsed text, or an empty one.  A property of a
  primitive value or of \<open>null\<close> cannot be set; those of an array are not printed.
\<close>

definition settings_start :: "jstring option \<Rightarrow> jsval" where
  "settings_start settings =
     (if or_empty settings = [] \<or> settings = Some (js ''{}'') then JObj []
      else (case JSON_parse (or_empty settings) of None \<Rightarrow> JObj [] | Some v \<Rightarrow> v))"

definition buildSettingsJSON :: "(jnum \<Rightarrow> jstring) \<Rightarrow> ChannelFormValues \<Rightarrow> jstring outcome" where
  "buildSettingsJSON numstr f =
     (case settings_start (f_settings f) of
        JObj ps \<Rightarrow> map_outcome (\<lambda>qs. JSON_stringify numstr (JObj qs))
          (own_advanced (f_type f) (f_typed f) (own_settings (f_type f) (f_typed f) ps))
      | JArr xs \<Rightarrow> map_outcome (\<lambda>_. JSON_stringify numstr (JArr xs)) (own_advanced (f_type f) (f_typed f) [])
      | _ \<Rightarrow> Threw)"

section \<open>Payloads\<close>

text \<open>\<open>v || null\<close> on texts and numbers.\<close>

definition text_or_null :: "jstring \<Rightarrow> jsval" where
  "text_or_null s = (if s = [] then JNull else JStr s)"

definition num_or_null :: "jnum option \<Rightarrow> jsval" where
  "num_or_null v = (case v of None \<Rightarrow> JNull | Some n \<Rightarrow> if num_truthy n then JNum n else JNull)"

text \<open>Empty texts become \<open>null\<close>, except those of the given properties.\<close>

definition clean_empty :: "jstring set \<Rightarrow> (jstring \<times> jsval) list \<Rightarrow> (jstring \<times> jsval) list" where
  "clean_empty keep ps = map (\<lambda>(k, v). (k, if v = JStr [] \<and> k \<notin> keep then JNull else v)) ps"

record CreatePayload =
  p_mode :: jstring
  p_multi_key_mode :: "jstring option"
  p_batch_add_set_key_prefix_2_name :: "bool option"
  p_channel :: "(jstring \<times> jsval) list"

definition create_channel :: "ChannelFormValues \<Rightarrow> jstring \<Rightarrow> jstring \<Rightarrow> (jstring \<times> jsval) list" where
  "create_channel f setting settings =
     [(js ''name'', JStr (f_name f)), (js ''type'', JNum (jint (f_type f))),
      (js ''base_url'', text_or_null (normalizeBaseUrl (f_base_url f))), (js ''key'', JStr (f_key f)),
      (js ''openai_organization'', text_or_null (or_empty (f_openai_organization f))), (js ''models'', JStr (f_models f)),
      (js ''group'', JStr (formatGroups (f_group f))), (js ''model_mapping'', text_or_null (or_empty (f_model_mapping f))),
      (js ''priority'', num_or_null (f_priority f)), (js ''weight'', num_or_null (f_weight f)),
      (js ''test_model'', text_or_null (or_empty (f_test_model f))), (js ''auto_ban'', JNum (if_missing (jint 1) (f_auto_ban f))),
      (js ''status'', JNum (f_status f)), (js ''status_code_mapping'', text_or_null (or_empty (f_status_code_mapping f))),
      (js ''tag'', text_or_null (or_empty (f_tag f))), (js ''remark'', JStr (or_empty (f_remark f))),
      (js ''setting'', JStr setting), (js ''param_override'', text_or_null (or_empty (f_param_override f))),
      (js ''header_override'', text_or_null (or_empty (f_header_override f))), (js ''settings'', JStr settings),
      (js ''other'', JStr (or_empty (f_other f)))] @
     (if jtrim (f_cost_discount f) \<noteq> [] then [(js ''cost_discount'', JStr (jtrim (f_cost_discount f)))] else [])"

text \<open>The first of two results that is not done.\<close>

fun both :: "('a \<Rightarrow> 'b \<Rightarrow> 'c) \<Rightarrow> 'a outcome \<Rightarrow> 'b outcome \<Rightarrow> 'c outcome" where
  "both g (Done x) (Done y) = Done (g x y)"
| "both g Threw _ = Threw"
| "both g Untyped _ = Untyped"
| "both g (Done _) Threw = Threw"
| "both g (Done _) Untyped = Untyped"

definition transformFormDataToCreatePayload :: "(jnum \<Rightarrow> jstring) \<Rightarrow> ChannelFormValues \<Rightarrow> CreatePayload outcome" where
  "transformFormDataToCreatePayload numstr f =
     (let mode = (if or_empty (f_multi_key_mode f) = [] then js ''single'' else or_empty (f_multi_key_mode f)) in
      both (\<lambda>setting settings.
        \<lparr>p_mode = mode,
         p_multi_key_mode = (if mode = js ''multi_to_single'' then f_multi_key_type f else None),
         p_batch_add_set_key_prefix_2_name = (if mode = js ''batch'' then f_batch_add_set_key_prefix_2_name f else None),
         p_channel = clean_empty {} (create_channel f setting settings)\<rparr>)
      (buildSettingJSON numstr f) (buildSettingsJSON numstr f))"

definition update_channel :: "ChannelFormValues \<Rightarrow> jnum \<Rightarrow> bool \<Rightarrow> jstring \<Rightarrow> jstring \<Rightarrow> (jstring \<times> jsval) list" where
  "update_channel f channelId includeCostDiscount setting settings =
     [(js ''id'', JNum channelId), (js ''name'', JStr (f_name f)), (js ''type'', JNum (jint (f_type f))),
      (js ''base_url'', text_or_null (normalizeBaseUrl (f_base_url f))),
      (js ''openai_organization'', text_or_null (or_empty (f_openai_organization f))), (js ''models'', JStr (f_models f)),
      (js ''group'', JStr (formatGroups (f_group f))), (js ''model_mapping'', text_or_null (or_empty (f_model_mapping f))),
      (js ''priority'', JNum (if_missing (jint 0) (f_priority f))), (js ''weight'', JNum (if_missing (jint 0) (f_weight f))),
      (js ''test_model'', text_or_null (or_empty (f_test_model f))), (js ''auto_ban'', JNum (if_missing (jint 1) (f_auto_ban f))),
      (js ''status_code_mapping'', text_or_null (or_empty (f_status_code_mapping f))),
      (js ''tag'', text_or_null (or_empty (f_tag f))), (js ''remark'', JStr (or_empty (f_remark f))),
      (js ''setting'', JStr setting), (js ''param_override'', text_or_null (or_empty (f_param_override f))),
      (js ''header_override'', text_or_null (or_empty (f_header_override f))), (js ''settings'', JStr settings),
      (js ''other'', JStr (or_empty (f_other f)))] @
     (if includeCostDiscount then [(js ''cost_discount'', JStr (jtrim (f_cost_discount f)))] else []) @
     (if jtrim (f_key f) \<noteq> [] then [(js ''key'', JStr (f_key f))] else [])"

text \<open>The fields that an update clears with an empty text.\<close>

definition explicit_texts :: "ChannelFormValues \<Rightarrow> (jstring \<times> jsval) list" where
  "explicit_texts f =
     [(js ''base_url'', JStr (normalizeBaseUrl (f_base_url f))),
      (js ''openai_organization'', JStr (or_empty (f_openai_organization f))),
      (js ''test_model'', JStr (or_empty (f_test_model f))), (js ''tag'', JStr (or_empty (f_tag f))),
      (js ''remark'', JStr (or_empty (f_remark f))), (js ''model_mapping'', JStr (or_empty (f_model_mapping f))),
      (js ''status_code_mapping'', JStr (or_empty (f_status_code_mapping f))),
      (js ''param_override'', JStr (or_empty (f_param_override f))),
      (js ''header_override'', JStr (or_empty (f_header_override f)))]"

definition transformFormDataToUpdatePayload ::
    "(jnum \<Rightarrow> jstring) \<Rightarrow> ChannelFormValues \<Rightarrow> jnum \<Rightarrow> bool \<Rightarrow> (jstring \<times> jsval) list outcome" where
  "transformFormDataToUpdatePayload numstr f channelId includeCostDiscount =
     both (\<lambda>setting settings.
       spread (clean_empty {js ''cost_discount''} (update_channel f channelId includeCostDiscount setting settings)) (explicit_texts f))
     (buildSettingJSON numstr f) (buildSettingsJSON numstr f)"

section \<open>Checks\<close>

text \<open>The protocol, the host name and the port that \<open>new URL(value)\<close> finds.\<close>

type_synonym proxy_parser = "jstring \<Rightarrow> (jstring \<times> jstring \<times> jstring) option"

definition SUPPORTED_PROXY_PROTOCOLS :: "jstring set" where
  "SUPPORTED_PROXY_PROTOCOLS = js ` {''http:'', ''https:'', ''socks5:'', ''socks5h:''}"

definition isOptionalProxyURL :: "proxy_parser \<Rightarrow> jstring option \<Rightarrow> bool" where
  "isOptionalProxyURL parse value =
     (let trimmedValue = jtrim (or_empty value) in
      if trimmedValue = [] then True
      else (case index_of (js ''://'') trimmedValue of
              None \<Rightarrow> False
            | Some i \<Rightarrow>
                if i = 0 then False
                else (let suffix = dropWhile (\<lambda>c. c \<notin> u16 ` {CHR ''/'', CHR ''?'', CHR ''#''}) (drop (i + 3) trimmedValue) in
                  if suffix \<noteq> [] \<and> suffix \<noteq> js ''/'' then False
                  else (case parse trimmedValue of
                          None \<Rightarrow> False
                        | Some (protocol, hostname, port) \<Rightarrow>
                            protocol \<in> SUPPORTED_PROXY_PROTOCOLS \<and> hostname \<noteq> [] \<and> port \<noteq> js ''0''))))"

text \<open>\<open>Some None\<close> for an absent or blank text, \<open>None\<close> when parsing throws.\<close>

definition parseOptionalJson :: "jstring option \<Rightarrow> jsval option option" where
  "parseOptionalJson value =
     (if jtrim (or_empty value) = [] then Some None else map_option Some (JSON_parse (or_empty value)))"

fun isJsonObjectValue :: "jsval \<Rightarrow> bool" where
  "isJsonObjectValue (JObj _) = True"
| "isJsonObjectValue _ = False"

text \<open>A check of an optional JSON text by a check of its value.\<close>

definition optional_json :: "(jsval \<Rightarrow> bool) \<Rightarrow> jstring option \<Rightarrow> bool" where
  "optional_json ok value =
     (case parseOptionalJson value of None \<Rightarrow> False | Some None \<Rightarrow> True | Some (Some parsed) \<Rightarrow> ok parsed)"

definition isOptionalJsonObject :: "jstring option \<Rightarrow> bool" where
  "isOptionalJsonObject = optional_json isJsonObjectValue"

definition isOptionalModelMapping :: "jstring option \<Rightarrow> bool" where
  "isOptionalModelMapping = optional_json (\<lambda>v. case v of JObj ps \<Rightarrow> list_all (\<lambda>(_, x). is_string x) ps | _ \<Rightarrow> False)"

definition status_number :: "jnum \<Rightarrow> bool" where
  "status_number n \<longleftrightarrow> isInteger n \<and> jle (jint 100) n \<and> jle n (jint 599)"

definition isOptionalStatusCodeMapping :: "jstring option \<Rightarrow> bool" where
  "isOptionalStatusCodeMapping = optional_json (\<lambda>v. case v of
     JObj ps \<Rightarrow> list_all (\<lambda>(k, x). status_number (string_to_number k) \<and> status_number (to_number x)) ps
   | _ \<Rightarrow> False)"

text \<open>\<open>/^(?:0(?:\.\d{1,6})?|1(?:\.0{1,6})?)$/\<close>\<close>

definition isCostDiscount :: "jstring \<Rightarrow> bool" where
  "isCostDiscount value =
     (case jtrim value of
        [] \<Rightarrow> False
      | c # r \<Rightarrow>
          (let fraction = (\<lambda>p. r = [] \<or> hd r = u16 (CHR ''.'') \<and> 1 \<le> length (tl r) \<and> length (tl r) \<le> 6 \<and> list_all p (tl r)) in
           c = u16 (CHR ''0'') \<and> fraction is_digit \<or> c = u16 (CHR ''1'') \<and> fraction (\<lambda>d. d = u16 (CHR ''0''))))"

definition filled :: "jsval \<Rightarrow> bool" where
  "filled v \<longleftrightarrow> (case v of JStr s \<Rightarrow> jtrim s \<noteq> [] | _ \<Rightarrow> False)"

definition isCodexCredential :: "jstring option \<Rightarrow> bool" where
  "isCodexCredential = optional_json (\<lambda>v. isJsonObjectValue v \<and> filled (fld v ''access_token'') \<and> filled (fld v ''account_id''))"

definition isVertexJsonKey :: "jstring option \<Rightarrow> bool" where
  "isVertexJsonKey = optional_json (\<lambda>v. case v of JArr xs \<Rightarrow> list_all isJsonObjectValue xs | _ \<Rightarrow> isJsonObjectValue v)"

definition validateJSON :: "jstring \<Rightarrow> bool" where
  "validateJSON value \<longleftrightarrow> jtrim value = [] \<or> JSON_parse value \<noteq> None"

definition validateModelMapping :: "jstring \<Rightarrow> bool" where
  "validateModelMapping value \<longleftrightarrow> jtrim value = [] \<or> validateJSON value"

text \<open>
  The checks across fields: a list of the path and the message of each issue, in order.  The
  messages of \<open>ERROR_MESSAGES\<close> are those of the constants.
\<close>

definition INVALID_HTTP2_CONNECTION_SHARDS :: jstring where
  "INVALID_HTTP2_CONNECTION_SHARDS = js ''HTTP/2 connection shards must be between 1 and 8''"

definition INVALID_HTTP1_WITH_SHARDS :: jstring where
  "INVALID_HTTP1_WITH_SHARDS = js ''HTTP/2 connection shards must be 1 when HTTP/1.1 is selected''"

abbreviation issue :: "bool \<Rightarrow> string \<Rightarrow> jstring \<Rightarrow> (jstring \<times> jstring) list" where
  "issue b path msg \<equiv> (if b then [(js path, msg)] else [])"

definition advanced_issues :: "url_parser \<Rightarrow> ChannelFormValues \<Rightarrow> AdvancedCustomConfig option \<Rightarrow> (jstring \<times> jstring) list" where
  "advanced_issues parseURL f config =
     (case validateAdvancedCustomConfig parseURL config of None \<Rightarrow> [] | Some err \<Rightarrow> [(js ''advanced_custom'', message err)]) @
     issue (advancedCustomConfigUsesRelativeUpstreamPath config \<and> jtrim (or_empty (f_base_url f)) = []) ''base_url''
       (js ''Base URL is required when an advanced route uses an upstream path'') @
     issue (on (f_upstream_model_update_check_enabled (f_typed f)) \<and> \<not> hasValidAdvancedCustomModelListRoute parseURL config)
       ''upstream_model_update_check_enabled'' (js ''OpenAI Models route is required to enable upstream model checks'')"

definition batch_mode :: "ChannelFormValues \<Rightarrow> bool" where
  "batch_mode f \<longleftrightarrow> or_empty (f_multi_key_mode f) \<noteq> [] \<and> f_multi_key_mode f \<noteq> Some (js ''single'')"

definition connection_issues :: "(jnum \<Rightarrow> jstring) \<Rightarrow> ExtraSettings \<Rightarrow> (jstring \<times> jstring) list" where
  "connection_issues numstr x =
     (let protocol = normalizeHttpProtocol numstr (case f_http_protocol x of None \<Rightarrow> JUndef | Some p \<Rightarrow> JStr p);
          shards = to_number (if f_http2_connection_shards x = JUndef \<or> f_http2_connection_shards x = JNull
                              then JNum (jint 1) else f_http2_connection_shards x)
      in issue (jlt shards (jint 1) \<or> jlt (jint MAX_HTTP2_CONNECTION_SHARDS) shards) ''http2_connection_shards''
           INVALID_HTTP2_CONNECTION_SHARDS @
         issue (protocol = HTTP_PROTOCOL_HTTP1 \<and> jlt (jint 1) shards) ''http2_connection_shards'' INVALID_HTTP1_WITH_SHARDS)"

definition form_issues :: "url_parser \<Rightarrow> (jnum \<Rightarrow> jstring) \<Rightarrow> ChannelFormValues \<Rightarrow> (jstring \<times> jstring) list outcome" where
  "form_issues parseURL numstr f =
     (let t = f_type f; key_given = (jtrim (f_key f) \<noteq> []);
          before = issue (t \<in> {3, 8, 36, 45, CHANNEL_TYPE_NEW_API} \<and> jtrim (or_empty (f_base_url f)) = []) ''base_url''
            (js ''Base URL is required for this channel type'');
          advanced = (if t \<noteq> CHANNEL_TYPE_ADVANCED_CUSTOM then Done []
            else (case parseAdvancedCustomConfig (f_advanced_custom (f_typed f)) of
                    NoConfig \<Rightarrow> Done (advanced_issues parseURL f None)
                  | ParsedConfig c \<Rightarrow> Done (advanced_issues parseURL f (Some c))
                  | OtherType _ \<Rightarrow> Untyped));
          rest =
            issue (t \<in> {3, 18, 21, 39, 41, 49} \<and> jtrim (or_empty (f_other f)) = []) ''other''
              (js ''This channel type requires additional configuration'') @
            issue (t = 57 \<and> batch_mode f) ''multi_key_mode'' (js ''Codex channels do not support batch creation'') @
            issue (t = 57 \<and> key_given \<and> \<not> isCodexCredential (Some (f_key f))) ''key''
              (js ''Codex credential must be a JSON object with access_token and account_id'') @
            issue (t = 41 \<and> f_vertex_key_type (f_typed f) = JStr (js ''json'') \<and> key_given \<and> \<not> isVertexJsonKey (Some (f_key f)))
              ''key'' (js ''Vertex AI service account key must be valid JSON'') @
            issue (t = 41 \<and> f_vertex_key_type (f_typed f) = JStr (js ''api_key'') \<and> batch_mode f) ''multi_key_mode''
              (js ''Vertex AI API Key mode does not support batch creation'') @
            connection_issues numstr (f_extra f)
      in map_outcome (\<lambda>mid. before @ mid @ rest) advanced)"

end
