(* ===== verification/Channel_Validation.thy ===== *)
theory Channel_Validation
  imports Channel_Routes
begin

text \<open>
  What the validation of an advanced custom configuration decides: a predicate on single
  routes and a relation between routes with the same incoming path.  Edits, templates and
  the text form of configurations.
\<close>

section \<open>Specification\<close>

definition rules :: "AdvancedCustomRoute \<Rightarrow> jstring list" where
  "rules r = normalizeAdvancedCustomRouteModels (route_models r)"

text \<open>A route by itself.\<close>

definition route_ok :: "url_parser \<Rightarrow> AdvancedCustomRoute \<Rightarrow> bool" where
  "route_ok parseURL r \<longleftrightarrow>
     starts_with (js ''/'') (incomingPath r) \<and> \<not> str_includes (js ''?'') (incomingPath r) \<and>
     (isAdvancedCustomManagementPath (incomingPath r) \<longrightarrow>
        rules r = [] \<and> text_or (js ''none'') (converter r) = js ''none'' \<and>
        \<not> str_includes (js ''{model}'') (getAdvancedCustomRouteUpstreamPath r)) \<and>
     distinct (rules r) \<and> js ''re:'' \<notin> set (rules r) \<and>
     getAdvancedCustomRouteUpstreamPath r \<noteq> [] \<and>
     isFullHttpURLOrAbsolutePath parseURL (getAdvancedCustomRouteUpstreamPath r) \<and>
     isAdvancedCustomConverter (text_or (js ''none'') (converter r)) \<and>
     isConverterPathAllowed (incomingPath r) (text_or (js ''none'') (converter r)) \<and>
     validateRouteAuth (route_auth r) = None"

text \<open>
  A route that comes before another: on the same path it is no catch-all, and they have no
  rule in common.
\<close>

definition before :: "AdvancedCustomRoute \<Rightarrow> AdvancedCustomRoute \<Rightarrow> bool" where
  "before r s \<longleftrightarrow> incomingPath r = incomingPath s \<longrightarrow> rules r \<noteq> [] \<and> set (rules r) \<inter> set (rules s) = {}"

definition routes_ok :: "url_parser \<Rightarrow> AdvancedCustomRoute list \<Rightarrow> bool" where
  "routes_ok parseURL rs \<longleftrightarrow> list_all (route_ok parseURL) rs \<and> sorted_wrt before rs"

lemma routes_ok_snoc:
  "routes_ok parseURL (rs @ [r]) \<longleftrightarrow> routes_ok parseURL rs \<and> route_ok parseURL r \<and> (\<forall>s\<in>set rs. before s r)"
  by (auto simp: routes_ok_def sorted_wrt_append)

lemma routes_ok_take: "routes_ok parseURL rs \<Longrightarrow> routes_ok parseURL (take n rs)"
  by (auto simp: routes_ok_def list_all_iff sorted_wrt_take dest: in_set_takeD)

section \<open>The rules of a path\<close>

lemma empty_regex_iff:
  "getAdvancedCustomModelRuleKind m = js ''regex'' \<and> getAdvancedCustomRegexModelPattern m = [] \<longleftrightarrow> m = js ''re:''"
proof
  assume "getAdvancedCustomModelRuleKind m = js ''regex'' \<and> getAdvancedCustomRegexModelPattern m = []"
  then have "starts_with (js ''re:'') m" "drop (length (js ''re:'')) m = []"
    by (auto simp: getAdvancedCustomModelRuleKind_def getAdvancedCustomRegexModelPattern_def
        ADVANCED_CUSTOM_MODEL_REGEX_PREFIX_def split: if_splits)
  then show "m = js ''re:''" using starts_withE by fastforce
qed (simp add: getAdvancedCustomModelRuleKind_def getAdvancedCustomRegexModelPattern_def
       ADVANCED_CUSTOM_MODEL_REGEX_PREFIX_def starts_with_def)

lemma rule_loop_cases:
  "case rule_loop i seen known ms of
     Inr k \<Rightarrow> distinct ms \<and> js ''re:'' \<notin> set ms \<and> set ms \<inter> (seen \<union> dom known) = {} \<and> dom k = dom known \<union> set ms
   | Inl e \<Rightarrow> routeIndex e = Some i \<and>
       \<not> (distinct ms \<and> js ''re:'' \<notin> set ms \<and> set ms \<inter> (seen \<union> dom known) = {})"
proof (induction i seen known ms rule: rule_loop.induct)
  case (2 i seen known m ms)
  show ?case
  proof (cases "m = js ''re:'' \<or> m \<in> seen \<or> known m \<noteq> None")
    case True
    then show ?thesis
      using empty_regex_iff [of m] by (auto simp: route_error_def simp del: js_eq_iff)
  next
    case False
    then have c: "\<not> (getAdvancedCustomModelRuleKind m = js ''regex'' \<and> getAdvancedCustomRegexModelPattern m = [])"
        "m \<notin> seen" "\<not> known m \<noteq> None"
      using empty_regex_iff [of m] by auto
    then have "rule_loop i seen known (m # ms) = rule_loop i (insert m seen) (known(m \<mapsto> i)) ms" by auto
    moreover obtain k where k: "k = known(m \<mapsto> i)" "dom k = insert m (dom known)" by simp
    ultimately have eq: "rule_loop i seen known (m # ms) = rule_loop i (insert m seen) k ms" by simp
    show ?thesis
      unfolding eq using "2.IH" [OF c, folded k(1)] False k(2)
      by (cases "rule_loop i (insert m seen) k ms") auto
  qed
qed simp

definition caught :: "(jstring \<rightharpoonup> PathRules) \<Rightarrow> jstring \<Rightarrow> bool" where
  "caught byPath p = (case byPath p of None \<Rightarrow> False | Some st \<Rightarrow> catchAllIndex st \<noteq> None)"

definition taken :: "(jstring \<rightharpoonup> PathRules) \<Rightarrow> jstring \<Rightarrow> jstring set" where
  "taken byPath p = (case byPath p of None \<Rightarrow> {} | Some st \<Rightarrow> dom (rule_models st))"

lemma route_models_cases:
  "case validateAdvancedCustomRouteModels i p ms byPath of
     Inr b \<Rightarrow> \<not> caught byPath p \<and> distinct ms \<and> js ''re:'' \<notin> set ms \<and> set ms \<inter> taken byPath p = {} \<and>
       caught b = (caught byPath)(p := (ms = [])) \<and> taken b = (taken byPath)(p := taken byPath p \<union> set ms)
   | Inl e \<Rightarrow> routeIndex e = Some i \<and>
       \<not> (\<not> caught byPath p \<and> distinct ms \<and> js ''re:'' \<notin> set ms \<and> set ms \<inter> taken byPath p = {})"
proof -
  define state where "state = (case byPath p of Some s \<Rightarrow> s | None \<Rightarrow> \<lparr>catchAllIndex = None, rule_models = Map.empty\<rparr>)"
  have c: "caught byPath p \<longleftrightarrow> catchAllIndex state \<noteq> None" and t: "taken byPath p = dom (rule_models state)"
    by (auto simp: state_def caught_def taken_def split: option.splits)
  have upd: "caught (byPath(p \<mapsto> s)) = (caught byPath)(p := (catchAllIndex s \<noteq> None))"
    "taken (byPath(p \<mapsto> s)) = (taken byPath)(p := dom (rule_models s))" for s
    by (auto simp: caught_def taken_def fun_eq_iff)
  show ?thesis
    using rule_loop_cases [where i = i and seen = "{}" and known = "rule_models state" and ms = ms] c t
    unfolding validateAdvancedCustomRouteModels_def state_def [symmetric] Let_def
    by (auto simp: upd route_error_def split: sum.splits)
qed

section \<open>The loop over the routes\<close>

definition represents :: "AdvancedCustomRoute list \<Rightarrow> validation \<Rightarrow> bool" where
  "represents ps s \<longleftrightarrow>
     (\<forall>p. caught (routeModelsByPath s) p \<longleftrightarrow> (\<exists>r\<in>set ps. incomingPath r = p \<and> rules r = [])) \<and>
     (\<forall>p. taken (routeModelsByPath s) p = (\<Union>r\<in>{r \<in> set ps. incomingPath r = p}. set (rules r))) \<and>
     (modelListRouteIndex s \<noteq> None \<longleftrightarrow> (\<exists>r\<in>set ps. incomingPath r = ADVANCED_CUSTOM_MODEL_LIST_PATH)) \<and>
     (balanceRouteIndex s \<noteq> None \<longleftrightarrow> (\<exists>r\<in>set ps. incomingPath r = ADVANCED_CUSTOM_BALANCE_PATH)) \<and>
     (\<forall>r\<in>set ps. isAdvancedCustomManagementPath (incomingPath r) \<longrightarrow> rules r = [])"

lemma represents_before:
  assumes "represents ps s"
  shows "(\<forall>q\<in>set ps. before q r) \<longleftrightarrow>
     \<not> caught (routeModelsByPath s) (incomingPath r) \<and> set (rules r) \<inter> taken (routeModelsByPath s) (incomingPath r) = {}"
  using assms by (auto simp: represents_def before_def)

lemma management_paths_differ: "ADVANCED_CUSTOM_MODEL_LIST_PATH \<noteq> ADVANCED_CUSTOM_BALANCE_PATH"
  by (simp add: ADVANCED_CUSTOM_MODEL_LIST_PATH_def ADVANCED_CUSTOM_BALANCE_PATH_def)

text \<open>The part for management routes.\<close>

definition management_ok :: "AdvancedCustomRoute \<Rightarrow> bool" where
  "management_ok r \<longleftrightarrow> rules r = [] \<and> text_or (js ''none'') (converter r) = js ''none'' \<and>
     \<not> str_includes (js ''{model}'') (getAdvancedCustomRouteUpstreamPath r)"

lemma management_cases:
  assumes "represents ps s" "isAdvancedCustomManagementPath (incomingPath r)"
  shows "case validate_management i r s of
     Inr s' \<Rightarrow> management_ok r \<and> (\<forall>q\<in>set ps. incomingPath q \<noteq> incomingPath r) \<and>
       routeModelsByPath s' = routeModelsByPath s \<and>
       (modelListRouteIndex s' \<noteq> None \<longleftrightarrow> modelListRouteIndex s \<noteq> None \<or> incomingPath r = ADVANCED_CUSTOM_MODEL_LIST_PATH) \<and>
       (balanceRouteIndex s' \<noteq> None \<longleftrightarrow> balanceRouteIndex s \<noteq> None \<or> incomingPath r = ADVANCED_CUSTOM_BALANCE_PATH)
   | Inl e \<Rightarrow> routeIndex e = Some i \<and> \<not> (management_ok r \<and> (\<forall>q\<in>set ps. before q r))"
proof -
  have "(if incomingPath r = ADVANCED_CUSTOM_MODEL_LIST_PATH then modelListRouteIndex s else balanceRouteIndex s) = None \<longleftrightarrow>
      (\<forall>q\<in>set ps. incomingPath q \<noteq> incomingPath r)"
    using assms by (auto simp: represents_def isAdvancedCustomManagementPath_def)
  moreover have "\<not> (\<forall>q\<in>set ps. incomingPath q \<noteq> incomingPath r) \<Longrightarrow> \<not> (\<forall>q\<in>set ps. before q r)"
    using assms unfolding represents_def before_def by (metis Int_empty_left)
  ultimately show ?thesis
    using assms(2) management_paths_differ
    by (auto simp: validate_management_def ensure_def route_error_def management_ok_def rules_def
        isAdvancedCustomManagementPath_def Let_def)
qed

lemma management_step_cases:
  assumes "represents ps s"
  shows "case (if isAdvancedCustomManagementPath (incomingPath r) then validate_management i r s else Inr s) of
     Inr s' \<Rightarrow> (isAdvancedCustomManagementPath (incomingPath r) \<longrightarrow> management_ok r) \<and>
       routeModelsByPath s' = routeModelsByPath s \<and>
       (modelListRouteIndex s' \<noteq> None \<longleftrightarrow> modelListRouteIndex s \<noteq> None \<or> incomingPath r = ADVANCED_CUSTOM_MODEL_LIST_PATH) \<and>
       (balanceRouteIndex s' \<noteq> None \<longleftrightarrow> balanceRouteIndex s \<noteq> None \<or> incomingPath r = ADVANCED_CUSTOM_BALANCE_PATH)
   | Inl e \<Rightarrow> routeIndex e = Some i \<and>
       \<not> ((isAdvancedCustomManagementPath (incomingPath r) \<longrightarrow> management_ok r) \<and> (\<forall>q\<in>set ps. before q r))"
  using management_cases [OF assms, where r = r and i = i]
  by (cases "isAdvancedCustomManagementPath (incomingPath r)"; cases "validate_management i r s")
    (auto simp: isAdvancedCustomManagementPath_def)

lemma route_ok_management:
  "route_ok parseURL r \<Longrightarrow> isAdvancedCustomManagementPath (incomingPath r) \<longrightarrow> management_ok r"
  by (simp add: route_ok_def management_ok_def)

lemma represents_snoc:
  assumes "represents ps s" "isAdvancedCustomManagementPath (incomingPath r) \<longrightarrow> rules r = []"
    and "caught (routeModelsByPath s') = (caught (routeModelsByPath s))(incomingPath r := (rules r = []))"
    and "taken (routeModelsByPath s') = (taken (routeModelsByPath s))
           (incomingPath r := taken (routeModelsByPath s) (incomingPath r) \<union> set (rules r))"
    and "\<not> caught (routeModelsByPath s) (incomingPath r)"
    and "modelListRouteIndex s' \<noteq> None \<longleftrightarrow> modelListRouteIndex s \<noteq> None \<or> incomingPath r = ADVANCED_CUSTOM_MODEL_LIST_PATH"
    and "balanceRouteIndex s' \<noteq> None \<longleftrightarrow> balanceRouteIndex s \<noteq> None \<or> incomingPath r = ADVANCED_CUSTOM_BALANCE_PATH"
  shows "represents (ps @ [r]) s'"
  unfolding represents_def
proof (intro conjI allI)
  fix p
  show "caught (routeModelsByPath s') p \<longleftrightarrow> (\<exists>q\<in>set (ps @ [r]). incomingPath q = p \<and> rules q = [])"
    using assms by (auto simp: represents_def)
  show "taken (routeModelsByPath s') p = (\<Union>q\<in>{q \<in> set (ps @ [r]). incomingPath q = p}. set (rules q))"
    using assms by (auto simp: represents_def)
qed (use assms in \<open>auto simp: represents_def\<close>)

lemma validate_route_cases:
  assumes ps: "represents ps s"
  shows "case validate_route parseURL i r s of
     Inr s' \<Rightarrow> route_ok parseURL r \<and> (\<forall>q\<in>set ps. before q r) \<and> represents (ps @ [r]) s'
   | Inl e \<Rightarrow> routeIndex e = Some i \<and> \<not> (route_ok parseURL r \<and> (\<forall>q\<in>set ps. before q r))"
proof (cases "incomingPath r \<noteq> [] \<and> starts_with (js ''/'') (incomingPath r) \<and> \<not> str_includes (js ''?'') (incomingPath r)")
  case False
  then have "\<not> route_ok parseURL r" by (auto simp: route_ok_def starts_with_def js_eval)
  moreover have "\<exists>m. validate_route parseURL i r s = Inl (route_error i m)"
    using False by (auto simp: validate_route_def ensure_def Let_def)
  ultimately show ?thesis by (auto simp: route_error_def)
next
  case True
  let ?m = "if isAdvancedCustomManagementPath (incomingPath r) then validate_management i r s else Inr s"
  note m = management_step_cases [OF ps, where r = r and i = i]
  show ?thesis
  proof (cases ?m)
    case (Inl e)
    then have "validate_route parseURL i r s = Inl e" using True by (simp add: validate_route_def ensure_def Let_def)
    then show ?thesis using m Inl route_ok_management [of parseURL r] by auto
  next
    case (Inr s')
    let ?v = "validateAdvancedCustomRouteModels i (incomingPath r) (rules r) (routeModelsByPath s)"
    note m = m [unfolded Inr, simplified]
    note v = route_models_cases [where i = i and p = "incomingPath r" and ms = "rules r" and byPath = "routeModelsByPath s"]
    have m': "routeModelsByPath s' = routeModelsByPath s" using m by simp
    show ?thesis
    proof (cases ?v)
      case v': (Inl e)
      then have "validate_route parseURL i r s = Inl e"
        using True Inr m' by (simp add: validate_route_def ensure_def Let_def rules_def)
      then show ?thesis using v v' represents_before [OF ps, of r] by (auto simp: route_ok_def)
    next
      case v': (Inr b)
      have b: "\<forall>q\<in>set ps. before q r" using v v' represents_before [OF ps, of r] by simp
      show ?thesis
      proof (cases "route_ok parseURL r")
        case ok: True
        then have "validate_route parseURL i r s = Inr (s'\<lparr>routeModelsByPath := b\<rparr>)"
          using True Inr m' v' by (simp add: validate_route_def ensure_def Let_def rules_def route_ok_def)
        moreover have "represents (ps @ [r]) (s'\<lparr>routeModelsByPath := b\<rparr>)"
          using ps v v' m by (intro represents_snoc [of ps s]) (auto simp: management_ok_def)
        ultimately show ?thesis using ok b by simp
      next
        case bad: False
        have "distinct (rules r)" "js ''re:'' \<notin> set (rules r)" using v v' by simp_all
        then have "\<not> (getAdvancedCustomRouteUpstreamPath r \<noteq> [] \<and>
            isFullHttpURLOrAbsolutePath parseURL (getAdvancedCustomRouteUpstreamPath r) \<and>
            isAdvancedCustomConverter (text_or (js ''none'') (converter r)) \<and>
            isConverterPathAllowed (incomingPath r) (text_or (js ''none'') (converter r)) \<and>
            validateRouteAuth (route_auth r) = None)"
          using bad True m by (auto simp: route_ok_def management_ok_def)
        then have "\<exists>e. validate_route parseURL i r s = Inl (route_error i e)"
          using True Inr m' v' by (auto simp: validate_route_def ensure_def Let_def rules_def split: option.splits)
        then show ?thesis using bad by (auto simp: route_error_def)
      qed
    qed
  qed
qed

lemma validate_loop_cases:
  assumes "represents ps s" "routes_ok parseURL ps"
  shows "case validate_loop parseURL (length ps) rs s of
     None \<Rightarrow> routes_ok parseURL (ps @ rs)
   | Some e \<Rightarrow> \<exists>i < length (ps @ rs). routeIndex e = Some i \<and> length ps \<le> i \<and>
       routes_ok parseURL (take i (ps @ rs)) \<and> \<not> routes_ok parseURL (take (Suc i) (ps @ rs))"
  using assms
proof (induction rs arbitrary: ps s)
  case (Cons r rs)
  note r = validate_route_cases [OF Cons.prems(1), where parseURL = parseURL and i = "length ps" and r = r]
  show ?case
  proof (cases "validate_route parseURL (length ps) r s")
    case (Inl e)
    with r Cons.prems(2) show ?thesis by (auto simp: routes_ok_snoc intro!: exI [of _ "length ps"])
  next
    case (Inr s')
    with r have "represents (ps @ [r]) s'" "routes_ok parseURL (ps @ [r])"
      using Cons.prems(2) by (simp_all add: routes_ok_snoc)
    from Cons.IH [OF this] Inr show ?thesis by (auto split: option.splits)
  qed
qed simp

lemma represents_none: "represents [] no_routes"
  by (simp add: represents_def no_routes_def caught_def taken_def)

section \<open>Normal forms\<close>

lemma text_or_idem [simp]: "text_or [] (Some (text_or [] v)) = text_or [] v"
  "d \<noteq> [] \<Longrightarrow> text_or d (Some (text_or d v)) = text_or d v" "text_or [] (Some s) = s"
  by (auto simp: text_or_def split: option.splits)

lemma models_idem: "normalizeAdvancedCustomRouteModels (Some (normalizeAdvancedCustomRouteModels ms)) = normalizeAdvancedCustomRouteModels ms"
proof -
  have "filter (\<lambda>m. m \<noteq> []) (map jtrim (filter (\<lambda>m. m \<noteq> []) (map jtrim xs))) = filter (\<lambda>m. m \<noteq> []) (map jtrim xs)" for xs
    by (induction xs) auto
  then show ?thesis by (auto simp: normalizeAdvancedCustomRouteModels_def split: option.splits)
qed

lemma normalize_route_idem [simp]:
  "normalizeAdvancedCustomRoute (normalizeAdvancedCustomRoute r) = normalizeAdvancedCustomRoute r"
proof -
  have "normalizeAdvancedCustomRouteModels None = []" by (simp add: normalizeAdvancedCustomRouteModels_def)
  then show ?thesis
    by (auto simp: normalizeAdvancedCustomRoute_def getAdvancedCustomRouteUpstreamPath_def Let_def models_idem
        option.map_comp comp_def)
qed

lemma incomingPath_normalize [simp]: "incomingPath (normalizeAdvancedCustomRoute r) = incomingPath r"
  by (simp add: incomingPath_def normalizeAdvancedCustomRoute_def Let_def)

lemma normal_routes_simp: "normal_routes c = (case advanced_routes c of None \<Rightarrow> [] | Some rs \<Rightarrow> map normalizeAdvancedCustomRoute rs)"
  by (simp add: normal_routes_def normalizeAdvancedCustomConfig_def)

lemma normal_routes_Some: "normal_routes \<lparr>advanced_routes = Some rs\<rparr> = map normalizeAdvancedCustomRoute rs"
  by (simp add: normal_routes_simp)

lemma normal_routes_normal: "map normalizeAdvancedCustomRoute (normal_routes c) = normal_routes c"
  by (simp add: normal_routes_simp split: option.splits)

lemma normalize_config_idem: "normalizeAdvancedCustomConfig (normalizeAdvancedCustomConfig c) = normalizeAdvancedCustomConfig c"
  by (simp add: normalizeAdvancedCustomConfig_def split: option.splits)

section \<open>Replacing routes\<close>

lemma find_index_None: "find_index p xs = None \<longleftrightarrow> (\<forall>x\<in>set xs. \<not> p x)"
  by (induction xs) auto

lemma find_index_split:
  "find_index p xs = Some i \<Longrightarrow> \<exists>ys x zs. xs = ys @ x # zs \<and> length ys = i \<and> p x \<and> (\<forall>y\<in>set ys. \<not> p y)"
proof (induction xs arbitrary: i)
  case (Cons a xs)
  show ?case
  proof (cases "p a")
    case False
    with Cons.prems obtain j where "find_index p xs = Some j" "i = Suc j" by auto
    with Cons.IH obtain ys x zs where "xs = ys @ x # zs" "length ys = j" "p x" "\<forall>y\<in>set ys. \<not> p y" by blast
    with False \<open>i = Suc j\<close> show ?thesis by (intro exI [of _ "a # ys"]) auto
  qed (use Cons.prems in \<open>auto intro!: exI [of _ "[]"]\<close>)
qed simp

lemma find_append: "find p (xs @ ys) = (case find p xs of Some x \<Rightarrow> Some x | None \<Rightarrow> find p ys)"
  by (induction xs) auto

lemma find_None: "(\<forall>x\<in>set xs. \<not> p x) \<Longrightarrow> find p xs = None"
  by (induction xs) auto

definition forwarding :: "AdvancedCustomRoute \<Rightarrow> bool" where
  "forwarding r \<longleftrightarrow> \<not> isAdvancedCustomManagementPath (incomingPath r)"

definition management_route :: "jstring \<Rightarrow> AdvancedCustomRoute \<Rightarrow> AdvancedCustomRoute" where
  "management_route path r = normalizeAdvancedCustomRoute
     \<lparr>incoming_path = Some path, upstream_path = Some (text_or [] (upstream_path r)),
      converter = Some (js ''none''), route_models = Some [], route_auth = route_auth r\<rparr>"

lemma management_path_trim: "isAdvancedCustomManagementPath path \<Longrightarrow> incomingPath (management_route path r) = path"
  by (auto simp: management_route_def incomingPath_def isAdvancedCustomManagementPath_def
      ADVANCED_CUSTOM_MODEL_LIST_PATH_def ADVANCED_CUSTOM_BALANCE_PATH_def normalizeAdvancedCustomRoute_def Let_def
      text_or_def jtrim_trimmed trimmed_def js_eval)

text \<open>The routes around the first one of a path.\<close>

lemma replaced_routes:
  assumes "isAdvancedCustomManagementPath path"
  obtains (absent) "\<forall>r\<in>set (normal_routes c). incomingPath r \<noteq> path"
      "normal_routes (replaceAdvancedCustomManagementRoute c path x) =
        normal_routes c @ (case x of None \<Rightarrow> [] | Some r \<Rightarrow> [management_route path r])"
  | (present) ys q zs where "normal_routes c = ys @ q # zs" "incomingPath q = path" "\<forall>r\<in>set ys. incomingPath r \<noteq> path"
      "normal_routes (replaceAdvancedCustomManagementRoute c path x) =
        ys @ (case x of None \<Rightarrow> [] | Some r \<Rightarrow> [management_route path r]) @ zs"
proof (cases "find_index (\<lambda>r. incomingPath r = path) (normal_routes c)")
  case None
  then have "\<forall>r\<in>set (normal_routes c). incomingPath r \<noteq> path" by (simp add: find_index_None)
  moreover have "normal_routes (replaceAdvancedCustomManagementRoute c path x) =
      normal_routes c @ (case x of None \<Rightarrow> [] | Some r \<Rightarrow> [management_route path r])"
    using None by (cases x) (simp_all add: replaceAdvancedCustomManagementRoute_def normal_routes_Some normal_routes_normal
        management_route_def Let_def)
  ultimately show thesis by (rule absent)
next
  case (Some i)
  then obtain ys q zs where s: "normal_routes c = ys @ q # zs" "length ys = i" "incomingPath q = path"
      "\<forall>r\<in>set ys. incomingPath r \<noteq> path"
    using find_index_split [OF Some] by blast
  moreover have "map normalizeAdvancedCustomRoute ys = ys" "map normalizeAdvancedCustomRoute zs = zs"
    using normal_routes_normal [of c] s(1,2) by auto
  ultimately have "normal_routes (replaceAdvancedCustomManagementRoute c path x) =
      ys @ (case x of None \<Rightarrow> [] | Some r \<Rightarrow> [management_route path r]) @ zs"
    using Some by (cases x) (simp_all add: replaceAdvancedCustomManagementRoute_def normal_routes_Some
        management_route_def Let_def list_update_append)
  with s(1,3,4) show thesis by (rule present)
qed

section \<open>Properties\<close>

text \<open>
  C29.  The validation accepts a configuration exactly when it has a route, every route is well
  formed by itself, and of two routes with the same incoming path the earlier one is no
  catch-all and shares no model rule with the later one; otherwise it reports the first
  route at which this fails.
\<close>

theorem validation_exact:
  fixes config :: AdvancedCustomConfig
  shows "case validateAdvancedCustomConfig parseURL (Some config) of
     None \<Rightarrow> normal_routes config \<noteq> [] \<and> routes_ok parseURL (normal_routes config)
   | Some e \<Rightarrow> (case routeIndex e of
        None \<Rightarrow> normal_routes config = []
      | Some i \<Rightarrow> i < length (normal_routes config) \<and> routes_ok parseURL (take i (normal_routes config)) \<and>
          \<not> routes_ok parseURL (take (Suc i) (normal_routes config)))"
  using validate_loop_cases [OF represents_none, of parseURL "normal_routes config"]
  by (auto simp: validateAdvancedCustomConfig_def routes_ok_def split: option.splits)

text \<open>
  Replacing a management route puts the new route where the old one was, or at the end;
  the other management route and all forwarding routes stay as they were.  Removing the
  only route of a management path leaves none.
\<close>

theorem management_route_replaced:
  assumes "isAdvancedCustomManagementPath path" "p \<noteq> path"
    and "length (filter (\<lambda>r. incomingPath r = path) (normal_routes c)) \<le> 1"
  shows "getAdvancedCustomManagementRoute (replaceAdvancedCustomManagementRoute c path x) path = map_option (management_route path) x \<and>
     getAdvancedCustomManagementRoute (replaceAdvancedCustomManagementRoute c path x) p = getAdvancedCustomManagementRoute c p \<and>
     filter forwarding (normal_routes (replaceAdvancedCustomManagementRoute c path x)) = filter forwarding (normal_routes c)"
proof -
  have m: "incomingPath (management_route path r) = path" for r by (rule management_path_trim [OF assms(1)])
  have fwd: "\<not> forwarding r" if "incomingPath r = path" for r using that assms(1) by (simp add: forwarding_def)
  show ?thesis
    using assms(1)
  proof (cases rule: replaced_routes [of path c x])
    case absent
    with m fwd assms(2) show ?thesis
      by (cases x) (auto simp: getAdvancedCustomManagementRoute_def find_append find_None split: option.splits)
  next
    case (present ys q zs)
    with assms(3) have "\<forall>r\<in>set zs. incomingPath r \<noteq> path" by (auto simp: filter_empty_conv)
    with present m fwd assms(2) show ?thesis
      by (cases x) (auto simp: getAdvancedCustomManagementRoute_def find_append find_None split: option.splits)
  qed
qed

theorem management_route_replaced_witness:
  "getAdvancedCustomManagementRoute (replaceAdvancedCustomManagementRoute createAdvancedCustomConfig
      ADVANCED_CUSTOM_BALANCE_PATH (Some createAdvancedCustomRoute)) ADVANCED_CUSTOM_BALANCE_PATH =
      map_option (management_route ADVANCED_CUSTOM_BALANCE_PATH) (Some createAdvancedCustomRoute) \<and>
   getAdvancedCustomManagementRoute (replaceAdvancedCustomManagementRoute createAdvancedCustomConfig
      ADVANCED_CUSTOM_BALANCE_PATH (Some createAdvancedCustomRoute)) ADVANCED_CUSTOM_MODEL_LIST_PATH =
      getAdvancedCustomManagementRoute createAdvancedCustomConfig ADVANCED_CUSTOM_MODEL_LIST_PATH \<and>
   filter forwarding (normal_routes (replaceAdvancedCustomManagementRoute createAdvancedCustomConfig
      ADVANCED_CUSTOM_BALANCE_PATH (Some createAdvancedCustomRoute))) = filter forwarding (normal_routes createAdvancedCustomConfig)"
  by (rule management_route_replaced)
    (simp_all add: isAdvancedCustomManagementPath_def management_paths_differ createAdvancedCustomConfig_def normal_routes_Some)

text \<open>
  Replacing the forwarding routes leaves exactly the new ones, in their order, and the
  management routes as they were.
\<close>

theorem forwarding_routes_replaced:
  assumes "list_all forwarding rs"
  shows "filter forwarding (normal_routes (replaceAdvancedCustomForwardingRoutes c rs)) = map normalizeAdvancedCustomRoute rs \<and>
     filter (\<lambda>r. \<not> forwarding r) (normal_routes (replaceAdvancedCustomForwardingRoutes c rs)) =
       filter (\<lambda>r. \<not> forwarding r) (normal_routes c)"
proof -
  let ?n = "map normalizeAdvancedCustomRoute"
  have fn: "forwarding (normalizeAdvancedCustomRoute r) = forwarding r" for r by (simp add: forwarding_def)
  have rs: "filter forwarding (?n rs) = ?n rs" "filter (\<lambda>r. \<not> forwarding r) (?n rs) = []"
    using assms by (auto simp: filter_map list_all_iff fn comp_def filter_empty_conv intro: filter_True)
  have m: "(\<lambda>r. isAdvancedCustomManagementPath (incomingPath r)) = (\<lambda>r. \<not> forwarding r)" by (simp add: forwarding_def)
  have n: "?n (filter P (normal_routes c)) = filter P (normal_routes c)" for P
  proof -
    have "normalizeAdvancedCustomRoute r = r" if "r \<in> set (normal_routes c)" for r
      using normal_routes_normal [of c] that by (metis map_eq_conv map_ident list.map_id id_apply map_idI)
    then show ?thesis by (intro map_idI) auto
  qed
  define i where "i = (case find_index forwarding (normal_routes c) of None \<Rightarrow> length (normal_routes c) | Some i \<Rightarrow> i)"
  define a b where "a = take i (normal_routes c)" and "b = drop i (normal_routes c)"
  have ab: "a @ b = normal_routes c"
      "normal_routes (replaceAdvancedCustomForwardingRoutes c rs) = ?n (filter (\<lambda>r. \<not> forwarding r) a @ rs @ filter (\<lambda>r. \<not> forwarding r) b)"
    by (auto simp: replaceAdvancedCustomForwardingRoutes_def m normal_routes_Some a_def b_def i_def Let_def split: option.splits)
  have "?n (filter (\<lambda>r. \<not> forwarding r) a) @ ?n (filter (\<lambda>r. \<not> forwarding r) b) =
      filter (\<lambda>r. \<not> forwarding r) a @ filter (\<lambda>r. \<not> forwarding r) b"
    using n [of "\<lambda>r. \<not> forwarding r"] unfolding ab(1) [symmetric] by simp
  then show ?thesis
    unfolding ab(2) ab(1) [symmetric] using rs
    by (simp add: filter_map comp_def fn)
qed

theorem forwarding_routes_replaced_witness:
  "filter forwarding (normal_routes (replaceAdvancedCustomForwardingRoutes
      \<lparr>advanced_routes = Some [createAdvancedCustomManagementRoute ADVANCED_CUSTOM_BALANCE_PATH]\<rparr> [createAdvancedCustomRoute])) =
      map normalizeAdvancedCustomRoute [createAdvancedCustomRoute] \<and>
   filter (\<lambda>r. \<not> forwarding r) (normal_routes (replaceAdvancedCustomForwardingRoutes
      \<lparr>advanced_routes = Some [createAdvancedCustomManagementRoute ADVANCED_CUSTOM_BALANCE_PATH]\<rparr> [createAdvancedCustomRoute])) =
      filter (\<lambda>r. \<not> forwarding r) (normal_routes \<lparr>advanced_routes = Some [createAdvancedCustomManagementRoute ADVANCED_CUSTOM_BALANCE_PATH]\<rparr>)"
  by (rule forwarding_routes_replaced)
    (simp add: forwarding_def isAdvancedCustomManagementPath_def createAdvancedCustomRoute_def incomingPath_def
      ADVANCED_CUSTOM_MODEL_LIST_PATH_def ADVANCED_CUSTOM_BALANCE_PATH_def openAIChatPath_def text_or_def
      jtrim_trimmed trimmed_def js_eval)

section \<open>Text form\<close>

lemma opt_read_member:
  assumes "\<And>x. f (g x) = Some x" "\<And>x. g x \<noteq> JUndef"
  shows "opt_read f (case map_option g v of Some y \<Rightarrow> y | None \<Rightarrow> JUndef) = Some v"
  using assms by (cases v) (simp_all add: opt_read_def)

lemma those_map: "(\<And>x. f (g x) = Some x) \<Longrightarrow> those (map (f \<circ> g) xs) = Some xs"
  by (induction xs) auto

lemma auth_of_value: "auth_of (auth_value_of a) = Some a"
  using opt_read_member [of read_string JStr]
  by (cases a; cases "auth_type a"; cases "auth_name a"; cases "auth_value a")
    (simp_all add: auth_of_def auth_value_of_def getp_def opt_member_def opt_read_def)

lemma read_models: "read_list read_string (JArr (map JStr ms)) = Some ms"
  using those_map [of read_string JStr] by (simp add: comp_def)

lemma route_of_value: "route_of (route_value_of r) = Some r"
proof -
  have "auth_value_of a \<noteq> JUndef" for a by (simp add: auth_value_of_def)
  then show ?thesis
    by (cases r; cases "incoming_path r"; cases "upstream_path r"; cases "converter r"; cases "route_models r"; cases "route_auth r")
      (simp_all add: route_of_def route_value_of_def getp_def opt_member_def opt_read_def auth_of_value read_models del: read_list.simps)
qed

lemma config_of_value: "config_of (config_value_of c) = Some c"
  using those_map [of route_of route_value_of, OF route_of_value]
  by (cases c; cases "advanced_routes c")
    (simp_all add: config_of_def config_value_of_def getp_def opt_member_def opt_read_def comp_def)

lemma array_index_name: "k \<noteq> [] \<Longrightarrow> \<not> is_digit (u16 (hd k)) \<Longrightarrow> array_index (js k) = None"
  by (cases k) (simp_all add: array_index_def js_Cons)

lemma printable_config: "printable (config_value_of c)"
proof -
  have auth: "printable (auth_value_of a)" for a
    by (simp add: auth_value_of_def opt_member_def array_index_name is_digit_u16 split: option.splits)
  have route: "printable (route_value_of r)" for r
    by (simp add: route_value_of_def opt_member_def array_index_name is_digit_u16 auth list_all_iff split: option.splits)
  show ?thesis
    by (simp add: config_value_of_def opt_member_def array_index_name is_digit_u16 route list_all_iff split: option.splits)
qed

lemma jtrim_not_blank: "\<not> is_ws c \<Longrightarrow> jtrim (c # s) \<noteq> []"
  by (simp add: jtrim_def dropWhile_eq_Nil_conv)

lemma pretty_object_not_blank: "jtrim (json_pretty numstr d (JObj ps)) \<noteq> []"
proof -
  have "\<exists>s. json_pretty numstr d (JObj ps) = u16 (CHR ''{'') # s" by (simp add: bracketed_def enclosed_def)
  moreover have "\<not> is_ws (u16 (CHR ''{''))" by (simp add: is_ws_u16)
  ultimately show ?thesis using jtrim_not_blank by metis
qed

lemma config_text_read:
  "parseAdvancedCustomConfig (Some (stringifyAdvancedCustomConfig numstr c)) = ParsedConfig (normalizeAdvancedCustomConfig c)"
proof -
  let ?v = "config_value_of (normalizeAdvancedCustomConfig c)"
  have "JSON_parse (json_pretty numstr 0 ?v) = Some ?v" by (intro JSON_parse_pretty printable_config)
  moreover obtain ps where ps: "?v = JObj ps" by (simp add: config_value_of_def)
  moreover have "jtrim (json_pretty numstr 0 ?v) \<noteq> []" unfolding ps by (rule pretty_object_not_blank)
  ultimately show ?thesis
    using config_of_value [of "normalizeAdvancedCustomConfig c"]
    by (simp add: parseAdvancedCustomConfig_def stringifyAdvancedCustomConfig_def normalize_config_idem)
qed

text \<open>
  C30.  The text of a configuration is parsed back as the normal form of the configuration, and
  normalising again changes nothing.
\<close>

theorem config_text_roundtrip:
  "parseAdvancedCustomConfig (Some (stringifyAdvancedCustomConfig numstr c)) = ParsedConfig (normalizeAdvancedCustomConfig c) \<and>
   normalizeAdvancedCustomConfig (normalizeAdvancedCustomConfig c) = normalizeAdvancedCustomConfig c"
  using config_text_read normalize_config_idem by blast

section \<open>Offered configurations\<close>

definition good_path :: "jstring \<Rightarrow> bool" where
  "good_path p \<longleftrightarrow> trimmed p \<and> starts_with (js ''/'') p \<and> \<not> starts_with (js ''//'') p \<and>
     u16 (CHR ''?'') \<notin> set p \<and> \<not> isAdvancedCustomManagementPath p"

definition good_text :: "string \<Rightarrow> bool" where
  "good_text s \<longleftrightarrow> take 1 s = ''/'' \<and> take 2 s \<noteq> ''//'' \<and> CHR ''?'' \<notin> set s \<and>
     last s \<in> set ''abcdefghijklmnopqrstuvwxyz'' \<and> s \<noteq> ''/v1/models'' \<and> s \<noteq> ''/v1/dashboard/billing/credit_grants''"

lemma good_path_text:
  assumes "good_text s" shows "good_path (js s)"
proof -
  from assms obtain w where w: "s = CHR ''/'' # w" by (cases s) (auto simp: good_text_def)
  have "last (js s) = u16 (last s)" by (simp add: w js_def last_map)
  moreover have "\<not> is_ws (u16 (last s))" using assms by (auto simp: good_text_def is_ws_u16)
  moreover have "\<not> is_ws (u16 (CHR ''/''))" by (simp add: is_ws_u16)
  moreover have "u16 (CHR ''?'') \<notin> set (js s)" using assms by (auto simp: good_text_def js_def)
  moreover have "\<not> isAdvancedCustomManagementPath (js s)"
    using assms by (simp add: good_text_def isAdvancedCustomManagementPath_def ADVANCED_CUSTOM_MODEL_LIST_PATH_def
        ADVANCED_CUSTOM_BALANCE_PATH_def)
  moreover have "\<not> starts_with (js ''//'') (js s)"
    using assms by (cases w) (auto simp: w good_text_def starts_with_def js_Cons js_Nil)
  ultimately show ?thesis by (simp add: good_path_def trimmed_def w js_Cons js_Nil starts_with_def)
qed

definition offered_paths :: "string list" where
  "offered_paths =
     [''/v1/chat/completions'', ''/v1/responses'', ''/v1/responses/compact'', ''/v1/alpha/search'', ''/v1/embeddings'',
      ''/v1/images/generations'', ''/v1/images/edits'', ''/v1/completions'', ''/v1/audio/speech'',
      ''/v1/audio/transcriptions'', ''/v1/audio/translations'', ''/v1/rerank'', ''/v1/realtime'', ''/v1/messages'',
      ''/v1beta/models/{model}:generateContent'', ''/v1beta/models/{model}:embedContent'',
      ''/v1beta/models/{model}:batchEmbedContents'']"

lemma good_offered: "s \<in> set offered_paths \<Longrightarrow> good_path (js s)"
proof -
  have "list_all good_text offered_paths" by (simp add: offered_paths_def good_text_def)
  then show "s \<in> set offered_paths \<Longrightarrow> good_path (js s)" by (auto simp: list_all_iff intro: good_path_text)
qed

lemma good_option: "(p, l) \<in> set ADVANCED_CUSTOM_INCOMING_PATH_OPTIONS \<Longrightarrow> good_path p"
proof -
  have "map fst ADVANCED_CUSTOM_INCOMING_PATH_OPTIONS = map js offered_paths"
    by (simp add: ADVANCED_CUSTOM_INCOMING_PATH_OPTIONS_def offered_paths_def)
  then have "fst ` set ADVANCED_CUSTOM_INCOMING_PATH_OPTIONS = js ` set offered_paths" by (metis set_map)
  moreover assume "(p, l) \<in> set ADVANCED_CUSTOM_INCOMING_PATH_OPTIONS"
  ultimately show ?thesis using good_offered by force
qed

lemma includes_single: "str_includes [c] s \<longleftrightarrow> c \<in> set s"
  by (metis append_Cons append_Nil in_set_conv_decomp str_includes_iff)

definition offered_auth :: "AdvancedCustomRouteAuth \<Rightarrow> bool" where
  "offered_auth a \<longleftrightarrow> a \<in> {bearerHeaderAuth, apiKeyHeaderAuth, geminiQueryAuth}"

definition plain_route :: "jstring \<Rightarrow> jstring \<Rightarrow> jstring \<Rightarrow> AdvancedCustomRouteAuth \<Rightarrow> AdvancedCustomRoute" where
  "plain_route p u conv a = \<lparr>incoming_path = Some p, upstream_path = Some u, converter = Some conv,
     route_models = None, route_auth = Some a\<rparr>"

lemma offered_auth_ok: "offered_auth a \<Longrightarrow> validateRouteAuth (route_auth (normalizeAdvancedCustomRoute (plain_route p u conv a))) = None"
  by (auto simp: offered_auth_def normalizeAdvancedCustomRoute_def plain_route_def validateRouteAuth_def Let_def
      bearerHeaderAuth_def apiKeyHeaderAuth_def geminiQueryAuth_def text_or_def jtrim_trimmed trimmed_def js_eval)

lemma plain_route_fields:
  assumes "trimmed p" "trimmed u" "conv \<noteq> []"
  shows "incomingPath (normalizeAdvancedCustomRoute (plain_route p u conv a)) = p"
    "getAdvancedCustomRouteUpstreamPath (normalizeAdvancedCustomRoute (plain_route p u conv a)) = u"
    "text_or (js ''none'') (converter (normalizeAdvancedCustomRoute (plain_route p u conv a))) = conv"
    "rules (normalizeAdvancedCustomRoute (plain_route p u conv a)) = []"
  using assms by (simp_all add: incomingPath_def getAdvancedCustomRouteUpstreamPath_def rules_def plain_route_def
      normalizeAdvancedCustomRoute_def normalizeAdvancedCustomRouteModels_def text_or_def jtrim_trimmed Let_def)

lemma plain_route_ok:
  assumes "good_path p" "good_path u" "isAdvancedCustomConverter conv" "isConverterPathAllowed p conv" "offered_auth a" "conv \<noteq> []"
  shows "route_ok parseURL (normalizeAdvancedCustomRoute (plain_route p u conv a))"
proof -
  from assms have t: "trimmed p" "trimmed u" by (simp_all add: good_path_def)
  have "js ''?'' = [u16 (CHR ''?'')]" by (simp add: js_eval)
  then show ?thesis
    using assms offered_auth_ok plain_route_fields [OF t assms(6)]
    by (auto simp: route_ok_def good_path_def includes_single isFullHttpURLOrAbsolutePath_def starts_with_def js_eval)
qed

lemma converter_names: "isAdvancedCustomConverter conv \<Longrightarrow> conv \<noteq> []"
  by (auto simp: isAdvancedCustomConverter_def ADVANCED_CUSTOM_CONVERTER_OPTIONS_def)

lemma native_auth_offered: "offered_auth (getAdvancedCustomNativeAuth p)"
  by (simp add: getAdvancedCustomNativeAuth_def offered_auth_def)

definition offered_defaults :: "jstring \<Rightarrow> AdvancedCustomConverterDefaults \<Rightarrow> bool" where
  "offered_defaults p d \<longleftrightarrow> default_upstream_path d \<in>
       {p, openAIChatPath, openAIResponsesPath, claudeMessagesPath, geminiGenerateContentPath} \<and>
     offered_auth (default_auth d)"

lemma offered_defaults_if: "offered_defaults p d \<Longrightarrow> offered_defaults p e \<Longrightarrow> offered_defaults p (if b then d else e)"
  by simp

lemma defaults_cases:
  assumes "p \<noteq> []" "trimmed p"
  shows "offered_defaults p (getAdvancedCustomConverterDefaults conv p)"
proof -
  have p: "str_or (jtrim p) q = p" "str_or p q = p" for q using assms by (simp_all add: str_or_def jtrim_trimmed)
  have "offered_auth bearerHeaderAuth" "offered_auth apiKeyHeaderAuth" "offered_auth geminiQueryAuth"
    by (simp_all add: offered_auth_def)
  then show ?thesis
    unfolding getAdvancedCustomConverterDefaults_def Let_def p
    by (intro offered_defaults_if) (simp_all add: offered_defaults_def native_auth_offered)
qed

lemma defaults_good:
  assumes "good_path p"
  shows "good_path (default_upstream_path (getAdvancedCustomConverterDefaults conv p))"
    "offered_auth (default_auth (getAdvancedCustomConverterDefaults conv p))"
proof -
  have "good_path openAIChatPath" "good_path openAIResponsesPath" "good_path claudeMessagesPath" "good_path geminiGenerateContentPath"
    unfolding openAIChatPath_def openAIResponsesPath_def claudeMessagesPath_def geminiGenerateContentPath_def
    by (rule good_offered; simp add: offered_paths_def)+
  moreover have "p \<noteq> []" "trimmed p" using assms by (auto simp: good_path_def starts_with_def js_eval)
  ultimately show "good_path (default_upstream_path (getAdvancedCustomConverterDefaults conv p))"
    "offered_auth (default_auth (getAdvancedCustomConverterDefaults conv p))"
    using defaults_cases [of p conv] assms by (auto simp: offered_defaults_def)
qed

text \<open>
  Every route that the editor offers is valid: each incoming path that is offered for a
  converter, with the default upstream path and authentication of the converter.
\<close>

theorem offered_route_valid:
  assumes "isAdvancedCustomConverter conv" "(p, l) \<in> set (getAdvancedCustomIncomingPathOptions conv)"
  shows "validateAdvancedCustomConfig parseURL (Some \<lparr>advanced_routes = Some
     [\<lparr>incoming_path = Some p,
       upstream_path = Some (default_upstream_path (getAdvancedCustomConverterDefaults conv p)),
       converter = Some conv, route_models = None,
       route_auth = Some (default_auth (getAdvancedCustomConverterDefaults conv p))\<rparr>]\<rparr>) = None"
proof -
  from assms(2) have p: "good_path p" "isConverterPathAllowed p conv"
    by (auto simp: getAdvancedCustomIncomingPathOptions_def intro: good_option)
  let ?r = "plain_route p (default_upstream_path (getAdvancedCustomConverterDefaults conv p)) conv
    (default_auth (getAdvancedCustomConverterDefaults conv p))"
  have "routes_ok parseURL [normalizeAdvancedCustomRoute ?r]"
    using plain_route_ok [OF p(1) defaults_good(1) [OF p(1)] assms(1) p(2) defaults_good(2) [OF p(1)] converter_names [OF assms(1)]]
    by (simp add: routes_ok_def)
  then show ?thesis
    using validate_loop_cases [OF represents_none, of parseURL "[normalizeAdvancedCustomRoute ?r]"]
    by (auto simp: validateAdvancedCustomConfig_def normal_routes_Some plain_route_def routes_ok_def take_Suc split: option.splits)
qed

theorem offered_route_valid_witness:
  "validateAdvancedCustomConfig (\<lambda>_. None) (Some \<lparr>advanced_routes = Some
     [\<lparr>incoming_path = Some (js ''/v1/responses''),
       upstream_path = Some (default_upstream_path (getAdvancedCustomConverterDefaults
         (js ''openai_responses_to_openai_chat_completions'') (js ''/v1/responses''))),
       converter = Some (js ''openai_responses_to_openai_chat_completions''), route_models = None,
       route_auth = Some (default_auth (getAdvancedCustomConverterDefaults
         (js ''openai_responses_to_openai_chat_completions'') (js ''/v1/responses'')))\<rparr>]\<rparr>) = None"
proof (rule offered_route_valid)
  show "isAdvancedCustomConverter (js ''openai_responses_to_openai_chat_completions'')"
    by (simp add: isAdvancedCustomConverter_def ADVANCED_CUSTOM_CONVERTER_OPTIONS_def)
  show "(js ''/v1/responses'', js ''OpenAI Responses'') \<in>
      set (getAdvancedCustomIncomingPathOptions (js ''openai_responses_to_openai_chat_completions''))"
    by (simp add: getAdvancedCustomIncomingPathOptions_def ADVANCED_CUSTOM_INCOMING_PATH_OPTIONS_def isConverterPathAllowed_def)
qed

lemma native_route_plain: "native_route a q = plain_route q q (js ''none'') a"
  by (simp add: native_route_def plain_route_def)

lemma native_routes_ok:
  assumes "list_all (\<lambda>(a, s). offered_auth a \<and> s \<in> set offered_paths) xs" "distinct (map snd xs)"
  shows "routes_ok parseURL (map normalizeAdvancedCustomRoute (map (\<lambda>(a, s). native_route a (js s)) xs))"
  using assms
proof (induction xs rule: rev_induct)
  case Nil
  then show ?case by (simp add: routes_ok_def)
next
  case (snoc x xs)
  obtain a s where x: "x = (a, s)" by (cases x)
  have none: "isAdvancedCustomConverter (js ''none'')" "isConverterPathAllowed q (js ''none'')" for q
    by (simp_all add: isAdvancedCustomConverter_def ADVANCED_CUSTOM_CONVERTER_OPTIONS_def isConverterPathAllowed_def)
  have path: "incomingPath (normalizeAdvancedCustomRoute (native_route b (js t))) = js t" if "t \<in> set offered_paths" for b t
    using good_offered [OF that] plain_route_fields(1) [of "js t" "js t" "js ''none''" b]
    by (simp add: native_route_plain good_path_def)
  have "s \<in> set offered_paths" "offered_auth a" using snoc.prems x by simp_all
  then have "route_ok parseURL (normalizeAdvancedCustomRoute (native_route a (js s)))"
    unfolding native_route_plain by (intro plain_route_ok good_offered none) simp_all
  moreover have "before r (normalizeAdvancedCustomRoute (native_route a (js s)))"
    if "r \<in> set (map normalizeAdvancedCustomRoute (map (\<lambda>(a, s). native_route a (js s)) xs))" for r
    using that snoc.prems x \<open>s \<in> set offered_paths\<close>
    by (auto simp: before_def path list_all_iff simp del: incomingPath_normalize)
      (metis case_prodD path incomingPath_normalize js_eq_iff image_eqI snd_conv)+
  ultimately show ?case using snoc x by (simp add: routes_ok_snoc)
qed

definition template_routes :: "(AdvancedCustomRouteAuth \<times> string) list list" where
  "template_routes =
     (let openai = map (Pair bearerHeaderAuth)
            [''/v1/chat/completions'', ''/v1/completions'', ''/v1/responses'', ''/v1/responses/compact'',
             ''/v1/embeddings'', ''/v1/images/generations'', ''/v1/images/edits'', ''/v1/audio/speech'',
             ''/v1/audio/transcriptions'', ''/v1/audio/translations'', ''/v1/realtime''];
          claude = [(apiKeyHeaderAuth, ''/v1/messages'')];
          gemini = map (Pair geminiQueryAuth)
            [''/v1beta/models/{model}:generateContent'', ''/v1beta/models/{model}:embedContent'',
             ''/v1beta/models/{model}:batchEmbedContents''];
          gateway = map (Pair bearerHeaderAuth) [''/v1/alpha/search'', ''/v1/rerank'']
      in [openai @ claude @ gemini @ gateway, openai, claude, gemini])"

lemma template_routes_ok:
  assumes "xs \<in> set template_routes"
  shows "routes_ok parseURL (map normalizeAdvancedCustomRoute (map (\<lambda>(a, s). native_route a (js s)) xs))"
proof (rule native_routes_ok)
  have "offered_auth bearerHeaderAuth" "offered_auth apiKeyHeaderAuth" "offered_auth geminiQueryAuth"
    by (simp_all add: offered_auth_def)
  then have "list_all (list_all (\<lambda>(a, s). offered_auth a \<and> s \<in> set offered_paths)) template_routes"
    by (simp add: template_routes_def offered_paths_def Let_def)
  then show "list_all (\<lambda>(a, s). offered_auth a \<and> s \<in> set offered_paths) xs" using assms by (simp add: list_all_iff)
  have "list_all (\<lambda>xs. distinct (map snd xs)) template_routes" by (simp add: template_routes_def Let_def)
  then show "distinct (map snd xs)" using assms by (simp add: list_all_iff)
qed

lemma template_configs:
  "map (\<lambda>(_, _, c). advanced_routes c) ADVANCED_CUSTOM_TEMPLATE_OPTIONS =
     map (\<lambda>xs. Some (map (\<lambda>(a, s). native_route a (js s)) xs)) template_routes"
  by (simp add: ADVANCED_CUSTOM_TEMPLATE_OPTIONS_def template_routes_def createOpenAINativeRoutes_def
      createClaudeNativeRoutes_def createGeminiNativeRoutes_def createGatewayNativeRoutes_def Let_def)

text \<open>
  Whatever the key, the template configuration is valid.
\<close>

theorem template_valid:
  "validateAdvancedCustomConfig parseURL (Some (getAdvancedCustomTemplateConfig templateKey)) = None"
proof -
  let ?c = "getAdvancedCustomTemplateConfig templateKey"
  have "advanced_routes ?c \<in> set (map (\<lambda>(_, _, c). advanced_routes c) ADVANCED_CUSTOM_TEMPLATE_OPTIONS)"
  proof (cases "find (\<lambda>(value, _). value = templateKey) ADVANCED_CUSTOM_TEMPLATE_OPTIONS")
    case None
    then show ?thesis by (simp add: getAdvancedCustomTemplateConfig_def) (simp add: ADVANCED_CUSTOM_TEMPLATE_OPTIONS_def)
  next
    case (Some t)
    then have "t \<in> set ADVANCED_CUSTOM_TEMPLATE_OPTIONS" by (metis find_Some_iff nth_mem)
    with Some show ?thesis by (cases t) (simp add: getAdvancedCustomTemplateConfig_def rev_image_eqI)
  qed
  then obtain xs where xs: "xs \<in> set template_routes"
      "advanced_routes ?c = Some (map (\<lambda>(a, s). native_route a (js s)) xs)"
    unfolding template_configs by auto
  then have r: "normal_routes ?c = map normalizeAdvancedCustomRoute (map (\<lambda>(a, s). native_route a (js s)) xs)"
    by (simp add: normal_routes_simp)
  moreover have "list_all (\<lambda>xs. xs \<noteq> []) template_routes" by (simp add: template_routes_def Let_def)
  ultimately have "normal_routes ?c \<noteq> []" using xs(1) by (auto simp: list_all_iff)
  moreover have "routes_ok parseURL (take n (normal_routes ?c))" for n
    unfolding r using template_routes_ok [OF xs(1)] by (rule routes_ok_take)
  ultimately show ?thesis
    using validate_loop_cases [OF represents_none, of parseURL "normal_routes ?c"]
    by (auto simp: validateAdvancedCustomConfig_def routes_ok_def [of _ "[]"] split: option.splits)
qed

end
