(* ===== verification/Channel_Settings.thy ===== *)
theory Channel_Settings
  imports Channel_Form Channel_Validation Channel_Models
begin

text \<open>
  Saving the form of a channel: what is saved is shown again, what the form does not know is
  kept, and saving what was shown changes nothing.
\<close>

section \<open>Entries of an object\<close>

text \<open>
  Entries to be written into an object: a value sets the property, none deletes it.
\<close>

definition enter :: "jstring \<times> jsval option \<Rightarrow> (jstring \<times> jsval) list \<Rightarrow> (jstring \<times> jsval) list" where
  "enter e ps = (case snd e of Some x \<Rightarrow> put (fst e) x ps | None \<Rightarrow> remove_key (fst e) ps)"

definition enter_all :: "(jstring \<times> jsval option) list \<Rightarrow> (jstring \<times> jsval) list \<Rightarrow> (jstring \<times> jsval) list" where
  "enter_all es ps = fold enter es ps"

lemma own_enter: "own k v ps = enter (js k, v) ps"
  by (cases v) (simp_all add: own_def enter_def)

lemma map_of_enter [simp]: "map_of (enter e ps) = (map_of ps)(fst e := snd e)"
  by (simp add: enter_def split: option.splits)

lemma map_of_enter_all:
  "distinct (map fst es) \<Longrightarrow> map_of (enter_all es ps) k = (case map_of es k of Some v \<Rightarrow> v | None \<Rightarrow> map_of ps k)"
proof (induction es arbitrary: ps)
  case (Cons e es)
  have "map_of es (fst e) = None" using Cons.prems by (simp add: map_of_eq_None_iff)
  then show ?case using Cons by (simp add: enter_all_def split: option.splits)
qed (simp add: enter_all_def)

lemma distinct_enter_all: "distinct (map fst ps) \<Longrightarrow> distinct (map fst (enter_all es ps))"
proof (induction es arbitrary: ps)
  case (Cons e es)
  then show ?case by (cases "snd e") (simp_all add: enter_all_def enter_def)
qed (simp add: enter_all_def)

lemma put_same: "distinct (map fst ps) \<Longrightarrow> map_of ps k = Some v \<Longrightarrow> put k v ps = ps"
  by (induction ps) (auto split: if_splits)

lemma remove_absent: "map_of ps k = None \<Longrightarrow> remove_key k ps = ps"
  by (force simp: remove_key_def map_of_eq_None_iff filter_id_conv)

lemma enter_same: "distinct (map fst ps) \<Longrightarrow> map_of ps (fst e) = snd e \<Longrightarrow> enter e ps = ps"
  by (auto simp: enter_def put_same remove_absent split: option.splits)

lemma enter_all_same:
  "distinct (map fst ps) \<Longrightarrow> \<forall>e\<in>set es. map_of ps (fst e) = snd e \<Longrightarrow> enter_all es ps = ps"
  by (induction es) (simp_all add: enter_all_def enter_same)

lemma set_enter: "set (enter e ps) \<subseteq> set ps \<union> (case snd e of Some x \<Rightarrow> {(fst e, x)} | None \<Rightarrow> {})"
proof -
  have "set (put k x ps) \<subseteq> set ps \<union> {(k, x)}" for k x by (induction ps) (auto split: if_splits)
  moreover have "set (remove_key k ps) \<subseteq> set ps" for k by (auto simp: remove_key_def)
  ultimately show ?thesis by (auto simp: enter_def split: option.splits)
qed

definition storable_entry :: "(jnum \<Rightarrow> jstring) \<Rightarrow> jstring \<times> jsval option \<Rightarrow> bool" where
  "storable_entry numstr e \<longleftrightarrow> array_index (fst e) = None \<and> (case snd e of Some x \<Rightarrow> storable numstr x | None \<Rightarrow> True)"

lemma storable_enter_all:
  "storable numstr (JObj ps) \<Longrightarrow> list_all (storable_entry numstr) es \<Longrightarrow> storable numstr (JObj (enter_all es ps))"
proof (induction es arbitrary: ps)
  case (Cons e es)
  have "storable numstr (JObj (enter e ps))"
    using Cons.prems set_enter [of e ps] distinct_enter_all [of ps "[e]"]
    by (fastforce simp: list_all_iff storable_entry_def enter_all_def split: option.splits)
  then show ?case using Cons by (simp add: enter_all_def)
qed (simp add: enter_all_def)

section \<open>The interface of saving\<close>

text \<open>
  A part of the form that is written into an object and read from it: the entries it
  writes, and what it shows of an object.  What is read from a saved object makes the same
  entries again.
\<close>

locale saved_part =
  fixes entries :: "'x \<Rightarrow> (jstring \<times> jsval) list \<Rightarrow> (jstring \<times> jsval option) list"
    and shown :: "(jstring \<times> jsval) list \<Rightarrow> 'x"
    and valid :: "'x \<Rightarrow> bool"
  assumes entries_distinct: "distinct (map fst (entries x ps))"
    and entries_again: "valid x \<Longrightarrow> entries (shown (enter_all (entries x ps) ps)) (enter_all (entries x ps) ps) = entries x ps"
begin

abbreviation save :: "'x \<Rightarrow> (jstring \<times> jsval) list \<Rightarrow> (jstring \<times> jsval) list" where
  "save x ps \<equiv> enter_all (entries x ps) ps"

lemma save_frame: "k \<notin> fst ` set (entries x ps) \<Longrightarrow> map_of (save x ps) k = map_of ps k"
  using map_of_eq_None_iff [of "entries x ps" k] by (simp add: map_of_enter_all [OF entries_distinct])

lemma save_entry: "(k, v) \<in> set (entries x ps) \<Longrightarrow> map_of (save x ps) k = v"
  using map_of_is_SomeI [OF entries_distinct] by (simp add: map_of_enter_all [OF entries_distinct])

lemma save_again: "valid x \<Longrightarrow> distinct (map fst ps) \<Longrightarrow> save (shown (save x ps)) (save x ps) = save x ps"
  unfolding entries_again by (rule enter_all_same) (auto simp: distinct_enter_all save_entry)

end

section \<open>The settings of a type as entries\<close>

definition plain_entries :: "int \<Rightarrow> TypeSettings \<Rightarrow> (jstring \<times> jsval option) list" where
  "plain_entries t x =
     [(js ''vertex_key_type'', provided (t = 41) (or_else (f_vertex_key_type x) (JStr (js ''json'')))),
      (js ''azure_responses_version'', provided (t = 3 \<and> truthy (f_azure_responses_version x)) (f_azure_responses_version x)),
      (js ''openrouter_enterprise'', provided (t = 20) (JBool (on (f_is_enterprise_account x)))),
      (js ''aws_key_type'', provided (t = 33) (or_else (f_aws_key_type x) (JStr (js ''ak_sk'')))),
      (js ''allow_service_tier'', provided (t \<in> FIELD_PASSTHROUGH_TYPES) (JBool (on (f_allow_service_tier x)))),
      (js ''disable_store'', provided (t \<in> OPENAI_FIELD_PASSTHROUGH_TYPES) (JBool (on (f_disable_store x)))),
      (js ''allow_safety_identifier'', provided (t \<in> OPENAI_FIELD_PASSTHROUGH_TYPES) (JBool (on (f_allow_safety_identifier x)))),
      (js ''allow_include_obfuscation'', provided (t \<in> OPENAI_FIELD_PASSTHROUGH_TYPES) (JBool (on (f_allow_include_obfuscation x)))),
      (js ''allow_inference_geo'', provided (t \<in> OPENAI_FIELD_PASSTHROUGH_TYPES \<or> t \<in> CLAUDE_FIELD_PASSTHROUGH_TYPES)
         (JBool (on (f_allow_inference_geo x)))),
      (js ''allow_speed'', provided (t \<in> CLAUDE_FIELD_PASSTHROUGH_TYPES) (JBool (on (f_allow_speed x)))),
      (js ''claude_beta_query'', provided (t = 14) (JBool (on (f_claude_beta_query x)))),
      (js ''disable_task_polling_sleep'', Some (JBool (on (f_disable_task_polling_sleep x)))),
      (js ''return_task_id_compat'', provided (t = CHANNEL_TYPE_VOLC_NATIVE \<and> on (f_return_task_id_compat x)) (JBool True)),
      (js ''base64_staging'', provided (t \<in> BASE64_STAGING_CHANNEL_TYPES \<and> on (f_base64_staging_enabled x)) (base64_staging x)),
      (js ''video_content_delivery_mode'', provided (t = CHANNEL_TYPE_DOUBAO_VIDEO)
         (JStr (if f_video_content_delivery_mode x = Some (js ''redirect'') then js ''redirect'' else js ''proxy'')))]"

definition update_entries :: "TypeSettings \<Rightarrow> (jstring \<times> jsval) list \<Rightarrow> (jstring \<times> jsval option) list" where
  "update_entries x ps =
     (let check = on (f_upstream_model_update_check_enabled x);
          detected = fld (JObj ps) ''upstream_model_update_last_detected_models'';
          time = fld (JObj ps) ''upstream_model_update_last_check_time''
      in [(js ''upstream_model_update_check_enabled'', Some (JBool check)),
          (js ''upstream_model_update_auto_sync_enabled'', Some (JBool (check \<and> on (f_upstream_model_update_auto_sync_enabled x)))),
          (js ''upstream_model_update_ignored_models'', Some (model_list (f_upstream_model_update_ignored_models x))),
          (js ''upstream_model_update_last_detected_models'', Some (if is_array detected \<and> check then detected else JArr [])),
          (js ''upstream_model_update_last_check_time'', Some (if is_number time then time else JNum (jint 0)))])"

definition advanced_entry :: "int \<Rightarrow> TypeSettings \<Rightarrow> jstring \<times> jsval option" where
  "advanced_entry t x = (js ''advanced_custom'',
     if t = CHANNEL_TYPE_ADVANCED_CUSTOM
     then (case parseAdvancedCustomConfig (f_advanced_custom x) of ParsedConfig c \<Rightarrow> Some (config_value_of c) | _ \<Rightarrow> None)
     else None)"

definition settings_entries :: "int \<Rightarrow> TypeSettings \<Rightarrow> (jstring \<times> jsval) list \<Rightarrow> (jstring \<times> jsval option) list" where
  "settings_entries t x ps =
     plain_entries t x @ (if t \<in> MODEL_FETCHABLE_TYPES then update_entries x ps else []) @ [advanced_entry t x]"

text \<open>The properties the form owns.\<close>

definition plain_names :: "string list" where
  "plain_names = [''vertex_key_type'', ''azure_responses_version'', ''openrouter_enterprise'', ''aws_key_type'',
     ''allow_service_tier'', ''disable_store'', ''allow_safety_identifier'', ''allow_include_obfuscation'',
     ''allow_inference_geo'', ''allow_speed'', ''claude_beta_query'', ''disable_task_polling_sleep'',
     ''return_task_id_compat'', ''base64_staging'', ''video_content_delivery_mode'']"

definition update_names :: "string list" where
  "update_names = [''upstream_model_update_check_enabled'', ''upstream_model_update_auto_sync_enabled'',
     ''upstream_model_update_ignored_models'', ''upstream_model_update_last_detected_models'',
     ''upstream_model_update_last_check_time'']"

definition owned_keys :: "jstring set" where
  "owned_keys = js ` set (plain_names @ update_names @ [''advanced_custom''])"

lemma js_inject [simp]: "js a = js b \<longleftrightarrow> a = b"
  unfolding js_def by (rule inj_map_eq_map) (auto intro: injI)

lemma js_in_image [simp]: "js k \<in> js ` A \<longleftrightarrow> k \<in> A"
  by auto

lemma entry_keys:
  "map fst (plain_entries t x) = map js plain_names"
  "map fst (update_entries x ps) = map js update_names"
  "fst (advanced_entry t x) = js ''advanced_custom''"
  by (simp_all only: plain_entries_def plain_names_def update_entries_def update_names_def advanced_entry_def Let_def
      list.map fst_conv)

lemma names_distinct: "distinct (plain_names @ update_names @ [''advanced_custom''])"
  by (simp add: plain_names_def update_names_def)

lemma settings_keys: "distinct (map fst (settings_entries t x ps))" "fst ` set (settings_entries t x ps) \<subseteq> owned_keys"
proof -
  have keys: "map fst (settings_entries t x ps) =
      map js (plain_names @ (if t \<in> MODEL_FETCHABLE_TYPES then update_names else []) @ [''advanced_custom''])"
    by (simp add: settings_entries_def entry_keys)
  have "inj_on js A" for A by (simp add: inj_on_def)
  then show "distinct (map fst (settings_entries t x ps))"
    unfolding keys distinct_map using names_distinct by auto
  show "fst ` set (settings_entries t x ps) \<subseteq> owned_keys"
    unfolding list.set_map [symmetric] keys owned_keys_def by auto
qed

lemma getp_of_map: "getp (JObj ps) k = (case map_of ps k of Some x \<Rightarrow> x | None \<Rightarrow> JUndef)"
  by (simp add: getp_def)

lemma plain_distinct: "distinct (map fst (plain_entries t x))"
  using settings_keys(1) [of t x "[]"] by (simp add: settings_entries_def)

lemma put_enter: "put (js k) v ps = enter (js k, Some v) ps"
  by (simp add: enter_def)

lemma own_model_update_entries:
  assumes "distinct (map fst ps)"
  shows "own_model_update x ps = enter_all (update_entries x ps) ps"
proof -
  let ?c = "on (f_upstream_model_update_check_enabled x)"
  let ?q = "put (js ''upstream_model_update_ignored_models'') (model_list (f_upstream_model_update_ignored_models x))
    (put (js ''upstream_model_update_auto_sync_enabled'') (JBool (?c \<and> on (f_upstream_model_update_auto_sync_enabled x)))
      (put (js ''upstream_model_update_check_enabled'') (JBool ?c) ps))"
  let ?dk = "js ''upstream_model_update_last_detected_models''" and ?tk = "js ''upstream_model_update_last_check_time''"
  have q: "distinct (map fst ?q)" "map_of ?q ?dk = map_of ps ?dk" "map_of ?q ?tk = map_of ps ?tk" using assms by simp_all
  have d: "(if \<not> is_array (getp (JObj ?q) ?dk) \<or> \<not> ?c then put ?dk (JArr []) ?q else ?q) =
      put ?dk (if is_array (getp (JObj ps) ?dk) \<and> ?c then getp (JObj ps) ?dk else JArr []) ?q" (is "?r = ?r'")
    using q put_same [OF q(1), of ?dk] by (auto simp: getp_of_map split: option.splits)
  have r: "distinct (map fst ?r')" "map_of ?r' ?tk = map_of ps ?tk" using q by simp_all
  have "(if \<not> is_number (getp (JObj ?r') ?tk) then put ?tk (JNum (jint 0)) ?r' else ?r') =
      put ?tk (if is_number (getp (JObj ps) ?tk) then getp (JObj ps) ?tk else JNum (jint 0)) ?r'"
    using r put_same [OF r(1), of ?tk] by (auto simp: getp_of_map split: option.splits)
  then show ?thesis
    unfolding own_model_update_def Let_def d by (simp add: enter_all_def enter_def update_entries_def Let_def del: is_array_conv is_number_conv)
qed

lemma own_settings_entries:
  assumes "distinct (map fst ps)"
  shows "own_settings t x ps =
    enter_all (plain_entries t x @ (if t \<in> MODEL_FETCHABLE_TYPES then update_entries x ps else [])) ps"
proof -
  let ?q = "enter_all (plain_entries t x) ps"
  have q: "distinct (map fst ?q)" using assms by (rule distinct_enter_all)
  have "fld (JObj ?q) k = fld (JObj ps) k" if "js k \<notin> fst ` set (plain_entries t x)" for k
    using that map_of_enter_all [of "plain_entries t x" ps "js k"] map_of_eq_None_iff [of "plain_entries t x" "js k"] plain_distinct
    by (simp add: getp_of_map)
  then have "fld (JObj ?q) k = fld (JObj ps) k" if "k \<notin> set plain_names" for k
    using that unfolding list.set_map [symmetric] entry_keys by auto
  then have "update_entries x ?q = update_entries x ps"
    by (simp only: update_entries_def Let_def) (simp add: plain_names_def)
  then have "own_model_update x ?q = enter_all (update_entries x ps) ?q" using own_model_update_entries [OF q, of x] by simp
  moreover have "own_settings t x ps = (if t \<in> MODEL_FETCHABLE_TYPES then own_model_update x ?q else ?q)"
    unfolding own_settings_def Let_def own_enter put_enter plain_entries_def enter_all_def fold.simps comp_def id_def ..
  ultimately show ?thesis by (simp add: enter_all_def)
qed

section \<open>What a saved object shows\<close>

definition object_typed :: "(jnum \<Rightarrow> jstring) \<Rightarrow> (jstring \<times> jsval) list \<Rightarrow> TypeSettings" where
  "object_typed numstr ps =
     (case config_of (fld (JObj ps) ''advanced_custom'') of
        Some c \<Rightarrow> if truthy (fld (JObj ps) ''advanced_custom'')
          then (parsed_typed numstr (JObj ps))\<lparr>f_advanced_custom := Some (stringifyAdvancedCustomConfig numstr c)\<rparr>
          else parsed_typed numstr (JObj ps)
      | None \<Rightarrow> parsed_typed numstr (JObj ps))"

text \<open>The form shows an advanced configuration for its type.\<close>

definition valid_typed :: "int \<Rightarrow> TypeSettings \<Rightarrow> bool" where
  "valid_typed t x \<longleftrightarrow> t = CHANNEL_TYPE_ADVANCED_CUSTOM \<longrightarrow> (\<exists>c. parseAdvancedCustomConfig (f_advanced_custom x) = ParsedConfig c)"

lemma or_else_again: "truthy d \<Longrightarrow> or_else (or_else v d) d = or_else v d"
  by (simp add: or_else_def)

lemma truthy_or_else: "truthy d \<Longrightarrow> truthy (or_else v d)"
  by (simp add: or_else_def)

lemma on_is_true [simp]: "on (is_true (JBool b)) \<longleftrightarrow> b" "is_true JUndef = Some False"
  by (simp_all add: is_true_def)

lemma model_list_join:
  assumes "\<forall>m\<in>set us. m \<noteq> [] \<and> trimmed m \<and> u16 (CHR '','') \<notin> set m" "distinct us"
  shows "model_list (Some (join (js '','') us)) = JArr (map JStr us)"
proof (cases "us = []")
  case True
  then show ?thesis by (simp add: model_list_def or_empty_def)
next
  case False
  have "split_on (u16 (CHR '','')) (join (js '','') us) = us"
    using assms(1) False split_on_join [of us "u16 (CHR '','')"] by (simp add: js_eval)
  moreover have "map jtrim us = us" using assms(1) by (intro map_idI) (auto intro: jtrim_trimmed)
  moreover have "filter (\<lambda>m. m \<noteq> []) us = us" using assms(1) by (simp add: filter_id_conv)
  ultimately show ?thesis using assms(2) by (simp add: model_list_def or_empty_def)
qed

lemma model_list_joined: "model_list (joined_models numstr (model_list v)) = model_list v"
proof -
  let ?us = "uniq (filter (\<lambda>m. m \<noteq> []) (map jtrim (split_on (u16 (CHR '','')) (or_empty v))))"
  have "joined_models numstr (model_list v) = Some (join (js '','') ?us)"
    by (simp add: joined_models_def model_list_def array_join_def comp_def)
  moreover have "\<forall>m\<in>set ?us. m \<noteq> [] \<and> trimmed m \<and> u16 (CHR '','') \<notin> set m"
    using split_on_sep set_jtrim by fastforce
  ultimately show ?thesis using model_list_join [of ?us] by (simp only: distinct_uniq model_list_def [of v])
qed

text \<open>The configuration that a text denotes is in normal form.\<close>

lemma parsed_config_normal:
  "parseAdvancedCustomConfig v = ParsedConfig c \<Longrightarrow> normalizeAdvancedCustomConfig c = c"
  by (auto simp: parseAdvancedCustomConfig_def normalize_config_idem split: option.splits if_splits)

lemma advanced_again:
  assumes "valid_typed t x" "map_of qs (js ''advanced_custom'') = snd (advanced_entry t x)"
  shows "advanced_entry t (object_typed numstr qs) = advanced_entry t x"
proof (cases "t = CHANNEL_TYPE_ADVANCED_CUSTOM")
  case True
  then obtain c where c: "parseAdvancedCustomConfig (f_advanced_custom x) = ParsedConfig c"
    using assms(1) by (auto simp: valid_typed_def)
  then have "map_of qs (js ''advanced_custom'') = Some (config_value_of c)" using assms(2) True by (simp add: advanced_entry_def)
  then have "f_advanced_custom (object_typed numstr qs) = Some (stringifyAdvancedCustomConfig numstr c)"
    by (simp add: object_typed_def getp_of_map config_of_value) (simp add: config_value_of_def)
  then show ?thesis using c True by (simp add: advanced_entry_def config_text_read parsed_config_normal)
qed (simp add: advanced_entry_def)

lemma advanced_irrelevant:
  "plain_entries t (x\<lparr>f_advanced_custom := a\<rparr>) = plain_entries t x"
  "update_entries (x\<lparr>f_advanced_custom := a\<rparr>) ps = update_entries x ps"
  by (cases x; simp only: plain_entries_def update_entries_def base64_staging_def Let_def TypeSettings.select_convs TypeSettings.update_convs)+

lemma object_typed_plain:
  "plain_entries t (object_typed numstr qs) = plain_entries t (parsed_typed numstr (JObj qs))"
  "update_entries (object_typed numstr qs) qs = update_entries (parsed_typed numstr (JObj qs)) qs"
  by (simp_all only: object_typed_def advanced_irrelevant if_cancel split: option.splits if_splits) simp_all

lemma entry_cong: "v = v' \<Longrightarrow> es = es' \<Longrightarrow> (k, v) # es = (k, v') # es'"
  by simp

lemma flag_again:
  "map_of qs k = provided b (JBool c) \<Longrightarrow> provided b (JBool (on (is_true (getp (JObj qs) k)))) = provided b (JBool c)"
  by (simp add: getp_of_map)

lemma choice_again:
  "map_of qs k = provided b (or_else v d) \<Longrightarrow> truthy d \<Longrightarrow> provided b (or_else (or_else (getp (JObj qs) k) d) d) = provided b (or_else v d)"
  by (simp add: getp_of_map or_else_again)

lemma azure_again:
  "map_of qs k = provided (b \<and> truthy v) v \<Longrightarrow>
     provided (b \<and> truthy (or_else (getp (JObj qs) k) (JStr []))) (or_else (getp (JObj qs) k) (JStr [])) = provided (b \<and> truthy v) v"
  by (auto simp: getp_of_map or_else_def)

lemma task_again:
  "map_of qs k = provided (b \<and> c) (JBool True) \<Longrightarrow> provided (b \<and> on (is_true (getp (JObj qs) k))) (JBool True) = provided (b \<and> c) (JBool True)"
  by (auto simp: getp_of_map)

lemma staging_again:
  assumes "map_of qs k = provided (b \<and> c) (base64_staging x)" "f_base64_staging_models y = joined_models numstr (fld (getp (JObj qs) k) ''models'')"
  shows "provided (b \<and> on (is_true (fld (getp (JObj qs) k) ''enabled''))) (base64_staging y) = provided (b \<and> c) (base64_staging x)"
  using assms by (auto simp: getp_of_map base64_staging_def model_list_joined)

lemma video_again:
  assumes "map_of qs k = provided b (JStr (if m = Some (js ''redirect'') then js ''redirect'' else js ''proxy''))"
  shows "provided b (JStr (if Some (if getp (JObj qs) k = JStr (js ''proxy'') then js ''proxy'' else js ''redirect'') = Some (js ''redirect'')
    then js ''redirect'' else js ''proxy'')) = provided b (JStr (if m = Some (js ''redirect'') then js ''redirect'' else js ''proxy''))"
  using assms by (simp add: getp_of_map)

lemma plain_again:
  assumes "\<forall>e\<in>set (plain_entries t x). map_of qs (fst e) = snd e"
  shows "plain_entries t (parsed_typed numstr (JObj qs)) = plain_entries t x"
proof -
  note m = assms [unfolded plain_entries_def list.set ball_simps fst_conv snd_conv]
  have json: "truthy (JStr (js ''json''))" "truthy (JStr (js ''ak_sk''))" by (simp_all add: js_eval)
  have sleep: "Some (JBool (on (is_true (getp (JObj qs) (js ''disable_task_polling_sleep''))))) = Some (JBool (on (f_disable_task_polling_sleep x)))"
    using m by (simp only: getp_of_map option.case on_is_true)
  show ?thesis
    unfolding plain_entries_def parsed_typed_def TypeSettings.select_convs
    apply (intro entry_cong refl sleep)
    apply (insert m)
    apply (elim conjE, erule choice_again, rule json)
    apply (elim conjE, erule azure_again)
    apply (elim conjE, erule flag_again)
    apply (elim conjE, erule choice_again, rule json)
    apply (elim conjE, erule flag_again)+
    apply (elim conjE, erule task_again)
    apply (elim conjE, erule staging_again, simp only: TypeSettings.select_convs)
    apply (elim conjE, erule video_again)
    done
qed

lemma update_again:
  assumes "\<forall>e\<in>set (update_entries x ps). map_of qs (fst e) = snd e"
  shows "update_entries (parsed_typed numstr (JObj qs)) qs = update_entries x ps"
proof -
  let ?c = "on (f_upstream_model_update_check_enabled x)"
  note m = assms [unfolded update_entries_def Let_def list.set ball_simps fst_conv snd_conv]
  have ignored: "model_list (joined_models numstr (fld (JObj qs) ''upstream_model_update_ignored_models'')) =
      model_list (f_upstream_model_update_ignored_models x)"
    using m by (simp only: getp_of_map option.case model_list_joined)
  have check: "is_true (fld (JObj qs) ''upstream_model_update_check_enabled'') = Some ?c"
    "is_true (fld (JObj qs) ''upstream_model_update_auto_sync_enabled'') = Some (?c \<and> on (f_upstream_model_update_auto_sync_enabled x))"
    using m by (simp_all only: getp_of_map option.case is_true_def jsval.inject) simp_all
  have detected: "fld (JObj qs) ''upstream_model_update_last_detected_models'' =
      (if is_array (fld (JObj ps) ''upstream_model_update_last_detected_models'') \<and> ?c
       then fld (JObj ps) ''upstream_model_update_last_detected_models'' else JArr [])"
    and time: "fld (JObj qs) ''upstream_model_update_last_check_time'' =
      (if is_number (fld (JObj ps) ''upstream_model_update_last_check_time'')
       then fld (JObj ps) ''upstream_model_update_last_check_time'' else JNum (jint 0))"
    using m by (simp_all only: getp_of_map [of qs] option.case)
  show ?thesis
    unfolding update_entries_def Let_def parsed_typed_def TypeSettings.select_convs ignored check detected time
    by (intro entry_cong refl) simp_all
qed

lemma settings_again:
  assumes "valid_typed t x" "\<forall>e\<in>set (settings_entries t x ps). map_of qs (fst e) = snd e"
  shows "settings_entries t (object_typed numstr qs) qs = settings_entries t x ps"
proof -
  have "\<forall>e\<in>set (plain_entries t x). map_of qs (fst e) = snd e"
    "t \<in> MODEL_FETCHABLE_TYPES \<Longrightarrow> \<forall>e\<in>set (update_entries x ps). map_of qs (fst e) = snd e"
    "map_of qs (fst (advanced_entry t x)) = snd (advanced_entry t x)"
    using assms(2) by (simp_all add: settings_entries_def)
  then show ?thesis
    using plain_again update_again advanced_again [OF assms(1), of qs numstr]
    by (simp add: settings_entries_def object_typed_plain entry_keys)
qed

interpretation typed: saved_part "settings_entries t" "object_typed numstr" "valid_typed t" for t numstr
proof
  show d: "distinct (map fst (settings_entries t x ps))" for t x ps by (rule settings_keys(1))
  have "map_of (enter_all (settings_entries t x ps) ps) (fst e) = snd e" if "e \<in> set (settings_entries t x ps)" for e t x ps
    using map_of_enter_all [OF d, of t x ps ps "fst e"] map_of_is_SomeI [OF d, of "fst e" "snd e" t x ps] that by simp
  then show "valid_typed t x \<Longrightarrow>
      settings_entries t (object_typed numstr (enter_all (settings_entries t x ps) ps)) (enter_all (settings_entries t x ps) ps) =
      settings_entries t x ps" for x ps
    by (intro settings_again) auto
qed

text \<open>The text of the settings is that of the object with the entries.\<close>

lemma build_entries:
  assumes "settings_start (f_settings f) = JObj ps" "distinct (map fst ps)" "valid_typed (f_type f) (f_typed f)"
  shows "buildSettingsJSON numstr f =
    Done (JSON_stringify numstr (JObj (enter_all (settings_entries (f_type f) (f_typed f) ps) ps)))"
proof -
  have "own_advanced t x qs = Done (enter (advanced_entry t x) qs)" if "valid_typed t x" for t x qs
    using that by (auto simp: own_advanced_def advanced_entry_def enter_def valid_typed_def)
  then show ?thesis using assms own_settings_entries [OF assms(2)]
    by (simp add: buildSettingsJSON_def settings_entries_def enter_all_def)
qed

text \<open>The object can be printed and parsed.\<close>

definition storable_typed :: "(jnum \<Rightarrow> jstring) \<Rightarrow> TypeSettings \<Rightarrow> bool" where
  "storable_typed numstr x \<longleftrightarrow> storable numstr (f_vertex_key_type x) \<and> storable numstr (f_azure_responses_version x) \<and>
     storable numstr (f_aws_key_type x)"

lemma printable_storable: "printable v \<Longrightarrow> storable numstr v"
  by (induction v) (auto simp: list_all_iff)

lemma storable_or_else: "storable numstr v \<or> v = JUndef \<Longrightarrow> storable numstr d \<Longrightarrow> storable numstr (or_else v d)"
  by (auto simp: or_else_def)

lemma storable_model_list: "storable numstr (model_list v)"
  by (simp add: model_list_def list_all_iff)

lemma names_no_index: "list_all (\<lambda>k. array_index (js k) = None) (plain_names @ update_names @ [''advanced_custom''])"
  by (simp add: plain_names_def update_names_def array_index_name is_digit_u16)

lemma storable_member: "storable numstr (JObj ps) \<Longrightarrow> map_of ps k = Some v \<Longrightarrow> storable numstr v"
  by (auto simp: list_all_iff dest: map_of_SomeD)

lemma storable_provided:
  "provided b y = Some v \<Longrightarrow> storable numstr y \<Longrightarrow> storable numstr v"
  "Some y = Some v \<Longrightarrow> storable numstr y \<Longrightarrow> storable numstr v"
  by (auto split: if_splits)

lemma storable_values:
  assumes "storable_typed numstr x" "storable numstr (JObj ps)" "number_text numstr (jint 0)"
  shows "\<forall>e\<in>set (settings_entries t x ps). \<forall>v. snd e = Some v \<longrightarrow> storable numstr v"
proof -
  have vals: "storable numstr (base64_staging x)" "storable numstr (or_else (f_vertex_key_type x) (JStr (js ''json'')))"
    "storable numstr (f_azure_responses_version x)" "storable numstr (or_else (f_aws_key_type x) (JStr (js ''ak_sk'')))"
    using assms(1) by (simp_all add: storable_typed_def storable_or_else base64_staging_def storable_model_list array_index_name is_digit_u16)
  have "\<forall>e\<in>set (plain_entries t x). \<forall>v. snd e = Some v \<longrightarrow> storable numstr v"
    unfolding plain_entries_def list.set ball_simps snd_conv
    by (intro conjI allI impI TrueI; erule storable_provided) (simp_all only: vals storable.simps)
  moreover have "storable numstr (fld (JObj ps) k)" if "fld (JObj ps) k \<noteq> JUndef" for k
    using that storable_member [OF assms(2)] by (auto simp: getp_of_map split: option.splits)
  then have "is_array (fld (JObj ps) k) \<or> is_number (fld (JObj ps) k) \<Longrightarrow> storable numstr (fld (JObj ps) k)" for k
    by (metis is_array.simps is_number.simps jsval.distinct(1))
  then have kept: "storable numstr (if is_array (fld (JObj ps) k) \<and> b then fld (JObj ps) k else JArr [])"
    "storable numstr (if is_number (fld (JObj ps) k) then fld (JObj ps) k else JNum (jint 0))" for k b
    using assms(3) by (simp_all del: is_array_conv is_number_conv)
  have "\<forall>e\<in>set (update_entries x ps). \<forall>v. snd e = Some v \<longrightarrow> storable numstr v"
    unfolding update_entries_def Let_def list.set ball_simps snd_conv
    by (intro conjI allI impI TrueI; erule storable_provided) (simp_all only: kept storable_model_list storable.simps)
  moreover have "snd (advanced_entry t x) = Some v \<Longrightarrow> storable numstr v" for v
    using printable_storable [OF printable_config] by (auto simp: advanced_entry_def split: if_splits parsed_config.splits)
  ultimately show ?thesis by (auto simp: settings_entries_def)
qed

section \<open>Saving and showing\<close>

text \<open>
  What the form shows after saving: each setting for the types that have it, and its default
  for the others.  The settings of the model update are left as they are when the models of
  the type cannot be fetched.
\<close>

definition saved_typed :: "(jnum \<Rightarrow> jstring) \<Rightarrow> int \<Rightarrow> TypeSettings \<Rightarrow> (jstring \<times> jsval) list \<Rightarrow> TypeSettings" where
  "saved_typed numstr t x ps =
     \<lparr>f_is_enterprise_account = Some (t = 20 \<and> on (f_is_enterprise_account x)),
      f_vertex_key_type = (if t = 41 then or_else (f_vertex_key_type x) (JStr (js ''json'')) else JStr (js ''json'')),
      f_azure_responses_version =
        (if t = 3 \<and> truthy (f_azure_responses_version x) then f_azure_responses_version x else JStr []),
      f_aws_key_type = (if t = 33 then or_else (f_aws_key_type x) (JStr (js ''ak_sk'')) else JStr (js ''ak_sk'')),
      f_allow_service_tier = Some (t \<in> FIELD_PASSTHROUGH_TYPES \<and> on (f_allow_service_tier x)),
      f_disable_store = Some (t \<in> OPENAI_FIELD_PASSTHROUGH_TYPES \<and> on (f_disable_store x)),
      f_allow_safety_identifier = Some (t \<in> OPENAI_FIELD_PASSTHROUGH_TYPES \<and> on (f_allow_safety_identifier x)),
      f_allow_include_obfuscation = Some (t \<in> OPENAI_FIELD_PASSTHROUGH_TYPES \<and> on (f_allow_include_obfuscation x)),
      f_allow_inference_geo =
        Some ((t \<in> OPENAI_FIELD_PASSTHROUGH_TYPES \<or> t \<in> CLAUDE_FIELD_PASSTHROUGH_TYPES) \<and> on (f_allow_inference_geo x)),
      f_allow_speed = Some (t \<in> CLAUDE_FIELD_PASSTHROUGH_TYPES \<and> on (f_allow_speed x)),
      f_claude_beta_query = Some (t = 14 \<and> on (f_claude_beta_query x)),
      f_disable_task_polling_sleep = Some (on (f_disable_task_polling_sleep x)),
      f_return_task_id_compat = Some (t = CHANNEL_TYPE_VOLC_NATIVE \<and> on (f_return_task_id_compat x)),
      f_base64_staging_enabled = Some (t \<in> BASE64_STAGING_CHANNEL_TYPES \<and> on (f_base64_staging_enabled x)),
      f_base64_staging_models =
        (if t \<in> BASE64_STAGING_CHANNEL_TYPES \<and> on (f_base64_staging_enabled x)
         then joined_models numstr (model_list (f_base64_staging_models x)) else Some []),
      f_video_content_delivery_mode =
        Some (if t = CHANNEL_TYPE_DOUBAO_VIDEO \<and> f_video_content_delivery_mode x \<noteq> Some (js ''redirect'')
              then js ''proxy'' else js ''redirect''),
      f_upstream_model_update_check_enabled =
        (if t \<in> MODEL_FETCHABLE_TYPES then Some (on (f_upstream_model_update_check_enabled x))
         else is_true (fld (JObj ps) ''upstream_model_update_check_enabled'')),
      f_upstream_model_update_auto_sync_enabled =
        (if t \<in> MODEL_FETCHABLE_TYPES
         then Some (on (f_upstream_model_update_check_enabled x) \<and> on (f_upstream_model_update_auto_sync_enabled x))
         else is_true (fld (JObj ps) ''upstream_model_update_auto_sync_enabled'')),
      f_upstream_model_update_ignored_models =
        joined_models numstr (if t \<in> MODEL_FETCHABLE_TYPES then model_list (f_upstream_model_update_ignored_models x)
          else fld (JObj ps) ''upstream_model_update_ignored_models''),
      f_advanced_custom =
        (if t = CHANNEL_TYPE_ADVANCED_CUSTOM
         then (case parseAdvancedCustomConfig (f_advanced_custom x) of
                 ParsedConfig c \<Rightarrow> Some (stringifyAdvancedCustomConfig numstr c) | _ \<Rightarrow> Some [])
         else Some [])\<rparr>"

lemma flag_shown: "map_of qs k = provided b (JBool c) \<Longrightarrow> is_true (getp (JObj qs) k) = Some (b \<and> c)"
  by (simp add: getp_of_map is_true_def)

lemma choice_shown:
  "map_of qs k = provided b (or_else v d) \<Longrightarrow> truthy d \<Longrightarrow> or_else (getp (JObj qs) k) d = (if b then or_else v d else d)"
  by (simp add: getp_of_map or_else_def)

lemma azure_shown:
  "map_of qs k = provided (b \<and> truthy v) v \<Longrightarrow> or_else (getp (JObj qs) k) (JStr []) = (if b \<and> truthy v then v else JStr [])"
  by (simp add: getp_of_map or_else_def)

lemma staging_shown:
  assumes "map_of qs k = provided b (base64_staging x)"
  shows "is_true (fld (getp (JObj qs) k) ''enabled'') = Some b"
    "joined_models numstr (fld (getp (JObj qs) k) ''models'') = (if b then joined_models numstr (model_list (f_base64_staging_models x)) else Some [])"
  using assms by (simp_all add: getp_of_map base64_staging_def is_true_def joined_models_def)

lemma video_shown:
  assumes "map_of qs k = provided b (JStr (if m = Some (js ''redirect'') then js ''redirect'' else js ''proxy''))"
  shows "Some (if getp (JObj qs) k = JStr (js ''proxy'') then js ''proxy'' else js ''redirect'') =
    Some (if b \<and> m \<noteq> Some (js ''redirect'') then js ''proxy'' else js ''redirect'')"
  using assms by (simp add: getp_of_map)

lemma sleep_shown: "map_of qs k = Some (JBool c) \<Longrightarrow> is_true (getp (JObj qs) k) = Some c"
  by (simp add: getp_of_map is_true_def)

lemma plain_shown:
  fixes numstr t x qs ps
  assumes "\<forall>e\<in>set (plain_entries t x). map_of qs (fst e) = snd e"
  defines "y \<equiv> parsed_typed numstr (JObj qs)" and "z \<equiv> saved_typed numstr t x ps"
  shows "f_is_enterprise_account y = f_is_enterprise_account z" "f_vertex_key_type y = f_vertex_key_type z"
    "f_azure_responses_version y = f_azure_responses_version z" "f_aws_key_type y = f_aws_key_type z"
    "f_allow_service_tier y = f_allow_service_tier z" "f_disable_store y = f_disable_store z"
    "f_allow_safety_identifier y = f_allow_safety_identifier z" "f_allow_include_obfuscation y = f_allow_include_obfuscation z"
    "f_allow_inference_geo y = f_allow_inference_geo z" "f_allow_speed y = f_allow_speed z"
    "f_claude_beta_query y = f_claude_beta_query z" "f_disable_task_polling_sleep y = f_disable_task_polling_sleep z"
    "f_return_task_id_compat y = f_return_task_id_compat z" "f_base64_staging_enabled y = f_base64_staging_enabled z"
    "f_base64_staging_models y = f_base64_staging_models z" "f_video_content_delivery_mode y = f_video_content_delivery_mode z"
proof -
  note m = assms(1) [unfolded plain_entries_def list.set ball_simps fst_conv snd_conv]
  have json: "truthy (JStr (js ''json''))" "truthy (JStr (js ''ak_sk''))" by (simp_all add: js_eval)
  have task: "map_of qs k = provided (b \<and> c) (JBool True) \<Longrightarrow> is_true (getp (JObj qs) k) = Some (b \<and> c)" for b c k
    by (simp add: flag_shown)
  note sels = y_def z_def parsed_typed_def saved_typed_def TypeSettings.select_convs
  show "f_is_enterprise_account y = f_is_enterprise_account z" "f_allow_service_tier y = f_allow_service_tier z"
    "f_disable_store y = f_disable_store z" "f_allow_safety_identifier y = f_allow_safety_identifier z"
    "f_allow_include_obfuscation y = f_allow_include_obfuscation z" "f_allow_inference_geo y = f_allow_inference_geo z"
    "f_allow_speed y = f_allow_speed z" "f_claude_beta_query y = f_claude_beta_query z"
    unfolding sels by (insert m, (elim conjE, erule flag_shown)+)
  show "f_vertex_key_type y = f_vertex_key_type z" "f_aws_key_type y = f_aws_key_type z"
    unfolding sels by (insert m, (elim conjE, erule choice_shown, rule json)+)
  show "f_azure_responses_version y = f_azure_responses_version z" unfolding sels by (insert m, elim conjE, erule azure_shown)
  show "f_disable_task_polling_sleep y = f_disable_task_polling_sleep z" unfolding sels by (insert m, elim conjE, erule sleep_shown)
  show "f_return_task_id_compat y = f_return_task_id_compat z" unfolding sels by (insert m, elim conjE, erule task)
  show "f_base64_staging_enabled y = f_base64_staging_enabled z" "f_base64_staging_models y = f_base64_staging_models z"
    unfolding sels by (insert m, (elim conjE, erule staging_shown)+)
  show "f_video_content_delivery_mode y = f_video_content_delivery_mode z" unfolding sels by (insert m, elim conjE, erule video_shown)
qed

lemma update_shown:
  assumes "\<forall>e\<in>set (update_entries x ps). map_of qs (fst e) = snd e"
  shows "is_true (fld (JObj qs) ''upstream_model_update_check_enabled'') = Some (on (f_upstream_model_update_check_enabled x))"
    "is_true (fld (JObj qs) ''upstream_model_update_auto_sync_enabled'') =
       Some (on (f_upstream_model_update_check_enabled x) \<and> on (f_upstream_model_update_auto_sync_enabled x))"
    "fld (JObj qs) ''upstream_model_update_ignored_models'' = model_list (f_upstream_model_update_ignored_models x)"
proof -
  note m = assms [unfolded update_entries_def Let_def list.set ball_simps fst_conv snd_conv]
  show "is_true (fld (JObj qs) ''upstream_model_update_check_enabled'') = Some (on (f_upstream_model_update_check_enabled x))"
    "is_true (fld (JObj qs) ''upstream_model_update_auto_sync_enabled'') =
       Some (on (f_upstream_model_update_check_enabled x) \<and> on (f_upstream_model_update_auto_sync_enabled x))"
    by (insert m, (elim conjE, erule sleep_shown)+)
  show "fld (JObj qs) ''upstream_model_update_ignored_models'' = model_list (f_upstream_model_update_ignored_models x)"
    using m by (simp only: getp_of_map option.case)
qed

lemma advanced_shown:
  assumes "map_of qs (js ''advanced_custom'') = snd (advanced_entry t x)"
  shows "object_typed numstr qs = (parsed_typed numstr (JObj qs))\<lparr>f_advanced_custom := f_advanced_custom (saved_typed numstr t x ps)\<rparr>"
proof (cases "snd (advanced_entry t x)")
  case None
  then have "f_advanced_custom (saved_typed numstr t x ps) = Some []"
    unfolding saved_typed_def TypeSettings.select_convs advanced_entry_def snd_conv by (simp split: parsed_config.splits if_splits)
  moreover have "object_typed numstr qs = parsed_typed numstr (JObj qs)"
    using None assms by (simp add: object_typed_def getp_of_map split: option.splits)
  ultimately show ?thesis by (simp only: parsed_typed_def TypeSettings.update_convs)
next
  case (Some v)
  then obtain c where c: "t = CHANNEL_TYPE_ADVANCED_CUSTOM" "parseAdvancedCustomConfig (f_advanced_custom x) = ParsedConfig c" "v = config_value_of c"
    by (auto simp: advanced_entry_def split: if_splits parsed_config.splits)
  then have "f_advanced_custom (saved_typed numstr t x ps) = Some (stringifyAdvancedCustomConfig numstr c)"
    unfolding saved_typed_def TypeSettings.select_convs by simp
  moreover have "truthy v" unfolding c by (simp add: config_value_of_def)
  ultimately show ?thesis using Some assms c(3) by (simp add: object_typed_def getp_of_map config_of_value)
qed

lemma typed_eqI:
  fixes y z :: TypeSettings
  assumes "f_is_enterprise_account y = f_is_enterprise_account z" "f_vertex_key_type y = f_vertex_key_type z"
    "f_azure_responses_version y = f_azure_responses_version z" "f_aws_key_type y = f_aws_key_type z"
    "f_allow_service_tier y = f_allow_service_tier z" "f_disable_store y = f_disable_store z"
    "f_allow_safety_identifier y = f_allow_safety_identifier z" "f_allow_include_obfuscation y = f_allow_include_obfuscation z"
    "f_allow_inference_geo y = f_allow_inference_geo z" "f_allow_speed y = f_allow_speed z"
    "f_claude_beta_query y = f_claude_beta_query z" "f_disable_task_polling_sleep y = f_disable_task_polling_sleep z"
    "f_return_task_id_compat y = f_return_task_id_compat z" "f_base64_staging_enabled y = f_base64_staging_enabled z"
    "f_base64_staging_models y = f_base64_staging_models z" "f_video_content_delivery_mode y = f_video_content_delivery_mode z"
    "f_upstream_model_update_check_enabled y = f_upstream_model_update_check_enabled z" "f_upstream_model_update_auto_sync_enabled y = f_upstream_model_update_auto_sync_enabled z"
    "f_upstream_model_update_ignored_models y = f_upstream_model_update_ignored_models z"
  shows "y\<lparr>f_advanced_custom := f_advanced_custom z\<rparr> = z"
  using assms by (cases y; cases z) simp

lemma saved_shown:
  "object_typed numstr (enter_all (settings_entries t x ps) ps) = saved_typed numstr t x ps"
proof -
  let ?qs = "enter_all (settings_entries t x ps) ps"
  have m: "\<forall>e\<in>set (settings_entries t x ps). map_of ?qs (fst e) = snd e"
    using typed.save_entry [where t = t and x = x and ps = ps] by force
  have p: "\<forall>e\<in>set (plain_entries t x). map_of ?qs (fst e) = snd e" using m by (simp add: settings_entries_def)
  have a: "map_of ?qs (js ''advanced_custom'') = snd (advanced_entry t x)"
    using m entry_keys(3) [of t x] by (simp add: settings_entries_def)
  have u: "\<forall>e\<in>set (update_entries x ps). map_of ?qs (fst e) = snd e" if "t \<in> MODEL_FETCHABLE_TYPES"
    using m that by (simp add: settings_entries_def)
  have frame: "fld (JObj ?qs) k = fld (JObj ps) k" if "t \<notin> MODEL_FETCHABLE_TYPES" "k \<in> set update_names" for k
  proof -
    have "js k \<notin> fst ` set (settings_entries t x ps)"
      using that names_distinct entry_keys(1,3) [of t x] unfolding list.set_map [symmetric] by (auto simp: settings_entries_def)
    then show ?thesis using typed.save_frame [where t = t and x = x and ps = ps] by (simp add: getp_of_map)
  qed
  have "f_upstream_model_update_check_enabled (parsed_typed numstr (JObj ?qs)) = f_upstream_model_update_check_enabled (saved_typed numstr t x ps)"
    "f_upstream_model_update_auto_sync_enabled (parsed_typed numstr (JObj ?qs)) = f_upstream_model_update_auto_sync_enabled (saved_typed numstr t x ps)"
    "f_upstream_model_update_ignored_models (parsed_typed numstr (JObj ?qs)) = f_upstream_model_update_ignored_models (saved_typed numstr t x ps)"
    unfolding parsed_typed_def saved_typed_def TypeSettings.select_convs
    by (cases "t \<in> MODEL_FETCHABLE_TYPES"; simp only: if_True if_False simp_thms update_shown [OF u] frame update_names_def list.set insert_iff)+
  then show ?thesis
    unfolding advanced_shown [OF a, of numstr ps] by (intro typed_eqI plain_shown [OF p])
qed

end
