(* ===== verification/Channel_Saving.thy ===== *)
theory Channel_Saving
  imports Channel_Settings
begin

text \<open>
  Saving a channel: the texts and the payloads the form sends, what the form shows when the
  saved channel is opened, and what an update leaves alone.
\<close>

section \<open>The settings of a type\<close>

lemma entries_storable:
  assumes "storable_typed numstr x" "storable numstr (JObj ps)" "number_text numstr (jint 0)"
  shows "list_all (storable_entry numstr) (settings_entries t x ps)"
proof -
  have "array_index k = None" if "k \<in> owned_keys" for k
    using that names_no_index by (auto simp: owned_keys_def list_all_iff)
  moreover have "fst e \<in> owned_keys" if "e \<in> set (settings_entries t x ps)" for e
    using that settings_keys(2) [of t x ps] by auto
  ultimately show ?thesis
    using storable_values [OF assms, of t] by (auto simp: list_all_iff storable_entry_def split: option.splits)
qed

lemma parse_empty_object: "JSON_parse (js ''{}'') = Some (JObj [])"
  by code_simp

lemma parse_nonempty: "JSON_parse s = Some v \<Longrightarrow> s \<noteq> []"
proof
  assume "JSON_parse s = Some v" "s = []"
  moreover have "JSON_parse [] = None" by code_simp
  ultimately show False by simp
qed

lemma object_text_start: "JSON_parse s = Some (JObj qs) \<Longrightarrow> settings_start (Some s) = JObj qs"
  using parse_empty_object parse_nonempty [of s] by (auto simp: settings_start_def or_empty_def)

lemma advanced_value_configured:
  "map_of qs (js ''advanced_custom'') = snd (advanced_entry t x) \<Longrightarrow>
     \<not> truthy (fld (JObj qs) ''advanced_custom'') \<or> (\<exists>c. config_of (fld (JObj qs) ''advanced_custom'') = Some c)"
  by (auto simp: getp_of_map advanced_entry_def config_of_value split: if_splits parsed_config.splits)

lemma object_text_typed:
  assumes "JSON_parse s = Some (JObj qs)" "map_of qs (js ''advanced_custom'') = snd (advanced_entry t x)"
  shows "typeSettings numstr s = Done (object_typed numstr qs)"
  using parse_nonempty [OF assms(1)] advanced_value_configured [OF assms(2)] assms(1)
  by (auto simp: typeSettings_def object_typed_def split: option.splits)

lemma valid_saved: "valid_typed t x \<Longrightarrow> valid_typed t (saved_typed numstr t x ps)"
  by (auto simp: valid_typed_def saved_typed_def config_text_read)

text \<open>Everything about one saved text.\<close>

lemma saved_text:
  assumes "settings_start (f_settings f) = JObj ps" "storable numstr (JObj ps)" "storable_typed numstr (f_typed f)"
    and "valid_typed (f_type f) (f_typed f)" "number_text numstr (jint 0)"
  defines "qs \<equiv> enter_all (settings_entries (f_type f) (f_typed f) ps) ps"
  shows "buildSettingsJSON numstr f = Done (JSON_stringify numstr (JObj qs))"
    "JSON_parse (JSON_stringify numstr (JObj qs)) = Some (JObj qs)"
    "typeSettings numstr (JSON_stringify numstr (JObj qs)) = Done (saved_typed numstr (f_type f) (f_typed f) ps)"
    "\<And>k. k \<notin> owned_keys \<Longrightarrow> map_of qs k = map_of ps k"
    "f_type g = f_type f \<Longrightarrow> f_settings g = Some (JSON_stringify numstr (JObj qs)) \<Longrightarrow>
       f_typed g = saved_typed numstr (f_type f) (f_typed f) ps \<Longrightarrow> buildSettingsJSON numstr g = Done (JSON_stringify numstr (JObj qs))"
proof -
  have d: "distinct (map fst ps)" using assms(2) by simp
  have q: "distinct (map fst qs)" unfolding qs_def by (rule distinct_enter_all [OF d])
  show "buildSettingsJSON numstr f = Done (JSON_stringify numstr (JObj qs))"
    unfolding qs_def by (rule build_entries [OF assms(1) d assms(4)])
  show p: "JSON_parse (JSON_stringify numstr (JObj qs)) = Some (JObj qs)"
    unfolding qs_def by (intro JSON_parse_stringified storable_enter_all entries_storable assms)
  have "map_of qs (js ''advanced_custom'') = snd (advanced_entry (f_type f) (f_typed f))"
    unfolding qs_def by (rule typed.save_entry) (simp add: settings_entries_def advanced_entry_def)
  from object_text_typed [OF p this]
  show "typeSettings numstr (JSON_stringify numstr (JObj qs)) = Done (saved_typed numstr (f_type f) (f_typed f) ps)"
    by (simp only: qs_def saved_shown)
  show "map_of qs k = map_of ps k" if "k \<notin> owned_keys" for k
    using that settings_keys(2) [of "f_type f" "f_typed f" ps] unfolding qs_def by (intro typed.save_frame) auto
  assume g: "f_type g = f_type f" "f_settings g = Some (JSON_stringify numstr (JObj qs))"
    "f_typed g = saved_typed numstr (f_type f) (f_typed f) ps"
  have "buildSettingsJSON numstr g =
      Done (JSON_stringify numstr (JObj (enter_all (settings_entries (f_type g) (f_typed g) qs) qs)))"
    using g valid_saved [OF assms(4)] by (intro build_entries q) (simp_all only: object_text_start [OF p])
  also have "enter_all (settings_entries (f_type g) (f_typed g) qs) qs = qs"
    using typed.save_again [OF assms(4) d, of numstr] unfolding g qs_def saved_shown .
  finally show "buildSettingsJSON numstr g = Done (JSON_stringify numstr (JObj qs))" .
qed

text \<open>
  C34.  Saving a channel and opening it again: the text of settings is built, it is read as the
  settings of the form restricted to the type of the channel, properties the form does not
  own keep their values, and saving what the opened form shows gives the same text.
\<close>

theorem settings_roundtrip:
  assumes "settings_start (f_settings f) = JObj ps" "storable numstr (JObj ps)" "storable_typed numstr (f_typed f)"
    and "valid_typed (f_type f) (f_typed f)" "number_text numstr (jint 0)"
  shows "\<exists>s qs. buildSettingsJSON numstr f = Done s \<and> JSON_parse s = Some (JObj qs) \<and>
    (\<forall>k. k \<in> owned_keys \<or> map_of qs k = map_of ps k) \<and>
    (\<forall>c. \<exists>g. transformChannelToFormDefaults numstr (c\<lparr>c_type := f_type f, c_settings := s\<rparr>) = Done g \<and>
       f_typed g = saved_typed numstr (f_type f) (f_typed f) ps \<and> buildSettingsJSON numstr g = Done s)"
proof -
  let ?qs = "enter_all (settings_entries (f_type f) (f_typed f) ps) ps"
  let ?s = "JSON_stringify numstr (JObj ?qs)"
  note saved = saved_text [OF assms]
  have "\<exists>g. transformChannelToFormDefaults numstr (c\<lparr>c_type := f_type f, c_settings := ?s\<rparr>) = Done g \<and>
      f_typed g = saved_typed numstr (f_type f) (f_typed f) ps \<and> buildSettingsJSON numstr g = Done ?s" for c
  proof -
    let ?c = "c\<lparr>c_type := f_type f, c_settings := ?s\<rparr>"
    let ?g = "channel_values numstr ?c (saved_typed numstr (f_type f) (f_typed f) ps)"
    have "transformChannelToFormDefaults numstr ?c = Done ?g"
      by (simp add: transformChannelToFormDefaults_def saved(3) del: JSON_stringify.simps)
    moreover have "f_type ?g = f_type f" "f_settings ?g = Some ?s" "f_typed ?g = saved_typed numstr (f_type f) (f_typed f) ps"
      using parse_nonempty [OF saved(2)] by (simp_all add: channel_values_def del: JSON_stringify.simps)
    ultimately show ?thesis using saved(5) by blast
  qed
  with saved(1,2,4) show ?thesis by blast
qed

section \<open>The extra settings\<close>

text \<open>What the form shows after saving the extra settings.\<close>

definition protocol_of :: "(jnum \<Rightarrow> jstring) \<Rightarrow> ExtraSettings \<Rightarrow> jstring" where
  "protocol_of numstr x = normalizeHttpProtocol numstr (case f_http_protocol x of None \<Rightarrow> JUndef | Some p \<Rightarrow> JStr p)"

definition shards_of :: "(jnum \<Rightarrow> jstring) \<Rightarrow> ExtraSettings \<Rightarrow> jsval" where
  "shards_of numstr x =
     (let shards = normalizeHttp2ConnectionShards (f_http2_connection_shards x) in
      if protocol_of numstr x \<noteq> HTTP_PROTOCOL_HTTP1 \<and> jlt (jint 1) (to_number shards) then shards else JNum (jint 1))"

definition saved_extra :: "(jnum \<Rightarrow> jstring) \<Rightarrow> ExtraSettings \<Rightarrow> ExtraSettings" where
  "saved_extra numstr x =
     \<lparr>f_force_format = or_else (f_force_format x) (JBool False),
      f_thinking_to_content = or_else (f_thinking_to_content x) (JBool False),
      f_proxy = JStr (or_empty (trimmed_text (f_proxy x))),
      f_http_protocol = Some (protocol_of numstr x),
      f_http2_connection_shards = shards_of numstr x,
      f_pass_through_body_enabled = or_else (f_pass_through_body_enabled x) (JBool False),
      f_moonshot_facade_mode =
        Some (if f_moonshot_facade_mode x = Some MOONSHOT_FACADE_MODE_KIMI_PASSTHROUGH
              then MOONSHOT_FACADE_MODE_KIMI_PASSTHROUGH else MOONSHOT_FACADE_MODE_EMULATE),
      f_system_prompt = or_else (f_system_prompt x) (JStr []),
      f_system_prompt_override = or_else (f_system_prompt_override x) (JBool False)\<rparr>"

definition storable_extra :: "(jnum \<Rightarrow> jstring) \<Rightarrow> ExtraSettings \<Rightarrow> bool" where
  "storable_extra numstr x \<longleftrightarrow> list_all (\<lambda>v. v = JUndef \<or> storable numstr v)
     [f_force_format x, f_thinking_to_content x, f_http2_connection_shards x, f_pass_through_body_enabled x,
      f_system_prompt x, f_system_prompt_override x] \<and> trimmed_text (f_proxy x) \<noteq> None"

lemma or_else_twice [simp]: "or_else (or_else v d) d = or_else v d"
  by (simp add: or_else_def)

lemma protocol_values [simp]:
  "normalizeHttpProtocol numstr (JStr HTTP_PROTOCOL_HTTP1) = HTTP_PROTOCOL_HTTP1"
  "normalizeHttpProtocol numstr (JStr HTTP_PROTOCOL_AUTO) = HTTP_PROTOCOL_AUTO"
  "normalizeHttpProtocol numstr JUndef = HTTP_PROTOCOL_AUTO"
  "HTTP_PROTOCOL_AUTO \<noteq> HTTP_PROTOCOL_HTTP1"
  by (simp_all add: normalizeHttpProtocol_def or_else_def HTTP_PROTOCOL_HTTP1_def HTTP_PROTOCOL_AUTO_def jtrim_trimmed trimmed_def
      lower_ascii_def js_eval is_ws_u16 unat_u16)

lemma protocol_of_cases: "protocol_of numstr x = HTTP_PROTOCOL_HTTP1 \<or> protocol_of numstr x = HTTP_PROTOCOL_AUTO"
  by (simp add: protocol_of_def normalizeHttpProtocol_def Let_def)

lemma shards_values [simp]:
  "normalizeHttp2ConnectionShards JUndef = JNum (jint 1)" "normalizeHttp2ConnectionShards (JNum (jint 1)) = JNum (jint 1)"
  by (simp_all add: normalizeHttp2ConnectionShards_def MAX_HTTP2_CONNECTION_SHARDS_def)

lemma shards_again: "normalizeHttp2ConnectionShards (normalizeHttp2ConnectionShards v) = normalizeHttp2ConnectionShards v"
  by (simp add: normalizeHttp2ConnectionShards_def MAX_HTTP2_CONNECTION_SHARDS_def jint_def)

lemma facade_distinct [simp]: "MOONSHOT_FACADE_MODE_EMULATE \<noteq> MOONSHOT_FACADE_MODE_KIMI_PASSTHROUGH"
  by (simp add: MOONSHOT_FACADE_MODE_EMULATE_def MOONSHOT_FACADE_MODE_KIMI_PASSTHROUGH_def)

lemma shards_bounds:
  "jle (jint 1) (to_number (shards_of numstr x)) \<and> jle (to_number (shards_of numstr x)) (jint MAX_HTTP2_CONNECTION_SHARDS)"
proof -
  have "jle (jint 1) (to_number w) \<and> jle (to_number w) (jint MAX_HTTP2_CONNECTION_SHARDS)"
    if "w = normalizeHttp2ConnectionShards v" "jlt (jint 1) (to_number w)" for v w
    using that by (cases "to_number w") (auto simp: normalizeHttp2ConnectionShards_def MAX_HTTP2_CONNECTION_SHARDS_def jint_def jle_def split: if_splits)
  then show ?thesis by (simp add: shards_of_def Let_def MAX_HTTP2_CONNECTION_SHARDS_def)
qed

lemma extra_object_entries:
  "extra_object numstr x proxy =
     [(js ''force_format'', or_else (f_force_format x) (JBool False)),
      (js ''thinking_to_content'', or_else (f_thinking_to_content x) (JBool False)),
      (js ''proxy'', JStr proxy),
      (js ''pass_through_body_enabled'', or_else (f_pass_through_body_enabled x) (JBool False)),
      (js ''system_prompt'', or_else (f_system_prompt x) (JStr [])),
      (js ''system_prompt_override'', or_else (f_system_prompt_override x) (JBool False))] @
     (if protocol_of numstr x = HTTP_PROTOCOL_HTTP1 then [(js ''http_protocol'', JStr HTTP_PROTOCOL_HTTP1)] else []) @
     (if jlt (jint 1) (to_number (shards_of numstr x)) then [(js ''http2_connection_shards'', shards_of numstr x)] else []) @
     (if f_moonshot_facade_mode x = Some MOONSHOT_FACADE_MODE_KIMI_PASSTHROUGH
      then [(js ''moonshot_facade_mode'', JStr MOONSHOT_FACADE_MODE_KIMI_PASSTHROUGH)] else [])"
  unfolding extra_object_def protocol_of_def [symmetric] Let_def
  by (cases "protocol_of numstr x = HTTP_PROTOCOL_HTTP1") (simp_all add: shards_of_def Let_def)

lemma storable_shards:
  "v = JUndef \<or> storable numstr v \<Longrightarrow> number_text numstr (jint 1) \<Longrightarrow> number_text numstr (jint 8) \<Longrightarrow>
     storable numstr (normalizeHttp2ConnectionShards v)"
  by (auto simp: normalizeHttp2ConnectionShards_def MAX_HTTP2_CONNECTION_SHARDS_def)

lemma storable_extra_object:
  assumes "storable_extra numstr x" "number_text numstr (jint 1)" "number_text numstr (jint 8)"
  shows "storable numstr (JObj (extra_object numstr x proxy))"
proof -
  have "storable numstr (shards_of numstr x)"
    using assms storable_shards [of "f_http2_connection_shards x" numstr] by (simp add: shards_of_def Let_def storable_extra_def)
  then show ?thesis
    using assms(1) unfolding extra_object_entries
    by (simp add: storable_extra_def array_index_name is_digit_u16) (auto intro!: storable_or_else)
qed

lemma extra_object_shown:
  assumes "trimmed_text (f_proxy x) = Some proxy"
  shows "parsed_extra numstr (JObj (extra_object numstr x proxy)) = saved_extra numstr x"
proof -
  let ?v = "JObj (extra_object numstr x proxy)"
  have "fld ?v ''http_protocol'' = (if protocol_of numstr x = HTTP_PROTOCOL_HTTP1 then JStr HTTP_PROTOCOL_HTTP1 else JUndef)"
    "fld ?v ''http2_connection_shards'' = (if jlt (jint 1) (to_number (shards_of numstr x)) then shards_of numstr x else JUndef)"
    "fld ?v ''moonshot_facade_mode'' = (if f_moonshot_facade_mode x = Some MOONSHOT_FACADE_MODE_KIMI_PASSTHROUGH
       then JStr MOONSHOT_FACADE_MODE_KIMI_PASSTHROUGH else JUndef)"
    "fld ?v ''force_format'' = or_else (f_force_format x) (JBool False)"
    "fld ?v ''thinking_to_content'' = or_else (f_thinking_to_content x) (JBool False)"
    "fld ?v ''proxy'' = JStr proxy" "fld ?v ''pass_through_body_enabled'' = or_else (f_pass_through_body_enabled x) (JBool False)"
    "fld ?v ''system_prompt'' = or_else (f_system_prompt x) (JStr [])"
    "fld ?v ''system_prompt_override'' = or_else (f_system_prompt_override x) (JBool False)"
    unfolding extra_object_entries by (simp_all add: getp_of_map)
  note fields = this
  have protocol: "normalizeHttpProtocol numstr (fld ?v ''http_protocol'') = protocol_of numstr x"
    using protocol_of_cases [of numstr x] unfolding fields by auto
  have shards: "(if protocol_of numstr x = HTTP_PROTOCOL_HTTP1 then JNum (jint 1)
      else normalizeHttp2ConnectionShards (fld ?v ''http2_connection_shards'')) = shards_of numstr x"
    unfolding fields by (simp add: shards_of_def Let_def shards_again)
  have "or_else (JStr proxy) (JStr []) = JStr proxy" by (simp add: or_else_def)
  moreover have "normalizeMoonshotFacadeMode (fld ?v ''moonshot_facade_mode'') =
      (if f_moonshot_facade_mode x = Some MOONSHOT_FACADE_MODE_KIMI_PASSTHROUGH
       then MOONSHOT_FACADE_MODE_KIMI_PASSTHROUGH else MOONSHOT_FACADE_MODE_EMULATE)"
    unfolding fields by (simp add: normalizeMoonshotFacadeMode_def)
  ultimately show ?thesis
    unfolding parsed_extra_def Let_def protocol shards saved_extra_def
    by (simp only: fields or_else_twice assms or_empty_def option.case)
qed

lemma extra_object_again:
  assumes "trimmed_text (f_proxy x) = Some proxy"
  shows "trimmed_text (f_proxy (saved_extra numstr x)) = Some proxy"
    "extra_object numstr (saved_extra numstr x) proxy = extra_object numstr x proxy"
proof -
  show "trimmed_text (f_proxy (saved_extra numstr x)) = Some proxy"
    using assms by (cases "f_proxy x") (auto simp: saved_extra_def or_empty_def)
  have protocol: "protocol_of numstr (saved_extra numstr x) = protocol_of numstr x"
    using protocol_of_cases [of numstr x] unfolding protocol_of_def [of numstr "saved_extra numstr x"] by (auto simp: saved_extra_def)
  moreover have "shards_of numstr (saved_extra numstr x) = shards_of numstr x"
    unfolding shards_of_def [of numstr "saved_extra numstr x"] protocol
    by (simp add: saved_extra_def) (simp add: shards_of_def Let_def shards_again)
  ultimately show "extra_object numstr (saved_extra numstr x) proxy = extra_object numstr x proxy"
    unfolding extra_object_entries by (simp add: saved_extra_def)
qed

text \<open>
  C35.  The extra settings: the text is built and read as the settings with the defaults filled in;
  the number of connections is between 1 and 8, and 1 for HTTP/1.1, whatever was entered; and
  saving what is shown gives the same text.
\<close>

theorem setting_roundtrip:
  assumes "storable_extra numstr (f_extra f)" "number_text numstr (jint 1)" "number_text numstr (jint 8)"
  shows "\<exists>s. buildSettingJSON numstr f = Done s \<and> extraSettings numstr (Some s) = saved_extra numstr (f_extra f) \<and>
    buildSettingJSON numstr (g\<lparr>f_extra := extraSettings numstr (Some s)\<rparr>) = Done s \<and>
    (let x = extraSettings numstr (Some s); n = to_number (f_http2_connection_shards x) in
      jle (jint 1) n \<and> jle n (jint MAX_HTTP2_CONNECTION_SHARDS) \<and>
      (f_http_protocol x = Some HTTP_PROTOCOL_AUTO \<or> f_http_protocol x = Some HTTP_PROTOCOL_HTTP1 \<and> n = jint 1))"
proof -
  let ?x = "f_extra f"
  obtain proxy where p: "trimmed_text (f_proxy ?x) = Some proxy" using assms(1) by (auto simp: storable_extra_def)
  let ?s = "JSON_stringify numstr (JObj (extra_object numstr ?x proxy))"
  have r: "JSON_parse ?s = Some (JObj (extra_object numstr ?x proxy))"
    by (intro JSON_parse_stringified storable_extra_object assms)
  have s: "extraSettings numstr (Some ?s) = saved_extra numstr ?x"
    using r parse_nonempty [OF r] extra_object_shown [OF p] unfolding extraSettings_def or_empty_def option.case by simp
  have "buildSettingJSON numstr (g\<lparr>f_extra := saved_extra numstr ?x\<rparr>) = Done ?s"
    by (simp add: buildSettingJSON_def extra_object_again [OF p] del: JSON_stringify.simps)
  moreover have "protocol_of numstr ?x = HTTP_PROTOCOL_AUTO \<or> protocol_of numstr ?x = HTTP_PROTOCOL_HTTP1 \<and> shards_of numstr ?x = JNum (jint 1)"
    using protocol_of_cases [of numstr ?x] by (auto simp: shards_of_def)
  ultimately show ?thesis
    using shards_bounds [of numstr ?x] by (intro exI [of _ ?s]) (auto simp: buildSettingJSON_def p s saved_extra_def Let_def simp del: JSON_stringify.simps)
qed

section \<open>The payloads\<close>

lemma map_of_spread:
  fixes a b :: "(jstring \<times> jsval) list"
  assumes "distinct (map fst b)"
  shows "map_of (spread a b) k = (case map_of b k of Some v \<Rightarrow> Some v | None \<Rightarrow> map_of a k)"
proof -
  have "(\<lambda>(k, v). put k v) = (\<lambda>e. enter (map_prod id Some e))" by (auto simp: fun_eq_iff enter_def)
  then have "spread a b = enter_all (map (map_prod id Some) b) a"
    by (simp add: spread_def enter_all_def fold_map comp_def)
  moreover have "map_of (map (map_prod id Some) b) k = map_option Some (map_of b k)" by (induction b) auto
  ultimately show ?thesis using assms by (simp add: map_of_enter_all comp_def split: option.splits)
qed

lemma map_of_clean_empty:
  "map_of (clean_empty keep ps) k = map_option (\<lambda>v. if v = JStr [] \<and> k \<notin> keep then JNull else v) (map_of ps k)"
proof (induction ps)
  case (Cons e ps)
  have "clean_empty keep (e # ps) = (fst e, if snd e = JStr [] \<and> fst e \<notin> keep then JNull else snd e) # clean_empty keep ps"
    by (simp add: clean_empty_def case_prod_beta)
  with Cons show ?case by simp
qed (simp add: clean_empty_def)

lemma map_of_update:
  "map_of (update_channel f i b setting settings) (js ''key'') = provided (jtrim (f_key f) \<noteq> []) (JStr (f_key f))"
  "map_of (update_channel f i b setting settings) (js ''cost_discount'') = provided b (JStr (jtrim (f_cost_discount f)))"
  "map_of (update_channel f i b setting settings) (js ''status'') = None"
  "map_of (update_channel f i b setting settings) (js ''name'') = Some (JStr (f_name f))"
  "map_of (update_channel f i b setting settings) (js ''models'') = Some (JStr (f_models f))"
  "map_of (update_channel f i b setting settings) (js ''other'') = Some (JStr (or_empty (f_other f)))"
  "map_of (update_channel f i b setting settings) (js ''setting'') = Some (JStr setting)"
  "map_of (update_channel f i b setting settings) (js ''settings'') = Some (JStr settings)"
  by (simp_all add: update_channel_def)

lemma explicit_keys:
  "distinct (map fst (explicit_texts f))"
  "fst ` set (explicit_texts f) = js ` {''base_url'', ''openai_organization'', ''test_model'', ''tag'', ''remark'', ''model_mapping'',
     ''status_code_mapping'', ''param_override'', ''header_override''}"
  by (simp_all add: explicit_texts_def)

lemma update_payload_fields:
  assumes "transformFormDataToUpdatePayload numstr f i b = Done p"
  obtains setting settings where "buildSettingJSON numstr f = Done setting" "buildSettingsJSON numstr f = Done settings"
    and "\<And>k. map_of p k = (case map_of (explicit_texts f) k of Some v \<Rightarrow> Some v | None \<Rightarrow>
       map_option (\<lambda>v. if v = JStr [] \<and> k \<noteq> js ''cost_discount'' then JNull else v) (map_of (update_channel f i b setting settings) k))"
proof -
  obtain setting settings where "buildSettingJSON numstr f = Done setting" "buildSettingsJSON numstr f = Done settings"
    "p = spread (clean_empty {js ''cost_discount''} (update_channel f i b setting settings)) (explicit_texts f)"
    using assms unfolding transformFormDataToUpdatePayload_def
    by (cases "buildSettingJSON numstr f"; cases "buildSettingsJSON numstr f") simp_all
  with that show thesis by (simp only: map_of_spread [OF explicit_keys(1)] map_of_clean_empty singleton_iff)
qed

lemma map_of_key: "map_of ps k = Some v \<Longrightarrow> k \<in> fst ` set ps"
  by (force dest: map_of_SomeD)

lemma built_texts_not_empty:
  "buildSettingJSON numstr f = Done s \<Longrightarrow> s \<noteq> []" "buildSettingsJSON numstr f = Done s \<Longrightarrow> s \<noteq> []"
  by (auto simp: buildSettingJSON_def buildSettingsJSON_def enclosed_def split: option.splits jsval.splits if_splits)
     (auto simp: own_advanced_def split: if_splits parsed_config.splits)

lemma explicit_none: "k \<notin> fst ` set (explicit_texts f) \<Longrightarrow> map_of (explicit_texts f) k = None"
  by (simp add: map_of_eq_None_iff)

lemma explicit_list:
  "explicit_texts f = map (\<lambda>(k, v). (js k, JStr v))
     [(''base_url'', normalizeBaseUrl (f_base_url f)), (''openai_organization'', or_empty (f_openai_organization f)),
      (''test_model'', or_empty (f_test_model f)), (''tag'', or_empty (f_tag f)), (''remark'', or_empty (f_remark f)),
      (''model_mapping'', or_empty (f_model_mapping f)), (''status_code_mapping'', or_empty (f_status_code_mapping f)),
      (''param_override'', or_empty (f_param_override f)), (''header_override'', or_empty (f_header_override f))]"
  by (simp add: explicit_texts_def)

lemma explicit_sent:
  assumes "transformFormDataToUpdatePayload numstr f i b = Done p" "(js k, JStr v) \<in> set (explicit_texts f)"
  shows "map_of p (js k) = Some (JStr v)"
  by (rule update_payload_fields [OF assms(1)]) (simp add: map_of_is_SomeI [OF explicit_keys(1) assms(2)])

text \<open>
  C36.  An update sends a key only when one was entered, a discount only when it is asked for, and
  nine texts always, empty ones included, so that the server clears them: the base URL
  without its trailing slashes, the organisation, the test model, the tag, the remark, the
  two mappings and the two overrides.  No other property but the discount is sent as an
  empty text, and the status is never sent.
\<close>

theorem update_payload_exact:
  assumes "transformFormDataToUpdatePayload numstr f i b = Done p"
  shows "map_of p (js ''key'') = provided (jtrim (f_key f) \<noteq> []) (JStr (f_key f)) \<and>
    map_of p (js ''cost_discount'') = provided b (JStr (jtrim (f_cost_discount f))) \<and> map_of p (js ''status'') = None \<and>
    (\<forall>(k, v)\<in>{(''base_url'', normalizeBaseUrl (f_base_url f)), (''openai_organization'', or_empty (f_openai_organization f)),
       (''test_model'', or_empty (f_test_model f)), (''tag'', or_empty (f_tag f)), (''remark'', or_empty (f_remark f)),
       (''model_mapping'', or_empty (f_model_mapping f)), (''status_code_mapping'', or_empty (f_status_code_mapping f)),
       (''param_override'', or_empty (f_param_override f)), (''header_override'', or_empty (f_header_override f))}.
       map_of p (js k) = Some (JStr v)) \<and>
    (\<forall>k. map_of p k = Some (JStr []) \<longrightarrow> k \<in> js ` {''base_url'', ''openai_organization'', ''test_model'', ''tag'', ''remark'',
       ''model_mapping'', ''status_code_mapping'', ''param_override'', ''header_override'', ''cost_discount''}) \<and>
    (\<exists>setting settings. buildSettingJSON numstr f = Done setting \<and> buildSettingsJSON numstr f = Done settings \<and>
       map_of p (js ''setting'') = Some (JStr setting) \<and> map_of p (js ''settings'') = Some (JStr settings))"
proof -
  obtain setting settings where s: "buildSettingJSON numstr f = Done setting" "buildSettingsJSON numstr f = Done settings"
    and p: "\<And>k. map_of p k = (case map_of (explicit_texts f) k of Some v \<Rightarrow> Some v | None \<Rightarrow>
       map_option (\<lambda>v. if v = JStr [] \<and> k \<noteq> js ''cost_discount'' then JNull else v) (map_of (update_channel f i b setting settings) k))"
    by (rule update_payload_fields [OF assms]) blast
  have "map_of p (js ''key'') = provided (jtrim (f_key f) \<noteq> []) (JStr (f_key f))"
    "map_of p (js ''cost_discount'') = provided b (JStr (jtrim (f_cost_discount f)))" "map_of p (js ''status'') = None"
    "map_of p (js ''setting'') = Some (JStr setting)" "map_of p (js ''settings'') = Some (JStr settings)"
    using built_texts_not_empty(1) [OF s(1)] built_texts_not_empty(2) [OF s(2)]
    by (auto simp: p explicit_none explicit_keys(2) map_of_update)
  moreover have "k \<in> fst ` set (explicit_texts f) \<union> {js ''cost_discount''}" if "map_of p k = Some (JStr [])" for k
    using that by (cases "map_of (explicit_texts f) k") (auto simp: p map_of_key split: if_splits)
  then have "\<forall>k. map_of p k = Some (JStr []) \<longrightarrow> k \<in> js ` {''base_url'', ''openai_organization'', ''test_model'', ''tag'', ''remark'',
       ''model_mapping'', ''status_code_mapping'', ''param_override'', ''header_override'', ''cost_discount''}"
    unfolding explicit_keys(2) by auto
  moreover note explicit_sent [OF assms, unfolded explicit_list]
  ultimately show ?thesis using s by simp
qed

text \<open>
  Opening a channel and saving it as it is: no key is sent, and the texts that are sent are
  those of the channel, a base URL without its trailing slashes.
\<close>

theorem opened_update:
  assumes "transformChannelToFormDefaults numstr c = Done f" "transformFormDataToUpdatePayload numstr f i b = Done p"
  shows "map_of p (js ''key'') = None \<and> map_of p (js ''name'') = Some (text_or_null (c_name c)) \<and>
    map_of p (js ''models'') = Some (text_or_null (c_models c)) \<and> map_of p (js ''other'') = Some (text_or_null (c_other c)) \<and>
    (\<forall>(k, v)\<in>{(''base_url'', normalizeBaseUrl (c_base_url c)), (''openai_organization'', or_empty (c_openai_organization c)),
       (''test_model'', or_empty (c_test_model c)), (''tag'', or_empty (c_tag c)), (''remark'', c_remark c),
       (''model_mapping'', or_empty (c_model_mapping c)), (''status_code_mapping'', or_empty (c_status_code_mapping c)),
       (''param_override'', or_empty (c_param_override c)), (''header_override'', or_empty (c_header_override c))}.
       map_of p (js k) = Some (JStr v))"
proof -
  obtain typed where f: "f = channel_values numstr c typed"
    using assms(1) by (cases "typeSettings numstr (c_settings c)") (auto simp: transformChannelToFormDefaults_def)
  have some: "or_empty (Some s) = s" "normalizeBaseUrl (Some (or_empty v)) = normalizeBaseUrl v" for s v
    by (simp_all add: or_empty_def normalizeBaseUrl_def)
  obtain setting settings where p: "\<And>k. map_of p k = (case map_of (explicit_texts f) k of Some v \<Rightarrow> Some v | None \<Rightarrow>
       map_option (\<lambda>v. if v = JStr [] \<and> k \<noteq> js ''cost_discount'' then JNull else v) (map_of (update_channel f i b setting settings) k))"
    by (rule update_payload_fields [OF assms(2)]) blast
  have texts: "f_key f = []" "f_name f = c_name c" "f_models f = c_models c" "or_empty (f_other f) = c_other c"
    by (simp_all add: f channel_values_def some)
  have "map_of p (js ''key'') = None" "map_of p (js ''name'') = Some (text_or_null (c_name c))"
    "map_of p (js ''models'') = Some (text_or_null (c_models c))" "map_of p (js ''other'') = Some (text_or_null (c_other c))"
    by (auto simp: p explicit_none explicit_keys(2) map_of_update texts text_or_null_def)
  moreover have "map_of p (js k) = Some (JStr v)" if "(js k, JStr v) \<in> set (explicit_texts f)" for k v
    using map_of_is_SomeI [OF explicit_keys(1) that] by (simp add: p)
  moreover have "explicit_texts f = map (\<lambda>(k, v). (js k, JStr v))
     [(''base_url'', normalizeBaseUrl (c_base_url c)), (''openai_organization'', or_empty (c_openai_organization c)),
      (''test_model'', or_empty (c_test_model c)), (''tag'', or_empty (c_tag c)), (''remark'', c_remark c),
      (''model_mapping'', or_empty (c_model_mapping c)), (''status_code_mapping'', or_empty (c_status_code_mapping c)),
      (''param_override'', or_empty (c_param_override c)), (''header_override'', or_empty (c_header_override c))]"
    by (simp add: explicit_texts_def f channel_values_def some)
  ultimately show ?thesis by simp
qed

lemma video_mode_stored:
  assumes "settings_start (f_settings f) = JObj []" "storable_typed numstr (f_typed f)" "number_text numstr (jint 0)"
    and t: "f_type f = CHANNEL_TYPE_DOUBAO_VIDEO"
  shows "\<exists>s qs. buildSettingsJSON numstr f = Done s \<and> JSON_parse s = Some (JObj qs) \<and> map_of qs (js ''video_content_delivery_mode'') =
    Some (JStr (if f_video_content_delivery_mode (f_typed f) = Some (js ''redirect'') then js ''redirect'' else js ''proxy''))"
proof -
  let ?es = "settings_entries (f_type f) (f_typed f) []"
  have "valid_typed (f_type f) (f_typed f)"
    by (simp add: t valid_typed_def CHANNEL_TYPE_DOUBAO_VIDEO_def CHANNEL_TYPE_ADVANCED_CUSTOM_def)
  note saved = saved_text(1,2) [OF assms(1) _ assms(2) this assms(3), simplified]
  have "(js ''video_content_delivery_mode'', Some (JStr (if f_video_content_delivery_mode (f_typed f) = Some (js ''redirect'')
      then js ''redirect'' else js ''proxy''))) \<in> set ?es"
    unfolding settings_entries_def plain_entries_def t by simp
  then have "map_of (enter_all ?es []) (js ''video_content_delivery_mode'') =
      Some (JStr (if f_video_content_delivery_mode (f_typed f) = Some (js ''redirect'') then js ''redirect'' else js ''proxy''))"
    by (rule typed.save_entry)
  with saved show ?thesis by (intro exI conjI) assumption+
qed

text \<open>
  C38.  A Doubao video channel whose text of settings is empty opens with the mode \<open>proxy\<close>, and
  saving it unchanged stores that mode; with the text of an empty object it opens with
  \<open>redirect\<close>, the default of the form and of the server, and stores that.
\<close>

theorem empty_settings_stored_as_proxy:
  assumes "number_text numstr (jint 0)"
  shows "(\<exists>f s qs. transformChannelToFormDefaults numstr (c\<lparr>c_type := CHANNEL_TYPE_DOUBAO_VIDEO, c_settings := []\<rparr>) = Done f \<and>
      buildSettingsJSON numstr f = Done s \<and> JSON_parse s = Some (JObj qs) \<and>
      map_of qs (js ''video_content_delivery_mode'') = Some (JStr (js ''proxy''))) \<and>
    (\<exists>f s qs. transformChannelToFormDefaults numstr (c\<lparr>c_type := CHANNEL_TYPE_DOUBAO_VIDEO, c_settings := js ''{}''\<rparr>) = Done f \<and>
      buildSettingsJSON numstr f = Done s \<and> JSON_parse s = Some (JObj qs) \<and>
      map_of qs (js ''video_content_delivery_mode'') = Some (JStr (js ''redirect'')))"
proof (intro conjI)
  let ?c = "\<lambda>s. c\<lparr>c_type := CHANNEL_TYPE_DOUBAO_VIDEO, c_settings := s\<rparr>"
  have start: "settings_start (Some (js ''{}'')) = JObj []" by (simp add: settings_start_def)
  have opened: "transformChannelToFormDefaults numstr (?c []) = Done (channel_values numstr (?c []) initial_typed)"
    "transformChannelToFormDefaults numstr (?c (js ''{}'')) =
       Done (channel_values numstr (?c (js ''{}'')) (parsed_typed numstr (JObj [])))"
    using parse_nonempty [OF parse_empty_object]
    by (simp_all add: transformChannelToFormDefaults_def typeSettings_def parse_empty_object getp_of_map)
  show "\<exists>f s qs. transformChannelToFormDefaults numstr (?c []) = Done f \<and> buildSettingsJSON numstr f = Done s \<and>
      JSON_parse s = Some (JObj qs) \<and> map_of qs (js ''video_content_delivery_mode'') = Some (JStr (js ''proxy''))"
    using video_mode_stored [of "channel_values numstr (?c []) initial_typed" numstr] assms opened(1)
    by (simp add: start channel_values_def initial_typed_def default_typed_def storable_typed_def)
  show "\<exists>f s qs. transformChannelToFormDefaults numstr (?c (js ''{}'')) = Done f \<and> buildSettingsJSON numstr f = Done s \<and>
      JSON_parse s = Some (JObj qs) \<and> map_of qs (js ''video_content_delivery_mode'') = Some (JStr (js ''redirect''))"
    using video_mode_stored [of "channel_values numstr (?c (js ''{}'')) (parsed_typed numstr (JObj []))" numstr] assms opened(2)
    by (simp add: start channel_values_def parsed_typed_def storable_typed_def getp_of_map or_else_def)
qed

section \<open>The checks\<close>

lemma no_issues: "map_outcome (\<lambda>m. a @ m @ b) w = Done [] \<Longrightarrow> a = [] \<and> b = []"
  by (cases w) auto

lemma issue_none: "issue b k m = [] \<Longrightarrow> \<not> b"
  by (simp split: if_splits)

lemma advanced_config_required: "advanced_issues parseURL f None \<noteq> []"
  by (simp add: advanced_issues_def validateAdvancedCustomConfig_def)

lemma connection_kept:
  assumes "connection_issues numstr x = []" "f_http2_connection_shards x = JNum n" "n \<noteq> NaN"
  shows "shards_of numstr x = JNum n"
proof -
  have n: "\<not> jlt n (jint 1)" "\<not> jlt (jint 8) n" "protocol_of numstr x = HTTP_PROTOCOL_HTTP1 \<Longrightarrow> \<not> jlt (jint 1) n"
    using assms by (auto simp: connection_issues_def protocol_of_def Let_def MAX_HTTP2_CONNECTION_SHARDS_def split: if_splits)
  then obtain q where q: "n = Fin q" "1 \<le> q" "q \<le> 8" using assms(3) by (cases n) (auto simp: jint_def not_less)
  then show ?thesis using n(3) assms(2)
    by (auto simp: shards_of_def normalizeHttp2ConnectionShards_def MAX_HTTP2_CONNECTION_SHARDS_def jint_def)
qed

lemma update_done:
  assumes "storable_extra numstr (f_extra f)" "buildSettingsJSON numstr f = Done settings"
  shows "\<exists>p. transformFormDataToUpdatePayload numstr f i b = Done p"
  using assms by (auto simp: transformFormDataToUpdatePayload_def buildSettingJSON_def storable_extra_def)

text \<open>The text of the extra settings holds the number of connections when it is more than one.\<close>

lemma stored_connections:
  assumes "storable_extra numstr (f_extra f)" "number_text numstr (jint 1)" "number_text numstr (jint 8)"
    and "shards_of numstr (f_extra f) = JNum n" "buildSettingJSON numstr f = Done setting"
  shows "\<exists>qs. JSON_parse setting = Some (JObj qs) \<and>
      map_of qs (js ''http2_connection_shards'') = provided (jlt (jint 1) n) (JNum n)"
    and "f_http2_connection_shards (extraSettings numstr (Some setting)) = JNum n"
proof -
  let ?x = "f_extra f"
  obtain proxy where p: "trimmed_text (f_proxy ?x) = Some proxy" using assms(1) by (auto simp: storable_extra_def)
  have s: "setting = JSON_stringify numstr (JObj (extra_object numstr ?x proxy))"
    using assms(5) by (simp add: buildSettingJSON_def p del: JSON_stringify.simps)
  have r: "JSON_parse setting = Some (JObj (extra_object numstr ?x proxy))"
    unfolding s by (intro JSON_parse_stringified storable_extra_object assms)
  have "map_of (extra_object numstr ?x proxy) (js ''http2_connection_shards'') = provided (jlt (jint 1) n) (JNum n)"
    unfolding extra_object_entries assms(4) by (simp)
  with r show "\<exists>qs. JSON_parse setting = Some (JObj qs) \<and>
      map_of qs (js ''http2_connection_shards'') = provided (jlt (jint 1) n) (JNum n)" by blast
  show "f_http2_connection_shards (extraSettings numstr (Some setting)) = JNum n"
    using r parse_nonempty [OF r] extra_object_shown [OF p] assms(4)
    unfolding extraSettings_def or_empty_def option.case by (simp add: saved_extra_def)
qed

text \<open>
  C37.  A form without issues is saved as it was entered.  For a form whose stored settings are
  an object, whose extra settings hold values that JSON can represent and whose number of
  connections is a number: the update is built, also for an advanced channel; the number of
  connections is in the stored text exactly as it was entered (1 is left out), it is shown
  again when the text is opened, and a key that is sent for Codex is a credential.
\<close>

theorem accepted_form_saved:
  assumes "form_issues parseURL numstr f = Done []" "settings_start (f_settings f) = JObj ps" "distinct (map fst ps)"
    and "storable_extra numstr (f_extra f)" "number_text numstr (jint 1)" "number_text numstr (jint 8)"
    and "f_http2_connection_shards (f_extra f) = JNum n" "n \<noteq> NaN"
  shows "\<exists>p setting qs. transformFormDataToUpdatePayload numstr f i b = Done p \<and>
    map_of p (js ''setting'') = Some (JStr setting) \<and> JSON_parse setting = Some (JObj qs) \<and>
    map_of qs (js ''http2_connection_shards'') = provided (jlt (jint 1) n) (JNum n) \<and>
    f_http2_connection_shards (extraSettings numstr (Some setting)) = JNum n \<and>
    (\<forall>k. f_type f = 57 \<and> map_of p (js ''key'') = Some (JStr k) \<longrightarrow> isCodexCredential (Some k))"
proof -
  note issues = assms(1) [unfolded form_issues_def Let_def]
  have "\<exists>c. parseAdvancedCustomConfig (f_advanced_custom (f_typed f)) = ParsedConfig c" if "f_type f = CHANNEL_TYPE_ADVANCED_CUSTOM"
    using issues that by (auto simp: advanced_config_required split: parsed_config.splits)
  then have "valid_typed (f_type f) (f_typed f)" by (simp add: valid_typed_def)
  then have "\<exists>s. buildSettingsJSON numstr f = Done s" using build_entries assms(2,3) by blast
  then obtain p where p: "transformFormDataToUpdatePayload numstr f i b = Done p" using update_done [OF assms(4)] by blast
  have rest: "connection_issues numstr (f_extra f) = []"
    "\<not> (f_type f = 57 \<and> jtrim (f_key f) \<noteq> [] \<and> \<not> isCodexCredential (Some (f_key f)))"
    by (insert no_issues [OF issues, unfolded append_is_Nil_conv])
       (elim conjE, assumption, (elim conjE, rule issue_none, assumption)+)
  obtain setting settings where s: "buildSettingJSON numstr f = Done setting" "buildSettingsJSON numstr f = Done settings"
    and fields: "\<And>k. map_of p k = (case map_of (explicit_texts f) k of Some v \<Rightarrow> Some v | None \<Rightarrow>
       map_option (\<lambda>v. if v = JStr [] \<and> k \<noteq> js ''cost_discount'' then JNull else v) (map_of (update_channel f i b setting settings) k))"
    by (rule update_payload_fields [OF p]) blast
  have "map_of p (js ''setting'') = Some (JStr setting)"
    "map_of p (js ''key'') = provided (jtrim (f_key f) \<noteq> []) (JStr (f_key f))"
    using built_texts_not_empty(1) [OF s(1)] by (auto simp: fields explicit_none explicit_keys(2) map_of_update)
  moreover note stored_connections [OF assms(4-6) connection_kept [OF rest(1) assms(7,8)] s(1)]
  ultimately show ?thesis using p rest(2) by (auto split: if_splits)
qed

section \<open>Witnesses\<close>

text \<open>The text of a natural number, and a form with a setting that the form does not know.\<close>

definition digits :: "jnum \<Rightarrow> jstring" where
  "digits n = (case n of Fin x \<Rightarrow> show_nat (nat \<lfloor>x\<rfloor>) | _ \<Rightarrow> [])"

lemma digits_text: "int k \<le> max_safe \<Longrightarrow> number_text digits (jint (int k))"
  by (rule number_text_nat) (simp_all add: digits_def jint_def)

lemma digits_numbers: "number_text digits (jint 0)" "number_text digits (jint 1)" "number_text digits (jint 8)"
  using digits_text [of 0] digits_text [of 1] digits_text [of 8] by (simp_all add: max_safe_def)

definition sample_form :: ChannelFormValues where
  "sample_form = CHANNEL_FORM_DEFAULT_VALUES\<lparr>f_settings := Some (JSON_stringify digits (JObj [(js ''note'', JNum (jint 8))]))\<rparr>"

lemma sample_hypotheses:
  "settings_start (f_settings sample_form) = JObj [(js ''note'', JNum (jint 8))]" "storable digits (JObj [(js ''note'', JNum (jint 8))])"
  "storable_typed digits (f_typed sample_form)" "valid_typed (f_type sample_form) (f_typed sample_form)"
  "storable_extra digits (f_extra sample_form)"
proof -
  show s: "storable digits (JObj [(js ''note'', JNum (jint 8))])"
    by (simp add: digits_numbers array_index_name is_digit_u16)
  show "settings_start (f_settings sample_form) = JObj [(js ''note'', JNum (jint 8))]"
    using object_text_start [OF JSON_parse_stringified [OF s]] by (simp add: sample_form_def del: JSON_stringify.simps)
qed (simp_all add: sample_form_def CHANNEL_FORM_DEFAULT_VALUES_def default_typed_def default_extra_def storable_typed_def
      storable_extra_def valid_typed_def CHANNEL_TYPE_ADVANCED_CUSTOM_def digits_numbers)

theorem settings_roundtrip_witness:
  "\<exists>s qs. buildSettingsJSON digits sample_form = Done s \<and> JSON_parse s = Some (JObj qs) \<and> map_of qs (js ''note'') = Some (JNum (jint 8))"
proof -
  have "js ''note'' \<notin> owned_keys" by (simp add: owned_keys_def plain_names_def update_names_def)
  moreover have "map_of [(js ''note'', JNum (jint 8))] (js ''note'') = Some (JNum (jint 8))" by simp
  ultimately show ?thesis using settings_roundtrip [OF sample_hypotheses(1-4) digits_numbers(1)] by metis
qed

theorem setting_roundtrip_witness:
  "\<exists>s. buildSettingJSON digits sample_form = Done s \<and> extraSettings digits (Some s) = saved_extra digits default_extra"
  using setting_roundtrip [OF sample_hypotheses(5) digits_numbers(2,3)]
  by (auto simp: sample_form_def CHANNEL_FORM_DEFAULT_VALUES_def)

theorem update_payload_exact_witness:
  "\<exists>p. transformFormDataToUpdatePayload digits sample_form (jint 7) False = Done p \<and> map_of p (js ''key'') = None \<and>
     map_of p (js ''cost_discount'') = None \<and> map_of p (js ''tag'') = Some (JStr [])"
proof -
  obtain p where p: "transformFormDataToUpdatePayload digits sample_form (jint 7) False = Done p"
    using update_done [OF sample_hypotheses(5) saved_text(1) [OF sample_hypotheses(1-4) digits_numbers(1)]] by blast
  have "or_empty (f_tag sample_form) = []" "f_key sample_form = []"
    by (simp_all add: sample_form_def CHANNEL_FORM_DEFAULT_VALUES_def or_empty_def)
  then show ?thesis using update_payload_exact [OF p] p by auto
qed

definition sample_channel :: Channel where
  "sample_channel = \<lparr>c_name = js ''a'', c_type = CHANNEL_TYPE_DOUBAO_VIDEO, c_base_url = None, c_openai_organization = None,
     c_models = js ''m'', c_group = [], c_model_mapping = None, c_priority = None, c_weight = None, c_test_model = None,
     c_auto_ban = None, c_status = jint 1, c_status_code_mapping = None, c_tag = None, c_remark = [], c_cost_discount = None,
     c_setting = None, c_param_override = None, c_header_override = None, c_settings = [], c_other = [], c_multi_key_mode = []\<rparr>"

theorem opened_update_witness:
  "\<exists>f p. transformChannelToFormDefaults digits sample_channel = Done f \<and>
     transformFormDataToUpdatePayload digits f (jint 7) True = Done p \<and> map_of p (js ''key'') = None \<and>
     map_of p (js ''name'') = Some (JStr (js ''a''))"
proof -
  let ?f = "channel_values digits sample_channel initial_typed"
  have f: "transformChannelToFormDefaults digits sample_channel = Done ?f"
    by (simp add: transformChannelToFormDefaults_def typeSettings_def sample_channel_def)
  have "settings_start (f_settings ?f) = JObj []" "storable_typed digits (f_typed ?f)" "f_type ?f = CHANNEL_TYPE_DOUBAO_VIDEO"
    by (simp_all add: channel_values_def sample_channel_def settings_start_def initial_typed_def default_typed_def storable_typed_def)
  then obtain s where "buildSettingsJSON digits ?f = Done s" using video_mode_stored digits_numbers(1) by blast
  moreover have "storable_extra digits (f_extra ?f)"
    by (simp add: channel_values_def sample_channel_def extraSettings_def or_empty_def default_extra_def storable_extra_def digits_numbers)
  ultimately obtain p where p: "transformFormDataToUpdatePayload digits ?f (jint 7) True = Done p" using update_done by blast
  then show ?thesis using opened_update [OF f p] f by (auto simp: sample_channel_def text_or_null_def js_Cons)
qed

theorem empty_settings_stored_as_proxy_witness:
  "\<exists>f s qs. transformChannelToFormDefaults digits (sample_channel\<lparr>c_type := CHANNEL_TYPE_DOUBAO_VIDEO, c_settings := []\<rparr>) = Done f \<and>
     buildSettingsJSON digits f = Done s \<and> JSON_parse s = Some (JObj qs) \<and>
     map_of qs (js ''video_content_delivery_mode'') = Some (JStr (js ''proxy''))"
  using empty_settings_stored_as_proxy [OF digits_numbers(1)] by blast

text \<open>A form in which eight connections were entered.\<close>

theorem accepted_form_saved_witness:
  "\<exists>p setting. transformFormDataToUpdatePayload digits
       (sample_form\<lparr>f_extra := default_extra\<lparr>f_http2_connection_shards := JNum (jint 8)\<rparr>\<rparr>) (jint 7) False = Done p \<and>
     map_of p (js ''setting'') = Some (JStr setting) \<and>
     f_http2_connection_shards (extraSettings digits (Some setting)) = JNum (jint 8)"
proof -
  let ?f = "sample_form\<lparr>f_extra := default_extra\<lparr>f_http2_connection_shards := JNum (jint 8)\<rparr>\<rparr>"
  have "form_issues (\<lambda>_. None) digits ?f = Done []"
    by (simp add: form_issues_def sample_form_def CHANNEL_FORM_DEFAULT_VALUES_def CHANNEL_TYPE_NEW_API_def
        CHANNEL_TYPE_ADVANCED_CUSTOM_def connection_issues_def default_extra_def MAX_HTTP2_CONNECTION_SHARDS_def)
  moreover have "settings_start (f_settings ?f) = JObj [(js ''note'', JNum (jint 8))]" using sample_hypotheses(1) by simp
  moreover have "storable_extra digits (f_extra ?f)" by (simp add: default_extra_def storable_extra_def digits_numbers)
  ultimately show ?thesis
    using accepted_form_saved [of "\<lambda>_. None" digits ?f "[(js ''note'', JNum (jint 8))]" "jint 8" "jint 7" False] digits_numbers(2,3)
    by (auto simp: jint_def)
qed

end
