(* ===== verification/Dashboard_Flow.thy ===== *)
theory Dashboard_Flow
  imports JS_Convert
begin

text \<open>
  The flow diagram of the dashboard (\<open>web/src/features/dashboard/lib/flow.ts\<close>): usage rows
  become paths through stages (user, node, token, group, model, channel), and the paths are
  summed up to a graph of nodes and links.

  A \<open>Map\<close> is the list of its entries in the order of insertion.  The collation of
  \<open>localeCompare\<close>, the conversion of numbers to strings, \<open>Intl.NumberFormat\<close> and the colour
  schemes of the chart package are the fields of an environment.
\<close>

section \<open>Data\<close>

datatype FlowNodeKind = KUser | KNode | KToken | KGroup | KModel | KChannel

fun kind_name :: "FlowNodeKind \<Rightarrow> jstring" where
  "kind_name KUser = js ''user''"
| "kind_name KNode = js ''node''"
| "kind_name KToken = js ''token''"
| "kind_name KGroup = js ''group''"
| "kind_name KModel = js ''model''"
| "kind_name KChannel = js ''channel''"

datatype FlowMetric = MQuota | MTokens | MRequests
datatype FlowOverflowMode = Aggregate | Hide
datatype FlowRole = RUser | RAdmin | RRoot

record FlowQuotaDataItem =
  user_id :: "jnum option"
  username :: "jstring option"
  node_name :: "jstring option"
  use_group :: "jstring option"
  token_id :: "jnum option"
  token_name :: "jstring option"
  channel_id :: "jnum option"
  channel_name :: "jstring option"
  model_name :: "jstring option"
  token_used :: "jnum option"
  row_count :: "jnum option"
  row_quota :: "jnum option"

record FlowNodeFilter =
  nf_kind :: FlowNodeKind
  nf_id :: jstring

record FlowLinkSelection =
  ls_source :: jstring
  ls_target :: jstring

record FlowMetrics =
  m_quota :: jnum
  m_tokens :: jnum
  m_requests :: jnum

record FlowPathNode =
  pn_id :: jstring
  pn_label :: jstring
  pn_kind :: FlowNodeKind

record PreparedFlowPath =
  pp_path :: "FlowPathNode list"
  pp_metrics :: FlowMetrics

record DashboardFlowNode =
  n_id :: jstring
  n_label :: jstring
  n_kind :: FlowNodeKind
  n_value :: jnum
  n_requests :: jnum
  n_quota :: jnum
  n_tokens :: jnum
  n_color :: jstring
  n_colorKey :: jstring
  n_highlighted :: "bool option"
  n_dimmed :: "bool option"

record DashboardFlowLink =
  l_source :: jstring
  l_target :: jstring
  l_value :: jnum
  l_requests :: jnum
  l_quota :: jnum
  l_tokens :: jnum
  l_sourceLabel :: jstring
  l_targetLabel :: jstring
  l_color :: jstring
  l_linkColor :: jstring
  l_linkAlpha :: jnum
  l_hoverColor :: jstring
  l_colorKey :: jstring
  l_share :: jnum
  l_highlighted :: "bool option"
  l_dimmed :: "bool option"

record DashboardFlowGraph =
  g_nodes :: "DashboardFlowNode list"
  g_links :: "DashboardFlowLink list"

record FlowUserFilterOption =
  uo_value :: jstring
  uo_label :: jstring
  uo_valueLabel :: jstring
  uo_valueRaw :: jnum
  uo_color :: jstring

record FlowNodeFilterOption =
  no_kind :: FlowNodeKind
  no_value :: jstring
  no_label :: jstring
  no_valueLabel :: jstring
  no_valueRaw :: jnum
  no_color :: jstring

record FlowFilterOptions =
  fo_users :: "FlowUserFilterOption list"
  fo_nodes :: "FlowNodeFilterOption list"

record ProcessedFlowData =
  summary :: FlowMetrics
  flow :: DashboardFlowGraph
  filterOptions :: FlowFilterOptions

text \<open>The options of \<open>buildDashboardFlowData\<close>.\<close>

record FlowBuildOptions =
  opt_role :: "FlowRole option"
  selectedUsers :: "jstring list"
  selectedNodes :: "FlowNodeFilter list"
  activeNode :: "FlowNodeFilter option"
  activeLink :: "FlowLinkSelection option"
  opt_palette :: "jstring list"
  visibleStages :: "FlowNodeKind list option"
  topNodeLimit :: "jnum option"
  overflowMode :: "FlowOverflowMode option"
  maskSensitive :: bool
  deletedToken :: "(jnum \<Rightarrow> jstring) option"
  otherNodeLabel :: "(FlowNodeKind \<Rightarrow> jstring) option"

record flow_env =
  localeCompare :: "jstring \<Rightarrow> jstring \<Rightarrow> int"
  numstr :: "jnum \<Rightarrow> jstring"
  formatNumber :: "jnum \<Rightarrow> jstring"
  dataScheme :: "(nat option \<times> jstring option list) list"

definition OTHER_FLOW_NODE_IDS :: "FlowNodeKind \<Rightarrow> jstring" where
  "OTHER_FLOW_NODE_IDS k = kind_name k @ js '':__other__''"

fun DEFAULT_OTHER_FLOW_NODE_LABELS :: "FlowNodeKind \<Rightarrow> jstring" where
  "DEFAULT_OTHER_FLOW_NODE_LABELS KUser = js ''Other users''"
| "DEFAULT_OTHER_FLOW_NODE_LABELS KNode = js ''Other nodes''"
| "DEFAULT_OTHER_FLOW_NODE_LABELS KToken = js ''Other tokens''"
| "DEFAULT_OTHER_FLOW_NODE_LABELS KGroup = js ''Other groups''"
| "DEFAULT_OTHER_FLOW_NODE_LABELS KModel = js ''Other models''"
| "DEFAULT_OTHER_FLOW_NODE_LABELS KChannel = js ''Other channels''"

definition SENSITIVE_FLOW_KINDS :: "FlowNodeKind set" where
  "SENSITIVE_FLOW_KINDS = {KUser, KNode, KToken, KGroup, KChannel}"

section \<open>Rows and paths\<close>

definition numberValue :: "jsval \<Rightarrow> jnum" where
  "numberValue v = (let n = to_number v in if isFinite n then n else jint 0)"

text \<open>An optional number of a row as a value.\<close>

definition opt_num :: "jnum option \<Rightarrow> jsval" where
  "opt_num v = (case v of None \<Rightarrow> JUndef | Some n \<Rightarrow> JNum n)"

text \<open>\<open>v || d\<close> on an optional string.\<close>

definition name_or :: "jstring option \<Rightarrow> jstring \<Rightarrow> jstring" where
  "name_or v d = (case v of None \<Rightarrow> d | Some s \<Rightarrow> if s = [] then d else s)"

definition rowMetrics :: "FlowQuotaDataItem \<Rightarrow> FlowMetrics" where
  "rowMetrics row = \<lparr>m_quota = numberValue (opt_num (row_quota row)),
     m_tokens = numberValue (opt_num (token_used row)), m_requests = numberValue (opt_num (row_count row))\<rparr>"

definition metricValue :: "FlowMetrics \<Rightarrow> FlowMetric \<Rightarrow> jnum" where
  "metricValue metrics metric =
     (if metric = MRequests then m_requests metrics else if metric = MTokens then m_tokens metrics else m_quota metrics)"

definition userNode :: "flow_env \<Rightarrow> FlowQuotaDataItem \<Rightarrow> FlowPathNode" where
  "userNode e row = (let userID = numberValue (opt_num (user_id row)) in
     \<lparr>pn_id = js ''user:'' @ (if jlt (jint 0) userID then numstr e userID else name_or (username row) (js ''unknown'')),
      pn_label = name_or (username row)
        (if jlt (jint 0) userID then js ''user-'' @ numstr e userID else js ''Unknown User''),
      pn_kind = KUser\<rparr>)"

definition nodeNameNode :: "FlowQuotaDataItem \<Rightarrow> FlowPathNode" where
  "nodeNameNode row = (let nodeName = name_or (node_name row) (js ''default-node'') in
     \<lparr>pn_id = js ''node:'' @ nodeName, pn_label = nodeName, pn_kind = KNode\<rparr>)"

definition deletedTokenLabel :: "flow_env \<Rightarrow> (jnum \<Rightarrow> jstring) option \<Rightarrow> jnum \<Rightarrow> jstring" where
  "deletedTokenLabel e ctx tokenID =
     (if jle tokenID (jint 0) then js ''Unknown Token''
      else (case ctx of Some f \<Rightarrow> f tokenID | None \<Rightarrow> js ''token-'' @ numstr e tokenID))"

definition tokenNode :: "flow_env \<Rightarrow> (jnum \<Rightarrow> jstring) option \<Rightarrow> FlowQuotaDataItem \<Rightarrow> FlowPathNode" where
  "tokenNode e ctx row = (let tokenID = numberValue (opt_num (token_id row)) in
     \<lparr>pn_id = js ''token:'' @ (if jlt (jint 0) tokenID then numstr e tokenID else name_or (token_name row) (js ''unknown'')),
      pn_label = name_or (token_name row) (deletedTokenLabel e ctx tokenID),
      pn_kind = KToken\<rparr>)"

definition groupNode :: "FlowQuotaDataItem \<Rightarrow> FlowPathNode" where
  "groupNode row = (let useGroup = name_or (use_group row) (js ''unknown'') in
     \<lparr>pn_id = js ''group:'' @ useGroup, pn_label = useGroup, pn_kind = KGroup\<rparr>)"

definition modelNode :: "FlowQuotaDataItem \<Rightarrow> FlowPathNode" where
  "modelNode row =
     \<lparr>pn_id = js ''model:'' @ name_or (model_name row) (js ''unknown''),
      pn_label = name_or (model_name row) (js ''Unknown Model''), pn_kind = KModel\<rparr>"

definition channelNode :: "flow_env \<Rightarrow> FlowQuotaDataItem \<Rightarrow> FlowPathNode" where
  "channelNode e row = (let channelID = numberValue (opt_num (channel_id row)) in
     \<lparr>pn_id = js ''channel:'' @ (if jlt (jint 0) channelID then numstr e channelID else name_or (channel_name row) (js ''unknown'')),
      pn_label = name_or (channel_name row)
        (if jlt (jint 0) channelID then js ''channel-'' @ numstr e channelID else js ''Unknown''),
      pn_kind = KChannel\<rparr>)"

fun NODE_BUILDERS :: "flow_env \<Rightarrow> (jnum \<Rightarrow> jstring) option \<Rightarrow> FlowNodeKind \<Rightarrow> FlowQuotaDataItem \<Rightarrow> FlowPathNode" where
  "NODE_BUILDERS e ctx KUser row = userNode e row"
| "NODE_BUILDERS e ctx KNode row = nodeNameNode row"
| "NODE_BUILDERS e ctx KToken row = tokenNode e ctx row"
| "NODE_BUILDERS e ctx KGroup row = groupNode row"
| "NODE_BUILDERS e ctx KModel row = modelNode row"
| "NODE_BUILDERS e ctx KChannel row = channelNode e row"

fun getFlowStages :: "FlowRole \<Rightarrow> FlowNodeKind list" where
  "getFlowStages RRoot = [KUser, KNode, KToken, KGroup, KModel, KChannel]"
| "getFlowStages RAdmin = [KUser, KGroup, KModel, KChannel]"
| "getFlowStages RUser = [KToken, KGroup, KModel]"

definition MIN_FLOW_STAGES :: nat where "MIN_FLOW_STAGES = 2"

definition resolveVisibleStages :: "FlowRole \<Rightarrow> FlowNodeKind list option \<Rightarrow> FlowNodeKind list" where
  "resolveVisibleStages role visible =
     (let stages = getFlowStages role in
      case visible of
        None \<Rightarrow> stages
      | Some vs \<Rightarrow> let filtered = filter (\<lambda>s. s \<in> set vs) stages in
          if MIN_FLOW_STAGES \<le> length filtered then filtered else stages)"

definition flowPathForStages ::
    "flow_env \<Rightarrow> (jnum \<Rightarrow> jstring) option \<Rightarrow> FlowQuotaDataItem \<Rightarrow> FlowNodeKind list \<Rightarrow> FlowPathNode list" where
  "flowPathForStages e ctx row stages = map (\<lambda>s. NODE_BUILDERS e ctx s row) stages"

section \<open>Colours\<close>

definition DEFAULT_FLOW_CHART_COLOR :: jstring where "DEFAULT_FLOW_CHART_COLOR = js ''#1664FF''"

text \<open>The colour scheme for a domain; the package's list of schemes is not empty.\<close>

definition getDashboardChartColors :: "flow_env \<Rightarrow> nat \<Rightarrow> jstring list" where
  "getDashboardChartColors e domainLength =
     (if dataScheme e = [] then []
      else List.map_filter id (snd
        (case find (\<lambda>(m, _). m = None \<or> m = Some 0 \<or> domainLength \<le> the m) (dataScheme e) of
           Some item \<Rightarrow> item | None \<Rightarrow> last (dataScheme e))))"

definition colorAt :: "flow_env \<Rightarrow> nat \<Rightarrow> jstring list \<Rightarrow> jstring" where
  "colorAt e index palette =
     (let colors = (if palette \<noteq> [] then palette else getDashboardChartColors e (index + 1)) in
      if colors = [] then DEFAULT_FLOW_CHART_COLOR else colors ! (index mod length colors))"

definition colorPalette :: "flow_env \<Rightarrow> nat \<Rightarrow> jstring list \<Rightarrow> jstring list" where
  "colorPalette e colorCount palette =
     (if palette \<noteq> [] then palette
      else let colors = getDashboardChartColors e colorCount in if colors \<noteq> [] then colors else [DEFAULT_FLOW_CHART_COLOR])"

definition stableColorMap :: "flow_env \<Rightarrow> jstring list \<Rightarrow> jstring list \<Rightarrow> jstring \<rightharpoonup> jstring" where
  "stableColorMap e keys palette =
     (let uniqueKeys = uniq keys; colors = colorPalette e (length uniqueKeys) palette in
      map_of (map (\<lambda>(i, key). (key, colorAt e i colors)) (enumerate 0 uniqueKeys)))"

text \<open>\<open>x.toFixed(2)\<close> of a non-negative finite number.\<close>

definition toFixed2 :: "rat \<Rightarrow> jstring" where
  "toFixed2 x = (let n = nat \<lfloor>100 * x + 1 / 2\<rfloor> in
     show_nat (n div 100) @ js ''.'' @ [digit_char (n div 10 mod 10), digit_char (n mod 10)])"

definition alphaColor :: "jstring \<Rightarrow> rat \<Rightarrow> jstring \<times> jnum" where
  "alphaColor color alpha =
     (let normalized = jtrim color;
          hex = (if starts_with (js ''#'') normalized then drop 1 normalized else normalized);
          ds = List.map_filter (radix_digit 16) hex
      in if length hex \<noteq> 6 \<or> length ds \<noteq> 6 then (normalized, Fin alpha)
         else let v = foldl (\<lambda>a d. 16 * a + d) 0 ds in
           (js ''rgba('' @ show_nat (v div 65536 mod 256) @ js '', '' @ show_nat (v div 256 mod 256) @ js '', '' @
            show_nat (v mod 256) @ js '', '' @ toFixed2 alpha @ js '')'', jint 1))"

section \<open>Filters\<close>

definition filterRows :: "flow_env \<Rightarrow> FlowQuotaDataItem list \<Rightarrow> jstring list \<Rightarrow> FlowQuotaDataItem list" where
  "filterRows e rows users =
     (if users = [] then rows else filter (\<lambda>row. pn_id (userNode e row) \<in> set users) rows)"

definition nodeFilterKey :: "FlowNodeKind \<Rightarrow> jstring \<Rightarrow> jstring" where
  "nodeFilterKey k i = kind_name k @ [0] @ i"

text \<open>The selected ids of each visible kind, in the order of their first occurrence.\<close>

definition normalizeSelectedNodeFilters ::
    "FlowNodeFilter list \<Rightarrow> FlowNodeKind list \<Rightarrow> (FlowNodeKind \<times> jstring set) list" where
  "normalizeSelectedNodeFilters selected stages =
     foldl (\<lambda>filters f.
       if nf_kind f \<notin> set stages then filters
       else put (nf_kind f) (insert (nf_id f) (case map_of filters (nf_kind f) of Some s \<Rightarrow> s | None \<Rightarrow> {})) filters)
     [] selected"

definition pathMatchesNodeFilters :: "FlowPathNode list \<Rightarrow> (FlowNodeKind \<times> jstring set) list \<Rightarrow> bool" where
  "pathMatchesNodeFilters path filters \<longleftrightarrow>
     list_all (\<lambda>(kind, ids). list_ex (\<lambda>n. pn_kind n = kind \<and> pn_id n \<in> ids) path) filters"

definition filterRowsByNodes ::
    "flow_env \<Rightarrow> (jnum \<Rightarrow> jstring) option \<Rightarrow> FlowQuotaDataItem list \<Rightarrow> FlowNodeFilter list \<Rightarrow> FlowNodeKind list \<Rightarrow>
     FlowQuotaDataItem list" where
  "filterRowsByNodes e ctx rows selected stages =
     (let filters = normalizeSelectedNodeFilters selected stages in
      if filters = [] then rows
      else filter (\<lambda>row. pathMatchesNodeFilters (flowPathForStages e ctx row stages) filters) rows)"

definition selectedNodeFiltersExceptKind :: "FlowNodeFilter list \<Rightarrow> FlowNodeKind \<Rightarrow> FlowNodeFilter list" where
  "selectedNodeFiltersExceptKind selected kind = filter (\<lambda>f. nf_kind f \<noteq> kind) selected"

section \<open>Nodes and links\<close>

definition addNode ::
    "(jstring \<times> DashboardFlowNode) list \<Rightarrow> FlowPathNode \<Rightarrow> FlowMetrics \<Rightarrow> FlowMetric \<Rightarrow> jstring \<Rightarrow> jstring \<Rightarrow>
     (jstring \<times> DashboardFlowNode) list" where
  "addNode m n metrics metric color colorKey =
     (let previous = (case map_of m (pn_id n) of
            Some v \<Rightarrow> v
          | None \<Rightarrow> \<lparr>n_id = pn_id n, n_label = pn_label n, n_kind = pn_kind n, n_value = jint 0, n_requests = jint 0,
              n_quota = jint 0, n_tokens = jint 0, n_color = color, n_colorKey = colorKey,
              n_highlighted = None, n_dimmed = None\<rparr>)
      in put (pn_id n) (previous\<lparr>n_value := jadd (n_value previous) (metricValue metrics metric),
           n_requests := jadd (n_requests previous) (m_requests metrics),
           n_quota := jadd (n_quota previous) (m_quota metrics),
           n_tokens := jadd (n_tokens previous) (m_tokens metrics)\<rparr>) m)"

definition pathLinkKey :: "FlowPathNode \<Rightarrow> FlowPathNode \<Rightarrow> jstring" where
  "pathLinkKey s t = pn_id s @ [0] @ pn_id t"

definition linkStableKey :: "DashboardFlowLink \<Rightarrow> jstring" where
  "linkStableKey l = l_source l @ [0] @ l_target l"

definition addLink ::
    "(jstring \<times> DashboardFlowLink) list \<Rightarrow> FlowPathNode \<Rightarrow> FlowPathNode \<Rightarrow> FlowMetrics \<Rightarrow> FlowMetric \<Rightarrow> jstring \<Rightarrow>
     jstring \<Rightarrow> (jstring \<times> DashboardFlowLink) list" where
  "addLink m s t metrics metric color colorKey =
     (let key = pathLinkKey s t;
          previous = (case map_of m key of
            Some v \<Rightarrow> v
          | None \<Rightarrow> \<lparr>l_source = pn_id s, l_target = pn_id t, l_value = jint 0, l_requests = jint 0, l_quota = jint 0,
              l_tokens = jint 0, l_sourceLabel = pn_label s, l_targetLabel = pn_label t, l_color = color,
              l_linkColor = color, l_linkAlpha = jint 1, l_hoverColor = color, l_colorKey = colorKey,
              l_share = jint 0, l_highlighted = None, l_dimmed = None\<rparr>)
      in put key (previous\<lparr>l_value := jadd (l_value previous) (metricValue metrics metric),
           l_requests := jadd (l_requests previous) (m_requests metrics),
           l_quota := jadd (l_quota previous) (m_quota metrics),
           l_tokens := jadd (l_tokens previous) (m_tokens metrics)\<rparr>) m)"

text \<open>
  Comparisons: the sign of a difference, \<open>0\<close> for the falsy results \<open>0\<close> and \<open>NaN\<close>, and
  the next comparison in that case.
\<close>

fun number_sign :: "jnum \<Rightarrow> int" where
  "number_sign NaN = 0"
| "number_sign PInf = 1"
| "number_sign NInf = - 1"
| "number_sign (Fin x) = (if 0 < x then 1 else if x < 0 then - 1 else 0)"

definition or_cmp :: "int \<Rightarrow> int \<Rightarrow> int" where
  "or_cmp a b = (if a \<noteq> 0 then a else b)"

definition sorted_by :: "('a \<Rightarrow> 'a \<Rightarrow> int) \<Rightarrow> 'a list \<Rightarrow> 'a list" where
  "sorted_by cmp xs = js_sort (\<lambda>a b. 0 < cmp a b) xs"

definition byValueThenLabel :: "flow_env \<Rightarrow> DashboardFlowNode \<Rightarrow> DashboardFlowNode \<Rightarrow> int" where
  "byValueThenLabel e a b =
     or_cmp (number_sign (jsub (n_value b) (n_value a))) (localeCompare e (n_label a) (n_label b))"

text \<open>\<open>Number(flag)\<close> of an optional flag.\<close>

definition flag_number :: "bool option \<Rightarrow> jnum" where
  "flag_number v = (case v of None \<Rightarrow> NaN | Some b \<Rightarrow> if b then jint 1 else jint 0)"

definition byLinkDrawPriority :: "flow_env \<Rightarrow> DashboardFlowLink \<Rightarrow> DashboardFlowLink \<Rightarrow> int" where
  "byLinkDrawPriority e a b =
     or_cmp (number_sign (jsub (flag_number (l_dimmed a)) (flag_number (l_dimmed b))))
     (or_cmp (number_sign (jsub (flag_number (l_highlighted b)) (flag_number (l_highlighted a))))
     (or_cmp (number_sign (jsub (l_value b) (l_value a)))
     (localeCompare e (linkStableKey a) (linkStableKey b))))"

text \<open>The opacity of the link at a position among the links of its source.\<close>

definition jmul :: "jnum \<Rightarrow> rat \<Rightarrow> jnum" where
  "jmul x y = (case x of Fin a \<Rightarrow> rnd (a * y) | _ \<Rightarrow> x)"

fun finite_value :: "jnum \<Rightarrow> rat" where
  "finite_value (Fin x) = x"
| "finite_value _ = 0"

definition link_alpha :: "nat \<Rightarrow> nat \<Rightarrow> rat" where
  "link_alpha n index =
     (if n = 1 then finite_value (rnd 0.34)
      else finite_value (jadd (rnd 0.24)
        (jmul (jdiv_fin (jint (int index)) (of_nat (max (n - 1) 1))) (finite_value (rnd 0.2)))))"

definition assignLinkDisplayColors :: "flow_env \<Rightarrow> DashboardFlowLink list \<Rightarrow> DashboardFlowLink list" where
  "assignLinkDisplayColors e links =
     map (\<lambda>l.
       let sortedLinks = sorted_by (\<lambda>a b. or_cmp (number_sign (jsub (l_value b) (l_value a)))
               (localeCompare e (linkStableKey a) (linkStableKey b)))
             (filter (\<lambda>l'. l_source l' = l_source l) links);
           index = length (takeWhile (\<lambda>l'. linkStableKey l' \<noteq> linkStableKey l) sortedLinks);
           display = alphaColor (l_color l) (link_alpha (length sortedLinks) index)
       in l\<lparr>l_linkColor := fst display, l_linkAlpha := snd display, l_hoverColor := l_color l\<rparr>) links"

definition buildSummary :: "FlowQuotaDataItem list \<Rightarrow> FlowMetrics" where
  "buildSummary rows =
     foldl (\<lambda>s row. let metrics = rowMetrics row in
       \<lparr>m_quota = jadd (m_quota s) (m_quota metrics), m_tokens = jadd (m_tokens s) (m_tokens metrics),
        m_requests = jadd (m_requests s) (m_requests metrics)\<rparr>)
     \<lparr>m_quota = jint 0, m_tokens = jint 0, m_requests = jint 0\<rparr> rows"

section \<open>The most important nodes\<close>

definition normalizeTopNodeLimit :: "jnum option \<Rightarrow> nat option" where
  "normalizeTopNodeLimit limit =
     (case limit of
        Some (Fin x) \<Rightarrow> if 0 < \<lfloor>x\<rfloor> then Some (nat \<lfloor>x\<rfloor>) else None
      | _ \<Rightarrow> None)"

definition otherFlowNode :: "FlowNodeKind \<Rightarrow> (FlowNodeKind \<Rightarrow> jstring) option \<Rightarrow> FlowPathNode" where
  "otherFlowNode kind labeler =
     \<lparr>pn_id = OTHER_FLOW_NODE_IDS kind,
      pn_label = (case labeler of Some f \<Rightarrow> f kind | None \<Rightarrow> DEFAULT_OTHER_FLOW_NODE_LABELS kind),
      pn_kind = kind\<rparr>"

text \<open>The totals of the nodes of one stage, in the order of their first row.\<close>

definition stage_totals ::
    "flow_env \<Rightarrow> (jnum \<Rightarrow> jstring) option \<Rightarrow> FlowQuotaDataItem list \<Rightarrow> FlowMetric \<Rightarrow> FlowNodeKind list \<Rightarrow> FlowNodeKind \<Rightarrow>
     (jstring \<times> FlowPathNode \<times> jnum) list" where
  "stage_totals e ctx rows metric stages kind =
     foldl (\<lambda>m row. foldl (\<lambda>m n.
         if pn_kind n \<noteq> kind then m
         else (let current = (case map_of m (pn_id n) of Some c \<Rightarrow> c | None \<Rightarrow> (n, jint 0))
               in put (pn_id n) (fst current, jadd (snd current) (metricValue (rowMetrics row) metric)) m))
       m (flowPathForStages e ctx row stages)) [] rows"

definition rank_order :: "flow_env \<Rightarrow> (FlowPathNode \<times> jnum) \<Rightarrow> (FlowPathNode \<times> jnum) \<Rightarrow> int" where
  "rank_order e a b =
     or_cmp (number_sign (jsub (snd b) (snd a)))
     (or_cmp (localeCompare e (pn_label (fst a)) (pn_label (fst b)))
       (localeCompare e (pn_id (fst a)) (pn_id (fst b))))"

definition buildTopNodeSets ::
    "flow_env \<Rightarrow> (jnum \<Rightarrow> jstring) option \<Rightarrow> FlowQuotaDataItem list \<Rightarrow> FlowMetric \<Rightarrow> FlowNodeKind list \<Rightarrow> nat option \<Rightarrow>
     (FlowNodeKind \<rightharpoonup> jstring set) option" where
  "buildTopNodeSets e ctx rows metric stages limit =
     (case limit of
        None \<Rightarrow> None
      | Some n \<Rightarrow>
          if n = 0 then None
          else Some (\<lambda>kind. if kind \<notin> set stages then None
            else Some (set (map (pn_id \<circ> fst) (take n (sorted_by (rank_order e)
                   (map snd (stage_totals e ctx rows metric stages kind))))))))"

definition isTopFlowNode :: "FlowPathNode \<Rightarrow> (FlowNodeKind \<rightharpoonup> jstring set) \<Rightarrow> bool" where
  "isTopFlowNode n tops = (case tops (pn_kind n) of None \<Rightarrow> True | Some ids \<Rightarrow> pn_id n \<in> ids)"

definition applyTopNodeLimit ::
    "FlowPathNode list \<Rightarrow> (FlowNodeKind \<rightharpoonup> jstring set) option \<Rightarrow> FlowOverflowMode \<Rightarrow>
     (FlowNodeKind \<Rightarrow> jstring) option \<Rightarrow> FlowPathNode list option" where
  "applyTopNodeLimit path topNodeSets mode labeler =
     (case topNodeSets of
        None \<Rightarrow> Some path
      | Some tops \<Rightarrow>
          if list_all (\<lambda>n. isTopFlowNode n tops) path then Some path
          else if mode = Hide then None
          else Some (map (\<lambda>n. if isTopFlowNode n tops then n else otherFlowNode (pn_kind n) labeler) path))"

section \<open>Highlights and masks\<close>

definition pathContainsFlowNode :: "FlowPathNode list \<Rightarrow> FlowNodeFilter \<Rightarrow> bool" where
  "pathContainsFlowNode path f \<longleftrightarrow> list_ex (\<lambda>n. pn_kind n = nf_kind f \<and> pn_id n = nf_id f) path"

text \<open>The steps of a path.\<close>

definition steps :: "'a list \<Rightarrow> ('a \<times> 'a) list" where
  "steps path = zip path (tl path)"

definition pathContainsFlowLink :: "FlowPathNode list \<Rightarrow> FlowLinkSelection \<Rightarrow> bool" where
  "pathContainsFlowLink path l \<longleftrightarrow> list_ex (\<lambda>(s, t). pn_id s = ls_source l \<and> pn_id t = ls_target l) (steps path)"

definition buildFlowHighlightSets ::
    "PreparedFlowPath list \<Rightarrow> FlowNodeFilter option \<Rightarrow> FlowLinkSelection option \<Rightarrow> FlowNodeKind list \<Rightarrow>
     (jstring set \<times> jstring set) option" where
  "buildFlowHighlightSets prepared active link stages =
     (let nodeActive = (case active of None \<Rightarrow> False | Some a \<Rightarrow> nf_kind a \<in> set stages);
          matchesPath = (\<lambda>path. case link of
             Some l \<Rightarrow> pathContainsFlowLink path l
           | None \<Rightarrow> (case active of Some a \<Rightarrow> pathContainsFlowNode path a | None \<Rightarrow> False));
          paths = filter matchesPath (map pp_path prepared);
          nodes = set (concat (map (map pn_id) paths));
          links = set (concat (map (\<lambda>path. map (\<lambda>(s, t). pathLinkKey s t) (steps path)) paths))
      in if \<not> nodeActive \<and> link = None then None else if nodes = {} then None else Some (nodes, links))"

definition FLOW_MASK_TEXT :: jstring where "FLOW_MASK_TEXT = [0x2022, 0x2022, 0x2022, 0x2022]"

definition maskFlowLabel :: "jstring \<Rightarrow> jstring" where
  "maskFlowLabel label = (if label = [] then label else FLOW_MASK_TEXT)"

definition masked_node :: "DashboardFlowNode \<Rightarrow> bool" where
  "masked_node n \<longleftrightarrow> n_kind n \<in> SENSITIVE_FLOW_KINDS \<and> n_id n \<notin> OTHER_FLOW_NODE_IDS ` {KUser, KNode, KToken, KGroup, KModel, KChannel}"

definition maskFlowGraphLabels ::
    "(jstring \<times> DashboardFlowNode) list \<Rightarrow> (jstring \<times> DashboardFlowLink) list \<Rightarrow>
     (jstring \<times> DashboardFlowNode) list \<times> (jstring \<times> DashboardFlowLink) list" where
  "maskFlowGraphLabels nodes links =
     (let maskedById = map_of (rev (List.map_filter (\<lambda>(_, n). if masked_node n then Some (n_id n, maskFlowLabel (n_label n)) else None) nodes));
          label = (\<lambda>i l. case maskedById i of Some m \<Rightarrow> m | None \<Rightarrow> l)
      in (map (\<lambda>(k, n). (k, if masked_node n then n\<lparr>n_label := maskFlowLabel (n_label n)\<rparr> else n)) nodes,
          map (\<lambda>(k, l). (k, l\<lparr>l_sourceLabel := label (l_source l) (l_sourceLabel l),
                              l_targetLabel := label (l_target l) (l_targetLabel l)\<rparr>)) links))"

definition applyFlowHighlights ::
    "(jstring set \<times> jstring set) option \<Rightarrow> (jstring \<times> DashboardFlowNode) list \<Rightarrow> (jstring \<times> DashboardFlowLink) list \<Rightarrow>
     (jstring \<times> DashboardFlowNode) list \<times> (jstring \<times> DashboardFlowLink) list" where
  "applyFlowHighlights sets nodes links =
     (case sets of
        None \<Rightarrow> (nodes, links)
      | Some (ns, ls) \<Rightarrow>
          (map (\<lambda>(k, n). (k, n\<lparr>n_highlighted := Some (n_id n \<in> ns), n_dimmed := Some (n_id n \<notin> ns)\<rparr>)) nodes,
           map (\<lambda>(k, l). (k, l\<lparr>l_highlighted := Some (linkStableKey l \<in> ls), l_dimmed := Some (linkStableKey l \<notin> ls)\<rparr>)) links))"

section \<open>The graph\<close>

definition prepare_paths ::
    "flow_env \<Rightarrow> (jnum \<Rightarrow> jstring) option \<Rightarrow> FlowQuotaDataItem list \<Rightarrow> FlowMetric \<Rightarrow> FlowNodeKind list \<Rightarrow> FlowBuildOptions \<Rightarrow>
     PreparedFlowPath list" where
  "prepare_paths e ctx rows metric stages options =
     (let tops = buildTopNodeSets e ctx rows metric stages (normalizeTopNodeLimit (topNodeLimit options));
          mode = (case overflowMode options of None \<Rightarrow> Aggregate | Some m \<Rightarrow> m)
      in List.map_filter (\<lambda>row.
           map_option (\<lambda>path. \<lparr>pp_path = path, pp_metrics = rowMetrics row\<rparr>)
             (applyTopNodeLimit (flowPathForStages e ctx row stages) tops mode (otherNodeLabel options))) rows)"

definition first_ids :: "PreparedFlowPath list \<Rightarrow> jstring list" where
  "first_ids prepared = filter (\<lambda>i. i \<noteq> []) (List.map_filter (\<lambda>p. case pp_path p of [] \<Rightarrow> None | n # _ \<Rightarrow> Some (pn_id n)) prepared)"

text \<open>One prepared path: its nodes and its steps are added.\<close>

definition add_path ::
    "FlowMetric \<Rightarrow> (jstring \<Rightarrow> jstring) \<Rightarrow> PreparedFlowPath \<Rightarrow>
     (jstring \<times> DashboardFlowNode) list \<times> (jstring \<times> DashboardFlowLink) list \<Rightarrow>
     (jstring \<times> DashboardFlowNode) list \<times> (jstring \<times> DashboardFlowLink) list" where
  "add_path metric color prepared maps =
     (case pp_path prepared of
        [] \<Rightarrow> maps
      | first # _ \<Rightarrow>
          (foldl (\<lambda>m n. addNode m n (pp_metrics prepared) metric (color (pn_id first)) (pn_id first)) (fst maps) (pp_path prepared),
           foldl (\<lambda>m (s, t). addLink m s t (pp_metrics prepared) metric (color (pn_id first)) (pn_id first)) (snd maps)
             (steps (pp_path prepared))))"

definition add_paths ::
    "FlowMetric \<Rightarrow> (jstring \<Rightarrow> jstring) \<Rightarrow> PreparedFlowPath list \<Rightarrow>
     (jstring \<times> DashboardFlowNode) list \<times> (jstring \<times> DashboardFlowLink) list" where
  "add_paths metric color prepared = foldl (\<lambda>maps p. add_path metric color p maps) ([], []) prepared"

text \<open>\<open>a / b\<close> for a positive divisor.\<close>

definition jdiv_pos :: "jnum \<Rightarrow> jnum \<Rightarrow> jnum" where
  "jdiv_pos a b =
     (case b of
        Fin d \<Rightarrow> jdiv_fin a d
      | _ \<Rightarrow> (case a of Fin _ \<Rightarrow> jint 0 | _ \<Rightarrow> NaN))"

definition total_value :: "PreparedFlowPath list \<Rightarrow> DashboardFlowLink list \<Rightarrow> jnum" where
  "total_value prepared flowLinks =
     foldl (\<lambda>s l. jadd s (l_value l)) (jint 0) (filter (\<lambda>l. l_source l \<in> set (first_ids prepared)) flowLinks)"

definition set_shares :: "jnum \<Rightarrow> DashboardFlowLink list \<Rightarrow> DashboardFlowLink list" where
  "set_shares tot = map (\<lambda>l. l\<lparr>l_share := (if jlt (jint 0) tot then jdiv_pos (l_value l) tot else jint 0)\<rparr>)"

definition buildFlowGraph ::
    "flow_env \<Rightarrow> FlowQuotaDataItem list \<Rightarrow> FlowMetric \<Rightarrow> FlowRole \<Rightarrow> (jnum \<Rightarrow> jstring) option \<Rightarrow> FlowBuildOptions \<Rightarrow>
     DashboardFlowGraph" where
  "buildFlowGraph e rows metric role ctx options =
     (let palette = opt_palette options;
          stages = resolveVisibleStages role (visibleStages options);
          prepared = prepare_paths e ctx rows metric stages options;
          colors = stableColorMap e (sorted_by (localeCompare e) (first_ids prepared)) palette;
          color = (\<lambda>i. case colors i of Some c \<Rightarrow> c | None \<Rightarrow> colorAt e 0 palette);
          maps = add_paths metric color prepared;
          maps = (if maskSensitive options then maskFlowGraphLabels (fst maps) (snd maps) else maps);
          maps = applyFlowHighlights (buildFlowHighlightSets prepared (activeNode options) (activeLink options) stages)
                   (fst maps) (snd maps);
          flowLinks = sorted_by (\<lambda>a b. or_cmp (localeCompare e (l_source a) (l_source b)) (localeCompare e (l_target a) (l_target b)))
                        (map snd (snd maps));
          tot = total_value prepared flowLinks
      in \<lparr>g_nodes = sorted_by (byValueThenLabel e) (map snd (fst maps)),
          g_links = assignLinkDisplayColors e (set_shares tot flowLinks)\<rparr>)"

section \<open>Filter options and the whole\<close>

definition buildUserFilterOptions :: "flow_env \<Rightarrow> FlowQuotaDataItem list \<Rightarrow> FlowMetric \<Rightarrow> jstring list \<Rightarrow> FlowUserFilterOption list" where
  "buildUserFilterOptions e rows metric palette =
     (let colors = stableColorMap e (sorted_by (localeCompare e) (map (\<lambda>r. pn_id (userNode e r)) rows)) palette;
          users = foldl (\<lambda>m row.
            let user = userNode e row in
            if \<not> truthy (opt_num (user_id row)) \<and> name_or (username row) [] = [] then m
            else (let current = (case map_of m (pn_id user) of
                      Some c \<Rightarrow> c
                    | None \<Rightarrow> (pn_label user, jint 0, case colors (pn_id user) of Some c \<Rightarrow> c | None \<Rightarrow> colorAt e 0 palette))
                  in put (pn_id user) (fst current, jadd (fst (snd current)) (metricValue (rowMetrics row) metric), snd (snd current)) m))
            [] rows
      in sorted_by (\<lambda>a b. or_cmp (number_sign (jsub (uo_valueRaw b) (uo_valueRaw a))) (localeCompare e (uo_label a) (uo_label b)))
           (map (\<lambda>(v, label, raw, color). \<lparr>uo_value = v, uo_label = label, uo_valueLabel = formatNumber e raw,
              uo_valueRaw = raw, uo_color = color\<rparr>) users))"

text \<open>\<open>stageOrder.get(kind) ?? 0\<close>\<close>

definition stage_order :: "FlowNodeKind list \<Rightarrow> FlowNodeKind \<Rightarrow> int" where
  "stage_order stages k = (if k \<in> set stages then int (length (takeWhile (\<lambda>s. s \<noteq> k) stages)) else 0)"

definition node_totals ::
    "flow_env \<Rightarrow> (jnum \<Rightarrow> jstring) option \<Rightarrow> FlowQuotaDataItem list \<Rightarrow> FlowMetric \<Rightarrow> FlowNodeKind \<Rightarrow>
     (jstring \<times> FlowPathNode \<times> jnum) list" where
  "node_totals e ctx rows metric stage =
     foldl (\<lambda>m row.
       let n = NODE_BUILDERS e ctx stage row; key = nodeFilterKey (pn_kind n) (pn_id n);
           current = (case map_of m key of Some c \<Rightarrow> c | None \<Rightarrow> (n, jint 0))
       in put key (fst current, jadd (snd current) (metricValue (rowMetrics row) metric)) m) [] rows"

definition buildNodeFilterOptions ::
    "flow_env \<Rightarrow> (jnum \<Rightarrow> jstring) option \<Rightarrow> FlowQuotaDataItem list \<Rightarrow> FlowMetric \<Rightarrow> FlowRole \<Rightarrow> FlowNodeKind list option \<Rightarrow>
     jstring list \<Rightarrow> FlowNodeFilter list \<Rightarrow> FlowNodeFilterOption list" where
  "buildNodeFilterOptions e ctx rows metric role visible palette selected =
     (let stages = resolveVisibleStages role visible;
          colorIds = uniq (concat (map (\<lambda>row. map pn_id (flowPathForStages e ctx row stages)) rows));
          colors = stableColorMap e (sorted_by (localeCompare e) colorIds) palette;
          options = concat (map (\<lambda>stage.
            map (\<lambda>(_, n, v). \<lparr>no_kind = pn_kind n, no_value = pn_id n, no_label = pn_label n, no_valueLabel = formatNumber e v,
                no_valueRaw = v, no_color = (case colors (pn_id n) of Some c \<Rightarrow> c | None \<Rightarrow> colorAt e 0 palette)\<rparr>)
              (node_totals e ctx (filterRowsByNodes e ctx rows (selectedNodeFiltersExceptKind selected stage) stages) metric stage)) stages)
      in sorted_by (\<lambda>a b.
           or_cmp (stage_order stages (no_kind a) - stage_order stages (no_kind b))
           (or_cmp (number_sign (jsub (no_valueRaw b) (no_valueRaw a)))
           (or_cmp (localeCompare e (no_label a) (no_label b)) (localeCompare e (no_value a) (no_value b))))) options)"

definition buildFlowFilterOptions ::
    "flow_env \<Rightarrow> FlowQuotaDataItem list \<Rightarrow> FlowMetric \<Rightarrow> jstring list \<Rightarrow> FlowRole \<Rightarrow> FlowNodeKind list option \<Rightarrow>
     FlowNodeFilter list \<Rightarrow> FlowFilterOptions" where
  "buildFlowFilterOptions e rows metric palette role visible selected =
     \<lparr>fo_users = buildUserFilterOptions e rows metric palette,
      fo_nodes = buildNodeFilterOptions e None rows metric role visible palette selected\<rparr>"

definition buildDashboardFlowData ::
    "flow_env \<Rightarrow> FlowQuotaDataItem list \<Rightarrow> FlowMetric \<Rightarrow> FlowBuildOptions \<Rightarrow> ProcessedFlowData" where
  "buildDashboardFlowData e rows metric options =
     (let role = (case opt_role options of None \<Rightarrow> RUser | Some r \<Rightarrow> r);
          palette = opt_palette options;
          ctx = deletedToken options;
          stages = resolveVisibleStages role (visibleStages options);
          userFilteredRows = filterRows e rows (selectedUsers options);
          filteredRows = filterRowsByNodes e ctx userFilteredRows (selectedNodes options) stages
      in \<lparr>summary = buildSummary filteredRows,
          flow = buildFlowGraph e filteredRows metric role ctx options,
          filterOptions =
            \<lparr>fo_users = buildUserFilterOptions e rows metric palette,
             fo_nodes = buildNodeFilterOptions e ctx userFilteredRows metric role (visibleStages options) palette
               (selectedNodes options)\<rparr>\<rparr>)"

section \<open>Data of the chart\<close>

definition recordValue :: "jsval \<Rightarrow> jsval option" where
  "recordValue v = (if truthy v \<and> is_object v then Some v else None)"

text \<open>An array element at a number.\<close>

definition element_at :: "jsval \<Rightarrow> jnum \<Rightarrow> jsval" where
  "element_at v n = (case n of Fin x \<Rightarrow> if x \<in> \<int> \<and> 0 \<le> x then getidx v (nat \<lfloor>x\<rfloor>) else JUndef | _ \<Rightarrow> JUndef)"

definition sankeyDatumSource :: "jsval \<Rightarrow> jsval" where
  "sankeyDatumSource datum =
     (let nested = fld datum ''datum'' in
      if is_array nested then
        (let depth = numberValue (fld datum ''depth'') in
         case recordValue (element_at nested depth) of
           Some v \<Rightarrow> v
         | None \<Rightarrow> (case recordValue (getidx nested 0) of Some v \<Rightarrow> v | None \<Rightarrow> datum))
      else (case recordValue nested of Some v \<Rightarrow> v | None \<Rightarrow> datum))"

definition sankeyDatumValue :: "jsval \<Rightarrow> jstring \<Rightarrow> jsval" where
  "sankeyDatumValue datum key = (if getp datum key \<noteq> JUndef then getp datum key else getp (sankeyDatumSource datum) key)"

definition sankeyDatumFlag :: "jsval \<Rightarrow> jstring \<Rightarrow> bool" where
  "sankeyDatumFlag datum key \<longleftrightarrow> sankeyDatumValue datum key = JBool True"

definition flowSankeyDatumValue :: "jsval \<Rightarrow> jstring \<Rightarrow> jsval" where
  "flowSankeyDatumValue datum key = (case recordValue datum of Some r \<Rightarrow> sankeyDatumValue r key | None \<Rightarrow> JUndef)"

definition isSankeyLinkDatum :: "jsval \<Rightarrow> bool" where
  "isSankeyLinkDatum datum \<longleftrightarrow> sankeyDatumValue datum (js ''source'') \<noteq> JUndef \<and> sankeyDatumValue datum (js ''target'') \<noteq> JUndef"

definition kind_of_name :: "jsval \<Rightarrow> FlowNodeKind option" where
  "kind_of_name v = find (\<lambda>k. v = JStr (kind_name k)) [KUser, KNode, KToken, KGroup, KModel, KChannel]"

definition flowNodeFilterFromSankeyDatum :: "flow_env \<Rightarrow> jsval \<Rightarrow> FlowNodeFilter option" where
  "flowNodeFilterFromSankeyDatum e datum =
     (case recordValue datum of
        None \<Rightarrow> None
      | Some r \<Rightarrow>
          if isSankeyLinkDatum r then None
          else (case (flowSankeyDatumValue r (js ''key''), kind_of_name (flowSankeyDatumValue r (js ''kind''))) of
                  (JStr i, Some k) \<Rightarrow> Some \<lparr>nf_kind = k, nf_id = i\<rparr>
                | (JNum n, Some k) \<Rightarrow> Some \<lparr>nf_kind = k, nf_id = numstr e n\<rparr>
                | _ \<Rightarrow> None))"

text \<open>The links of the chart in the order they are drawn, with their depth.\<close>

definition sankey_links :: "flow_env \<Rightarrow> DashboardFlowGraph \<Rightarrow> (DashboardFlowLink \<times> nat) list" where
  "sankey_links e g =
     map (\<lambda>(index, l). (l, if l_highlighted l = Some True then 1000000 + index
                           else if l_dimmed l = Some True then index else 100000 + index))
       (enumerate 0 (sorted_by (byLinkDrawPriority e) (filter (\<lambda>l. jlt (jint 0) (l_value l)) (g_links g))))"

end
