(* ===== verification/Flow_Conservation.thy ===== *)
theory Flow_Conservation
  imports Dashboard_Flow "HOL-Library.Multiset"
begin

text \<open>
  The flow graph conserves what flows: the links into a node and the links out of it sum up
  to the value of the node.  Sums of usage are sums of integers, which are exact in binary64
  arithmetic up to \<open>2^53\<close>.
\<close>

section \<open>Maps that sum up\<close>

text \<open>The integer that an exact number stands for.\<close>

definition count_of :: "jnum \<Rightarrow> int" where
  "count_of x = \<lfloor>finite_value x\<rfloor>"

lemma count_of_jint [simp]: "count_of (jint n) = n"
  by (simp add: count_of_def jint_def)

text \<open>A number that is an exact non-negative integer.\<close>

definition is_count :: "jnum \<Rightarrow> bool" where
  "is_count x \<longleftrightarrow> x = jint (count_of x) \<and> 0 \<le> count_of x"

lemma is_countE:
  assumes "is_count x"
  obtains n where "x = jint n" "0 \<le> n"
  using assms unfolding is_count_def by blast

lemma is_count_jint [simp]: "is_count (jint n) \<longleftrightarrow> 0 \<le> n"
  by (simp add: is_count_def)

lemma count_nonneg [dest]: "is_count x \<Longrightarrow> 0 \<le> count_of x"
  by (simp add: is_count_def)

text \<open>Sums of counts are exact up to the largest safe integer.\<close>

lemma jadd_counts:
  assumes "is_count x" "is_count y" "count_of x + count_of y \<le> max_safe"
  shows "is_count (jadd x y)" "count_of (jadd x y) = count_of x + count_of y"
proof -
  obtain a b where "x = jint a" "0 \<le> a" "y = jint b" "0 \<le> b" using assms(1,2) by (blast elim: is_countE)
  moreover have "jadd (jint a) (jint b) = jint (a + b)" using calculation assms(3) by (intro jadd_jint) simp
  ultimately show "is_count (jadd x y)" "count_of (jadd x y) = count_of x + count_of y" by simp_all
qed

lemma sum_put:
  fixes f :: "'k \<times> 'v \<Rightarrow> int"
  assumes "distinct (map fst m)" "map_of m k = Some u"
  shows "sum_list (map f (put k v m)) = sum_list (map f m) - f (k, u) + f (k, v)"
  using assms
proof (induction m)
  case (Cons e m)
  then show ?case by (cases e) (auto split: if_splits dest: map_of_SomeD)
qed simp

lemma put_absent: "map_of m k = None \<Longrightarrow> put k v m = m @ [(k, v)]"
  by (induction m) (auto split: if_splits)

lemma in_put_cases: "e \<in> set (put k v m) \<Longrightarrow> e = (k, v) \<or> e \<in> set m"
  by (induction m) (auto split: if_splits)

text \<open>
  A map from keys to entries to which items are added one after the other: an item adds its
  gain to the value of the entry of its key; the attributes of an entry are those of the
  item that created it.
\<close>

locale tally =
  fixes key :: "'x \<Rightarrow> 'k" and gain :: "'x \<Rightarrow> jnum" and attr_of :: "'x \<Rightarrow> 'a"
    and val :: "'v \<Rightarrow> jnum" and attr :: "'v \<Rightarrow> 'a"
    and step :: "('k \<times> 'v) list \<Rightarrow> 'x \<Rightarrow> ('k \<times> 'v) list"
  assumes step_new: "map_of m (key x) = None \<Longrightarrow>
      \<exists>v. step m x = put (key x) v m \<and> val v = jadd (jint 0) (gain x) \<and> attr v = attr_of x"
    and step_known: "map_of m (key x) = Some u \<Longrightarrow>
      \<exists>v. step m x = put (key x) v m \<and> val v = jadd (val u) (gain x) \<and> attr v = attr u"
begin

definition consistent :: "'x list \<Rightarrow> bool" where
  "consistent xs \<longleftrightarrow> (\<forall>x\<in>set xs. \<forall>y\<in>set xs. key x = key y \<longrightarrow> attr_of x = attr_of y)"

definition gained :: "'x list \<Rightarrow> 'k \<Rightarrow> int" where
  "gained xs k = (\<Sum>x\<leftarrow>xs. if key x = k then count_of (gain x) else 0)"

text \<open>The gains are counts, and those of a key sum up to a safe integer.\<close>

definition exact :: "'x list \<Rightarrow> bool" where
  "exact xs \<longleftrightarrow> (\<forall>x\<in>set xs. is_count (gain x)) \<and> (\<forall>k. gained xs k \<le> max_safe) \<and> consistent xs"

text \<open>Every entry belongs to an item, and every item has an entry.\<close>

definition keyed :: "'x list \<Rightarrow> ('k \<times> 'v) list \<Rightarrow> bool" where
  "keyed xs m \<longleftrightarrow> distinct (map fst m) \<and> fst ` set m = key ` set xs \<and>
     (\<forall>e\<in>set m. \<exists>x\<in>set xs. fst e = key x \<and> attr (snd e) = attr_of x)"

definition worth :: "('a \<Rightarrow> bool) \<Rightarrow> 'k \<times> 'v \<Rightarrow> int" where
  "worth P e = (if P (attr (snd e)) then count_of (val (snd e)) else 0)"

definition summed :: "'x list \<Rightarrow> ('k \<times> 'v) list \<Rightarrow> bool" where
  "summed xs m \<longleftrightarrow> (\<forall>e\<in>set m. is_count (val (snd e)) \<and> count_of (val (snd e)) = gained xs (fst e)) \<and>
     (\<forall>P. sum_list (map (worth P) m) = (\<Sum>x\<leftarrow>xs. if P (attr_of x) then count_of (gain x) else 0))"

lemma consistentD: "consistent xs \<Longrightarrow> x \<in> set xs \<Longrightarrow> y \<in> set xs \<Longrightarrow> key x = key y \<Longrightarrow> attr_of x = attr_of y"
  unfolding consistent_def by blast

lemma consistent_subset: "consistent ys \<Longrightarrow> set xs \<subseteq> set ys \<Longrightarrow> consistent xs"
  unfolding consistent_def by (meson subsetD)

lemma gained_snoc: "gained (xs @ [x]) k = gained xs k + (if key x = k then count_of (gain x) else 0)"
  by (simp add: gained_def)

lemma gained_nonneg: "\<forall>x\<in>set xs. is_count (gain x) \<Longrightarrow> 0 \<le> gained xs k"
  unfolding gained_def by (rule sum_list_nonneg) auto

lemma gained_other: "k \<notin> key ` set xs \<Longrightarrow> gained xs k = 0"
  unfolding gained_def by (induction xs) auto

lemma exact_prefix:
  assumes "exact (xs @ [x])"
  shows "exact xs"
proof -
  have "gained xs k \<le> max_safe" for k
  proof -
    have "gained xs k + (if key x = k then count_of (gain x) else 0) \<le> max_safe"
      using assms by (simp add: exact_def flip: gained_snoc)
    then show ?thesis using assms count_nonneg [of "gain x"] by (auto simp: exact_def split: if_splits)
  qed
  then show ?thesis using assms consistent_subset [of "xs @ [x]" xs] by (auto simp: exact_def)
qed

lemma exact_gain:
  assumes "exact (xs @ [x])"
  shows "is_count (gain x)" "gained xs (key x) + count_of (gain x) \<le> max_safe" "count_of (gain x) \<le> max_safe"
proof -
  have "gained (xs @ [x]) (key x) \<le> max_safe" using assms by (simp add: exact_def)
  moreover have "0 \<le> gained xs (key x)" using assms by (intro gained_nonneg) (simp add: exact_def)
  ultimately show "is_count (gain x)" "gained xs (key x) + count_of (gain x) \<le> max_safe" "count_of (gain x) \<le> max_safe"
    using assms by (simp_all add: gained_snoc exact_def)
qed

lemma keyed_step:
  assumes "keyed xs m"
  shows "keyed (xs @ [x]) (step m x)"
proof (cases "map_of m (key x)")
  case None
  from step_new [OF None] obtain v where "step m x = m @ [(key x, v)]" "attr v = attr_of x"
    by (auto simp: put_absent None)
  moreover have "key x \<notin> fst ` set m" using None by (simp add: map_of_eq_None_iff)
  ultimately show ?thesis using assms by (auto simp: keyed_def)
next
  case (Some u)
  note u = map_of_SomeD [OF Some]
  from step_known [OF Some] obtain v where v: "step m x = put (key x) v m" "attr v = attr u" by blast
  have "e = (key x, v) \<or> e \<in> set m" if "e \<in> set (put (key x) v m)" for e using in_put_cases that by metis
  moreover obtain y where "y \<in> set xs" "key x = key y" "attr u = attr_of y" using assms u by (force simp: keyed_def)
  ultimately have "\<exists>y\<in>set (xs @ [x]). fst e = key y \<and> attr (snd e) = attr_of y" if "e \<in> set (put (key x) v m)" for e
    using assms v(2) that unfolding keyed_def by (metis Un_iff fst_conv set_append snd_conv)
  then show ?thesis using assms by (simp add: keyed_def v(1) insert_absorb)
qed

lemma keyed_fold: "keyed xs (foldl step [] xs)"
proof (induction xs rule: rev_induct)
  case Nil
  then show ?case by (simp add: keyed_def)
next
  case (snoc x xs)
  then show ?case using keyed_step [of xs _ x] by simp
qed

lemma summed_new:
  assumes "exact (xs @ [x])" "keyed xs m" "summed xs m" "map_of m (key x) = None"
  shows "summed (xs @ [x]) (step m x)"
proof -
  from step_new [OF assms(4)] obtain v where v: "step m x = m @ [(key x, v)]" "val v = jadd (jint 0) (gain x)" "attr v = attr_of x"
    by (auto simp: put_absent assms(4))
  have c: "is_count (val v)" "count_of (val v) = count_of (gain x)"
    using jadd_counts [of "jint 0" "gain x"] exact_gain [OF assms(1)] by (simp_all add: v(2))
  have new: "key x \<notin> fst ` set m" using assms(4) by (simp add: map_of_eq_None_iff)
  moreover have "gained xs (key x) = 0" using new assms(2) by (intro gained_other) (simp add: keyed_def)
  ultimately have "\<forall>e\<in>set (m @ [(key x, v)]). is_count (val (snd e)) \<and> count_of (val (snd e)) = gained (xs @ [x]) (fst e)"
    using assms(3) c by (auto simp: gained_snoc summed_def)
  then show ?thesis using assms(3) c(2) v(3) by (simp add: summed_def v(1) worth_def)
qed

lemma summed_known:
  assumes "exact (xs @ [x])" "keyed xs m" "summed xs m" "map_of m (key x) = Some u"
  shows "summed (xs @ [x]) (step m x)"
proof -
  note u = map_of_SomeD [OF assms(4)]
  from step_known [OF assms(4)] obtain v where v: "step m x = put (key x) v m" "val v = jadd (val u) (gain x)" "attr v = attr u"
    by blast
  have "is_count (val u)" "count_of (val u) = gained xs (key x)" using assms(3) u by (force simp: summed_def)+
  then have c: "is_count (val v)" "count_of (val v) = count_of (val u) + count_of (gain x)" "count_of (val u) = gained xs (key x)"
    using jadd_counts [of "val u" "gain x"] exact_gain [OF assms(1)] by (simp_all add: v(2))
  obtain y where y: "y \<in> set xs" "key x = key y" "attr u = attr_of y" using assms(2) u by (force simp: keyed_def)
  have "attr_of x = attr_of y"
    by (rule consistentD [of "xs @ [x]"]) (use assms(1) y in \<open>simp_all add: exact_def\<close>)
  then have attr: "attr u = attr_of x" using y(3) by simp
  have d: "distinct (map fst m)" using assms(2) by (simp add: keyed_def)
  have "is_count (val (snd e)) \<and> count_of (val (snd e)) = gained (xs @ [x]) (fst e)" if "e \<in> set (put (key x) v m)" for e
    using in_put [OF d, of "fst e" "snd e" "key x" v] that assms(3) c by (auto simp: summed_def gained_snoc)
  moreover have "sum_list (map (worth P) (put (key x) v m)) = (\<Sum>y\<leftarrow>xs @ [x]. if P (attr_of y) then count_of (gain y) else 0)" for P
    using assms(3) sum_put [OF d assms(4), of "worth P" v] c(2) attr v(3) by (simp add: summed_def worth_def)
  ultimately show ?thesis using v(1) by (simp add: summed_def)
qed

lemma summed_fold: "exact xs \<Longrightarrow> summed xs (foldl step [] xs)"
proof (induction xs rule: rev_induct)
  case Nil
  then show ?case by (simp add: summed_def)
next
  case (snoc x xs)
  from snoc.prems exact_prefix have "summed xs (foldl step [] xs)" by (intro snoc.IH) blast
  then show ?case using summed_new [OF snoc.prems keyed_fold] summed_known [OF snoc.prems keyed_fold]
    by (cases "map_of (foldl step [] xs) (key x)") simp_all
qed

end

section \<open>The two maps of the graph\<close>

definition node_items :: "PreparedFlowPath list \<Rightarrow> (PreparedFlowPath \<times> FlowPathNode) list" where
  "node_items ps = concat (map (\<lambda>p. map (Pair p) (pp_path p)) ps)"

definition link_items :: "PreparedFlowPath list \<Rightarrow> (PreparedFlowPath \<times> FlowPathNode \<times> FlowPathNode) list" where
  "link_items ps = concat (map (\<lambda>p. map (Pair p) (steps (pp_path p))) ps)"

definition first_id :: "PreparedFlowPath \<Rightarrow> jstring" where
  "first_id p = pn_id (hd (pp_path p))"

definition item_gain :: "FlowMetric \<Rightarrow> PreparedFlowPath \<times> 'a \<Rightarrow> jnum" where
  "item_gain metric x = metricValue (pp_metrics (fst x)) metric"

definition node_step ::
    "FlowMetric \<Rightarrow> (jstring \<Rightarrow> jstring) \<Rightarrow> (jstring \<times> DashboardFlowNode) list \<Rightarrow> PreparedFlowPath \<times> FlowPathNode \<Rightarrow>
     (jstring \<times> DashboardFlowNode) list" where
  "node_step metric color m x =
     addNode m (snd x) (pp_metrics (fst x)) metric (color (first_id (fst x))) (first_id (fst x))"

definition link_step ::
    "FlowMetric \<Rightarrow> (jstring \<Rightarrow> jstring) \<Rightarrow> (jstring \<times> DashboardFlowLink) list \<Rightarrow>
     PreparedFlowPath \<times> FlowPathNode \<times> FlowPathNode \<Rightarrow> (jstring \<times> DashboardFlowLink) list" where
  "link_step metric color m x =
     addLink m (fst (snd x)) (snd (snd x)) (pp_metrics (fst x)) metric (color (first_id (fst x))) (first_id (fst x))"

lemma add_paths_items:
  "add_paths metric color ps =
     (foldl (node_step metric color) [] (node_items ps), foldl (link_step metric color) [] (link_items ps))"
proof (induction ps rule: rev_induct)
  case Nil
  then show ?case by (simp add: add_paths_def node_items_def link_items_def)
next
  case (snoc p ps)
  have n: "foldl (node_step metric color) m (map (Pair p) ns) =
      foldl (\<lambda>m n. addNode m n (pp_metrics p) metric (color (first_id p)) (first_id p)) m ns" for m ns
    by (induction ns arbitrary: m) (simp_all add: node_step_def)
  have l: "foldl (link_step metric color) m (map (Pair p) ns) =
      foldl (\<lambda>m (s, t). addLink m s t (pp_metrics p) metric (color (first_id p)) (first_id p)) m ns" for m ns
    by (induction ns arbitrary: m) (simp_all add: link_step_def split_beta)
  have n1: "node_step metric color m (p, a) = addNode m a (pp_metrics p) metric (color (first_id p)) (first_id p)" for m a
    by (simp add: node_step_def)
  have "add_paths metric color (ps @ [p]) = add_path metric color p (add_paths metric color ps)"
    by (simp add: add_paths_def)
  then show ?case
    by (cases "pp_path p")
      (simp_all add: snoc.IH add_path_def node_items_def link_items_def n l n1 first_id_def steps_def split_beta)
qed

interpretation nodes: tally "\<lambda>x. pn_id (snd x)" "item_gain metric" "\<lambda>x. (pn_id (snd x), pn_kind (snd x))"
    n_value "\<lambda>v. (n_id v, n_kind v)" "node_step metric color" for metric color
  by unfold_locales (simp add: node_step_def addNode_def item_gain_def Let_def, rule exI, rule conjI, rule refl, simp)+

interpretation links: tally "\<lambda>x. pathLinkKey (fst (snd x)) (snd (snd x))" "item_gain metric"
    "\<lambda>x. (pn_id (fst (snd x)), pn_id (snd (snd x)))" l_value "\<lambda>v. (l_source v, l_target v)" "link_step metric color" for metric color
  by unfold_locales (simp add: link_step_def addLink_def item_gain_def Let_def, rule exI, rule conjI, rule refl, simp)+

section \<open>Well-formed paths\<close>

text \<open>An id starts with the name of its kind, and a path has a node for every stage.\<close>

definition wf_node :: "FlowPathNode \<Rightarrow> bool" where
  "wf_node n \<longleftrightarrow> (\<exists>r. pn_id n = kind_name (pn_kind n) @ 58 # r) \<and> 0 \<notin> set (pn_id n)"

definition wf_path :: "FlowNodeKind list \<Rightarrow> FlowPathNode list \<Rightarrow> bool" where
  "wf_path stages path \<longleftrightarrow> map pn_kind path = stages \<and> list_all wf_node path"

lemma kind_name_inject: "kind_name k @ 58 # r = kind_name k' @ 58 # r' \<Longrightarrow> k = k'"
  by (cases k; cases k') (simp_all add: js_eval)

lemma wf_node_kind: "wf_node n \<Longrightarrow> wf_node n' \<Longrightarrow> pn_id n = pn_id n' \<Longrightarrow> pn_kind n = pn_kind n'"
  unfolding wf_node_def by (metis kind_name_inject)

lemma append_zero_inject: "0 \<notin> set s \<Longrightarrow> 0 \<notin> set s' \<Longrightarrow> s @ (0::'a::zero) # t = s' @ 0 # t' \<Longrightarrow> s = s' \<and> t = t'"
proof (induction s arbitrary: s')
  case Nil
  then show ?case by (cases s') auto
next
  case (Cons c s)
  then show ?case by (cases s') auto
qed

lemma wf_pathLinkKey:
  "wf_node s \<Longrightarrow> wf_node s' \<Longrightarrow> pathLinkKey s t = pathLinkKey s' t' \<Longrightarrow> pn_id s = pn_id s' \<and> pn_id t = pn_id t'"
  unfolding wf_node_def pathLinkKey_def using append_zero_inject [of "pn_id s" "pn_id s'" "pn_id t" "pn_id t'"] by simp

lemma distinct_ids: "wf_path stages path \<Longrightarrow> distinct stages \<Longrightarrow> distinct (map pn_id path)"
proof (induction path arbitrary: stages)
  case (Cons n path)
  have "pn_id n \<noteq> pn_id n'" if "n' \<in> set path" for n'
  proof
    assume "pn_id n = pn_id n'"
    moreover have "wf_node n" "wf_node n'" using Cons.prems(1) that by (auto simp: wf_path_def list_all_iff)
    ultimately have "pn_kind n = pn_kind n'" by (blast intro: wf_node_kind)
    then show False using Cons.prems that by (auto simp: wf_path_def)
  qed
  moreover have "distinct (map pn_id path)"
    by (rule Cons.IH [of "tl stages"]) (use Cons.prems in \<open>auto simp: wf_path_def\<close>)
  ultimately show ?case by auto
qed simp

lemma map_fst_steps: "map fst (steps path) = butlast path"
  by (induction path rule: induct_list012) (simp_all add: steps_def)

lemma map_snd_steps: "map snd (steps path) = tl path"
  by (induction path rule: induct_list012) (simp_all add: steps_def)

section \<open>Sums over paths\<close>

abbreviation path_gain :: "FlowMetric \<Rightarrow> PreparedFlowPath \<Rightarrow> int" where
  "path_gain metric p \<equiv> count_of (metricValue (pp_metrics p) metric)"

definition good_paths :: "FlowMetric \<Rightarrow> FlowNodeKind list \<Rightarrow> PreparedFlowPath list \<Rightarrow> bool" where
  "good_paths metric stages ps \<longleftrightarrow> distinct stages \<and>
     (\<forall>p\<in>set ps. wf_path stages (pp_path p) \<and> is_count (metricValue (pp_metrics p) metric)) \<and>
     (\<Sum>p\<leftarrow>ps. path_gain metric p) \<le> max_safe"

lemma sum_concat: "sum_list (map f (concat xss)) = (\<Sum>xs\<leftarrow>xss. sum_list (map f xs))" for f :: "'a \<Rightarrow> int"
  by (induction xss) simp_all

lemma sum_node_items: "sum_list (map f (node_items ps)) = (\<Sum>p\<leftarrow>ps. \<Sum>n\<leftarrow>pp_path p. f (p, n))" for f :: "_ \<Rightarrow> int"
  by (simp add: node_items_def sum_concat comp_def)

lemma sum_link_items: "sum_list (map f (link_items ps)) = (\<Sum>p\<leftarrow>ps. \<Sum>s\<leftarrow>steps (pp_path p). f (p, s))" for f :: "_ \<Rightarrow> int"
  by (simp add: link_items_def sum_concat comp_def)

lemma sum_distinct:
  "distinct (map f xs) \<Longrightarrow> (\<Sum>x\<leftarrow>xs. if f x = k then g else 0) = (if k \<in> f ` set xs then g else (0::int))"
  by (induction xs) auto

lemma sum_list_cong: "(\<And>x. x \<in> set xs \<Longrightarrow> f x = g x) \<Longrightarrow> sum_list (map f xs) = sum_list (map g xs)" for f :: "'a \<Rightarrow> int"
  by (metis map_cong)

lemma in_items:
  "x \<in> set (node_items ps) \<longleftrightarrow> fst x \<in> set ps \<and> snd x \<in> set (pp_path (fst x))"
  "y \<in> set (link_items ps) \<longleftrightarrow> fst y \<in> set ps \<and> snd y \<in> set (steps (pp_path (fst y)))"
  by (cases x; cases y; auto simp: node_items_def link_items_def)+

lemma in_steps: "s \<in> set (steps path) \<Longrightarrow> fst s \<in> set path \<and> snd s \<in> set path"
  unfolding steps_def by (metis in_set_zipE list.set_sel(2) prod.collapse tl_Nil list.set_cases)

lemma good_node: "good_paths metric stages ps \<Longrightarrow> p \<in> set ps \<Longrightarrow> n \<in> set (pp_path p) \<Longrightarrow> wf_node n"
  by (auto simp: good_paths_def wf_path_def list_all_iff)

lemma good_distinct: "good_paths metric stages ps \<Longrightarrow> p \<in> set ps \<Longrightarrow> distinct (map pn_id (pp_path p))"
  by (auto simp: good_paths_def intro: distinct_ids)

lemma good_sum_le:
  assumes "good_paths metric stages ps" "\<And>p. p \<in> set ps \<Longrightarrow> f p \<le> path_gain metric p"
  shows "(\<Sum>p\<leftarrow>ps. f p) \<le> max_safe"
proof -
  have "(\<Sum>p\<leftarrow>ps. f p) \<le> (\<Sum>p\<leftarrow>ps. path_gain metric p)" by (rule sum_list_mono) (rule assms(2))
  then show ?thesis using assms(1) by (simp add: good_paths_def)
qed

lemma good_gain: "good_paths metric stages ps \<Longrightarrow> p \<in> set ps \<Longrightarrow> 0 \<le> path_gain metric p"
  by (auto simp: good_paths_def)

text \<open>Every path gives its gain to each of its nodes once.\<close>

lemma nodes_gained:
  assumes "good_paths metric stages ps"
  shows "nodes.gained metric (node_items ps) k = (\<Sum>p\<leftarrow>ps. if k \<in> pn_id ` set (pp_path p) then path_gain metric p else 0)"
  unfolding nodes.gained_def sum_node_items item_gain_def fst_conv snd_conv
  by (rule sum_list_cong) (simp add: sum_distinct good_distinct [OF assms])

lemma nodes_exact:
  assumes "good_paths metric stages ps"
  shows "nodes.exact metric (node_items ps)"
proof -
  have "nodes.gained metric (node_items ps) k \<le> max_safe" for k
    unfolding nodes_gained [OF assms] by (rule good_sum_le [OF assms]) (simp add: good_gain [OF assms])
  moreover have "nodes.consistent (node_items ps)"
    unfolding nodes.consistent_def using good_node [OF assms] wf_node_kind by (auto simp: in_items)
  ultimately show ?thesis using assms by (auto simp: nodes.exact_def item_gain_def in_items good_paths_def)
qed

lemma distinct_link_keys:
  assumes "distinct (map pn_id path)" "\<And>n. n \<in> set path \<Longrightarrow> wf_node n"
  shows "distinct (map (\<lambda>s. pathLinkKey (fst s) (snd s)) (steps path))"
proof -
  have "map (\<lambda>s. pn_id (fst s)) (steps path) = butlast (map pn_id path)"
    using arg_cong [OF map_fst_steps [of path], of "map pn_id"] by (simp add: map_butlast comp_def)
  then have "distinct (map (\<lambda>s. pn_id (fst s)) (steps path))"
    using assms(1) by (simp add: distinct_butlast)
  moreover have "pn_id (fst s) = pn_id (fst s')"
    if "s \<in> set (steps path)" "s' \<in> set (steps path)" "pathLinkKey (fst s) (snd s) = pathLinkKey (fst s') (snd s')" for s s'
    using wf_pathLinkKey [OF _ _ that(3)] assms(2) in_steps that(1,2) by blast
  ultimately show ?thesis unfolding distinct_map inj_on_def by metis
qed

lemma links_exact:
  assumes "good_paths metric stages ps"
  shows "links.exact metric (link_items ps)"
proof -
  have "links.gained metric (link_items ps) k \<le> max_safe" for k
  proof -
    have "distinct (map (\<lambda>s. pathLinkKey (fst s) (snd s)) (steps (pp_path p)))" if "p \<in> set ps" for p
      using good_distinct [OF assms that] good_node [OF assms that] by (rule distinct_link_keys)
    then show ?thesis unfolding links.gained_def sum_link_items item_gain_def fst_conv snd_conv
      by (intro good_sum_le [OF assms]) (simp add: sum_distinct good_gain [OF assms])
  qed
  moreover have "links.consistent (link_items ps)"
  proof -
    have "wf_node (fst (snd x))" if "x \<in> set (link_items ps)" for x
      using that in_steps [of "snd x" "pp_path (fst x)"] good_node [OF assms, of "fst x"] by (simp add: in_items)
    then show ?thesis unfolding links.consistent_def using wf_pathLinkKey by blast
  qed
  ultimately show ?thesis using assms by (auto simp: links.exact_def item_gain_def in_items good_paths_def)
qed

text \<open>
  What enters a node that is not first on any path, and what leaves a node that is not last
  on any path, is what the paths through it gain.
\<close>

lemma path_inflow:
  assumes "distinct (map pn_id path)" "path = [] \<or> pn_id (hd path) \<noteq> k"
  shows "(\<Sum>s\<leftarrow>steps path. if pn_id (snd s) = k then g else 0) = (if k \<in> pn_id ` set path then g else (0::int))"
proof -
  have "(\<Sum>s\<leftarrow>steps path. if pn_id (snd s) = k then g else 0) = (\<Sum>n\<leftarrow>tl path. if pn_id n = k then g else 0)"
    unfolding map_snd_steps [symmetric] by (simp add: comp_def)
  also have "\<dots> = (if k \<in> pn_id ` set (tl path) then g else 0)"
    using assms(1) by (intro sum_distinct) (simp add: distinct_tl map_tl)
  finally show ?thesis using assms(2) by (cases path) auto
qed

lemma path_outflow:
  assumes "distinct (map pn_id path)" "path = [] \<or> pn_id (last path) \<noteq> k"
  shows "(\<Sum>s\<leftarrow>steps path. if pn_id (fst s) = k then g else 0) = (if k \<in> pn_id ` set path then g else (0::int))"
proof -
  have "(\<Sum>s\<leftarrow>steps path. if pn_id (fst s) = k then g else 0) = (\<Sum>n\<leftarrow>butlast path. if pn_id n = k then g else 0)"
    unfolding map_fst_steps [symmetric] by (simp add: comp_def)
  also have "\<dots> = (if k \<in> pn_id ` set (butlast path) then g else 0)"
    using assms(1) by (intro sum_distinct) (simp add: distinct_butlast map_butlast)
  finally show ?thesis using assms(2) by (cases path rule: rev_cases) auto
qed

lemma links_inflow:
  assumes "good_paths metric stages ps" "\<And>p. p \<in> set ps \<Longrightarrow> pp_path p = [] \<or> pn_id (hd (pp_path p)) \<noteq> k"
  shows "(\<Sum>x\<leftarrow>link_items ps. if pn_id (snd (snd x)) = k then count_of (item_gain metric x) else 0) =
    nodes.gained metric (node_items ps) k"
  unfolding nodes_gained [OF assms(1)] sum_link_items item_gain_def fst_conv snd_conv
  by (rule sum_list_cong) (rule path_inflow [OF good_distinct [OF assms(1)] assms(2)])

lemma links_outflow:
  assumes "good_paths metric stages ps" "\<And>p. p \<in> set ps \<Longrightarrow> pp_path p = [] \<or> pn_id (last (pp_path p)) \<noteq> k"
  shows "(\<Sum>x\<leftarrow>link_items ps. if pn_id (fst (snd x)) = k then count_of (item_gain metric x) else 0) =
    nodes.gained metric (node_items ps) k"
  unfolding nodes_gained [OF assms(1)] sum_link_items item_gain_def fst_conv snd_conv
  by (rule sum_list_cong) (rule path_outflow [OF good_distinct [OF assms(1)] assms(2)])

text \<open>What leaves the first nodes is what all the paths gain.\<close>

lemma path_first:
  assumes "distinct (map pn_id path)" "2 \<le> length path" "\<And>n. n \<in> set (tl path) \<Longrightarrow> pn_id n \<notin> I" "pn_id (hd path) \<in> I"
  shows "(\<Sum>s\<leftarrow>steps path. if pn_id (fst s) \<in> I then g else 0) = (g::int)"
proof -
  obtain a b r where path: "path = a # b # r"
    using assms(2) by (metis Suc_le_length_iff numeral_2_eq_2)
  have "(\<Sum>s\<leftarrow>steps path. if pn_id (fst s) \<in> I then g else 0) = (\<Sum>n\<leftarrow>butlast path. if pn_id n \<in> I then g else 0)"
    unfolding map_fst_steps [symmetric] by (simp add: comp_def)
  moreover have "butlast path = a # butlast (b # r)" by (simp add: path)
  moreover have "(\<Sum>n\<leftarrow>butlast (b # r). if pn_id n \<in> I then g else 0) = (\<Sum>n\<leftarrow>butlast (b # r). 0)"
    using assms(3) path by (intro sum_list_cong) (auto dest: in_set_butlastD split: if_splits)
  ultimately show ?thesis using assms(4) path by simp
qed

section \<open>The prepared paths\<close>

lemma stages_distinct: "distinct (resolveVisibleStages role visible)"
  by (cases role) (auto simp: resolveVisibleStages_def Let_def split: option.splits)

lemma stages_length: "2 \<le> length (resolveVisibleStages role visible)"
  by (cases role) (auto simp: resolveVisibleStages_def Let_def MIN_FLOW_STAGES_def split: option.splits)

text \<open>
  The rows the sums are exact for: the chosen metric of each is an exact non-negative integer,
  their sum is a safe integer, and no name holds the code unit \<open>0\<close>.
\<close>

definition clean_row :: "FlowQuotaDataItem \<Rightarrow> bool" where
  "clean_row row \<longleftrightarrow> list_all (\<lambda>v. case v of None \<Rightarrow> True | Some s \<Rightarrow> 0 \<notin> set s)
     [username row, node_name row, use_group row, token_name row, channel_name row, model_name row]"

definition flow_input :: "FlowMetric \<Rightarrow> FlowQuotaDataItem list \<Rightarrow> bool" where
  "flow_input metric rows \<longleftrightarrow> list_all (\<lambda>row. clean_row row \<and> is_count (metricValue (rowMetrics row) metric)) rows \<and>
     (\<Sum>row\<leftarrow>rows. count_of (metricValue (rowMetrics row) metric)) \<le> max_safe"

text \<open>\<open>String(n)\<close> never holds the code unit \<open>0\<close>.\<close>

definition plain_numbers :: "flow_env \<Rightarrow> bool" where
  "plain_numbers e \<longleftrightarrow> (\<forall>n. 0 \<notin> set (numstr e n))"

lemma name_or_clean: "(case v of None \<Rightarrow> True | Some s \<Rightarrow> 0 \<notin> set s) \<Longrightarrow> 0 \<notin> set d \<Longrightarrow> 0 \<notin> set (name_or v d)"
  by (cases v) (auto simp: name_or_def)

lemma builder_kind [simp]: "pn_kind (NODE_BUILDERS e ctx k row) = k"
  by (cases k) (simp_all add: userNode_def nodeNameNode_def tokenNode_def groupNode_def modelNode_def channelNode_def Let_def)

lemma kind_clean: "0 \<notin> set (kind_name k)"
  by (cases k) (simp_all add: js_eval u16_def)

lemma wf_nodeI: "0 \<notin> set r \<Longrightarrow> p = kind_name k @ [58] \<Longrightarrow> wf_node \<lparr>pn_id = p @ r, pn_label = l, pn_kind = k\<rparr>"
  using kind_clean by (auto simp: wf_node_def)

lemma clean_unknown: "0 \<notin> set (js ''unknown'')" "0 \<notin> set (js ''default-node'')"
  by (simp_all add: js_eval u16_def)

lemma kind_prefixes:
  "js ''user:'' = js ''user'' @ [58]" "js ''node:'' = js ''node'' @ [58]" "js ''token:'' = js ''token'' @ [58]"
  "js ''group:'' = js ''group'' @ [58]" "js ''model:'' = js ''model'' @ [58]" "js ''channel:'' = js ''channel'' @ [58]"
  by (simp_all add: js_eval)

lemmas builder_defs = userNode_def nodeNameNode_def tokenNode_def groupNode_def modelNode_def channelNode_def Let_def

lemma builder_wf: "plain_numbers e \<Longrightarrow> clean_row row \<Longrightarrow> wf_node (NODE_BUILDERS e ctx k row)"
  by (cases k; simp only: NODE_BUILDERS.simps builder_defs; rule wf_nodeI)
    (simp_all add: clean_row_def plain_numbers_def name_or_clean clean_unknown kind_prefixes)

lemma other_wf: "wf_node (otherFlowNode k labeler)" "pn_kind (otherFlowNode k labeler) = k"
  by (cases k; simp add: wf_node_def otherFlowNode_def OTHER_FLOW_NODE_IDS_def js_eval u16_def)+

lemma path_wf: "plain_numbers e \<Longrightarrow> clean_row row \<Longrightarrow> wf_path stages (flowPathForStages e ctx row stages)"
  by (simp add: wf_path_def flowPathForStages_def list_all_iff comp_def builder_wf)

lemma limited_path_wf:
  "wf_path stages path \<Longrightarrow> applyTopNodeLimit path tops mode labeler = Some path' \<Longrightarrow> wf_path stages path'"
  by (auto simp: applyTopNodeLimit_def wf_path_def list_all_iff other_wf split: option.splits if_splits)

lemma map_filter_sum_le:
  fixes g :: "'a \<Rightarrow> int"
  assumes "\<And>x y. x \<in> set xs \<Longrightarrow> f x = Some y \<Longrightarrow> h y = g x" "\<And>x. x \<in> set xs \<Longrightarrow> 0 \<le> g x"
  shows "(\<Sum>y\<leftarrow>List.map_filter f xs. h y) \<le> (\<Sum>x\<leftarrow>xs. g x)"
  using assms
proof (induction xs)
  case (Cons x xs)
  then have "(\<Sum>y\<leftarrow>List.map_filter f xs. h y) \<le> (\<Sum>x\<leftarrow>xs. g x)" by simp
  then show ?case using Cons.prems [of x] by (cases "f x") (auto simp: List.map_filter_simps)
qed (simp add: List.map_filter_simps)

lemma map_filter_sum_eq:
  fixes g :: "'a \<Rightarrow> int"
  assumes "\<And>x. x \<in> set xs \<Longrightarrow> \<exists>y. f x = Some y \<and> h y = g x"
  shows "(\<Sum>y\<leftarrow>List.map_filter f xs. h y) = (\<Sum>x\<leftarrow>xs. g x)"
  using assms
proof (induction xs)
  case (Cons x xs)
  moreover obtain y where "f x = Some y" "h y = g x" using Cons.prems [of x] by auto
  ultimately show ?case by (simp add: List.map_filter_simps)
qed (simp add: List.map_filter_simps)

lemma prepared_good:
  assumes "flow_input metric rows" "plain_numbers e"
  shows "good_paths metric (resolveVisibleStages role visible) (prepare_paths e ctx rows metric (resolveVisibleStages role visible) options)"
proof -
  let ?st = "resolveVisibleStages role visible"
  let ?ps = "prepare_paths e ctx rows metric ?st options"
  have "wf_path ?st (pp_path p) \<and> is_count (metricValue (pp_metrics p) metric)" if "p \<in> set ?ps" for p
    using that assms path_wf limited_path_wf
    by (fastforce simp: prepare_paths_def Let_def flow_input_def list_all_iff map_filter_def)
  moreover have "(\<Sum>p\<leftarrow>?ps. path_gain metric p) \<le> (\<Sum>row\<leftarrow>rows. count_of (metricValue (rowMetrics row) metric))"
    unfolding prepare_paths_def Let_def
    by (rule map_filter_sum_le) (use assms(1) in \<open>auto simp: flow_input_def list_all_iff\<close>)
  ultimately show ?thesis using assms(1) stages_distinct by (auto simp: good_paths_def flow_input_def)
qed

end
