(* ===== verification/Flow_Graph.thy ===== *)
theory Flow_Graph
  imports Flow_Conservation
begin

text \<open>
  The graph that the dashboard draws: masks, highlights, shares, colours and sorting leave the
  sums of the two maps alone; what leaves the first stage is the total the shares refer to; a
  limit bounds the ids of a stage; the filters and the masks do what they say.
\<close>

section \<open>What the last passes leave alone\<close>

abbreviation node_core :: "DashboardFlowNode \<Rightarrow> jstring \<times> FlowNodeKind \<times> jnum" where
  "node_core n \<equiv> (n_id n, n_kind n, n_value n)"

abbreviation link_core :: "DashboardFlowLink \<Rightarrow> jstring \<times> jstring \<times> jnum" where
  "link_core l \<equiv> (l_source l, l_target l, l_value l)"

lemma mset_sort_insert: "mset (sort_insert after x xs) = add_mset x (mset xs)"
  by (induction xs) simp_all

lemma mset_js_sort: "mset (js_sort after xs) = mset xs"
  unfolding js_sort_def by (induction xs) (simp_all add: mset_sort_insert)

lemma mset_sorted_by [simp]: "mset (sorted_by cmp xs) = mset xs"
  by (simp add: sorted_by_def mset_js_sort)

lemma set_sorted_by [simp]: "set (sorted_by cmp xs) = set xs"
  by (simp add: sorted_by_def)

lemma mask_core:
  "map (\<lambda>x. node_core (snd x)) (fst (maskFlowGraphLabels ns ls)) = map (\<lambda>x. node_core (snd x)) ns"
  "map (\<lambda>x. link_core (snd x)) (snd (maskFlowGraphLabels ns ls)) = map (\<lambda>x. link_core (snd x)) ls"
  by (simp_all add: maskFlowGraphLabels_def Let_def comp_def split_beta)

lemma highlight_core:
  "map (\<lambda>x. node_core (snd x)) (fst (applyFlowHighlights h ns ls)) = map (\<lambda>x. node_core (snd x)) ns"
  "map (\<lambda>x. link_core (snd x)) (snd (applyFlowHighlights h ns ls)) = map (\<lambda>x. link_core (snd x)) ls"
  by (simp_all add: applyFlowHighlights_def comp_def split_beta split: option.splits)

lemma shares_core: "map link_core (set_shares tot ls) = map link_core ls"
  by (simp add: set_shares_def comp_def)

lemma colors_core: "map link_core (assignLinkDisplayColors e ls) = map link_core ls"
  by (simp add: assignLinkDisplayColors_def comp_def Let_def)

text \<open>The colour of a path's first node in the graph of some rows.\<close>

definition graph_color :: "flow_env \<Rightarrow> PreparedFlowPath list \<Rightarrow> jstring list \<Rightarrow> jstring \<Rightarrow> jstring" where
  "graph_color e ps palette i =
     (case stableColorMap e (sorted_by (localeCompare e) (first_ids ps)) palette i of Some c \<Rightarrow> c | None \<Rightarrow> colorAt e 0 palette)"

definition graph_stages :: "FlowRole \<Rightarrow> FlowBuildOptions \<Rightarrow> FlowNodeKind list" where
  "graph_stages role options = resolveVisibleStages role (visibleStages options)"

definition graph_paths ::
    "flow_env \<Rightarrow> FlowQuotaDataItem list \<Rightarrow> FlowMetric \<Rightarrow> FlowRole \<Rightarrow> (jnum \<Rightarrow> jstring) option \<Rightarrow> FlowBuildOptions \<Rightarrow>
     PreparedFlowPath list" where
  "graph_paths e rows metric role ctx options = prepare_paths e ctx rows metric (graph_stages role options) options"

abbreviation node_map :: "FlowMetric \<Rightarrow> (jstring \<Rightarrow> jstring) \<Rightarrow> PreparedFlowPath list \<Rightarrow> (jstring \<times> DashboardFlowNode) list" where
  "node_map metric color ps \<equiv> foldl (node_step metric color) [] (node_items ps)"

abbreviation link_map :: "FlowMetric \<Rightarrow> (jstring \<Rightarrow> jstring) \<Rightarrow> PreparedFlowPath list \<Rightarrow> (jstring \<times> DashboardFlowLink) list" where
  "link_map metric color ps \<equiv> foldl (link_step metric color) [] (link_items ps)"

text \<open>The maps as the last passes leave them.\<close>

definition final_maps where
  "final_maps e rows metric role ctx options =
     (let ps = graph_paths e rows metric role ctx options;
          maps = add_paths metric (graph_color e ps (opt_palette options)) ps;
          maps = (if maskSensitive options then maskFlowGraphLabels (fst maps) (snd maps) else maps)
      in applyFlowHighlights (buildFlowHighlightSets ps (activeNode options) (activeLink options) (graph_stages role options))
           (fst maps) (snd maps))"

definition by_ends :: "flow_env \<Rightarrow> DashboardFlowLink \<Rightarrow> DashboardFlowLink \<Rightarrow> int" where
  "by_ends e a b = or_cmp (localeCompare e (l_source a) (l_source b)) (localeCompare e (l_target a) (l_target b))"

lemma buildFlowGraph_maps:
  "buildFlowGraph e rows metric role ctx options =
     (let maps = final_maps e rows metric role ctx options; ls = sorted_by (by_ends e) (map snd (snd maps)) in
      \<lparr>g_nodes = sorted_by (byValueThenLabel e) (map snd (fst maps)),
       g_links = assignLinkDisplayColors e (set_shares (total_value (graph_paths e rows metric role ctx options) ls) ls)\<rparr>)"
  by (simp add: buildFlowGraph_def final_maps_def graph_paths_def graph_stages_def graph_color_def [abs_def] by_ends_def [abs_def] Let_def)

lemma final_core:
  fixes e rows metric role ctx options
  defines "ps \<equiv> graph_paths e rows metric role ctx options" and "maps \<equiv> final_maps e rows metric role ctx options"
  shows "map (\<lambda>x. node_core (snd x)) (fst maps) =
      map (\<lambda>x. node_core (snd x)) (node_map metric (graph_color e ps (opt_palette options)) ps)"
    and "map (\<lambda>x. link_core (snd x)) (snd maps) =
      map (\<lambda>x. link_core (snd x)) (link_map metric (graph_color e ps (opt_palette options)) ps)"
  by (simp_all add: maps_def final_maps_def Let_def highlight_core mask_core add_paths_items flip: ps_def)

lemma graph_nodes_core:
  "mset (map node_core (g_nodes (buildFlowGraph e rows metric role ctx options))) =
     mset (map (\<lambda>x. node_core (snd x)) (fst (final_maps e rows metric role ctx options)))"
  by (simp add: buildFlowGraph_maps Let_def multiset.map_comp comp_def)

lemma graph_links_core:
  "mset (map link_core (g_links (buildFlowGraph e rows metric role ctx options))) =
     mset (map (\<lambda>x. link_core (snd x)) (snd (final_maps e rows metric role ctx options)))"
  by (simp add: buildFlowGraph_maps Let_def colors_core shares_core multiset.map_comp comp_def del: mset_map)
    (simp add: multiset.map_comp comp_def)

lemma sum_of_core:
  fixes h :: "'c \<Rightarrow> int"
  assumes "mset (map f xs) = mset (map f' ys)"
  shows "(\<Sum>x\<leftarrow>xs. h (f x)) = (\<Sum>y\<leftarrow>ys. h (f' y))"
proof -
  have "sum_list (map h (map f xs)) = sum_list (map h (map f' ys))"
    using arg_cong [OF assms, of "\<lambda>m. sum_mset (image_mset h m)"] by (simp only: sum_mset_sum_list flip: mset_map)
  then show ?thesis by (simp add: comp_def)
qed

lemma image_eq_member:
  assumes "f ` A = f' ` B" "x \<in> A"
  obtains y where "y \<in> B" "f x = f' y"
  using assms by blast

lemma member_of_core: "mset (map f xs) = mset (map f' ys) \<Longrightarrow> x \<in> set xs \<Longrightarrow> f x \<in> f' ` set ys"
  by (metis image_eqI list.set_map set_mset_mset)

section \<open>Conservation\<close>

text \<open>What flows into a node and out of it, and what flows out of some nodes.\<close>

definition inflow :: "DashboardFlowGraph \<Rightarrow> jstring \<Rightarrow> int" where
  "inflow g i = (\<Sum>l\<leftarrow>g_links g. if l_target l = i then count_of (l_value l) else 0)"

definition outflow :: "DashboardFlowGraph \<Rightarrow> jstring \<Rightarrow> int" where
  "outflow g i = (\<Sum>l\<leftarrow>g_links g. if l_source l = i then count_of (l_value l) else 0)"

lemma graph_links_sum:
  fixes e rows metric role ctx options
  defines "ps \<equiv> graph_paths e rows metric role ctx options" and "g \<equiv> buildFlowGraph e rows metric role ctx options"
  assumes "good_paths metric (graph_stages role options) ps"
  shows "(\<Sum>l\<leftarrow>g_links g. if P (l_source l, l_target l) then count_of (l_value l) else 0) =
    (\<Sum>x\<leftarrow>link_items ps. if P (pn_id (fst (snd x)), pn_id (snd (snd x))) then count_of (item_gain metric x) else 0)"
proof -
  let ?h = "\<lambda>c. if P (fst c, fst (snd c)) then count_of (snd (snd c)) else 0"
  let ?m = "link_map metric (graph_color e ps (opt_palette options)) ps"
  have "(\<Sum>l\<leftarrow>g_links g. ?h (link_core l)) = (\<Sum>x\<leftarrow>?m. ?h (link_core (snd x)))"
    by (rule sum_of_core) (simp only: g_def ps_def graph_links_core final_core)
  moreover have "links.summed metric (link_items ps) ?m"
    by (rule links.summed_fold) (rule links_exact [OF assms(3)])
  then have "sum_list (map (links.worth P) ?m) =
      (\<Sum>x\<leftarrow>link_items ps. if P (pn_id (fst (snd x)), pn_id (snd (snd x))) then count_of (item_gain metric x) else 0)"
    unfolding links.summed_def by blast
  ultimately show ?thesis unfolding links.worth_def fst_conv snd_conv by simp
qed

lemma graph_link_counts:
  assumes "good_paths metric (graph_stages role options) (graph_paths e rows metric role ctx options)"
    and "l \<in> set (g_links (buildFlowGraph e rows metric role ctx options))"
  shows "is_count (l_value l)"
proof -
  let ?ps = "graph_paths e rows metric role ctx options"
  let ?m = "link_map metric (graph_color e ?ps (opt_palette options)) ?ps"
  have "link_core l \<in> (\<lambda>x. link_core (snd x)) ` set ?m"
    by (rule member_of_core [OF _ assms(2)]) (simp only: graph_links_core final_core)
  moreover have "links.summed metric (link_items ?ps) ?m"
    by (rule links.summed_fold) (rule links_exact [OF assms(1)])
  ultimately show ?thesis by (auto simp: links.summed_def)
qed

lemma graph_node_value:
  assumes "good_paths metric (graph_stages role options) (graph_paths e rows metric role ctx options)"
    and "n \<in> set (g_nodes (buildFlowGraph e rows metric role ctx options))"
  shows "n_value n = jint (nodes.gained metric (node_items (graph_paths e rows metric role ctx options)) (n_id n))"
    and "\<exists>x\<in>set (node_items (graph_paths e rows metric role ctx options)). pn_id (snd x) = n_id n \<and> pn_kind (snd x) = n_kind n"
proof -
  let ?ps = "graph_paths e rows metric role ctx options"
  let ?m = "node_map metric (graph_color e ?ps (opt_palette options)) ?ps"
  have "node_core n \<in> (\<lambda>x. node_core (snd x)) ` set ?m"
    by (rule member_of_core [OF _ assms(2)]) (simp only: graph_nodes_core final_core)
  then obtain x where x: "x \<in> set ?m" "n_id n = n_id (snd x)" "n_kind n = n_kind (snd x)" "n_value n = n_value (snd x)" by auto
  have "nodes.summed metric (node_items ?ps) ?m"
    by (rule nodes.summed_fold) (rule nodes_exact [OF assms(1)])
  then have "is_count (n_value n)" "count_of (n_value n) = nodes.gained metric (node_items ?ps) (fst x)"
    using x by (simp_all add: nodes.summed_def)
  moreover have "\<exists>y\<in>set (node_items ?ps). fst x = pn_id (snd y) \<and> (n_id (snd x), n_kind (snd x)) = (pn_id (snd y), pn_kind (snd y))"
    using nodes.keyed_fold [where xs = "node_items ?ps"] x(1) by (simp add: nodes.keyed_def)
  ultimately show "n_value n = jint (nodes.gained metric (node_items ?ps) (n_id n))"
    "\<exists>x\<in>set (node_items ?ps). pn_id (snd x) = n_id n \<and> pn_kind (snd x) = n_kind n"
    using x(2,3) unfolding is_count_def by (auto dest: sym)
qed

text \<open>The first and the last node of a path, and no other, have the kinds of the first and the last stage.\<close>

lemma end_kinds:
  assumes "good_paths metric stages ps" "p \<in> set ps" "x \<in> set (node_items ps)" "pn_id (snd x) = i"
  shows "pn_kind (snd x) \<noteq> hd stages \<Longrightarrow> pp_path p = [] \<or> pn_id (hd (pp_path p)) \<noteq> i"
    and "pn_kind (snd x) \<noteq> last stages \<Longrightarrow> pp_path p = [] \<or> pn_id (last (pp_path p)) \<noteq> i"
proof -
  have wf: "wf_node (snd x)" using assms(1,3) good_node by (simp add: in_items) blast
  have kinds: "map pn_kind (pp_path p) = stages" using assms(1,2) by (simp add: good_paths_def wf_path_def)
  have same: "pn_kind n = pn_kind (snd x)" if "n \<in> set (pp_path p)" "pn_id n = i" for n
    using wf_node_kind [OF good_node [OF assms(1,2) that(1)] wf] that(2) assms(4) by simp
  show "pn_kind (snd x) \<noteq> hd stages \<Longrightarrow> pp_path p = [] \<or> pn_id (hd (pp_path p)) \<noteq> i"
    using same [of "hd (pp_path p)"] by (auto simp: hd_map simp flip: kinds)
  show "pn_kind (snd x) \<noteq> last stages \<Longrightarrow> pp_path p = [] \<or> pn_id (last (pp_path p)) \<noteq> i"
    using same [of "last (pp_path p)"] by (auto simp: last_map simp flip: kinds)
qed

lemma graph_conserved:
  fixes e rows metric role ctx options
  defines "g \<equiv> buildFlowGraph e rows metric role ctx options" and "stages \<equiv> graph_stages role options"
  assumes "good_paths metric stages (graph_paths e rows metric role ctx options)" "n \<in> set (g_nodes g)"
  shows "n_kind n \<noteq> hd stages \<Longrightarrow> n_value n = jint (inflow g (n_id n))"
    and "n_kind n \<noteq> last stages \<Longrightarrow> n_value n = jint (outflow g (n_id n))"
proof -
  let ?ps = "graph_paths e rows metric role ctx options"
  note good = assms(3) [unfolded stages_def] and val = graph_node_value [OF assms(3,4) [unfolded stages_def g_def]]
  obtain x where x: "x \<in> set (node_items ?ps)" "pn_id (snd x) = n_id n" "pn_kind (snd x) = n_kind n" using val(2) by blast
  show "n_value n = jint (inflow g (n_id n))" if "n_kind n \<noteq> hd stages"
    unfolding val(1) inflow_def g_def graph_links_sum [OF good, of "\<lambda>(_, t). t = n_id n", simplified]
    using links_inflow [OF good, of "n_id n"] end_kinds(1) [OF good _ x(1,2)] x(3) that stages_def by simp
  show "n_value n = jint (outflow g (n_id n))" if "n_kind n \<noteq> last stages"
    unfolding val(1) outflow_def g_def graph_links_sum [OF good, of "\<lambda>(s, _). s = n_id n", simplified]
    using links_outflow [OF good, of "n_id n"] end_kinds(2) [OF good _ x(1,2)] x(3) that stages_def by simp
qed

section \<open>Totals\<close>

lemma foldl_counts:
  assumes "\<And>x. x \<in> set xs \<Longrightarrow> is_count (f x)" "0 \<le> a" "a + (\<Sum>x\<leftarrow>xs. count_of (f x)) \<le> max_safe"
  shows "foldl (\<lambda>s x. jadd s (f x)) (jint a) xs = jint (a + (\<Sum>x\<leftarrow>xs. count_of (f x)))"
  using assms
proof (induction xs arbitrary: a)
  case (Cons x xs)
  obtain n where n: "f x = jint n" "0 \<le> n" using Cons.prems(1) [of x] by (auto elim: is_countE)
  have "0 \<le> (\<Sum>x\<leftarrow>xs. count_of (f x))" using Cons.prems(1) by (intro sum_list_nonneg) auto
  then have "jadd (jint a) (f x) = jint (a + n)" using Cons.prems n by (simp add: jadd_jint)
  moreover have "foldl (\<lambda>s x. jadd s (f x)) (jint (a + n)) xs = jint (a + n + (\<Sum>x\<leftarrow>xs. count_of (f x)))"
    using Cons.prems n by (intro Cons.IH) auto
  ultimately show ?case by (simp add: n add.assoc)
qed simp

lemma sum_list_filter_if: "(\<Sum>x\<leftarrow>filter P xs. f x) = (\<Sum>x\<leftarrow>xs. if P x then f x else 0)" for f :: "'a \<Rightarrow> int"
  by (induction xs) simp_all

lemma summary_metric:
  "metricValue (buildSummary rows) metric = foldl (\<lambda>s row. jadd s (metricValue (rowMetrics row) metric)) (jint 0) rows"
proof -
  have "metricValue (foldl (\<lambda>s row. let metrics = rowMetrics row in
       \<lparr>m_quota = jadd (m_quota s) (m_quota metrics), m_tokens = jadd (m_tokens s) (m_tokens metrics),
        m_requests = jadd (m_requests s) (m_requests metrics)\<rparr>) s rows) metric =
      foldl (\<lambda>s row. jadd s (metricValue (rowMetrics row) metric)) (metricValue s metric) rows" for s
    by (induction rows arbitrary: s) (simp_all add: Let_def metricValue_def)
  then show ?thesis by (simp add: buildSummary_def metricValue_def)
qed

abbreviation rows_total :: "FlowMetric \<Rightarrow> FlowQuotaDataItem list \<Rightarrow> int" where
  "rows_total metric rows \<equiv> (\<Sum>row\<leftarrow>rows. count_of (metricValue (rowMetrics row) metric))"

lemma summary_total: "flow_input metric rows \<Longrightarrow> metricValue (buildSummary rows) metric = jint (rows_total metric rows)"
  using foldl_counts [of rows "\<lambda>row. metricValue (rowMetrics row) metric" 0]
  by (simp add: summary_metric flow_input_def list_all_iff)

text \<open>Every path goes through one node of each stage.\<close>

lemma path_stage:
  "map pn_kind path = stages \<Longrightarrow> distinct stages \<Longrightarrow> k \<in> set stages \<Longrightarrow> (\<Sum>n\<leftarrow>path. if pn_kind n = k then c else 0) = (c::int)"
  using sum_distinct [of pn_kind path k c] by auto

lemma graph_stage_total:
  fixes e rows metric role ctx options
  defines "ps \<equiv> graph_paths e rows metric role ctx options" and "stages \<equiv> graph_stages role options"
  assumes "good_paths metric stages ps" "k \<in> set stages"
  shows "(\<Sum>n\<leftarrow>g_nodes (buildFlowGraph e rows metric role ctx options). if n_kind n = k then count_of (n_value n) else 0) =
    (\<Sum>p\<leftarrow>ps. path_gain metric p)"
proof -
  let ?h = "\<lambda>c. if fst (snd c) = k then count_of (snd (snd c)) else 0"
  let ?m = "node_map metric (graph_color e ps (opt_palette options)) ps"
  have "(\<Sum>n\<leftarrow>g_nodes (buildFlowGraph e rows metric role ctx options). ?h (node_core n)) = (\<Sum>x\<leftarrow>?m. ?h (node_core (snd x)))"
    by (rule sum_of_core) (simp only: ps_def graph_nodes_core final_core)
  moreover have "nodes.summed metric (node_items ps) ?m"
    by (rule nodes.summed_fold) (rule nodes_exact [OF assms(3)])
  then have "sum_list (map (nodes.worth (\<lambda>a. snd a = k)) ?m) =
      (\<Sum>x\<leftarrow>node_items ps. if pn_kind (snd x) = k then count_of (item_gain metric x) else 0)"
    unfolding nodes.summed_def by (simp del: foldl_append)
  moreover have "\<dots> = (\<Sum>p\<leftarrow>ps. path_gain metric p)"
    unfolding sum_node_items item_gain_def fst_conv snd_conv
    by (rule sum_list_cong) (use assms(3,4) in \<open>auto simp: good_paths_def wf_path_def intro!: path_stage\<close>)
  ultimately show ?thesis unfolding nodes.worth_def fst_conv snd_conv by simp
qed

lemma in_first_ids:
  "i \<in> set (first_ids ps) \<longleftrightarrow> (\<exists>q\<in>set ps. pp_path q \<noteq> [] \<and> i = pn_id (hd (pp_path q)) \<and> i \<noteq> [])"
proof (induction ps)
  case (Cons p ps)
  then show ?case by (cases "pp_path p") (auto simp: first_ids_def List.map_filter_simps)
qed (simp add: first_ids_def List.map_filter_simps)

lemma good_first:
  assumes "good_paths metric stages ps" "2 \<le> length stages" "p \<in> set ps"
  shows "2 \<le> length (pp_path p)" "pn_id (hd (pp_path p)) \<in> set (first_ids ps)"
    "n \<in> set (tl (pp_path p)) \<Longrightarrow> pn_id n \<notin> set (first_ids ps)"
proof -
  have kinds: "map pn_kind (pp_path q) = stages" if "q \<in> set ps" for q
    using assms(1) that by (simp add: good_paths_def wf_path_def)
  show len: "2 \<le> length (pp_path p)" using kinds [OF assms(3)] assms(2) by (metis length_map)
  have "pn_id (hd (pp_path p)) \<noteq> []" using good_node [OF assms(1,3), of "hd (pp_path p)"] len by (cases "pp_path p") (auto simp: wf_node_def)
  then show "pn_id (hd (pp_path p)) \<in> set (first_ids ps)" using assms(3) len unfolding in_first_ids by (intro bexI [of _ p]) auto
  show "pn_id n \<notin> set (first_ids ps)" if n: "n \<in> set (tl (pp_path p))"
  proof
    assume "pn_id n \<in> set (first_ids ps)"
    then obtain q where q: "q \<in> set ps" "pp_path q \<noteq> []" "pn_id n = pn_id (hd (pp_path q))"
      by (auto simp: in_first_ids)
    have "pn_kind n = pn_kind (hd (pp_path q))"
      using wf_node_kind [OF good_node [OF assms(1,3)] good_node [OF assms(1) q(1)] q(3)] n q(2) by (cases "pp_path p") simp_all
    also have "\<dots> = hd stages" using kinds [OF q(1)] q(2) by (metis hd_map)
    moreover have "pn_kind n \<in> set (tl stages)" using n kinds [OF assms(3)] by (metis image_eqI list.set_map map_tl)
    moreover have "distinct stages" using assms(1) by (simp add: good_paths_def)
    ultimately show False using assms(2) by (cases stages) auto
  qed
qed

lemma graph_first_total:
  fixes e rows metric role ctx options
  defines "ps \<equiv> graph_paths e rows metric role ctx options" and "stages \<equiv> graph_stages role options"
  assumes "good_paths metric stages ps"
  shows "(\<Sum>l\<leftarrow>g_links (buildFlowGraph e rows metric role ctx options).
      if l_source l \<in> set (first_ids ps) then count_of (l_value l) else 0) = (\<Sum>p\<leftarrow>ps. path_gain metric p)"
proof -
  have len: "2 \<le> length stages" using stages_length by (simp add: stages_def graph_stages_def)
  have "(\<Sum>x\<leftarrow>link_items ps. if pn_id (fst (snd x)) \<in> set (first_ids ps) then count_of (item_gain metric x) else 0) =
      (\<Sum>p\<leftarrow>ps. path_gain metric p)"
    unfolding sum_link_items item_gain_def fst_conv snd_conv
    by (rule sum_list_cong, rule path_first) (use good_first [OF assms(3) len] good_distinct [OF assms(3)] in auto)
  then show ?thesis
    using graph_links_sum [OF assms(3) [unfolded ps_def stages_def], of "\<lambda>(s, _). s \<in> set (first_ids ps)"]
    by (simp flip: ps_def)
qed

text \<open>The total that the shares refer to.\<close>

lemma graph_total_value:
  fixes e rows metric role ctx options
  defines "ps \<equiv> graph_paths e rows metric role ctx options"
    and "ls \<equiv> sorted_by (by_ends e) (map snd (snd (final_maps e rows metric role ctx options)))"
  assumes "good_paths metric (graph_stages role options) ps"
  shows "total_value ps ls = jint (\<Sum>p\<leftarrow>ps. path_gain metric p)"
proof -
  have core: "map link_core (g_links (buildFlowGraph e rows metric role ctx options)) = map link_core ls"
    by (simp add: buildFlowGraph_maps Let_def ls_def colors_core shares_core)
  let ?h = "\<lambda>c. if fst c \<in> set (first_ids ps) then count_of (snd (snd c)) else 0"
  have "(\<Sum>l\<leftarrow>ls. ?h (link_core l)) = (\<Sum>l\<leftarrow>g_links (buildFlowGraph e rows metric role ctx options). ?h (link_core l))"
    by (rule sum_of_core) (simp only: core)
  then have sum: "(\<Sum>l\<leftarrow>filter (\<lambda>l. l_source l \<in> set (first_ids ps)) ls. count_of (l_value l)) = (\<Sum>p\<leftarrow>ps. path_gain metric p)"
    unfolding sum_list_filter_if fst_conv snd_conv using graph_first_total [OF assms(3) [unfolded ps_def]] by (simp add: ps_def)
  have counts: "is_count (l_value l)" if l: "l \<in> set ls" for l
  proof -
    obtain l' where "l' \<in> set (g_links (buildFlowGraph e rows metric role ctx options))" "link_core l = link_core l'"
      using member_of_core [OF arg_cong [OF core [symmetric], of mset] l] by blast
    then show ?thesis using graph_link_counts [OF assms(3) [unfolded ps_def]] by simp
  qed
  have "(\<Sum>p\<leftarrow>ps. path_gain metric p) \<le> max_safe" using assms(3) by (simp add: good_paths_def)
  then show ?thesis unfolding total_value_def
    using foldl_counts [of "filter (\<lambda>l. l_source l \<in> set (first_ids ps)) ls" l_value 0] counts by (simp add: sum)
qed

lemma graph_shares:
  assumes "l \<in> set (g_links (buildFlowGraph e rows metric role ctx options))"
    and "total_value (graph_paths e rows metric role ctx options)
      (sorted_by (by_ends e) (map snd (snd (final_maps e rows metric role ctx options)))) = tot"
  shows "l_share l = (if jlt (jint 0) tot then jdiv_pos (l_value l) tot else jint 0)"
  using assms by (auto simp: buildFlowGraph_maps Let_def assignLinkDisplayColors_def set_shares_def)

lemma prepared_sum:
  assumes "overflowMode options \<noteq> Some Hide"
  shows "(\<Sum>p\<leftarrow>prepare_paths e ctx rows metric stages options. path_gain metric p) = rows_total metric rows"
  unfolding prepare_paths_def Let_def
  by (rule map_filter_sum_eq) (use assms in \<open>auto simp: applyTopNodeLimit_def split: option.splits FlowOverflowMode.splits\<close>)

section \<open>The whole diagram\<close>

definition data_role :: "FlowBuildOptions \<Rightarrow> FlowRole" where
  "data_role options = (case opt_role options of None \<Rightarrow> RUser | Some r \<Rightarrow> r)"

definition data_stages :: "FlowBuildOptions \<Rightarrow> FlowNodeKind list" where
  "data_stages options = graph_stages (data_role options) options"

definition data_rows :: "flow_env \<Rightarrow> FlowQuotaDataItem list \<Rightarrow> FlowBuildOptions \<Rightarrow> FlowQuotaDataItem list" where
  "data_rows e rows options =
     filterRowsByNodes e (deletedToken options) (filterRows e rows (selectedUsers options)) (selectedNodes options) (data_stages options)"

lemma data_flow:
  "flow (buildDashboardFlowData e rows metric options) =
     buildFlowGraph e (data_rows e rows options) metric (data_role options) (deletedToken options) options"
  "summary (buildDashboardFlowData e rows metric options) = buildSummary (data_rows e rows options)"
  by (simp_all add: buildDashboardFlowData_def data_rows_def data_stages_def graph_stages_def data_role_def Let_def)

lemma flow_input_filter: "flow_input metric rows \<Longrightarrow> flow_input metric (filter P rows)"
proof -
  assume in_rows: "flow_input metric rows"
  then have "rows_total metric (filter P rows) \<le> rows_total metric rows"
    unfolding sum_list_filter_if by (intro sum_list_mono) (auto simp: flow_input_def list_all_iff)
  then show ?thesis using in_rows by (auto simp: flow_input_def list_all_iff)
qed

lemma data_rows_input: "flow_input metric rows \<Longrightarrow> flow_input metric (data_rows e rows options)"
  by (simp add: data_rows_def filterRowsByNodes_def filterRows_def Let_def flow_input_filter)

lemma data_good:
  assumes "flow_input metric rows" "plain_numbers e"
  shows "good_paths metric (graph_stages (data_role options) options)
    (graph_paths e (data_rows e rows options) metric (data_role options) (deletedToken options) options)"
  unfolding graph_paths_def graph_stages_def by (rule prepared_good [OF data_rows_input [OF assms(1)] assms(2)])

section \<open>Limits\<close>

text \<open>The nodes of the graph have distinct ids, each with the kind of a prepared node.\<close>

lemma node_map_entries:
  shows "distinct (map fst (node_map metric color ps))"
    and "fst ` set (node_map metric color ps) = (\<lambda>x. pn_id (snd x)) ` set (node_items ps)"
    and "x \<in> set (node_map metric color ps) \<Longrightarrow> fst x = n_id (snd x)"
    and "x \<in> set (node_map metric color ps) \<Longrightarrow> \<exists>p\<in>set ps. \<exists>v\<in>set (pp_path p). pn_id v = n_id (snd x) \<and> pn_kind v = n_kind (snd x)"
proof -
  have *: "nodes.keyed (node_items ps) (node_map metric color ps)" by (rule nodes.keyed_fold)
  show "distinct (map fst (node_map metric color ps))"
    "fst ` set (node_map metric color ps) = (\<lambda>x. pn_id (snd x)) ` set (node_items ps)"
    using * unfolding nodes.keyed_def by blast+
  assume "x \<in> set (node_map metric color ps)"
  then obtain y where "y \<in> set (node_items ps)" "fst x = pn_id (snd y)" "n_id (snd x) = pn_id (snd y)" "n_kind (snd x) = pn_kind (snd y)"
    using * unfolding nodes.keyed_def by auto
  then show "fst x = n_id (snd x)" "\<exists>p\<in>set ps. \<exists>v\<in>set (pp_path p). pn_id v = n_id (snd x) \<and> pn_kind v = n_kind (snd x)"
    by (auto simp: in_items intro!: bexI [of _ "fst y"] bexI [of _ "snd y"])
qed

lemma graph_ids_distinct: "distinct (map n_id (g_nodes (buildFlowGraph e rows metric role ctx options)))"
proof -
  let ?ps = "graph_paths e rows metric role ctx options"
  let ?m = "node_map metric (graph_color e ?ps (opt_palette options)) ?ps"
  have "mset (map n_id (g_nodes (buildFlowGraph e rows metric role ctx options))) = mset (map (\<lambda>x. n_id (snd x)) ?m)"
    using arg_cong [OF graph_nodes_core [of e rows metric role ctx options, unfolded final_core], of "image_mset fst"]
    by (simp add: multiset.map_comp comp_def)
  moreover have "map (\<lambda>x. n_id (snd x)) ?m = map fst ?m"
    using node_map_entries(3) [of _ metric "graph_color e ?ps (opt_palette options)" ?ps] by simp
  ultimately show ?thesis
    using node_map_entries(1) [of metric "graph_color e ?ps (opt_palette options)" ?ps] by (metis mset_eq_imp_distinct_iff)
qed

lemma graph_node_item:
  assumes "n \<in> set (g_nodes (buildFlowGraph e rows metric role ctx options))"
  shows "\<exists>p\<in>set (graph_paths e rows metric role ctx options). \<exists>v\<in>set (pp_path p). pn_id v = n_id n \<and> pn_kind v = n_kind n"
proof -
  let ?ps = "graph_paths e rows metric role ctx options"
  let ?m = "node_map metric (graph_color e ?ps (opt_palette options)) ?ps"
  have "node_core n \<in> (\<lambda>x. node_core (snd x)) ` set ?m"
    by (rule member_of_core [OF _ assms]) (simp only: graph_nodes_core final_core)
  then obtain x where "x \<in> set ?m" "n_id n = n_id (snd x)" "n_kind n = n_kind (snd x)" by auto
  then show ?thesis using node_map_entries(4) [of x metric _ ?ps] by simp
qed

text \<open>A path that respects the limit has only top nodes and, unless paths are hidden, nodes for the others.\<close>

lemma limited_node:
  assumes "applyTopNodeLimit path (Some tops) mode labeler = Some path'" "v \<in> set path'" "tops (pn_kind v) = Some ids"
  shows "pn_id v \<in> ids \<or> mode \<noteq> Hide \<and> pn_id v = OTHER_FLOW_NODE_IDS (pn_kind v)"
proof (cases "list_all (\<lambda>n. isTopFlowNode n tops) path")
  case True
  then have "isTopFlowNode v tops" using assms(1,2) by (auto simp: applyTopNodeLimit_def list_all_iff)
  then show ?thesis using assms(3) by (simp add: isTopFlowNode_def)
next
  case False
  then have m: "mode \<noteq> Hide" "path' = map (\<lambda>n. if isTopFlowNode n tops then n else otherFlowNode (pn_kind n) labeler) path"
    using assms(1) by (auto simp: applyTopNodeLimit_def split: if_splits)
  then obtain n where "v = (if isTopFlowNode n tops then n else otherFlowNode (pn_kind n) labeler)"
    using assms(2) unfolding m(2) set_map by blast
  then show ?thesis using assms(3) m(1) by (auto simp: isTopFlowNode_def otherFlowNode_def split: if_splits)
qed

lemma prepared_limit:
  assumes "p \<in> set (prepare_paths e ctx rows metric stages options)" "v \<in> set (pp_path p)"
    and "buildTopNodeSets e ctx rows metric stages (normalizeTopNodeLimit (topNodeLimit options)) = Some tops" "tops (pn_kind v) = Some ids"
  shows "pn_id v \<in> ids \<or> overflowMode options \<noteq> Some Hide \<and> pn_id v = OTHER_FLOW_NODE_IDS (pn_kind v)"
proof -
  let ?mode = "case overflowMode options of None \<Rightarrow> Aggregate | Some m \<Rightarrow> m"
  obtain row where "applyTopNodeLimit (flowPathForStages e ctx row stages) (Some tops) ?mode (otherNodeLabel options) = Some (pp_path p)"
    using assms(1,3) by (auto simp: prepare_paths_def Let_def map_filter_def)
  from limited_node [OF this assms(2,4)] show ?thesis by (auto split: option.splits)
qed

lemma prepared_kind:
  assumes "p \<in> set (prepare_paths e ctx rows metric stages options)" "v \<in> set (pp_path p)"
  shows "pn_kind v \<in> set stages"
proof -
  have "map pn_kind path' = map pn_kind path" if "applyTopNodeLimit path tops mode labeler = Some path'" for path tops mode labeler path'
    using that by (auto simp: applyTopNodeLimit_def otherFlowNode_def split: option.splits if_splits)
  moreover obtain row tops mode where "applyTopNodeLimit (flowPathForStages e ctx row stages) tops mode (otherNodeLabel options) = Some (pp_path p)"
    using assms(1) by (auto simp: prepare_paths_def Let_def map_filter_def)
  ultimately have "map pn_kind (pp_path p) = stages" by (simp add: flowPathForStages_def comp_def)
  then show ?thesis using assms(2) by auto
qed

lemma graph_limit:
  fixes e rows metric role ctx options k
  defines "ns \<equiv> filter (\<lambda>n. n_kind n = k) (g_nodes (buildFlowGraph e rows metric role ctx options))"
  assumes "normalizeTopNodeLimit (topNodeLimit options) = Some N"
  shows "length ns \<le> (if overflowMode options = Some Hide then N else N + 1)"
proof (cases "k \<in> set (graph_stages role options)")
  case True
  let ?ps = "graph_paths e rows metric role ctx options" and ?st = "graph_stages role options"
  have "0 < N" using assms(2) by (auto simp: normalizeTopNodeLimit_def split: option.splits jnum.splits if_splits)
  then obtain tops where tops: "buildTopNodeSets e ctx rows metric ?st (normalizeTopNodeLimit (topNodeLimit options)) = Some tops"
    using assms(2) by (simp add: buildTopNodeSets_def)
  obtain xs where xs: "tops k = Some (set xs)" "length xs \<le> N"
    by (rule that [of "map (pn_id \<circ> fst) (take N (sorted_by (rank_order e) (map snd (stage_totals e ctx rows metric ?st k))))"])
      (use tops assms(2) True \<open>0 < N\<close> in \<open>auto simp: buildTopNodeSets_def\<close>)
  have "n_id ` set ns \<subseteq> set xs \<union> (if overflowMode options = Some Hide then {} else {OTHER_FLOW_NODE_IDS k})"
  proof
    fix i assume "i \<in> n_id ` set ns"
    then obtain n where n: "n \<in> set (g_nodes (buildFlowGraph e rows metric role ctx options))" "n_kind n = k" "i = n_id n"
      by (auto simp: ns_def)
    obtain p v where "p \<in> set ?ps" "v \<in> set (pp_path p)" "pn_id v = i" "pn_kind v = k"
      using graph_node_item [OF n(1)] n(2,3) by blast
    then show "i \<in> set xs \<union> (if overflowMode options = Some Hide then {} else {OTHER_FLOW_NODE_IDS k})"
      using prepared_limit [OF _ _ tops, of p v "set xs"] xs(1) by (auto simp: graph_paths_def)
  qed
  then have "card (n_id ` set ns) \<le> card (set xs \<union> (if overflowMode options = Some Hide then {} else {OTHER_FLOW_NODE_IDS k}))"
    by (rule card_mono [rotated]) simp
  also have "\<dots> \<le> length xs + (if overflowMode options = Some Hide then 0 else 1)"
    using card_length [of xs] card_insert_le_m1 by (auto simp: card_insert_if)
  finally have "length ns \<le> length xs + (if overflowMode options = Some Hide then 0 else 1)"
    using graph_ids_distinct [of e rows metric role ctx options] distinct_card [of "map n_id ns"]
    by (simp add: ns_def distinct_map_filter)
  then show ?thesis using xs(2) by (simp split: if_splits)
next
  case False
  then have "n_kind n \<noteq> k" if "n \<in> set (g_nodes (buildFlowGraph e rows metric role ctx options))" for n
    using graph_node_item [OF that] prepared_kind [of _ e ctx rows metric "graph_stages role options" options]
    unfolding graph_paths_def by metis
  then have "ns = []" by (simp add: ns_def filter_empty_conv)
  then show ?thesis by simp
qed

section \<open>Filters\<close>

lemma normalized_filters:
  "map_of (normalizeSelectedNodeFilters selected stages) k =
     (if k \<in> set stages \<and> k \<in> nf_kind ` set selected then Some {nf_id f |f. f \<in> set selected \<and> nf_kind f = k} else None)"
proof (induction selected rule: rev_induct)
  case (snoc f selected)
  have step: "normalizeSelectedNodeFilters (selected @ [f]) stages = (let filters = normalizeSelectedNodeFilters selected stages in
      if nf_kind f \<notin> set stages then filters
      else put (nf_kind f) (insert (nf_id f) (case map_of filters (nf_kind f) of Some s \<Rightarrow> s | None \<Rightarrow> {})) filters)"
    by (simp add: normalizeSelectedNodeFilters_def Let_def)
  consider "nf_kind f \<notin> set stages \<or> nf_kind f \<noteq> k" | "nf_kind f \<in> set stages" "nf_kind f = k" by blast
  then show ?case
  proof cases
    case 1
    then show ?thesis using snoc.IH by (auto simp: step Let_def)
  next
    case 2
    then have "map_of (normalizeSelectedNodeFilters (selected @ [f]) stages) k =
        Some (insert (nf_id f) {nf_id f' |f'. f' \<in> set selected \<and> nf_kind f' = k})"
      using snoc.IH by (auto simp: step Let_def image_iff)
    moreover have "insert (nf_id f) {nf_id f' |f'. f' \<in> set selected \<and> nf_kind f' = k} =
        {nf_id f' |f'. f' \<in> set (selected @ [f]) \<and> nf_kind f' = k}" using 2 by auto
    ultimately show ?thesis using 2 by simp
  qed
qed (simp add: normalizeSelectedNodeFilters_def)

lemma normalized_keys: "distinct (map fst (normalizeSelectedNodeFilters selected stages))"
  by (induction selected rule: rev_induct) (simp_all add: normalizeSelectedNodeFilters_def)

lemma path_node: "k \<in> set stages \<Longrightarrow> n \<in> set (flowPathForStages e ctx row stages) \<and> pn_kind n = k \<longleftrightarrow> n = NODE_BUILDERS e ctx k row"
  by (auto simp: flowPathForStages_def)

lemma path_matches:
  "pathMatchesNodeFilters (flowPathForStages e ctx row stages) (normalizeSelectedNodeFilters selected stages) \<longleftrightarrow>
     (\<forall>k\<in>set stages. k \<in> nf_kind ` set selected \<longrightarrow>
        (\<exists>f\<in>set selected. nf_kind f = k \<and> nf_id f = pn_id (NODE_BUILDERS e ctx k row)))"
proof -
  let ?fs = "normalizeSelectedNodeFilters selected stages"
  let ?ids = "\<lambda>k. {nf_id f |f. f \<in> set selected \<and> nf_kind f = k}"
  have "(k, ids) \<in> set ?fs \<longleftrightarrow> k \<in> set stages \<and> k \<in> nf_kind ` set selected \<and> ids = ?ids k" for k ids
    using map_of_eq_Some_iff [OF normalized_keys, of selected stages k ids] by (auto simp: normalized_filters split: if_splits)
  then have fs: "set ?fs = (\<lambda>k. (k, ?ids k)) ` {k \<in> set stages. k \<in> nf_kind ` set selected}" by auto
  have "list_ex (\<lambda>n. pn_kind n = k \<and> pn_id n \<in> ids) (flowPathForStages e ctx row stages) \<longleftrightarrow> pn_id (NODE_BUILDERS e ctx k row) \<in> ids"
    if "k \<in> set stages" for k ids
    using path_node [OF that, of _ e ctx row] unfolding list_ex_iff by metis
  then have "pathMatchesNodeFilters (flowPathForStages e ctx row stages) ?fs \<longleftrightarrow>
      (\<forall>k\<in>set stages. k \<in> nf_kind ` set selected \<longrightarrow> pn_id (NODE_BUILDERS e ctx k row) \<in> ?ids k)"
    unfolding pathMatchesNodeFilters_def list_all_iff fs by simp blast
  moreover have "i \<in> ?ids k \<longleftrightarrow> (\<exists>f\<in>set selected. nf_kind f = k \<and> nf_id f = i)" for i k by blast
  ultimately show ?thesis by simp
qed

section \<open>Masks\<close>

lemma in_map_filter: "y \<in> set (List.map_filter f xs) \<longleftrightarrow> (\<exists>x\<in>set xs. f x = Some y)"
  by (induction xs) (auto simp: List.map_filter_simps split: option.splits)

lemma masked_lookup:
  assumes "(k, n) \<in> set nodes" "masked_node n"
  shows "map_of (rev (List.map_filter (\<lambda>(_, n). if masked_node n then Some (n_id n, maskFlowLabel (n_label n)) else None) nodes)) (n_id n) \<in>
    Some ` {[], FLOW_MASK_TEXT}"
proof -
  let ?xs = "rev (List.map_filter (\<lambda>(_, n). if masked_node n then Some (n_id n, maskFlowLabel (n_label n)) else None) nodes)"
  have "(n_id n, maskFlowLabel (n_label n)) \<in> set ?xs"
    unfolding set_rev in_map_filter by (rule bexI [OF _ assms(1)]) (simp add: assms(2))
  then have "n_id n \<in> fst ` set ?xs" by (rule image_eqI [rotated]) simp
  then have "map_of ?xs (n_id n) \<noteq> None" unfolding map_of_eq_None_iff by blast
  then obtain m where m: "map_of ?xs (n_id n) = Some m" by blast
  then have "(n_id n, m) \<in> set ?xs" by (rule map_of_SomeD)
  then have "m \<in> {[], FLOW_MASK_TEXT}" by (auto simp: in_map_filter maskFlowLabel_def split: if_splits)
  then show ?thesis using m by blast
qed

abbreviation node_tag :: "DashboardFlowNode \<Rightarrow> jstring \<times> FlowNodeKind \<times> jstring" where
  "node_tag n \<equiv> (n_id n, n_kind n, n_label n)"

abbreviation link_tag :: "DashboardFlowLink \<Rightarrow> jstring \<times> jstring \<times> jstring \<times> jstring" where
  "link_tag l \<equiv> (l_source l, l_target l, l_sourceLabel l, l_targetLabel l)"

lemma highlight_tags:
  "map (\<lambda>x. node_tag (snd x)) (fst (applyFlowHighlights h ns ls)) = map (\<lambda>x. node_tag (snd x)) ns"
  "map (\<lambda>x. link_tag (snd x)) (snd (applyFlowHighlights h ns ls)) = map (\<lambda>x. link_tag (snd x)) ls"
  by (simp_all add: applyFlowHighlights_def comp_def split_beta split: option.splits)

lemma pass_tags: "map link_tag (assignLinkDisplayColors e (set_shares tot ls)) = map link_tag ls"
  by (simp add: assignLinkDisplayColors_def set_shares_def comp_def Let_def)

text \<open>The tags of the masked graph are those of the masked maps.\<close>

lemma masked_graph_tags:
  fixes e rows metric role ctx options
  defines "ps \<equiv> graph_paths e rows metric role ctx options"
  defines "color \<equiv> graph_color e ps (opt_palette options)"
  defines "masked \<equiv> maskFlowGraphLabels (node_map metric color ps) (link_map metric color ps)"
  assumes "maskSensitive options"
  shows "node_tag ` set (g_nodes (buildFlowGraph e rows metric role ctx options)) = (\<lambda>x. node_tag (snd x)) ` set (fst masked)"
    and "link_tag ` set (g_links (buildFlowGraph e rows metric role ctx options)) = (\<lambda>x. link_tag (snd x)) ` set (snd masked)"
proof -
  let ?h = "buildFlowHighlightSets ps (activeNode options) (activeLink options) (graph_stages role options)"
  have final: "final_maps e rows metric role ctx options = applyFlowHighlights ?h (fst masked) (snd masked)"
    using assms(4) by (simp add: final_maps_def masked_def color_def Let_def add_paths_items flip: ps_def)
  have "node_tag ` set (g_nodes (buildFlowGraph e rows metric role ctx options)) =
      set (map (\<lambda>x. node_tag (snd x)) (fst (applyFlowHighlights ?h (fst masked) (snd masked))))"
    by (simp add: buildFlowGraph_maps Let_def final image_image)
  then show "node_tag ` set (g_nodes (buildFlowGraph e rows metric role ctx options)) = (\<lambda>x. node_tag (snd x)) ` set (fst masked)"
    unfolding highlight_tags by simp
  have "set (map link_tag (g_links (buildFlowGraph e rows metric role ctx options))) =
      set (map (\<lambda>x. link_tag (snd x)) (snd (applyFlowHighlights ?h (fst masked) (snd masked))))"
    by (simp only: buildFlowGraph_maps Let_def final DashboardFlowGraph.simps pass_tags) (simp add: image_image)
  then show "link_tag ` set (g_links (buildFlowGraph e rows metric role ctx options)) = (\<lambda>x. link_tag (snd x)) ` set (snd masked)"
    unfolding highlight_tags by simp
qed

lemma masked_nodes_hidden:
  assumes "x \<in> set (fst (maskFlowGraphLabels nodes links))" "masked_node (snd x)"
  shows "n_label (snd x) \<in> {[], FLOW_MASK_TEXT}"
  using assms by (auto simp: maskFlowGraphLabels_def Let_def masked_node_def maskFlowLabel_def split: if_splits)

lemma masked_links_hidden:
  assumes "x \<in> set (snd (maskFlowGraphLabels nodes links))" "(k, n) \<in> set nodes" "masked_node n"
  shows "n_id n = l_source (snd x) \<Longrightarrow> l_sourceLabel (snd x) \<in> {[], FLOW_MASK_TEXT}"
    and "n_id n = l_target (snd x) \<Longrightarrow> l_targetLabel (snd x) \<in> {[], FLOW_MASK_TEXT}"
  using assms(1) masked_lookup [OF assms(2,3)]
  by (auto simp: maskFlowGraphLabels_def Let_def split: option.splits)

text \<open>The ends of a link are nodes.\<close>

lemma link_map_ends:
  assumes "x \<in> set (link_map metric color ps)"
  shows "l_source (snd x) \<in> fst ` set (node_map metric color ps)" "l_target (snd x) \<in> fst ` set (node_map metric color ps)"
proof -
  have "links.keyed (link_items ps) (link_map metric color ps)" by (rule links.keyed_fold)
  then obtain y where "y \<in> set (link_items ps)" "l_source (snd x) = pn_id (fst (snd y))" "l_target (snd x) = pn_id (snd (snd y))"
    using assms unfolding links.keyed_def by auto
  moreover have "(fst y, fst (snd y)) \<in> set (node_items ps)" "(fst y, snd (snd y)) \<in> set (node_items ps)"
    using calculation(1) in_steps [of "snd y" "pp_path (fst y)"] by (simp_all add: in_items)
  ultimately show "l_source (snd x) \<in> fst ` set (node_map metric color ps)" "l_target (snd x) \<in> fst ` set (node_map metric color ps)"
    unfolding node_map_entries(2) by (metis image_eqI snd_conv)+
qed

lemma graph_node_ids:
  "(\<lambda>n. (n_id n, n_kind n)) ` set (g_nodes (buildFlowGraph e rows metric role ctx options)) =
     (\<lambda>x. (n_id (snd x), n_kind (snd x))) ` set (node_map metric (graph_color e (graph_paths e rows metric role ctx options) (opt_palette options))
       (graph_paths e rows metric role ctx options))"
  using arg_cong [OF graph_nodes_core [of e rows metric role ctx options, unfolded final_core], of "\<lambda>m. (\<lambda>c. (fst c, fst (snd c))) ` set_mset m"]
  by (simp add: image_image)

lemma masked_node_cong: "n_id n = n_id n' \<Longrightarrow> n_kind n = n_kind n' \<Longrightarrow> masked_node n \<longleftrightarrow> masked_node n'"
  by (simp add: masked_node_def)

lemma graph_node_hidden:
  assumes "maskSensitive options" "n \<in> set (g_nodes (buildFlowGraph e rows metric role ctx options))" "masked_node n"
  shows "n_label n \<in> {[], FLOW_MASK_TEXT}"
proof -
  let ?ps = "graph_paths e rows metric role ctx options"
  let ?c = "graph_color e ?ps (opt_palette options)"
  obtain x where x: "x \<in> set (fst (maskFlowGraphLabels (node_map metric ?c ?ps) (link_map metric ?c ?ps)))" "node_tag n = node_tag (snd x)"
    using image_eq_member [OF masked_graph_tags(1) [OF assms(1)] assms(2)] by blast
  have "masked_node (snd x)" using masked_node_cong [of n "snd x"] x(2) assms(3) by simp
  from masked_nodes_hidden [OF x(1) this] show ?thesis using x(2) by simp
qed

lemma graph_link_hidden:
  assumes "maskSensitive options" "l \<in> set (g_links (buildFlowGraph e rows metric role ctx options))"
  shows "\<exists>n\<in>set (g_nodes (buildFlowGraph e rows metric role ctx options)).
      n_id n = l_source l \<and> (masked_node n \<longrightarrow> l_sourceLabel l \<in> {[], FLOW_MASK_TEXT})"
    and "\<exists>n\<in>set (g_nodes (buildFlowGraph e rows metric role ctx options)).
      n_id n = l_target l \<and> (masked_node n \<longrightarrow> l_targetLabel l \<in> {[], FLOW_MASK_TEXT})"
proof -
  let ?ps = "graph_paths e rows metric role ctx options"
  let ?c = "graph_color e ?ps (opt_palette options)"
  let ?ns = "node_map metric ?c ?ps" and ?ls = "link_map metric ?c ?ps"
  obtain x where x: "x \<in> set (snd (maskFlowGraphLabels ?ns ?ls))" "link_tag l = link_tag (snd x)"
    using image_eq_member [OF masked_graph_tags(2) [OF assms(1)] assms(2)] by blast
  then obtain y where y: "y \<in> set ?ls" "l_source (snd x) = l_source (snd y)" "l_target (snd x) = l_target (snd y)"
    by (auto simp: maskFlowGraphLabels_def Let_def)
  have final: "\<exists>n'\<in>set (g_nodes (buildFlowGraph e rows metric role ctx options)). n_id n' = k \<and> (masked_node n' \<longrightarrow> masked_node n)"
    if "(k, n) \<in> set ?ns" for k n
  proof (rule image_eq_member [OF graph_node_ids [of e rows metric role ctx options, symmetric] that])
    fix n' assume n': "n' \<in> set (g_nodes (buildFlowGraph e rows metric role ctx options))"
      "(n_id (snd (k, n)), n_kind (snd (k, n))) = (n_id n', n_kind n')"
    then have "n_id n' = k" "masked_node n' \<longleftrightarrow> masked_node n"
      using node_map_entries(3) [OF that] masked_node_cong [of n' n] by simp_all
    then show ?thesis using n'(1) by blast
  qed
  show "\<exists>n\<in>set (g_nodes (buildFlowGraph e rows metric role ctx options)).
      n_id n = l_source l \<and> (masked_node n \<longrightarrow> l_sourceLabel l \<in> {[], FLOW_MASK_TEXT})"
  proof -
    obtain n where n: "(l_source l, n) \<in> set ?ns" using link_map_ends(1) [OF y(1)] y(2) x(2) by force
    then have "n_id n = l_source (snd x)" using node_map_entries(3) [OF n] x(2) by simp
    then have "masked_node n \<longrightarrow> l_sourceLabel l \<in> {[], FLOW_MASK_TEXT}" using masked_links_hidden(1) [OF x(1) n] x(2) by auto
    then show ?thesis using final [OF n] by blast
  qed
  show "\<exists>n\<in>set (g_nodes (buildFlowGraph e rows metric role ctx options)).
      n_id n = l_target l \<and> (masked_node n \<longrightarrow> l_targetLabel l \<in> {[], FLOW_MASK_TEXT})"
  proof -
    obtain n where n: "(l_target l, n) \<in> set ?ns" using link_map_ends(2) [OF y(1)] y(3) x(2) by force
    then have "n_id n = l_target (snd x)" using node_map_entries(3) [OF n] x(2) by simp
    then have "masked_node n \<longrightarrow> l_targetLabel l \<in> {[], FLOW_MASK_TEXT}" using masked_links_hidden(2) [OF x(1) n] x(2) by auto
    then show ?thesis using final [OF n] by blast
  qed
qed

section \<open>What the graph has\<close>

lemma graph_has_node:
  assumes "good_paths metric (graph_stages role options) (graph_paths e rows metric role ctx options)"
    and "p \<in> set (graph_paths e rows metric role ctx options)" "v \<in> set (pp_path p)"
  shows "\<exists>n\<in>set (g_nodes (buildFlowGraph e rows metric role ctx options)). n_id n = pn_id v \<and> n_kind n = pn_kind v"
proof -
  let ?ps = "graph_paths e rows metric role ctx options"
  let ?m = "node_map metric (graph_color e ?ps (opt_palette options)) ?ps"
  have "pn_id v \<in> fst ` set ?m" unfolding node_map_entries(2) by (rule image_eqI [of _ _ "(p, v)"]) (simp_all add: in_items assms(2,3))
  then obtain x where x: "x \<in> set ?m" "fst x = pn_id v" by auto
  obtain q u where u: "q \<in> set ?ps" "u \<in> set (pp_path q)" "pn_id u = n_id (snd x)" "pn_kind u = n_kind (snd x)"
    using node_map_entries(4) [OF x(1)] by blast
  have id: "n_id (snd x) = pn_id v" using node_map_entries(3) [OF x(1)] x(2) by simp
  then have "n_kind (snd x) = pn_kind v"
    using wf_node_kind [OF good_node [OF assms(1) u(1,2)] good_node [OF assms]] u(3,4) by simp
  then show ?thesis using image_eq_member [OF graph_node_ids [symmetric] x(1)] id by (metis Pair_inject)
qed

lemma graph_has_link:
  assumes "p \<in> set (graph_paths e rows metric role ctx options)" "2 \<le> length (pp_path p)"
  shows "g_links (buildFlowGraph e rows metric role ctx options) \<noteq> []"
proof -
  let ?ps = "graph_paths e rows metric role ctx options"
  let ?m = "link_map metric (graph_color e ?ps (opt_palette options)) ?ps"
  have "length (steps (pp_path p)) = length (pp_path p) - 1" by (simp add: steps_def)
  then have "steps (pp_path p) \<noteq> []" using assms(2) by auto
  then have "set (link_items ?ps) \<noteq> {}" using in_items(2) [of "(p, hd (steps (pp_path p)))" ?ps] assms(1) by force
  moreover have "links.keyed (link_items ?ps) ?m" by (rule links.keyed_fold)
  then have "fst ` set ?m = (\<lambda>x. pathLinkKey (fst (snd x)) (snd (snd x))) ` set (link_items ?ps)" unfolding links.keyed_def by blast
  ultimately have "fst ` set ?m \<noteq> {}" by (simp only: image_is_empty not_False_eq_True)
  moreover have "length (g_links (buildFlowGraph e rows metric role ctx options)) = length ?m"
    using arg_cong [OF graph_links_core [of e rows metric role ctx options, unfolded final_core], of size] by simp
  ultimately show ?thesis by force
qed

end
