(* ===== verification/Flow_Properties.thy ===== *)
theory Flow_Properties
  imports Flow_Graph
begin

text \<open>
  The properties of the dashboard's flow diagram, each for the data that
  \<open>buildDashboardFlowData\<close> returns, with a sample that the hypotheses hold for.
\<close>

section \<open>A sample\<close>

definition sample_env :: flow_env where
  "sample_env = \<lparr>localeCompare = (\<lambda>a b. if a = b then 0 else if lexordp (<) a b then - 1 else 1),
     numstr = (\<lambda>n. case n of Fin x \<Rightarrow> show_nat (nat \<lfloor>x\<rfloor>) | _ \<Rightarrow> js ''NaN''), formatNumber = (\<lambda>_. js ''-''),
     dataScheme = [(None, [Some (js ''#1664FF''), Some (js ''#1AC6FF'')])]\<rparr>"

definition sample_row :: "nat \<Rightarrow> string \<Rightarrow> int \<Rightarrow> FlowQuotaDataItem" where
  "sample_row t m q = \<lparr>user_id = None, username = None, node_name = None, use_group = Some (js ''vip''), token_id = Some (jint (int t)),
     token_name = None, channel_id = None, channel_name = None, model_name = Some (js m), token_used = None,
     row_count = None, row_quota = Some (jint q)\<rparr>"

definition sample_rows :: "FlowQuotaDataItem list" where
  "sample_rows = [sample_row 1 ''small'' 5, sample_row 2 ''large'' 7]"

definition sample_options :: FlowBuildOptions where
  "sample_options = \<lparr>opt_role = None, selectedUsers = [], selectedNodes = [], activeNode = None, activeLink = None, opt_palette = [],
     visibleStages = None, topNodeLimit = None, overflowMode = None, maskSensitive = True, deletedToken = None, otherNodeLabel = None\<rparr>"

abbreviation sample_graph :: DashboardFlowGraph where
  "sample_graph \<equiv> flow (buildDashboardFlowData sample_env sample_rows MQuota sample_options)"

lemma sample_stages: "data_stages sample_options = [KToken, KGroup, KModel]"
  by (simp add: data_stages_def data_role_def graph_stages_def resolveVisibleStages_def sample_options_def)

lemma sample_numbers: "plain_numbers sample_env"
proof -
  have "0 \<notin> set (show_nat n)" for n using show_nat_digits [of 0 n] by (auto simp: is_digit_def)
  then show ?thesis by (simp add: plain_numbers_def sample_env_def js_eval u16_def split: jnum.split)
qed

lemma numberValue_jint [simp]: "numberValue (JNum (jint n)) = jint n"
  by (simp add: numberValue_def isFinite_def jint_def)

lemma sample_input: "flow_input MQuota sample_rows"
  by (simp add: flow_input_def sample_rows_def sample_row_def clean_row_def rowMetrics_def metricValue_def
      opt_num_def js_eval u16_def max_safe_def)

lemma sample_has:
  obtains n l where "n \<in> set (g_nodes sample_graph)" "n_id n = js ''group:vip''" "n_kind n = KGroup" "l \<in> set (g_links sample_graph)"
proof -
  let ?p = "\<lparr>pp_path = flowPathForStages sample_env None (sample_row 1 ''small'' 5) [KToken, KGroup, KModel],
      pp_metrics = rowMetrics (sample_row 1 ''small'' 5)\<rparr>"
  let ?ps = "graph_paths sample_env (data_rows sample_env sample_rows sample_options) MQuota (data_role sample_options)
      (deletedToken sample_options) sample_options"
  have rows: "data_rows sample_env sample_rows sample_options = sample_rows"
    by (simp add: data_rows_def sample_options_def filterRows_def filterRowsByNodes_def normalizeSelectedNodeFilters_def)
  have p: "?p \<in> set ?ps"
    unfolding rows using sample_stages
    by (simp add: graph_paths_def prepare_paths_def sample_options_def sample_rows_def normalizeTopNodeLimit_def buildTopNodeSets_def
        applyTopNodeLimit_def List.map_filter_simps data_stages_def)
  have "\<exists>n\<in>set (g_nodes sample_graph). n_id n = pn_id (groupNode (sample_row 1 ''small'' 5)) \<and> n_kind n = pn_kind (groupNode (sample_row 1 ''small'' 5))"
    unfolding data_flow by (rule graph_has_node [OF data_good [OF sample_input sample_numbers] p]) (simp add: flowPathForStages_def)
  moreover have "pn_id (groupNode (sample_row 1 ''small'' 5)) = js ''group:vip''" "pn_kind (groupNode (sample_row 1 ''small'' 5)) = KGroup"
    by (simp_all add: groupNode_def sample_row_def name_or_def Let_def js_eval)
  moreover have "g_links sample_graph \<noteq> []" unfolding data_flow by (rule graph_has_link [OF p]) (simp add: flowPathForStages_def)
  ultimately show ?thesis using that by (metis list.set_intros(1) neq_Nil_conv)
qed

section \<open>Properties\<close>

text \<open>A node whose name identifies somebody or something: not a model, not the sum of the others.\<close>

definition sensitive :: "DashboardFlowNode \<Rightarrow> bool" where
  "sensitive n \<longleftrightarrow> n_kind n \<noteq> KModel \<and> (\<forall>k. n_id n \<noteq> OTHER_FLOW_NODE_IDS k)"

lemma masked_sensitive: "masked_node n \<longleftrightarrow> sensitive n"
proof -
  have "range OTHER_FLOW_NODE_IDS = OTHER_FLOW_NODE_IDS ` {KUser, KNode, KToken, KGroup, KModel, KChannel}"
    by (rule arg_cong [where f = "image OTHER_FLOW_NODE_IDS"]) (auto intro: FlowNodeKind.exhaust)
  moreover have "n_kind n \<in> SENSITIVE_FLOW_KINDS \<longleftrightarrow> n_kind n \<noteq> KModel"
    by (cases "n_kind n") (simp_all add: SENSITIVE_FLOW_KINDS_def)
  ultimately show ?thesis unfolding masked_node_def sensitive_def by (metis rangeE rangeI)
qed

text \<open>
  C31.  The flow diagram conserves what flows: the value of a node is the sum of the links that
  enter it, unless it belongs to the first stage, and the sum of the links that leave it,
  unless it belongs to the last stage; all the link values are exact integers.
\<close>

theorem flow_conserved:
  assumes "flow_input metric rows" "plain_numbers e" "g = flow (buildDashboardFlowData e rows metric options)"
    and "n \<in> set (g_nodes g)" "l \<in> set (g_links g)"
  shows "is_count (l_value l) \<and>
    (n_kind n \<noteq> hd (data_stages options) \<longrightarrow> n_value n = jint (inflow g (n_id n))) \<and>
    (n_kind n \<noteq> last (data_stages options) \<longrightarrow> n_value n = jint (outflow g (n_id n)))"
proof (intro conjI impI)
  note good = data_good [OF assms(1,2)]
  show "is_count (l_value l)" by (rule graph_link_counts [OF good]) (use assms(3,5) in \<open>simp add: data_flow\<close>)
  have n: "n \<in> set (g_nodes (buildFlowGraph e (data_rows e rows options) metric (data_role options) (deletedToken options) options))"
    using assms(3,4) by (simp add: data_flow)
  show "n_value n = jint (inflow g (n_id n))" if "n_kind n \<noteq> hd (data_stages options)"
    using graph_conserved(1) [OF good n] that assms(3) by (simp add: data_flow data_stages_def)
  show "n_value n = jint (outflow g (n_id n))" if "n_kind n \<noteq> last (data_stages options)"
    using graph_conserved(2) [OF good n] that assms(3) by (simp add: data_flow data_stages_def)
qed

theorem flow_conserved_witness:
  "\<exists>n l. n_kind n = KGroup \<and> n \<in> set (g_nodes sample_graph) \<and> l \<in> set (g_links sample_graph) \<and> is_count (l_value l) \<and>
     n_value n = jint (inflow sample_graph (n_id n)) \<and> n_value n = jint (outflow sample_graph (n_id n))"
proof -
  obtain n l where n: "n \<in> set (g_nodes sample_graph)" "n_kind n = KGroup" "l \<in> set (g_links sample_graph)" by (rule sample_has)
  from flow_conserved [OF sample_input sample_numbers refl n(1,3)] show ?thesis using n by (auto simp: sample_stages)
qed

text \<open>
  C32.  Unless rows beyond the limit are hidden, the nodes of each stage sum up to the total of
  the summary, and the share of a link is its value divided by that total.
\<close>

theorem flow_total:
  assumes "flow_input metric rows" "plain_numbers e" "overflowMode options \<noteq> Some Hide"
    and "d = buildDashboardFlowData e rows metric options" "l \<in> set (g_links (flow d))" "k \<in> set (data_stages options)"
  shows "metricValue (summary d) metric = jint (\<Sum>n\<leftarrow>g_nodes (flow d). if n_kind n = k then count_of (n_value n) else 0) \<and>
    l_share l = (if jlt (jint 0) (metricValue (summary d) metric)
      then jdiv_pos (l_value l) (metricValue (summary d) metric) else jint 0)"
proof (intro conjI)
  note good = data_good [OF assms(1,2), of options]
  have tot: "(\<Sum>p\<leftarrow>graph_paths e (data_rows e rows options) metric (data_role options) (deletedToken options) options. path_gain metric p) =
      rows_total metric (data_rows e rows options)"
    unfolding graph_paths_def by (rule prepared_sum [OF assms(3)])
  have sum: "metricValue (summary d) metric = jint (rows_total metric (data_rows e rows options))"
    unfolding assms(4) data_flow by (rule summary_total [OF data_rows_input [OF assms(1)]])
  show "metricValue (summary d) metric = jint (\<Sum>n\<leftarrow>g_nodes (flow d). if n_kind n = k then count_of (n_value n) else 0)"
    using graph_stage_total [OF good, of k] assms(6) tot by (simp add: sum data_stages_def) (simp add: assms(4) data_flow)
  show "l_share l = (if jlt (jint 0) (metricValue (summary d) metric)
      then jdiv_pos (l_value l) (metricValue (summary d) metric) else jint 0)"
    unfolding sum by (rule graph_shares) (use assms(4,5) graph_total_value [OF good] tot in \<open>simp_all add: data_flow\<close>)
qed

theorem flow_total_witness:
  "\<exists>l\<in>set (g_links sample_graph).
     metricValue (summary (buildDashboardFlowData sample_env sample_rows MQuota sample_options)) MQuota =
       jint (\<Sum>n\<leftarrow>g_nodes sample_graph. if n_kind n = KModel then count_of (n_value n) else 0) \<and>
     l_share l = (if jlt (jint 0) (metricValue (summary (buildDashboardFlowData sample_env sample_rows MQuota sample_options)) MQuota)
       then jdiv_pos (l_value l) (metricValue (summary (buildDashboardFlowData sample_env sample_rows MQuota sample_options)) MQuota) else jint 0)"
proof -
  obtain l where l: "l \<in> set (g_links sample_graph)" by (rule sample_has)
  show ?thesis
    by (rule bexI [OF _ l], rule flow_total [OF sample_input sample_numbers _ refl l])
      (simp_all add: sample_stages, simp add: sample_options_def)
qed

text \<open>
  C33.  With masking on, the diagram shows no label of a sensitive node: neither on the node
  nor at the ends of its links.
\<close>

theorem masked_labels_hidden:
  assumes "maskSensitive options" "g = flow (buildDashboardFlowData e rows metric options)"
  shows "(\<forall>n\<in>set (g_nodes g). sensitive n \<longrightarrow> n_label n \<in> {[], FLOW_MASK_TEXT}) \<and>
    (\<forall>l\<in>set (g_links g).
      (\<exists>n\<in>set (g_nodes g). n_id n = l_source l \<and> (sensitive n \<longrightarrow> l_sourceLabel l \<in> {[], FLOW_MASK_TEXT})) \<and>
      (\<exists>n\<in>set (g_nodes g). n_id n = l_target l \<and> (sensitive n \<longrightarrow> l_targetLabel l \<in> {[], FLOW_MASK_TEXT})))"
proof (intro conjI ballI impI)
  fix n assume "n \<in> set (g_nodes g)" "sensitive n"
  then show "n_label n \<in> {[], FLOW_MASK_TEXT}"
    using graph_node_hidden [OF assms(1)] by (simp add: assms(2) data_flow masked_sensitive)
qed (use graph_link_hidden [OF assms(1)] in \<open>simp_all add: assms(2) data_flow masked_sensitive\<close>)

theorem masked_labels_hidden_witness:
  "\<exists>n\<in>set (g_nodes sample_graph). sensitive n \<and> n_label n \<in> {[], FLOW_MASK_TEXT}"
proof -
  obtain n where n: "n \<in> set (g_nodes sample_graph)" "n_id n = js ''group:vip''" "n_kind n = KGroup" by (rule sample_has)
  have "sensitive n" unfolding sensitive_def
  proof (intro conjI allI)
    show "n_id n \<noteq> OTHER_FLOW_NODE_IDS k" for k by (cases k) (simp_all add: n(2) OTHER_FLOW_NODE_IDS_def js_eval)
  qed (simp add: n(3))
  moreover have "maskSensitive sample_options" by (simp add: sample_options_def)
  ultimately show ?thesis using masked_labels_hidden [OF _ refl, of sample_options sample_env sample_rows MQuota] n(1) by blast
qed

text \<open>
  The diagram shows at most as many nodes of a kind as the limit says, and one more for
  the others unless the paths beyond the limit are hidden; node ids are never repeated.
\<close>

theorem top_limit_bounds:
  assumes "normalizeTopNodeLimit (topNodeLimit options) = Some N" "g = flow (buildDashboardFlowData e rows metric options)"
  shows "distinct (map n_id (g_nodes g)) \<and>
    length (filter (\<lambda>n. n_kind n = k) (g_nodes g)) \<le> (if overflowMode options = Some Hide then N else N + 1)"
  unfolding assms(2) data_flow using graph_limit [OF assms(1)] graph_ids_distinct by blast

theorem top_limit_bounds_witness:
  "length (filter (\<lambda>n. n_kind n = KToken)
     (g_nodes (flow (buildDashboardFlowData sample_env sample_rows MQuota (sample_options\<lparr>topNodeLimit := Some (jint 1)\<rparr>))))) \<le> 2"
  using top_limit_bounds [of "sample_options\<lparr>topNodeLimit := Some (jint 1)\<rparr>" 1, OF _ refl, of sample_env sample_rows MQuota KToken]
  by (simp add: normalizeTopNodeLimit_def jint_def sample_options_def)

text \<open>
  The selection of nodes keeps exactly the rows whose node is among the selected ones, for
  every visible stage that has a selected node.
\<close>

theorem node_filter_exact:
  "row \<in> set (filterRowsByNodes e ctx rows selected stages) \<longleftrightarrow> row \<in> set rows \<and>
     (\<forall>k\<in>set stages. k \<in> nf_kind ` set selected \<longrightarrow>
        (\<exists>f\<in>set selected. nf_kind f = k \<and> nf_id f = pn_id (NODE_BUILDERS e ctx k row)))"
proof (cases "normalizeSelectedNodeFilters selected stages = []")
  case True
  then have "k \<notin> nf_kind ` set selected" if "k \<in> set stages" for k
    using normalized_filters [of selected stages k] that by (auto split: if_splits)
  then show ?thesis using True by (auto simp: filterRowsByNodes_def Let_def)
next
  case False
  then show ?thesis by (simp add: filterRowsByNodes_def Let_def path_matches)
qed

theorem node_filter_exact_witness:
  "sample_row 1 ''small'' 5 \<in> set (filterRowsByNodes sample_env None sample_rows [\<lparr>nf_kind = KModel, nf_id = js ''model:small''\<rparr>] [KToken, KModel]) \<and>
   sample_row 2 ''large'' 7 \<notin> set (filterRowsByNodes sample_env None sample_rows [\<lparr>nf_kind = KModel, nf_id = js ''model:small''\<rparr>] [KToken, KModel])"
  unfolding node_filter_exact
  by (simp add: sample_rows_def sample_row_def modelNode_def name_or_def js_eval)

end
