(* ===== verification/Usage_Audit.thy ===== *)
theory Usage_Audit
  imports JS_Convert
begin

text \<open>
  The usage audit of the billing pages (\<open>web/src/features/billing/lib/usage-audit.ts\<close>): the
  checks of a selection, the tables that are exported as CSV, and exact sums of amounts.

  The text of a number is the argument \<open>numstr\<close>, and \<open>Date.parse\<close>, which engines define
  differently, is an argument too.  Times of the server are integers of seconds.
\<close>

section \<open>Amounts\<close>

text \<open>An amount is held as an integer of billionths; its text has nine decimals.\<close>

definition pad_start :: "nat \<Rightarrow> jstring \<Rightarrow> jstring" where
  "pad_start n s = replicate (n - length s) (u16 (CHR ''0'')) @ s"

definition pad_end :: "nat \<Rightarrow> jstring \<Rightarrow> jstring" where
  "pad_end n s = s @ replicate (n - length s) (u16 (CHR ''0''))"

definition fixed_text :: "int \<Rightarrow> jstring" where
  "fixed_text units =
     (let absolute = nat \<bar>units\<bar> in
      (if units < 0 then js ''-'' else []) @ show_nat (absolute div 1000000000) @ js ''.'' @
      pad_start 9 (show_nat (absolute mod 1000000000)))"

text \<open>\<open>value.replace(p, '')\<close> and \<open>value.replace(p, q)\<close> for one character.\<close>

fun drop_first :: "jchar \<Rightarrow> jstring \<Rightarrow> jstring" where
  "drop_first c [] = []"
| "drop_first c (d # s) = (if d = c then s else d # drop_first c s)"

fun replace_first :: "jchar \<Rightarrow> jchar \<Rightarrow> jstring \<Rightarrow> jstring" where
  "replace_first c e [] = []"
| "replace_first c e (d # s) = (if d = c then e # s else d # replace_first c e s)"

definition unsigned_part :: "jstring \<Rightarrow> jstring" where
  "unsigned_part s = (if starts_with (js ''-'') s then tl s else s)"

definition digits1 :: "jstring \<Rightarrow> bool" where
  "digits1 s \<longleftrightarrow> s \<noteq> [] \<and> list_all is_digit s"

text \<open>\<open>/^-?\d+(\.\d+)?$/\<close>, and with at most \<open>n\<close> decimals.\<close>

definition is_decimal :: "jstring \<Rightarrow> bool" where
  "is_decimal s =
     (case split_on (u16 (CHR ''.'')) (unsigned_part s) of
        [w] \<Rightarrow> digits1 w
      | [w, f] \<Rightarrow> digits1 w \<and> digits1 f
      | _ \<Rightarrow> False)"

definition is_amount :: "jstring \<Rightarrow> bool" where
  "is_amount s =
     (case split_on (u16 (CHR ''.'')) (unsigned_part s) of
        [w] \<Rightarrow> digits1 w
      | [w, f] \<Rightarrow> digits1 w \<and> digits1 f \<and> length f \<le> 9
      | _ \<Rightarrow> False)"

definition amount_units :: "jstring \<Rightarrow> int" where
  "amount_units value =
     (let parts = split_on (u16 (CHR ''.'')) (drop_first (u16 (CHR ''-'')) value);
          whole = hd parts; fraction = (case tl parts of [] \<Rightarrow> [] | f # _ \<Rightarrow> f);
          amount = int (parse_dec whole) * 1000000000 + int (parse_dec (pad_end 9 fraction))
      in if starts_with (js ''-'') value then - amount else amount)"

fun sum_loop :: "int \<Rightarrow> jstring option list \<Rightarrow> int option" where
  "sum_loop n [] = Some n"
| "sum_loop n (value # vs) =
     (case value of
        None \<Rightarrow> None
      | Some v \<Rightarrow> if is_amount v then sum_loop (n + amount_units v) vs else None)"

definition sumUsageAuditAmounts :: "jstring option list \<Rightarrow> jstring option" where
  "sumUsageAuditAmounts vs = map_option fixed_text (sum_loop 0 vs)"

section \<open>Tables\<close>

datatype csv_value = Text jstring | Num jnum | Missing

fun cell_text :: "(jnum \<Rightarrow> jstring) \<Rightarrow> csv_value \<Rightarrow> jstring" where
  "cell_text numstr (Text s) = s"
| "cell_text numstr (Num n) =
     (case n of Fin _ \<Rightarrow> numstr n | NaN \<Rightarrow> js ''NaN'' | PInf \<Rightarrow> js ''Infinity'' | NInf \<Rightarrow> js ''-Infinity'')"
| "cell_text numstr Missing = []"

text \<open>\<open>/^[=+\-@\t\r]/\<close>\<close>

definition is_formula :: "jstring \<Rightarrow> bool" where
  "is_formula s \<longleftrightarrow> s \<noteq> [] \<and> (hd s \<in> u16 ` {CHR ''='', CHR ''+'', CHR ''-'', CHR ''@''} \<or> hd s = 9 \<or> hd s = 13)"

definition neutral :: "jstring \<Rightarrow> jstring" where
  "neutral cell = (if is_formula cell \<and> \<not> is_decimal cell then 39 # cell else cell)"

definition quoted_cell :: "jstring \<Rightarrow> jstring" where
  "quoted_cell cell = [34] @ concat (map (\<lambda>c. if c = 34 then [34, 34] else [c]) cell) @ [34]"

definition usageAuditCsv :: "(jnum \<Rightarrow> jstring) \<Rightarrow> csv_value list list \<Rightarrow> jstring" where
  "usageAuditCsv numstr records =
     0xFEFF # join [13, 10] (map (\<lambda>row. join (js '','') (map (\<lambda>v. quoted_cell (neutral (cell_text numstr v))) row)) records)"

section \<open>The table of details\<close>

record UsageAuditTokens =
  input_tokens :: jnum
  cache_read_input_tokens :: jnum
  cache_creation_input_tokens :: jnum
  output_tokens :: jnum
  total_input_tokens :: jnum

record UsageAuditCost =
  cost_input :: jstring
  cost_cache_read :: jstring
  cost_cache_write :: jstring
  cost_output :: jstring
  cost_rounding :: jstring
  cost_total :: jstring

record UsageAuditInputRecalculation =
  re_tokens :: jnum
  re_cache_read_input_tokens :: jnum
  re_cache_creation_input_tokens :: jnum
  re_unpriced_tokens :: jnum
  re_platform_amount :: jstring
  re_list_amount :: jstring

record UsageAuditEvidence =
  request_path :: jstring
  request_conversion :: "jstring list option"
  billing_path :: jstring
  model_ratio :: "jnum option"
  completion_ratio :: "jnum option"
  cache_ratio :: "jnum option"
  cache_creation_ratio :: "jnum option"
  cache_creation_ratio_5m :: "jnum option"
  cache_creation_ratio_1h :: "jnum option"
  cache_creation_tokens_5m :: jnum
  cache_creation_tokens_1h :: jnum

record UsageAuditRow =
  input_recalculation :: "UsageAuditInputRecalculation option"
  row_id :: jnum
  row_user_id :: jnum
  username :: jstring
  row_token_id :: jnum
  token_name :: jstring
  created_at :: int
  request_id :: jstring
  upstream_request_id :: jstring
  row_model :: jstring
  row_group :: jstring
  row_channel_id :: jnum
  is_stream :: bool
  row_kind :: jstring
  row_protocol :: jstring
  usage_semantic :: jstring
  group_ratio :: "jnum option"
  row_tokens :: "UsageAuditTokens option"
  actual_amount :: jstring
  list_prices_per_million :: "UsageAuditCost option"
  list_cost :: "UsageAuditCost option"
  discounted_cost :: "UsageAuditCost option"
  recalculation_difference :: "jstring option"
  possible_duplicate_input_tokens :: jnum
  duplicate_status :: jstring
  row_issue :: jstring
  evidence :: "UsageAuditEvidence option"

text \<open>What the table uses of a report.\<close>

record UsageAuditReport =
  filter_start_at :: int
  filter_end_at :: int
  generated_at :: int
  sha256 :: jstring
  rows :: "UsageAuditRow list"
  currency_code :: jstring
  currency_rate :: jstring
  recalculation_basis :: jstring

subsection \<open>Dates\<close>

text \<open>
  Year, month and day of a day counted from 1970-01-01, in the Gregorian calendar: years
  begin in March, and an era has 400 of them.
\<close>

definition civil :: "int \<Rightarrow> int \<times> int \<times> int" where
  "civil d =
     (let z = d + 719468; era = z div 146097; doe = z mod 146097;
          yoe = (doe - doe div 1460 + doe div 36524 - doe div 146096) div 365;
          doy = doe - (365 * yoe + yoe div 4 - yoe div 100);
          mp = (5 * doy + 2) div 153;
          day = doy - (153 * mp + 2) div 5 + 1;
          month = (if mp < 10 then mp + 3 else mp - 9)
      in (yoe + era * 400 + (if month \<le> 2 then 1 else 0), month, day))"

definition two :: "int \<Rightarrow> jstring" where "two n = pad_start 2 (show_nat (nat n))"

definition year_text :: "int \<Rightarrow> jstring" where
  "year_text y =
     (if 0 \<le> y \<and> y \<le> 9999 then pad_start 4 (show_nat (nat y))
      else (if y < 0 then js ''-'' else js ''+'') @ pad_start 6 (show_nat (nat \<bar>y\<bar>)))"

text \<open>\<open>new Date(seconds * 1000).toISOString()\<close>, which throws outside the range of dates.\<close>

definition iso_seconds :: "int \<Rightarrow> jstring option" where
  "iso_seconds t =
     (if \<bar>t * 1000\<bar> > 8640000000000000 then None
      else (let (y, m, d) = civil (t div 86400); s = t mod 86400 in
        Some (year_text y @ js ''-'' @ two m @ js ''-'' @ two d @ js ''T'' @ two (s div 3600) @ js '':'' @
              two (s div 60 mod 60) @ js '':'' @ two (s mod 60) @ js ''.000Z'')))"

definition shanghai_text :: "int \<Rightarrow> jstring option" where
  "shanghai_text t = map_option (\<lambda>iso.
     replace_first (u16 (CHR ''T'')) (u16 (CHR '' '')) (take 19 iso) @ js ''+08:00'') (iso_seconds (t + 28800))"

subsection \<open>Rows\<close>

text \<open>\<open>BigInt(s)\<close>; it throws on a text that is no integer.\<close>

definition big_radix :: "nat \<Rightarrow> jstring \<Rightarrow> int option" where
  "big_radix b ds =
     (if ds = [] \<or> (\<exists>c\<in>set ds. radix_digit b c = None) then None
      else Some (int (foldl (\<lambda>n c. b * n + the (radix_digit b c)) 0 ds)))"

definition BigInt :: "jstring \<Rightarrow> int option" where
  "BigInt s =
     (let t = jtrim s in
      if t = [] then Some 0
      else if starts_with (js ''0x'') t \<or> starts_with (js ''0X'') t then big_radix 16 (drop 2 t)
      else if starts_with (js ''0o'') t \<or> starts_with (js ''0O'') t then big_radix 8 (drop 2 t)
      else if starts_with (js ''0b'') t \<or> starts_with (js ''0B'') t then big_radix 2 (drop 2 t)
      else if hd t = u16 (CHR ''-'') then (if digits1 (tl t) then Some (- int (parse_dec (tl t))) else None)
      else if hd t = u16 (CHR ''+'') then (if digits1 (tl t) then Some (int (parse_dec (tl t))) else None)
      else if digits1 t then Some (int (parse_dec t)) else None)"

text \<open>\<open>Some None\<close> when the list price is not known, \<open>None\<close> when an amount is no number.\<close>

definition priceDifference :: "UsageAuditRow \<Rightarrow> jstring option option" where
  "priceDifference row =
     (case list_cost row of
        None \<Rightarrow> Some None
      | Some c \<Rightarrow>
          (case (BigInt (drop_first (u16 (CHR ''.'')) (cost_total c)), BigInt (drop_first (u16 (CHR ''.'')) (actual_amount row))) of
             (Some a, Some b) \<Rightarrow> Some (Some (fixed_text (a - b)))
           | _ \<Rightarrow> None))"

fun text_cell :: "jstring option \<Rightarrow> csv_value" where
  "text_cell None = Missing"
| "text_cell (Some s) = Text s"

fun num_cell :: "jnum option \<Rightarrow> csv_value" where
  "num_cell None = Missing"
| "num_cell (Some n) = Num n"

definition detail_header :: "string list" where
  "detail_header =
     [''report_sha256'', ''user_id'', ''username'', ''token_id'', ''token_name'', ''created_at_utc'', ''request_id'',
      ''upstream_request_id'', ''model'', ''group'', ''group_ratio'', ''protocol'', ''usage_semantic'',
      ''input_tokens'', ''cache_read_input_tokens'', ''cache_creation_input_tokens'', ''output_tokens'',
      ''total_input_tokens'', ''actual_amount'', ''list_amount'', ''discounted_amount'',
      ''actual_minus_recalculated'', ''list_input_per_million'', ''list_cache_read_per_million'',
      ''list_cache_write_per_million'', ''list_output_per_million'', ''discounted_input_amount'',
      ''discounted_cache_read_amount'', ''discounted_cache_write_amount'', ''discounted_output_amount'',
      ''possible_duplicate_input_tokens'', ''duplicate_status'', ''issue'', ''currency'', ''currency_rate'',
      ''log_id'', ''log_kind'', ''created_at_shanghai'', ''channel_id'', ''is_stream'', ''list_input_amount'',
      ''list_cache_read_amount'', ''list_cache_write_amount'', ''list_output_amount'', ''list_rounding_amount'',
      ''platform_rounding_amount'', ''list_minus_platform_amount'', ''possible_duplicate_cache_read_tokens'',
      ''possible_duplicate_cache_write_tokens'', ''input_repricing_tokens'', ''input_repricing_platform_amount'',
      ''input_repricing_base_amount'', ''input_repricing_unpriced_tokens'', ''period_start_utc'',
      ''period_end_exclusive_utc'', ''report_generated_at_utc'', ''request_path'', ''request_conversion'',
      ''billing_path'', ''model_ratio'', ''completion_ratio'', ''cache_read_ratio'', ''cache_write_ratio'',
      ''cache_write_5m_ratio'', ''cache_write_1h_ratio'', ''cache_write_5m_tokens'', ''cache_write_1h_tokens'',
      ''recalculation_basis'']"

definition detail_cells :: "UsageAuditReport \<Rightarrow> UsageAuditRow \<Rightarrow> jstring option \<Rightarrow> jstring \<Rightarrow> jstring \<Rightarrow> jstring \<Rightarrow> jstring \<Rightarrow>
    jstring \<Rightarrow> csv_value list" where
  "detail_cells report row price created shanghai start until generated =
     [Text (sha256 report), Num (row_user_id row), Text (username row), Num (row_token_id row), Text (token_name row),
      Text created, Text (request_id row), Text (upstream_request_id row), Text (row_model row), Text (row_group row),
      num_cell (group_ratio row), Text (row_protocol row), Text (usage_semantic row),
      num_cell (map_option input_tokens (row_tokens row)), num_cell (map_option cache_read_input_tokens (row_tokens row)),
      num_cell (map_option cache_creation_input_tokens (row_tokens row)), num_cell (map_option output_tokens (row_tokens row)),
      num_cell (map_option total_input_tokens (row_tokens row)), Text (actual_amount row),
      text_cell (map_option cost_total (list_cost row)), text_cell (map_option cost_total (discounted_cost row)),
      text_cell (recalculation_difference row), text_cell (map_option cost_input (list_prices_per_million row)),
      text_cell (map_option cost_cache_read (list_prices_per_million row)),
      text_cell (map_option cost_cache_write (list_prices_per_million row)),
      text_cell (map_option cost_output (list_prices_per_million row)), text_cell (map_option cost_input (discounted_cost row)),
      text_cell (map_option cost_cache_read (discounted_cost row)), text_cell (map_option cost_cache_write (discounted_cost row)),
      text_cell (map_option cost_output (discounted_cost row)), Num (possible_duplicate_input_tokens row),
      Text (duplicate_status row), Text (row_issue row), Text (currency_code report), Text (currency_rate report),
      Num (row_id row), Text (row_kind row), Text shanghai, Num (row_channel_id row),
      Text (if is_stream row then js ''true'' else js ''false''), text_cell (map_option cost_input (list_cost row)),
      text_cell (map_option cost_cache_read (list_cost row)), text_cell (map_option cost_cache_write (list_cost row)),
      text_cell (map_option cost_output (list_cost row)), text_cell (map_option cost_rounding (list_cost row)),
      text_cell (map_option cost_rounding (discounted_cost row)), text_cell price,
      Num (nullish (map_option re_cache_read_input_tokens (input_recalculation row)) (jint 0)),
      Num (nullish (map_option re_cache_creation_input_tokens (input_recalculation row)) (jint 0)),
      Num (nullish (map_option re_tokens (input_recalculation row)) (jint 0)),
      text_cell (map_option re_platform_amount (input_recalculation row)),
      text_cell (map_option re_list_amount (input_recalculation row)),
      Num (nullish (map_option re_unpriced_tokens (input_recalculation row)) (jint 0)),
      Text start, Text until, Text generated, text_cell (map_option request_path (evidence row)),
      text_cell (map_option (join (js '' -> '')) (Option.bind (evidence row) request_conversion)),
      text_cell (map_option billing_path (evidence row)), num_cell (Option.bind (evidence row) model_ratio),
      num_cell (Option.bind (evidence row) completion_ratio), num_cell (Option.bind (evidence row) cache_ratio),
      num_cell (Option.bind (evidence row) cache_creation_ratio), num_cell (Option.bind (evidence row) cache_creation_ratio_5m),
      num_cell (Option.bind (evidence row) cache_creation_ratio_1h),
      num_cell (map_option cache_creation_tokens_5m (evidence row)), num_cell (map_option cache_creation_tokens_1h (evidence row)),
      Text (recalculation_basis report)]"

text \<open>One row; an invalid amount or time throws.\<close>

definition detail_row :: "UsageAuditReport \<Rightarrow> UsageAuditRow \<Rightarrow> csv_value list option" where
  "detail_row report row =
     (case (priceDifference row, iso_seconds (created_at row), shanghai_text (created_at row), iso_seconds (filter_start_at report),
            iso_seconds (filter_end_at report), iso_seconds (generated_at report)) of
        (Some price, Some created, Some shanghai, Some start, Some until, Some generated) \<Rightarrow>
          Some (detail_cells report row price created shanghai start until generated)
      | _ \<Rightarrow> None)"

fun all_some :: "'a option list \<Rightarrow> 'a list option" where
  "all_some [] = Some []"
| "all_some (x # xs) = Option.bind x (\<lambda>y. map_option ((#) y) (all_some xs))"

definition usageAuditDetailsCsv :: "(jnum \<Rightarrow> jstring) \<Rightarrow> UsageAuditReport \<Rightarrow> jstring option" where
  "usageAuditDetailsCsv numstr report =
     map_option (\<lambda>rs. usageAuditCsv numstr (map (\<lambda>h. Text (js h)) detail_header # rs)) (all_some (map (detail_row report) (rows report)))"

section \<open>The selection\<close>

record UsageAuditValues =
  v_scope :: jstring
  v_start :: jstring
  v_end :: jstring
  v_token :: jstring
  v_channel :: jstring
  v_model :: jstring
  v_group :: jstring
  v_protocol :: jstring

record UsageAuditFilter =
  user_id :: jnum
  token_id :: jnum
  channel_id :: jnum
  start_at :: jnum
  end_at :: jnum
  f_model :: jstring
  f_group :: jstring
  f_protocol :: jstring

definition in_shanghai :: "(jstring \<Rightarrow> jnum) \<Rightarrow> jstring \<Rightarrow> jnum" where
  "in_shanghai parse s = parse (s @ js ''+08:00'')"

definition period_invalid :: "(jstring \<Rightarrow> jnum) \<Rightarrow> UsageAuditValues \<Rightarrow> bool" where
  "period_invalid parse v \<longleftrightarrow>
     (let start = in_shanghai parse (v_start v); until = in_shanghai parse (v_end v) in
      \<not> isFinite start \<or> \<not> isFinite until \<or> jle until start \<or> jlt (jint (93 * 86400000)) (jsub until start))"

definition isSafeInteger :: "jnum \<Rightarrow> bool" where
  "isSafeInteger n \<longleftrightarrow> isInteger n \<and> jle (jint (- max_safe)) n \<and> jle n (jint max_safe)"

definition id_invalid :: "jstring \<Rightarrow> bool" where
  "id_invalid s \<longleftrightarrow> \<not> isSafeInteger (string_to_number s) \<or> jlt (jint 2147483647) (string_to_number s)"

text \<open>The issues of the check across fields, by the name of the field.\<close>

definition selection_issues :: "(jstring \<Rightarrow> jnum) \<Rightarrow> UsageAuditValues \<Rightarrow> (string \<times> string) list" where
  "selection_issues parse v =
     (if period_invalid parse v then [(''end'', ''Select a valid period of up to 93 days'')] else []) @
     (if id_invalid (v_token v) then [(''token'', ''Invalid ID'')] else []) @
     (if id_invalid (v_channel v) then [(''channel'', ''Invalid ID'')] else [])"

definition usageAuditSelection :: "(jstring \<Rightarrow> jnum) \<Rightarrow> jnum \<Rightarrow> UsageAuditValues \<Rightarrow> UsageAuditFilter" where
  "usageAuditSelection parse userId v =
     \<lparr>user_id = (if v_scope v = js ''all'' then jint 0 else userId), token_id = string_to_number (v_token v),
      channel_id = string_to_number (v_channel v), start_at = jdiv_fin (in_shanghai parse (v_start v)) 1000,
      end_at = jdiv_fin (in_shanghai parse (v_end v)) 1000, f_model = jtrim (v_model v), f_group = jtrim (v_group v),
      f_protocol = v_protocol v\<rparr>"

end
