(* ===== verification/Usage_Export.thy ===== *)
theory Usage_Export
  imports Usage_Audit
begin

text \<open>
  The exported tables of the usage audit are read back cell by cell, hold no formula, and
  their amounts are exact.
\<close>

section \<open>Numerals\<close>

lemma parse_dec_append: "parse_dec (a @ b) = parse_dec a * 10 ^ length b + parse_dec b"
proof (induction b rule: rev_induct)
  case (snoc c b)
  have "parse_dec (s @ [c]) = 10 * parse_dec s + digit_val c" for s by (simp add: parse_dec_def)
  from this [of "a @ b"] this [of b] snoc show ?case by (simp add: algebra_simps)
qed (simp add: parse_dec_def)

lemma parse_dec_zeros [simp]: "parse_dec (replicate k (u16 (CHR ''0''))) = 0"
proof (induction k)
  case (Suc k)
  have "parse_dec [u16 (CHR ''0'')] = 0" by (simp add: parse_dec_def digit_val_def unat_u16)
  with Suc parse_dec_append [of "[u16 (CHR ''0'')]" "replicate k (u16 (CHR ''0''))"] show ?case by simp
qed (simp add: parse_dec_def)

lemma parse_dec_pad_end: "length s \<le> n \<Longrightarrow> parse_dec (pad_end n s) = parse_dec s * 10 ^ (n - length s)"
  by (simp add: pad_end_def parse_dec_append)

lemma parse_dec_pad_start [simp]: "parse_dec (pad_start n s) = parse_dec s"
  by (simp add: pad_start_def parse_dec_append)

lemma length_show_nat: "n < 10 ^ Suc k \<Longrightarrow> length (show_nat n) \<le> Suc k"
proof (induction k arbitrary: n)
  case 0
  then show ?case by (simp add: show_nat.simps)
next
  case (Suc k)
  then have "n div 10 < 10 ^ Suc k" by (simp add: less_mult_imp_div_less mult.commute)
  with Suc.IH [of "n div 10"] show ?case by (simp add: show_nat.simps [of n])
qed

lemma digits1_show_nat [simp]: "digits1 (show_nat n)"
  by (simp add: digits1_def)

lemma zero_digit: "is_digit (u16 (CHR ''0''))"
  by (simp add: is_digit_u16)

lemma digits_no_mark:
  "list_all is_digit s \<Longrightarrow> u16 (CHR ''.'') \<notin> set s" "list_all is_digit s \<Longrightarrow> u16 (CHR ''-'') \<notin> set s"
  by (auto simp: list_all_iff is_digit_u16)

section \<open>Amounts\<close>

text \<open>The number that a decimal text denotes.\<close>

definition unsigned_value :: "jstring \<Rightarrow> rat" where
  "unsigned_value s =
     (case split_on (u16 (CHR ''.'')) s of
        [w] \<Rightarrow> of_nat (parse_dec w)
      | [w, f] \<Rightarrow> of_nat (parse_dec w) + of_nat (parse_dec f) / 10 ^ length f
      | _ \<Rightarrow> 0)"

definition decimal_value :: "jstring \<Rightarrow> rat" where
  "decimal_value s = (if starts_with (js ''-'') s then - unsigned_value (unsigned_part s) else unsigned_value (unsigned_part s))"

lemma drop_first_absent: "c \<notin> set s \<Longrightarrow> drop_first c s = s"
  by (induction s) auto

lemma drop_first_append: "c \<notin> set a \<Longrightarrow> drop_first c (a @ c # b) = a @ b"
  by (induction a) auto

lemma amount_cases:
  assumes "is_amount s"
  obtains (whole) w where "unsigned_part s = w" "digits1 w" "split_on (u16 (CHR ''.'')) w = [w]"
  | (fraction) w f where "unsigned_part s = w @ u16 (CHR ''.'') # f" "digits1 w" "digits1 f" "length f \<le> 9"
      "split_on (u16 (CHR ''.'')) (w @ u16 (CHR ''.'') # f) = [w, f]"
proof -
  let ?u = "unsigned_part s"
  have j: "join [u16 (CHR ''.'')] (split_on (u16 (CHR ''.'')) ?u) = ?u" by (rule join_split_on)
  show thesis
  proof (cases "split_on (u16 (CHR ''.'')) ?u")
    case (Cons w ws)
    show ?thesis
    proof (cases ws)
      case Nil
      then show ?thesis using Cons j assms whole [of ?u] by (simp add: is_amount_def)
    next
      case (Cons f fs)
      then show ?thesis
        using \<open>split_on _ ?u = w # ws\<close> j assms fraction [of w f] by (auto simp: is_amount_def split: list.splits)
    qed
  qed simp
qed

lemma amount_no_sign:
  assumes "is_amount s" shows "drop_first (u16 (CHR ''-'')) s = unsigned_part s"
proof -
  have "u16 (CHR ''-'') \<notin> set (unsigned_part s)"
    using assms by (cases rule: amount_cases) (auto simp: digits1_def dest: digits_no_mark)
  then show ?thesis
    by (cases s) (auto simp: unsigned_part_def starts_with_def js_eval drop_first_absent split: if_splits)
qed

lemma amount_units_value:
  assumes "is_amount s"
  shows "of_int (amount_units s) = decimal_value s * 10 ^ 9"
  using assms
proof (cases rule: amount_cases)
  case (whole w)
  then show ?thesis using amount_no_sign [OF assms]
    by (simp add: amount_units_def decimal_value_def unsigned_value_def Let_def parse_dec_pad_end) (simp add: parse_dec_def)
next
  case (fraction w f)
  have "(10 :: rat) ^ (9 - length f) = 10 ^ 9 / 10 ^ length f" using fraction(4) by (simp add: power_diff)
  then have "of_nat (parse_dec (pad_end 9 f)) = (of_nat (parse_dec f) / 10 ^ length f * 10 ^ 9 :: rat)"
    using fraction(4) by (simp add: parse_dec_pad_end)
  then show ?thesis using fraction amount_no_sign [OF assms]
    by (simp add: amount_units_def decimal_value_def unsigned_value_def Let_def algebra_simps)
qed

lemma fixed_text_amount: "is_amount (fixed_text n)" "amount_units (fixed_text n) = n"
proof -
  define q r where "q = nat \<bar>n\<bar> div 1000000000" and "r = nat \<bar>n\<bar> mod 1000000000"
  let ?f = "pad_start 9 (show_nat r)"
  have "length (show_nat r) \<le> 9" using length_show_nat [of r 8] by (simp add: r_def)
  then have f: "length ?f = 9" "digits1 ?f" by (auto simp: pad_start_def digits1_def zero_digit list_all_iff show_nat_digits)
  have t: "fixed_text n = (if n < 0 then js ''-'' else []) @ show_nat q @ u16 (CHR ''.'') # ?f"
    by (simp add: fixed_text_def q_def r_def Let_def js_eval)
  obtain c cs where c: "show_nat q = c # cs" "is_digit c" using show_nat_hd by blast
  have u: "unsigned_part (fixed_text n) = show_nat q @ u16 (CHR ''.'') # ?f" "starts_with (js ''-'') (fixed_text n) \<longleftrightarrow> n < 0"
    using c by (auto simp: t unsigned_part_def starts_with_def js_eval is_digit_u16)
  have s: "split_on (u16 (CHR ''.'')) (show_nat q @ u16 (CHR ''.'') # ?f) = [show_nat q, ?f]"
    using f digits_no_mark(1) [of ?f] digits_no_mark(1) [of "show_nat q"] by (simp add: split_on_append digits1_def)
  show a: "is_amount (fixed_text n)" using f by (simp add: is_amount_def u s)
  have "q * 1000000000 + r = nat \<bar>n\<bar>" unfolding q_def r_def by (rule div_mult_mod_eq)
  then have "int q * 1000000000 + int r = \<bar>n\<bar>" by linarith
  then show "amount_units (fixed_text n) = n"
    using f by (simp add: amount_units_def amount_no_sign [OF a] u s parse_dec_pad_end Let_def)
qed

lemma decimal_value_fixed: "decimal_value (fixed_text n) = of_int n / 10 ^ 9"
  using amount_units_value [OF fixed_text_amount(1), of n] by (simp add: fixed_text_amount(2) field_simps)

lemma sum_loop_exact:
  "sum_loop n vs = (if \<forall>v\<in>set vs. \<exists>s. v = Some s \<and> is_amount s then Some (n + (\<Sum>v\<leftarrow>vs. amount_units (the v))) else None)"
  by (induction vs arbitrary: n) (auto split: option.splits)

text \<open>
  Amounts are summed exactly: a sum exists when every value is an amount of at most nine
  decimals, it is such an amount again, and it denotes the sum of the numbers.
\<close>

theorem amounts_summed_exactly:
  "(case sumUsageAuditAmounts vs of
      None \<Rightarrow> \<exists>v\<in>set vs. v = None \<or> \<not> is_amount (the v)
    | Some t \<Rightarrow> (\<forall>v\<in>set vs. v \<noteq> None \<and> is_amount (the v)) \<and> is_amount t \<and> decimal_value t = (\<Sum>v\<leftarrow>vs. decimal_value (the v)))"
proof (cases "\<forall>v\<in>set vs. \<exists>s. v = Some s \<and> is_amount s")
  case True
  then have "(\<Sum>v\<leftarrow>vs. decimal_value (the v)) = of_int (\<Sum>v\<leftarrow>vs. amount_units (the v)) / 10 ^ 9"
  proof (induction vs)
    case (Cons v vs)
    then obtain s where "v = Some s" "is_amount s" by auto
    with Cons amount_units_value [of s] show ?case by (simp add: field_simps)
  qed simp
  with True show ?thesis
    by (auto simp: sumUsageAuditAmounts_def sum_loop_exact fixed_text_amount(1) decimal_value_fixed)
next
  case False
  then obtain v where "v \<in> set vs" "v = None \<or> \<not> is_amount (the v)" by (metis option.collapse)
  with False show ?thesis by (auto simp: sumUsageAuditAmounts_def sum_loop_exact)
qed

section \<open>Tables\<close>

text \<open>
  A reader of comma-separated values: every cell is quoted, a quote inside is doubled,
  records end with a line break.
\<close>

fun read_quoted :: "jstring \<Rightarrow> (jstring \<times> jstring) option" where
  "read_quoted [] = None"
| "read_quoted (c # s) =
     (if c \<noteq> 34 then map_option (map_prod ((#) c) id) (read_quoted s)
      else (case s of
              d # s' \<Rightarrow> if d = 34 then map_option (map_prod ((#) 34) id) (read_quoted s') else Some ([], s)
            | [] \<Rightarrow> Some ([], [])))"

fun read_records :: "nat \<Rightarrow> jstring \<Rightarrow> jstring list list option" where
  "read_records 0 s = None"
| "read_records (Suc n) s =
     (if s = [] \<or> hd s \<noteq> 34 then None
      else (case read_quoted (tl s) of
              None \<Rightarrow> None
            | Some (cell, []) \<Rightarrow> Some [[cell]]
            | Some (cell, c # r) \<Rightarrow>
                if c = u16 (CHR '','') then
                  (case read_records n r of Some (row # rs) \<Rightarrow> Some ((cell # row) # rs) | _ \<Rightarrow> None)
                else if c = 13 \<and> r \<noteq> [] \<and> hd r = 10 then map_option ((#) [cell]) (read_records n (tl r))
                else None))"

definition read_csv :: "jstring \<Rightarrow> jstring list list option" where
  "read_csv s = (if s \<noteq> [] \<and> hd s = 0xFEFF then read_records (length s) (tl s) else None)"

lemma read_quoted_body:
  assumes "r = [] \<or> hd r \<noteq> 34"
  shows "read_quoted (concat (map (\<lambda>c. if c = 34 then [34, 34] else [c]) cell) @ 34 # r) = Some (cell, r)"
proof (induction cell)
  case Nil
  then show ?case using assms by (cases r) simp_all
next
  case (Cons c cell)
  then show ?case by (cases "c = 34") simp_all
qed

lemma read_cell:
  assumes "r = [] \<or> hd r \<noteq> 34"
  shows "read_records (Suc n) (quoted_cell cell @ r) =
    (case r of [] \<Rightarrow> Some [[cell]]
     | c # r' \<Rightarrow>
         if c = u16 (CHR '','') then (case read_records n r' of Some (row # rs) \<Rightarrow> Some ((cell # row) # rs) | _ \<Rightarrow> None)
         else if c = 13 \<and> r' \<noteq> [] \<and> hd r' = 10 then map_option ((#) [cell]) (read_records n (tl r')) else None)"
  using read_quoted_body [OF assms, of cell] by (simp add: quoted_cell_def split: list.splits)

declare read_records.simps(2) [simp del]

lemma read_row:
  assumes "row \<noteq> []" "length row \<le> n"
    and "rest = [] \<and> rs = [] \<or> rest \<noteq> [] \<and> take 2 rest = [13, 10] \<and> rs \<noteq> [] \<and> read_records (n - length row) (drop 2 rest) = Some rs"
  shows "read_records n (join (js '','') (map quoted_cell row) @ rest) = Some (row # rs)"
  using assms
proof (induction row arbitrary: n)
  case (Cons cell row)
  then obtain m where n: "n = Suc m" by (cases n) auto
  show ?case
  proof (cases row)
    case Nil
    then show ?thesis
      using Cons.prems n read_cell [of rest m cell] by (cases rest; cases "tl rest") (auto simp: numeral_eq_u16)
  next
    case (Cons d ds)
    let ?t = "join (js '','') (map quoted_cell row) @ rest"
    have "read_records m ?t = Some (row # rs)" using Cons.IH [of m] Cons.prems n Cons by simp
    moreover have "read_records n (quoted_cell cell @ u16 (CHR '','') # ?t) =
        (case read_records m ?t of Some (row # rs) \<Rightarrow> Some ((cell # row) # rs) | _ \<Rightarrow> None)"
      using read_cell [of "u16 (CHR '','') # ?t" m cell] n by (simp add: u16_eq_numeral)
    ultimately show ?thesis using Cons by (simp add: js_eval)
  qed
qed simp

lemma length_join_cells: "length row \<le> length (join (js '','') (map quoted_cell row))"
proof (induction row)
  case (Cons cell row)
  have "1 \<le> length (quoted_cell cell)" by (simp add: quoted_cell_def)
  with Cons show ?case by (cases row) simp_all
qed simp

lemma read_rows:
  assumes "\<forall>row\<in>set rs. row \<noteq> []" "rs \<noteq> []"
    and "length (join [13, 10] (map (\<lambda>row. join (js '','') (map quoted_cell row)) rs)) \<le> n"
  shows "read_records n (join [13, 10] (map (\<lambda>row. join (js '','') (map quoted_cell row)) rs)) = Some rs"
  using assms
proof (induction rs arbitrary: n)
  case (Cons row rs)
  let ?j = "\<lambda>rs. join [13, 10] (map (\<lambda>row. join (js '','') (map quoted_cell row)) rs)"
  show ?case
  proof (cases rs)
    case Nil
    then show ?thesis
      using Cons.prems length_join_cells [of row] read_row [of row n "[]" "[]"] by simp
  next
    case (Cons d ds)
    have j: "?j (row # rs) = join (js '','') (map quoted_cell row) @ 13 # 10 # ?j rs" using Cons by simp
    have n: "length row \<le> n" "length (?j rs) \<le> n - length row"
      using Cons.prems(3) length_join_cells [of row] unfolding j by simp_all
    have "read_records (n - length row) (?j rs) = Some rs" using Cons.IH [OF _ _ n(2)] Cons.prems Cons by simp
    then show ?thesis unfolding j using Cons.prems Cons n(1) by (intro read_row) simp_all
  qed
qed simp

lemma read_usageAuditCsv:
  assumes "records \<noteq> []" "\<forall>row\<in>set records. row \<noteq> []"
  shows "read_csv (usageAuditCsv numstr records) = Some (map (map (\<lambda>v. neutral (cell_text numstr v))) records)"
  using read_rows [of "map (map (\<lambda>v. neutral (cell_text numstr v))) records"] assms
  by (auto simp: read_csv_def usageAuditCsv_def comp_def)

lemma neutral_safe: "\<not> is_formula (neutral cell) \<or> is_decimal (neutral cell)"
  by (auto simp: neutral_def is_formula_def numeral_eq_u16)

text \<open>
  C39.  An exported table is read back record by record and cell by cell, whatever the cells
  hold: a cell that a spreadsheet would take for a formula, and that is no number, has an
  apostrophe in front, every other cell is as it was, and no cell that is read is a formula.
\<close>

theorem csv_read_back:
  assumes "records \<noteq> []" "\<forall>row\<in>set records. row \<noteq> []"
  shows "\<exists>table. read_csv (usageAuditCsv numstr records) = Some table \<and>
    list_all2 (list_all2 (\<lambda>v cell. cell = (if is_formula (cell_text numstr v) \<and> \<not> is_decimal (cell_text numstr v)
       then 39 # cell_text numstr v else cell_text numstr v))) records table \<and>
    (\<forall>row\<in>set table. \<forall>cell\<in>set row. \<not> is_formula cell \<or> is_decimal cell)"
proof -
  let ?table = "map (map (\<lambda>v. neutral (cell_text numstr v))) records"
  have "\<forall>row\<in>set ?table. \<forall>cell\<in>set row. \<not> is_formula cell \<or> is_decimal cell" using neutral_safe by auto
  moreover have "list_all2 (list_all2 (\<lambda>v cell. cell = (if is_formula (cell_text numstr v) \<and> \<not> is_decimal (cell_text numstr v)
       then 39 # cell_text numstr v else cell_text numstr v))) records ?table"
    by (simp add: list_all2_map2 list_all2_refl neutral_def)
  ultimately show ?thesis using read_usageAuditCsv [OF assms] by blast
qed

section \<open>The table of details\<close>

text \<open>An amount with nine decimals, as the server sends them.\<close>

definition nine_decimals :: "jstring \<Rightarrow> bool" where
  "nine_decimals s \<longleftrightarrow> is_amount s \<and> (\<exists>w f. unsigned_part s = w @ u16 (CHR ''.'') # f \<and> length f = 9 \<and> digits1 w \<and> digits1 f)"

lemma digits_not_prefixed:
  assumes "digits1 s" "\<not> is_digit (u16 c)"
  shows "\<not> starts_with (js [CHR ''0'', c]) s" "hd s \<noteq> u16 c"
  using assms by (cases s; cases "tl s"; auto simp: starts_with_def js_eval digits1_def)+

lemma BigInt_digits: "digits1 s \<Longrightarrow> BigInt s = Some (int (parse_dec s))" "digits1 s \<Longrightarrow> BigInt (u16 (CHR ''-'') # s) = Some (- int (parse_dec s))"
proof -
  assume d: "digits1 s"
  then have t: "jtrim s = s" "jtrim (u16 (CHR ''-'') # s) = u16 (CHR ''-'') # s" "s \<noteq> []"
    using is_digit_not_ws by (auto simp: digits1_def list_all_iff is_ws_u16 intro!: jtrim_no_ws)
  show "BigInt s = Some (int (parse_dec s))"
    unfolding BigInt_def t Let_def using d t(3) digits_not_prefixed [OF d] by (simp add: is_digit_u16)
  show "BigInt (u16 (CHR ''-'') # s) = Some (- int (parse_dec s))"
    unfolding BigInt_def t Let_def using d by (simp add: starts_with_def js_eval)
qed

lemma BigInt_amount:
  assumes "nine_decimals s"
  shows "BigInt (drop_first (u16 (CHR ''.'')) s) = Some (amount_units s)"
proof -
  obtain w f where u: "unsigned_part s = w @ u16 (CHR ''.'') # f" "length f = 9" "digits1 w" "digits1 f" and a: "is_amount s"
    using assms by (auto simp: nine_decimals_def)
  have dot: "u16 (CHR ''.'') \<notin> set w" "u16 (CHR ''.'') \<notin> set f" using u digits_no_mark(1) by (auto simp: digits1_def)
  have wf: "digits1 (w @ f)" "parse_dec (w @ f) = parse_dec w * 1000000000 + parse_dec f"
    using u by (simp_all add: digits1_def parse_dec_append)
  have units: "amount_units s = (if starts_with (js ''-'') s then - int (parse_dec (w @ f)) else int (parse_dec (w @ f)))"
    using dot u by (simp add: amount_units_def amount_no_sign [OF a] split_on_append wf(2) parse_dec_pad_end Let_def)
  show ?thesis
  proof (cases "starts_with (js ''-'') s")
    case True
    then have "s = u16 (CHR ''-'') # w @ u16 (CHR ''.'') # f" using u(1) by (cases s) (auto simp: unsigned_part_def starts_with_def js_eval)
    then show ?thesis using drop_first_append [OF dot(1), of f] BigInt_digits(2) [OF wf(1)] True units by simp
  next
    case False
    then have "s = w @ u16 (CHR ''.'') # f" using u(1) by (simp add: unsigned_part_def)
    then show ?thesis using drop_first_append [OF dot(1), of f] BigInt_digits(1) [OF wf(1)] False units by simp
  qed
qed

lemma price_difference_exact:
  assumes "list_cost row = Some c" "nine_decimals (cost_total c)" "nine_decimals (actual_amount row)"
  shows "\<exists>t. priceDifference row = Some (Some t) \<and> is_decimal t \<and> decimal_value t = decimal_value (cost_total c) - decimal_value (actual_amount row)"
proof -
  let ?t = "fixed_text (amount_units (cost_total c) - amount_units (actual_amount row))"
  have "of_int (amount_units s) = decimal_value s * 10 ^ 9" if "nine_decimals s" for s
    using that by (intro amount_units_value) (simp add: nine_decimals_def)
  then have "decimal_value ?t = decimal_value (cost_total c) - decimal_value (actual_amount row)"
    using assms by (simp add: decimal_value_fixed field_simps)
  moreover have "is_amount s \<Longrightarrow> is_decimal s" for s by (auto simp: is_amount_def is_decimal_def split: list.splits)
  ultimately show ?thesis using assms fixed_text_amount(1) by (simp add: priceDifference_def BigInt_amount)
qed

lemma all_some_iff: "all_some xs = Some ys \<longleftrightarrow> xs = map Some ys"
proof (induction xs arbitrary: ys)
  case (Cons x xs)
  then show ?case by (cases x; cases ys) (auto simp: bind_eq_Some_conv)
qed auto

lemma detail_row_cells:
  assumes "detail_row report row = Some cells"
  shows "length cells = length detail_header" "\<exists>price. priceDifference row = Some price \<and> cells ! 46 = text_cell price"
  using assms by (auto simp: detail_row_def detail_cells_def detail_header_def split: option.splits)

lemma neutral_decimal: "is_decimal s \<Longrightarrow> neutral s = s"
  by (simp add: neutral_def)

definition price_column :: nat where "price_column = 46"

text \<open>
  The exported table of details has the header and one record per row of the report, each
  with a cell for every column; and for a row with a list price the difference of the list
  price and the actual amount is exact.
\<close>

theorem details_table:
  assumes "usageAuditDetailsCsv numstr report = Some csv"
  shows "detail_header ! price_column = ''list_minus_platform_amount'' \<and>
    (\<exists>table. read_csv csv = Some (map js detail_header # table) \<and> length table = length (rows report) \<and>
      (\<forall>i < length (rows report). length (table ! i) = length detail_header \<and>
        (\<forall>c. list_cost (rows report ! i) = Some c \<and> nine_decimals (cost_total c) \<and> nine_decimals (actual_amount (rows report ! i)) \<longrightarrow>
           decimal_value (table ! i ! price_column) = decimal_value (cost_total c) - decimal_value (actual_amount (rows report ! i)))))"
proof (intro conjI)
  show "detail_header ! price_column = ''list_minus_platform_amount''" by (simp add: detail_header_def price_column_def)
  let ?cell = "\<lambda>v. neutral (cell_text numstr v)"
  obtain rs where rs: "map (detail_row report) (rows report) = map Some rs"
    and csv: "csv = usageAuditCsv numstr (map (\<lambda>h. Text (js h)) detail_header # rs)"
    using assms by (auto simp: usageAuditDetailsCsv_def all_some_iff)
  have len: "length rs = length (rows report)" using rs by (metis length_map)
  have row: "detail_row report (rows report ! i) = Some (rs ! i)" if "i < length (rows report)" for i
    using arg_cong [OF rs, of "\<lambda>xs. xs ! i"] that len by simp
  have cells: "length (rs ! i) = length detail_header" if "i < length (rows report)" for i
    using detail_row_cells(1) [OF row [OF that]] .
  have "detail_header \<noteq> []" by (simp add: detail_header_def)
  then have "\<forall>r\<in>set rs. r \<noteq> []" using cells len by (metis in_set_conv_nth length_0_conv)
  then have "read_csv csv = Some (map (\<lambda>h. neutral (js h)) detail_header # map (map ?cell) rs)"
    unfolding csv using \<open>detail_header \<noteq> []\<close> by (subst read_usageAuditCsv) (auto simp: comp_def)
  moreover have "map (\<lambda>h. neutral (js h)) detail_header = map js detail_header"
    by (simp add: detail_header_def neutral_def is_formula_def js_eval)
  moreover have "decimal_value (map (map ?cell) rs ! i ! price_column) = decimal_value (cost_total c) - decimal_value (actual_amount (rows report ! i))"
    if i: "i < length (rows report)" and c: "list_cost (rows report ! i) = Some c" "nine_decimals (cost_total c)" "nine_decimals (actual_amount (rows report ! i))" for i c
  proof -
    obtain t where "rs ! i ! 46 = Text t" "is_decimal t" "decimal_value t = decimal_value (cost_total c) - decimal_value (actual_amount (rows report ! i))"
      using detail_row_cells(2) [OF row [OF i]] price_difference_exact [OF c] by auto
    moreover have "length detail_header = 68" by (simp add: detail_header_def)
    ultimately show ?thesis using i len cells [OF i] by (simp add: price_column_def neutral_decimal)
  qed
  ultimately show "\<exists>table. read_csv csv = Some (map js detail_header # table) \<and> length table = length (rows report) \<and>
      (\<forall>i < length (rows report). length (table ! i) = length detail_header \<and>
        (\<forall>c. list_cost (rows report ! i) = Some c \<and> nine_decimals (cost_total c) \<and> nine_decimals (actual_amount (rows report ! i)) \<longrightarrow>
           decimal_value (table ! i ! price_column) = decimal_value (cost_total c) - decimal_value (actual_amount (rows report ! i))))"
    using len cells by (intro exI [of _ "map (map ?cell) rs"]) simp
qed

section \<open>Witnesses\<close>

lemmas decimal_eval = is_amount_def is_decimal_def unsigned_part_def starts_with_def js_eval digits1_def is_digit_u16

theorem amounts_summed_exactly_witness:
  "\<exists>t. sumUsageAuditAmounts [Some (js ''1.5''), Some (js ''-0.25'')] = Some t \<and>
     decimal_value t = decimal_value (js ''1.5'') + decimal_value (js ''-0.25'')"
proof -
  have "is_amount (js ''1.5'')" "is_amount (js ''-0.25'')" by (simp_all add: decimal_eval)
  then show ?thesis
    using amounts_summed_exactly [of "[Some (js ''1.5''), Some (js ''-0.25'')]"] by (auto split: option.splits)
qed

theorem csv_read_back_witness:
  "read_csv (usageAuditCsv (\<lambda>_. []) [[Text (js ''=1''), Missing]]) = Some [[39 # js ''=1'', []]]"
proof -
  have "is_formula (js ''=1'')" "\<not> is_decimal (js ''=1'')" "\<not> is_formula []" by (simp_all add: decimal_eval is_formula_def)
  then show ?thesis
    using csv_read_back [of "[[Text (js ''=1''), Missing]]" "\<lambda>_. []"] by (auto simp: list_all2_Cons1)
qed

definition sample_cost :: "string \<Rightarrow> UsageAuditCost" where
  "sample_cost s = \<lparr>cost_input = [], cost_cache_read = [], cost_cache_write = [], cost_output = [], cost_rounding = [], cost_total = js s\<rparr>"

definition sample_audit_row :: UsageAuditRow where
  "sample_audit_row = \<lparr>input_recalculation = None, row_id = jint 1, row_user_id = jint 1, username = [], row_token_id = jint 1,
     token_name = [], created_at = 0, request_id = [], upstream_request_id = [], row_model = [], row_group = [],
     row_channel_id = jint 1, is_stream = False, row_kind = [], row_protocol = [], usage_semantic = [], group_ratio = None,
     row_tokens = None, actual_amount = js ''1.500000000'', list_prices_per_million = None,
     list_cost = Some (sample_cost ''2.000000000''), discounted_cost = None, recalculation_difference = None,
     possible_duplicate_input_tokens = jint 0, duplicate_status = [], row_issue = [], evidence = None\<rparr>"

definition sample_report :: UsageAuditReport where
  "sample_report = \<lparr>filter_start_at = 0, filter_end_at = 86400, generated_at = 86400, sha256 = [], rows = [sample_audit_row],
     currency_code = [], currency_rate = [], recalculation_basis = []\<rparr>"

theorem details_table_witness:
  "\<exists>csv table. usageAuditDetailsCsv (\<lambda>_. []) sample_report = Some csv \<and> read_csv csv = Some (map js detail_header # table) \<and>
     length table = 1 \<and> decimal_value (table ! 0 ! price_column) = decimal_value (js ''2.000000000'') - decimal_value (js ''1.500000000'')"
proof -
  have nine: "nine_decimals (js ''2.000000000'')" "nine_decimals (js ''1.500000000'')"
    unfolding nine_decimals_def
    by (intro conjI exI [of _ "js ''2''"] exI [of _ "js ''1''"] exI [of _ "js ''000000000''"] exI [of _ "js ''500000000''"];
        simp add: decimal_eval)+
  have iso: "\<bar>t * 1000\<bar> \<le> 8640000000000000 \<Longrightarrow> \<exists>s. iso_seconds t = Some s" for t
    by (auto simp: iso_seconds_def Let_def split: prod.splits)
  obtain price where "priceDifference sample_audit_row = Some price"
    using price_difference_exact [of sample_audit_row "sample_cost ''2.000000000''"] nine by (auto simp: sample_audit_row_def sample_cost_def)
  then obtain csv where csv: "usageAuditDetailsCsv (\<lambda>_. []) sample_report = Some csv"
    using iso [of 0] iso [of 86400] iso [of 28800]
    by (auto simp: usageAuditDetailsCsv_def detail_row_def sample_report_def shanghai_text_def sample_audit_row_def)
  have "rows sample_report = [sample_audit_row]" "list_cost sample_audit_row = Some (sample_cost ''2.000000000'')"
    "cost_total (sample_cost ''2.000000000'') = js ''2.000000000''" "actual_amount sample_audit_row = js ''1.500000000''"
    by (simp_all add: sample_report_def sample_audit_row_def sample_cost_def)
  then show ?thesis using details_table [OF csv] csv nine by auto
qed

end
