(* ===== verification/Passkey.thy ===== *)
theory Passkey
  imports JS_Value
begin

text \<open>
  Passkeys of the web client (\<open>web/src/lib/passkey.ts\<close>): base64url texts and byte buffers,
  the options that the server sends for a registration or a sign-in, and the results that
  are sent back.

  \<open>atob\<close> and \<open>btoa\<close> are those of the browser (forgiving base64 decoding and base64
  encoding).  Which of them, and which \<open>Buffer\<close>, the environment has is an argument, as is
  what \<open>Buffer\<close> does.
\<close>

type_synonym bytes = "8 word list"

section \<open>Base64\<close>

definition alphabet :: jstring where
  "alphabet = js ''ABCDEFGHIJKLMNOPQRSTUVWXYZabcdefghijklmnopqrstuvwxyz0123456789+/''"

text \<open>Sequences of numbers below 256 and below 64.\<close>

fun sextets :: "nat list \<Rightarrow> nat list" where
  "sextets [] = []"
| "sextets [a] = [a div 4, a mod 4 * 16]"
| "sextets [a, b] = [a div 4, a mod 4 * 16 + b div 16, b mod 16 * 4]"
| "sextets (a # b # c # r) = [a div 4, a mod 4 * 16 + b div 16, b mod 16 * 4 + c div 64, c mod 64] @ sextets r"

fun octets :: "nat list \<Rightarrow> nat list" where
  "octets (p # q # r # s # t) = [p * 4 + q div 16, q mod 16 * 16 + r div 4, r mod 4 * 64 + s] @ octets t"
| "octets [p, q, r] = [p * 4 + q div 16, q mod 16 * 16 + r div 4]"
| "octets [p, q] = [p * 4 + q div 16]"
| "octets _ = []"

definition EQUALS :: jchar where "EQUALS = u16 (CHR ''='')"

text \<open>\<open>btoa\<close> throws on a code unit above 255.\<close>

definition btoa :: "jstring \<Rightarrow> jstring option" where
  "btoa s =
     (if list_all (\<lambda>c. unat c < 256) s
      then (let t = map ((!) alphabet) (sextets (map unat s)) in Some (t @ replicate ((4 - length t mod 4) mod 4) EQUALS))
      else None)"

fun position :: "jchar \<Rightarrow> jstring \<Rightarrow> nat option" where
  "position c [] = None"
| "position c (d # s) = (if c = d then Some 0 else map_option Suc (position c s))"

definition ascii_ws :: "jchar \<Rightarrow> bool" where
  "ascii_ws c \<longleftrightarrow> c \<in> {9, 10, 12, 13, 32}"

definition without_padding :: "jstring \<Rightarrow> jstring" where
  "without_padding s =
     (if length s mod 4 \<noteq> 0 then s
      else if ends_with [EQUALS, EQUALS] s then take (length s - 2) s
      else if ends_with [EQUALS] s then take (length s - 1) s else s)"

definition atob :: "jstring \<Rightarrow> jstring option" where
  "atob s =
     (let t = without_padding (filter (\<lambda>c. \<not> ascii_ws c) s) in
      if length t mod 4 = 1 \<or> (\<exists>c\<in>set t. position c alphabet = None) then None
      else Some (map of_nat (octets (map (\<lambda>c. the (position c alphabet)) t))))"

section \<open>Texts and buffers\<close>

text \<open>What the environment has: a function that is absent, or one that may throw.\<close>

record environment =
  env_atob :: "(jstring \<Rightarrow> jstring option) option"
  env_btoa :: "(jstring \<Rightarrow> jstring option) option"
  buffer_decode :: "(jstring \<Rightarrow> jstring option) option"
  buffer_encode :: "(jstring \<Rightarrow> jstring option) option"

datatype passkey_error = NoCodec | BadEncoding | NoOptions | OtherShape

definition run_codec :: "(jstring \<Rightarrow> jstring option) option \<Rightarrow> (jstring \<Rightarrow> jstring option) option \<Rightarrow> jstring \<Rightarrow> passkey_error + jstring" where
  "run_codec native buffer s =
     (case (native, buffer) of
        (Some f, _) \<Rightarrow> (case f s of None \<Rightarrow> Inl BadEncoding | Some t \<Rightarrow> Inr t)
      | (None, Some f) \<Rightarrow> (case f s of None \<Rightarrow> Inl BadEncoding | Some t \<Rightarrow> Inr t)
      | (None, None) \<Rightarrow> Inl NoCodec)"

definition replace_all :: "jchar \<Rightarrow> jchar \<Rightarrow> jstring \<Rightarrow> jstring" where
  "replace_all c d s = map (\<lambda>x. if x = c then d else x) s"

text \<open>A byte array keeps the low eight bits of a code unit.\<close>

definition base64UrlToArrayBuffer :: "environment \<Rightarrow> jstring option \<Rightarrow> passkey_error + bytes" where
  "base64UrlToArrayBuffer env value =
     (case value of
        None \<Rightarrow> Inr []
      | Some v \<Rightarrow>
          if v = [] then Inr []
          else (let padding = replicate ((4 - length v mod 4) mod 4) EQUALS;
                    base64 = replace_all (u16 (CHR ''_'')) (u16 (CHR ''/'')) (replace_all (u16 (CHR ''-'')) (u16 (CHR ''+'')) (v @ padding))
                in map_sum id (map ucast) (run_codec (env_atob env) (buffer_decode env) base64)))"

definition arrayBufferToBase64Url :: "environment \<Rightarrow> bytes option \<Rightarrow> passkey_error + jstring" where
  "arrayBufferToBase64Url env buffer =
     (case buffer of
        None \<Rightarrow> Inr []
      | Some bytes \<Rightarrow>
          map_sum id (\<lambda>t. rev (dropWhile (\<lambda>c. c = EQUALS) (rev (replace_all (u16 (CHR ''/'')) (u16 (CHR ''_''))
            (replace_all (u16 (CHR ''+'')) (u16 (CHR ''-'')) t)))))
          (run_codec (env_btoa env) (buffer_encode env) (map ucast bytes)))"

section \<open>Options of the server\<close>

text \<open>\<open>payload?.publicKey ?? payload?.PublicKey ?? payload?.response ?? payload?.Response\<close>\<close>

definition server_options :: "jsval \<Rightarrow> jsval" where
  "server_options payload =
     (case filter (\<lambda>v. v \<noteq> JUndef \<and> v \<noteq> JNull) (map (fld payload) [''publicKey'', ''PublicKey'', ''response'']) of
        v # _ \<Rightarrow> v
      | [] \<Rightarrow> fld payload ''Response'')"

text \<open>A text of the options; other values than texts are kept apart, as the code does not check them.\<close>

definition decode_value :: "environment \<Rightarrow> jsval \<Rightarrow> passkey_error + bytes" where
  "decode_value env v =
     (case v of
        JStr s \<Rightarrow> base64UrlToArrayBuffer env (Some s)
      | _ \<Rightarrow> if truthy v then Inl OtherShape else Inr [])"

fun entries_of :: "jsval \<Rightarrow> passkey_error + (jstring \<times> jsval) list" where
  "entries_of (JObj ps) = Inr ps"
| "entries_of JUndef = Inr []"
| "entries_of JNull = Inr []"
| "entries_of _ = Inl OtherShape"

definition sbind :: "'e + 'a \<Rightarrow> ('a \<Rightarrow> 'e + 'b) \<Rightarrow> 'e + 'b" where
  "sbind r k = (case r of Inl e \<Rightarrow> Inl e | Inr x \<Rightarrow> k x)"

text \<open>An object whose \<open>id\<close> is replaced by a buffer.\<close>

type_synonym descriptor = "(jstring \<times> jsval) list \<times> bytes"

definition decode_item :: "environment \<Rightarrow> jsval \<Rightarrow> passkey_error + descriptor" where
  "decode_item env item =
     (if item = JUndef \<or> item = JNull then Inl OtherShape
      else sbind (entries_of item) (\<lambda>ps. sbind (decode_value env (fld item ''id'')) (\<lambda>b. Inr (remove_key (js ''id'') ps, b))))"

fun decode_items :: "environment \<Rightarrow> jsval list \<Rightarrow> passkey_error + descriptor list" where
  "decode_items env [] = Inr []"
| "decode_items env (v # vs) = sbind (decode_item env v) (\<lambda>d. sbind (decode_items env vs) (\<lambda>ds. Inr (d # ds)))"

record CredentialCreationOptions =
  co_rest :: "(jstring \<times> jsval) list"
  co_challenge :: bytes
  co_user :: descriptor
  co_excludeCredentials :: "descriptor list option"

record CredentialRequestOptions =
  ro_rest :: "(jstring \<times> jsval) list"
  ro_challenge :: bytes
  ro_allowCredentials :: "descriptor list option"

definition decode_list :: "environment \<Rightarrow> jsval \<Rightarrow> passkey_error + descriptor list option" where
  "decode_list env v = (case v of JArr vs \<Rightarrow> map_sum id Some (decode_items env vs) | _ \<Rightarrow> Inr None)"

text \<open>The rest of the options are the properties that are not replaced.\<close>

definition rest_without :: "string list \<Rightarrow> (jstring \<times> jsval) list \<Rightarrow> (jstring \<times> jsval) list" where
  "rest_without ks ps = filter (\<lambda>(k, _). k \<notin> js ` set ks) ps"

definition prepareCredentialCreationOptions :: "environment \<Rightarrow> jsval \<Rightarrow> passkey_error + CredentialCreationOptions" where
  "prepareCredentialCreationOptions env payload =
     (let options = server_options payload in
      if \<not> truthy options then Inl NoOptions
      else sbind (entries_of options) (\<lambda>ps.
        sbind (decode_value env (fld options ''challenge'')) (\<lambda>challenge.
        sbind (entries_of (fld options ''user'')) (\<lambda>user.
        sbind (decode_value env (fld (fld options ''user'') ''id'')) (\<lambda>id.
        sbind (decode_list env (fld options ''excludeCredentials'')) (\<lambda>excluded.
          Inr \<lparr>co_rest = rest_without ([''challenge'', ''user''] @ (if excluded = None then [] else [''excludeCredentials'']) @
                  (if fld options ''attestationFormats'' = JArr [] then [''attestationFormats''] else [])) ps,
               co_challenge = challenge, co_user = (remove_key (js ''id'') user, id), co_excludeCredentials = excluded\<rparr>))))))"

definition prepareCredentialRequestOptions :: "environment \<Rightarrow> jsval \<Rightarrow> passkey_error + CredentialRequestOptions" where
  "prepareCredentialRequestOptions env payload =
     (let options = server_options payload in
      if \<not> truthy options then Inl NoOptions
      else sbind (entries_of options) (\<lambda>ps.
        sbind (decode_value env (fld options ''challenge'')) (\<lambda>challenge.
        sbind (decode_list env (fld options ''allowCredentials'')) (\<lambda>allowed.
          Inr \<lparr>ro_rest = rest_without ([''challenge''] @ (if allowed = None then [] else [''allowCredentials''])) ps,
               ro_challenge = challenge, ro_allowCredentials = allowed\<rparr>))))"

section \<open>Results for the server\<close>

record attestation =
  at_id :: jstring
  at_rawId :: bytes
  at_type :: jstring
  at_attachment :: jsval
  at_attestationObject :: bytes
  at_clientDataJSON :: bytes
  at_transports :: "jstring list option"
  at_extensions :: "jsval option"

record assertion =
  as_id :: jstring
  as_rawId :: bytes
  as_type :: jstring
  as_attachment :: jsval
  as_authenticatorData :: bytes
  as_clientDataJSON :: bytes
  as_signature :: bytes
  as_userHandle :: "bytes option"
  as_extensions :: "jsval option"

definition extension_results :: "jsval option \<Rightarrow> jsval" where
  "extension_results v = (case v of Some x \<Rightarrow> if x = JUndef \<or> x = JNull then JObj [] else x | None \<Rightarrow> JObj [])"

definition buildRegistrationResult :: "environment \<Rightarrow> attestation option \<Rightarrow> passkey_error + jsval" where
  "buildRegistrationResult env credential =
     (case credential of
        None \<Rightarrow> Inr JNull
      | Some c \<Rightarrow>
          sbind (arrayBufferToBase64Url env (Some (at_rawId c))) (\<lambda>rawId.
          sbind (arrayBufferToBase64Url env (Some (at_attestationObject c))) (\<lambda>object.
          sbind (arrayBufferToBase64Url env (Some (at_clientDataJSON c))) (\<lambda>clientData.
            Inr (JObj [(js ''id'', JStr (at_id c)), (js ''rawId'', JStr rawId), (js ''type'', JStr (at_type c)),
              (js ''authenticatorAttachment'', at_attachment c),
              (js ''response'', JObj [(js ''attestationObject'', JStr object), (js ''clientDataJSON'', JStr clientData),
                 (js ''transports'', case at_transports c of None \<Rightarrow> JUndef | Some ts \<Rightarrow> JArr (map JStr ts))]),
              (js ''clientExtensionResults'', extension_results (at_extensions c))])))))"

definition buildAssertionResult :: "environment \<Rightarrow> assertion option \<Rightarrow> passkey_error + jsval" where
  "buildAssertionResult env credential =
     (case credential of
        None \<Rightarrow> Inr JNull
      | Some c \<Rightarrow>
          sbind (arrayBufferToBase64Url env (Some (as_rawId c))) (\<lambda>rawId.
          sbind (arrayBufferToBase64Url env (Some (as_authenticatorData c))) (\<lambda>authData.
          sbind (arrayBufferToBase64Url env (Some (as_clientDataJSON c))) (\<lambda>clientData.
          sbind (arrayBufferToBase64Url env (Some (as_signature c))) (\<lambda>signature.
          sbind (case as_userHandle c of None \<Rightarrow> Inr JNull | Some h \<Rightarrow> map_sum id JStr (arrayBufferToBase64Url env (Some h))) (\<lambda>handle.
            Inr (JObj [(js ''id'', JStr (as_id c)), (js ''rawId'', JStr rawId), (js ''type'', JStr (as_type c)),
              (js ''authenticatorAttachment'', as_attachment c),
              (js ''response'', JObj [(js ''authenticatorData'', JStr authData), (js ''clientDataJSON'', JStr clientData),
                 (js ''signature'', JStr signature), (js ''userHandle'', handle)]),
              (js ''clientExtensionResults'', extension_results (as_extensions c))])))))))"

section \<open>Support\<close>

text \<open>A check that is absent, that rejects, or that answers.\<close>

datatype check = Absent | Rejects | Answers bool

record support =
  has_window :: bool
  has_PublicKeyCredential :: bool
  isConditionalMediationAvailable :: check
  isUserVerifyingPlatformAuthenticatorAvailable :: check

definition isPasskeySupported :: "support \<Rightarrow> bool" where
  "isPasskeySupported s =
     (if \<not> has_window s then False
      else if \<not> has_PublicKeyCredential s then False
      else if isConditionalMediationAvailable s = Answers True then True
      else (case isUserVerifyingPlatformAuthenticatorAvailable s of
              Absent \<Rightarrow> True
            | Rejects \<Rightarrow> False
            | Answers b \<Rightarrow> b))"

end
