(* ===== verification/Passkey_Properties.thy ===== *)
theory Passkey_Properties
  imports Passkey
begin

text \<open>Bytes survive the way through base64url texts, in both directions of a passkey ceremony.\<close>

section \<open>Base64\<close>

lemma small:
  fixes b :: nat
  assumes "b < 256"
  shows "b div 16 < 16" "b div 64 < 4" "b div 4 < 64"
    "b div 16 div 16 = 0" "b div 16 mod 16 = b div 16" "b div 64 div 4 = 0" "b div 64 mod 4 = b div 64"
proof -
  show "b div 16 < 16" "b div 64 < 4" "b div 4 < 64" using assms by (simp_all add: less_mult_imp_div_less)
  then show "b div 16 div 16 = 0" "b div 16 mod 16 = b div 16" "b div 64 div 4 = 0" "b div 64 mod 4 = b div 64" by simp_all
qed

lemma whole: "(a :: nat) div 4 * 4 + a mod 4 = a" "(a :: nat) div 16 * 16 + a mod 16 = a" "(a :: nat) div 64 * 64 + a mod 64 = a"
  by (rule div_mult_mod_eq)+

lemma octets_sextets: "list_all (\<lambda>n. n < 256) xs \<Longrightarrow> octets (sextets xs) = xs"
  by (induction xs rule: sextets.induct) (simp_all add: small whole)

lemma sextets_bound: "list_all (\<lambda>n. n < 256) xs \<Longrightarrow> list_all (\<lambda>n. n < 64) (sextets xs)"
proof -
  have le: "a mod 4 * 16 \<le> 48" "a mod 16 * 4 \<le> 60" for a :: nat
  proof -
    have "a mod 4 \<le> 3" "a mod 16 \<le> 15" by simp_all
    then show "a mod 4 * 16 \<le> 48" "a mod 16 * 4 \<le> 60" by linarith+
  qed
  have "a mod 4 * 16 + b div 16 < 64" "a mod 16 * 4 + b div 64 < 64" "a mod 4 * 16 < 64" "a mod 16 * 4 < 64"
    if "b < 256" for a b :: nat
    using le [of a] small(1,2) [OF that] by linarith+
  then show "list_all (\<lambda>n. n < 256) xs \<Longrightarrow> list_all (\<lambda>n. n < 64) (sextets xs)"
    by (induction xs rule: sextets.induct) (simp_all add: small)
qed

lemma length_sextets: "length (sextets xs) mod 4 \<noteq> 1"
proof (induction xs rule: sextets.induct)
  case (4 a b c r)
  have "length (sextets (a # b # c # r)) = 4 + length (sextets r)" by simp
  then have "length (sextets (a # b # c # r)) mod 4 = length (sextets r) mod 4" by (simp only: mod_add_self1)
  then show ?case using 4 by (simp only: not_False_eq_True)
qed simp_all

lemma position_nth: "distinct s \<Longrightarrow> n < length s \<Longrightarrow> position (s ! n) s = Some n"
proof (induction s arbitrary: n)
  case (Cons c s)
  then show ?case by (cases n) (auto simp: in_set_conv_nth)
qed simp

lemma alphabet: "distinct alphabet" "length alphabet = 64"
  by (simp_all add: alphabet_def js_def distinct_map inj_on_def)

definition url_alphabet :: "jchar set" where
  "url_alphabet = u16 ` set ''ABCDEFGHIJKLMNOPQRSTUVWXYZabcdefghijklmnopqrstuvwxyz0123456789-_''"

definition url_char :: "jchar \<Rightarrow> jchar" where
  "url_char c = (if c = u16 (CHR ''+'') then u16 (CHR ''-'') else if c = u16 (CHR ''/'') then u16 (CHR ''_'') else c)"

lemma alphabet_chars:
  assumes "c \<in> set alphabet"
  shows "c \<noteq> EQUALS" "url_char c \<noteq> EQUALS" "\<not> ascii_ws c" "url_char c \<in> url_alphabet"
    "(let d = (if url_char c = u16 (CHR ''-'') then u16 (CHR ''+'') else url_char c) in if d = u16 (CHR ''_'') then u16 (CHR ''/'') else d) = c"
  using assms
  by (auto simp: alphabet_def js_def EQUALS_def ascii_ws_def url_char_def url_alphabet_def u16_eq_numeral)

section \<open>Texts and buffers\<close>

text \<open>The base64 text of a buffer, without its padding.\<close>

definition body :: "bytes \<Rightarrow> jstring" where
  "body b = map ((!) alphabet) (sextets (map unat b))"

lemma unat_byte_char: "unat (w :: 8 word) < 256"
  using unsigned_less [of w] by simp

lemma byte_bound: "list_all (\<lambda>n. n < 256) (map unat (b :: bytes))"
  by (simp add: list_all_iff unat_byte_char)

lemma body_chars: "set (body b) \<subseteq> set alphabet"
  using sextets_bound [OF byte_bound, of b] alphabet(2) by (auto simp: body_def list_all_iff)

lemma unat_ucast_byte: "unat (ucast (w :: 8 word) :: 16 word) = unat w"
  using unat_byte_char [of w] by (simp add: unsigned_ucast_eq take_bit_eq_mod)

lemma btoa_bytes: "btoa (map ucast (b :: bytes)) = Some (body b @ replicate ((4 - length (body b) mod 4) mod 4) EQUALS)"
  using byte_bound [of b] by (simp add: btoa_def body_def Let_def comp_def unat_ucast_byte list_all_iff)

lemma strip_padding:
  assumes "EQUALS \<notin> set t"
  shows "rev (dropWhile (\<lambda>c. c = EQUALS) (rev (t @ replicate k EQUALS))) = t"
proof -
  have "dropWhile (\<lambda>c. c = EQUALS) (replicate k EQUALS @ rev t) = dropWhile (\<lambda>c. c = EQUALS) (rev t)"
    by (induction k) simp_all
  moreover have "dropWhile (\<lambda>c. c = EQUALS) (rev t) = rev t"
    using assms by (cases "rev t") (auto dest: arg_cong [of _ _ set])
  ultimately show ?thesis by simp
qed

lemma encoded:
  assumes "env_btoa env = Some btoa"
  shows "arrayBufferToBase64Url env (Some b) = Inr (map url_char (body b))"
proof -
  let ?k = "(4 - length (body b) mod 4) mod 4"
  have eq: "url_char EQUALS = EQUALS" by (simp add: url_char_def EQUALS_def)
  have "replace_all (u16 (CHR ''/'')) (u16 (CHR ''_'')) (replace_all (u16 (CHR ''+'')) (u16 (CHR ''-'')) t) = map url_char t" for t
    by (auto simp: replace_all_def url_char_def)
  moreover have "EQUALS \<notin> set (map url_char (body b))" using body_chars [of b] alphabet_chars(2) by fastforce
  ultimately show ?thesis
    using strip_padding [of "map url_char (body b)" ?k]
    by (simp add: arrayBufferToBase64Url_def assms run_codec_def btoa_bytes eq)
qed

lemma ends_with_equals:
  assumes "EQUALS \<notin> set t"
  shows "\<not> ends_with (EQUALS # p) t" "\<not> ends_with [EQUALS, EQUALS] (t @ [EQUALS])"
proof -
  show no: "\<not> ends_with (EQUALS # p) t" for p
  proof
    assume "ends_with (EQUALS # p) t"
    then have "EQUALS \<in> set (take (length (rev p @ [EQUALS])) (rev t))" by (auto simp: ends_with_def starts_with_def)
    then show False using assms by (metis in_set_takeD set_rev)
  qed
  show "\<not> ends_with [EQUALS, EQUALS] (t @ [EQUALS])" using no [of "[]"] by (auto simp: ends_with_def starts_with_def)
qed

lemma without_padding_body:
  assumes "length t mod 4 \<noteq> 1" "EQUALS \<notin> set t"
  shows "without_padding (t @ replicate ((4 - length t mod 4) mod 4) EQUALS) = t"
proof -
  note no = ends_with_equals [OF assms(2)]
  have "length t mod 4 < 4" by simp
  then consider "length t mod 4 = 0" | "length t mod 4 = 2" | "length t mod 4 = 3" using assms(1) by linarith
  then show ?thesis
  proof cases
    case 1
    then show ?thesis using no(1) by (simp add: without_padding_def)
  next
    case 2
    then have "(length t + 2) mod 4 = 0" by presburger
    then show ?thesis using 2 by (simp add: without_padding_def ends_with_def starts_with_def numeral_2_eq_2)
  next
    case 3
    then have "(length t + 1) mod 4 = 0" by presburger
    then show ?thesis using 3 no(2) by (simp add: without_padding_def) (simp add: ends_with_def starts_with_def)
  qed
qed

lemma atob_body: "atob (body b @ replicate ((4 - length (body b) mod 4) mod 4) EQUALS) = Some (map ucast b)"
proof -
  have chars: "\<forall>c\<in>set (body b). c \<noteq> EQUALS \<and> \<not> ascii_ws c" using body_chars [of b] alphabet_chars(1,3) by blast
  have "\<not> ascii_ws EQUALS" by (simp add: ascii_ws_def EQUALS_def u16_eq_numeral)
  then have ws: "filter (\<lambda>c. \<not> ascii_ws c) (body b @ replicate k EQUALS) = body b @ replicate k EQUALS" for k
    using chars by (simp add: filter_id_conv)
  have len: "length (body b) mod 4 \<noteq> 1" unfolding body_def length_map by (rule length_sextets)
  have p: "position (alphabet ! n) alphabet = Some n" if "n \<in> set (sextets (map unat b))" for n
    using that sextets_bound [OF byte_bound, of b] alphabet by (intro position_nth) (auto simp: list_all_iff)
  then have m: "map (\<lambda>c. the (position c alphabet)) (body b) = sextets (map unat b)"
    by (simp add: body_def comp_def map_idI)
  have "\<not> (\<exists>c\<in>set (body b). position c alphabet = None)" using p by (auto simp: body_def)
  then have valid: "\<not> (length (body b) mod 4 = 1 \<or> (\<exists>c\<in>set (body b). position c alphabet = None))" using len by blast
  have "EQUALS \<notin> set (body b)" using chars by blast
  note w = without_padding_body [OF len this]
  have "map of_nat (map unat b) = (map ucast b :: jstring)" by simp
  then show ?thesis
    unfolding atob_def ws Let_def w m octets_sextets [OF byte_bound] if_not_P [OF valid] by (rule arg_cong)
qed

lemma ucast_byte: "(ucast (ucast (w :: 8 word) :: 16 word) :: 8 word) = w"
  by transfer simp

lemma decoded:
  assumes "env_atob env = Some atob"
  shows "base64UrlToArrayBuffer env (Some (map url_char (body b))) = Inr b"
proof (cases "body b = []")
  case True
  then have "sextets (map unat b) = []" by (simp add: body_def)
  then have "b = []" by (cases "map unat b" rule: sextets.cases) simp_all
  with True show ?thesis by (simp add: base64UrlToArrayBuffer_def)
next
  case False
  let ?k = "(4 - length (body b) mod 4) mod 4"
  let ?restored = "\<lambda>t. replace_all (u16 (CHR ''_'')) (u16 (CHR ''/'')) (replace_all (u16 (CHR ''-'')) (u16 (CHR ''+'')) t)"
  have "?restored (map url_char t) = t" if "set t \<subseteq> set alphabet" for t
    using that
  proof (induction t)
    case (Cons c t)
    then show ?case using alphabet_chars(5) [of c, unfolded Let_def] by (simp only: replace_all_def list.map) simp
  qed (simp add: replace_all_def)
  then have "?restored (map url_char (body b)) = body b" using body_chars by blast
  moreover have "?restored (s @ t) = ?restored s @ ?restored t" "?restored (replicate k EQUALS) = replicate k EQUALS" for s t k
    by (simp_all add: replace_all_def EQUALS_def)
  ultimately have "?restored (map url_char (body b) @ replicate ?k EQUALS) = body b @ replicate ?k EQUALS" by simp
  moreover have "map (ucast :: jchar \<Rightarrow> 8 word) (map ucast b) = b"
    by (simp add: comp_def ucast_byte)
  ultimately show ?thesis
    using False atob_body [of b] by (simp add: base64UrlToArrayBuffer_def assms run_codec_def Let_def)
qed

text \<open>C40.  Every buffer has a text, of letters, digits, hyphens and underscores, which is decoded as the buffer.\<close>

theorem base64url_roundtrip:
  assumes "env_atob env = Some atob" "env_btoa env = Some btoa"
  shows "\<exists>t. arrayBufferToBase64Url env (Some b) = Inr t \<and> set t \<subseteq> url_alphabet \<and> base64UrlToArrayBuffer env (Some t) = Inr b"
  using encoded [OF assms(2), of b] decoded [OF assms(1), of b] body_chars [of b] alphabet_chars(4) by fastforce

section \<open>Ceremonies\<close>

abbreviation url_text :: "bytes \<Rightarrow> jstring" where
  "url_text b \<equiv> map url_char (body b)"

lemma decode_url_text: "env_atob env = Some atob \<Longrightarrow> decode_value env (JStr (url_text b)) = Inr b"
  by (simp add: decode_value_def decoded)

lemma decode_items_texts:
  assumes "env_atob env = Some atob" "list_all2 (\<lambda>v (ps, b). \<exists>qs. v = JObj qs \<and> fld v ''id'' = JStr (url_text b) \<and> ps = remove_key (js ''id'') qs) vs ds"
  shows "decode_items env vs = Inr ds"
  using assms(2) by (induction rule: list_all2_induct) (auto simp: decode_item_def sbind_def decode_url_text [OF assms(1)])

text \<open>
  A sign-in with a passkey: the options the authenticator gets hold exactly the bytes of the
  challenge and of the identifiers whose texts the server sent, and the texts that are sent
  back are decoded as exactly the bytes that the authenticator produced.
\<close>

theorem sign_in_bytes_exact:
  assumes env: "env_atob env = Some atob" "env_btoa env = Some btoa"
    and options: "server_options payload = JObj ps" "fld (JObj ps) ''challenge'' = JStr (url_text challenge)"
      "fld (JObj ps) ''allowCredentials'' = JArr vs"
    and ids: "list_all2 (\<lambda>v (rest, b). \<exists>qs. v = JObj qs \<and> fld v ''id'' = JStr (url_text b) \<and> rest = remove_key (js ''id'') qs) vs ds"
  shows "\<exists>ro v r. prepareCredentialRequestOptions env payload = Inr ro \<and> ro_challenge ro = challenge \<and> ro_allowCredentials ro = Some ds \<and>
    buildAssertionResult env (Some c) = Inr v \<and> r = fld v ''response'' \<and>
    decode_value env (fld v ''rawId'') = Inr (as_rawId c) \<and> decode_value env (fld r ''authenticatorData'') = Inr (as_authenticatorData c) \<and>
    decode_value env (fld r ''clientDataJSON'') = Inr (as_clientDataJSON c) \<and> decode_value env (fld r ''signature'') = Inr (as_signature c) \<and>
    (case as_userHandle c of None \<Rightarrow> fld r ''userHandle'' = JNull | Some h \<Rightarrow> decode_value env (fld r ''userHandle'') = Inr h)"
proof -
  have "\<exists>ro. prepareCredentialRequestOptions env payload = Inr ro \<and> ro_challenge ro = challenge \<and> ro_allowCredentials ro = Some ds"
    using options decode_items_texts [OF env(1) ids]
    by (simp add: prepareCredentialRequestOptions_def sbind_def decode_url_text [OF env(1)] decode_list_def)
  moreover have "\<exists>v r. buildAssertionResult env (Some c) = Inr v \<and> r = fld v ''response'' \<and>
    decode_value env (fld v ''rawId'') = Inr (as_rawId c) \<and> decode_value env (fld r ''authenticatorData'') = Inr (as_authenticatorData c) \<and>
    decode_value env (fld r ''clientDataJSON'') = Inr (as_clientDataJSON c) \<and> decode_value env (fld r ''signature'') = Inr (as_signature c) \<and>
    (case as_userHandle c of None \<Rightarrow> fld r ''userHandle'' = JNull | Some h \<Rightarrow> decode_value env (fld r ''userHandle'') = Inr h)"
    by (cases "as_userHandle c")
       (simp_all add: buildAssertionResult_def sbind_def encoded [OF env(2)] getp_def decode_url_text [OF env(1)])
  ultimately show ?thesis by blast
qed

text \<open>A browser.\<close>

definition browser :: environment where
  "browser = \<lparr>env_atob = Some atob, env_btoa = Some btoa, buffer_decode = None, buffer_encode = None\<rparr>"

lemma browser_codec: "env_atob browser = Some atob" "env_btoa browser = Some btoa"
  by (simp_all add: browser_def)

theorem base64url_roundtrip_witness:
  "\<exists>t. arrayBufferToBase64Url browser (Some [251, 255]) = Inr t \<and> base64UrlToArrayBuffer browser (Some t) = Inr [251, 255]"
  using base64url_roundtrip [OF browser_codec, of "[251, 255]"] by blast

definition sample_assertion :: assertion where
  "sample_assertion = \<lparr>as_id = [], as_rawId = [1, 2], as_type = js ''public-key'', as_attachment = JNull, as_authenticatorData = [3],
     as_clientDataJSON = [], as_signature = [255], as_userHandle = None, as_extensions = None\<rparr>"

theorem sign_in_bytes_exact_witness:
  "\<exists>ro v. prepareCredentialRequestOptions browser (JObj [(js ''publicKey'',
      JObj [(js ''challenge'', JStr (url_text [7, 8])), (js ''allowCredentials'', JArr [JObj [(js ''id'', JStr (url_text [9]))]])])]) = Inr ro \<and>
    ro_challenge ro = [7, 8] \<and> ro_allowCredentials ro = Some [([], [9])] \<and>
    buildAssertionResult browser (Some sample_assertion) = Inr v \<and> decode_value browser (fld v ''rawId'') = Inr [1, 2]"
proof -
  let ?o = "[(js ''challenge'', JStr (url_text [7, 8])), (js ''allowCredentials'', JArr [JObj [(js ''id'', JStr (url_text [9]))]])]"
  have "server_options (JObj [(js ''publicKey'', JObj ?o)]) = JObj ?o" by (simp add: server_options_def getp_def)
  moreover have "fld (JObj ?o) ''challenge'' = JStr (url_text [7, 8])"
    "fld (JObj ?o) ''allowCredentials'' = JArr [JObj [(js ''id'', JStr (url_text [9]))]]" by (simp_all add: getp_def)
  moreover have "list_all2 (\<lambda>v (rest, b). \<exists>qs. v = JObj qs \<and> fld v ''id'' = JStr (url_text b) \<and> rest = remove_key (js ''id'') qs)
      [JObj [(js ''id'', JStr (url_text [9]))]] [([], [9])]" by (simp add: getp_def remove_key_def)
  ultimately have "\<exists>ro v. prepareCredentialRequestOptions browser (JObj [(js ''publicKey'', JObj ?o)]) = Inr ro \<and>
      ro_challenge ro = [7, 8] \<and> ro_allowCredentials ro = Some [([], [9])] \<and>
      buildAssertionResult browser (Some sample_assertion) = Inr v \<and> decode_value browser (fld v ''rawId'') = Inr (as_rawId sample_assertion)"
    using sign_in_bytes_exact [OF browser_codec] by blast
  then show ?thesis by (simp add: sample_assertion_def)
qed

end
