(* ===== verification/Spec2Isabelle.thy ===== *)
theory Spec2Isabelle
  imports Auth_Properties Http_Client Mini_Sse Mini_Client Status_Codes Channel_Models Ratio_Sync
    Playground_Chat Playground_Stream Playground_Storage Playground_Parameters Billing_Groups Channel_Saving
    Flow_Properties Usage_Export Passkey_Properties
begin

text \<open>
  NovaMaaS is a gateway for language models: a Go server, a React web client
  (\<open>src/web/src\<close>) and a WeChat mini-app (\<open>src/miniapp/src\<close>).  This library
  verifies the logic of the two TypeScript clients.

  \<^bold>\<open>Language.\<close>  \<open>JS_Prelude\<close> has strings as sequences of 16-bit code units with the
  operations the sources use, \<open>JS_Number\<close> binary64 numbers with correct rounding (exact on
  safe integers, with an error bound for small numbers), \<open>JS_Value\<close> values of unknown type,
  \<open>JS_Convert\<close> conversions between them, \<open>JS_JSON\<close> the parser of \<open>JSON.parse\<close> (on
  fuel: twice the length of the text and a little, since every second call consumes a code
  unit) and \<open>JS_Stringify\<close> the printer of \<open>JSON.stringify\<close>, which the parser reads back.  \<open>Transition\<close> has labelled transition systems with the locales \<open>lts_invariant\<close> and
  \<open>lts_budget\<close>; \<open>Chunked\<close> the locale of consumers that do not depend on how their input is
  cut, and their composition.  Every locale is interpreted on the model of the code that
  provides it.

  \<^bold>\<open>Web client, sessions and requests.\<close>  \<open>Auth_Store\<close> is the authentication slice of
  \<open>stores/auth-store.ts\<close>; \<open>Auth_Sync\<close> the messages between tabs
  (\<open>lib/auth-session-sync.ts\<close>); \<open>Auth_Session\<close> the guards, rotation and refresh of
  \<open>lib/auth-session.ts\<close>; \<open>Auth_Machine\<close> a tab as a transition system in which a refresh
  is interleaved with sign-ins, sign-outs and messages; \<open>Auth_Properties\<close> shows that the
  credentials are present or absent together, that a superseded refresh has no effect,
  that a refresh ends after at most eight requests and reports what it did, and that a
  sign-out reaches the other tabs.  \<open>Http_Client\<close> is \<open>lib/http-client.ts\<close>: deduplicated reads, interceptors, and one
  call with its single repetition.  \<open>Passkey\<close> (\<open>lib/passkey.ts\<close>) has the base64url texts
  of passkeys and the options and results of the ceremonies; \<open>Passkey_Properties\<close> shows that
  buffers are read back and that a sign-in hands over exactly the bytes of the server and
  of the authenticator.  \<open>atob\<close> and \<open>btoa\<close> are written out, or absent, or throw.

  \<^bold>\<open>Web client, administration.\<close>  \<open>Status_Codes\<close> (\<open>lib/http-status-code-rules.ts\<close>):
  accepted rules give canonical ranges, and the normalised text is a fixed point.
  \<open>Channel_Models\<close> (\<open>features/channels/lib\<close>): model lists, model mappings, the guard on
  status-code redirects.  \<open>Ratio_Sync\<close>
  (\<open>features/system-settings/models/upstream-ratio-sync-helpers.ts\<close>): selections of
  upstream prices never leave a model with a fixed price and ratios at once, nor with an
  expression without its billing mode.

  \<open>Channel_Routes\<close> (\<open>features/channels/lib/advanced-custom.ts\<close>) has the routes of advanced
  custom channels: templates, defaults, edits, text form and validation;
  \<open>Channel_Validation\<close> shows that the validation decides a declarative predicate, that
  edits change only the routes they name, that the text is read back, and that everything
  the editor offers is valid.

  \<open>Channel_Form\<close> (\<open>features/channels/lib/channel-form.ts\<close>) takes a channel to the form and
  the form to the two texts of settings and the payloads, with the checks of the form.
  \<open>Channel_Settings\<close> states in the locale \<open>saved_part\<close> what it means that a part of a form is
  written into an object and shown again, and interprets it for the settings that depend
  on the type; \<open>Channel_Saving\<close> shows the round trips of both texts, that properties the
  form does not own are kept, what an update sends, and that a form without issues is
  saved with the number of connections that was entered.

  \<^bold>\<open>Web client, dashboard flow\<close> (\<open>features/dashboard/lib/flow.ts\<close>).  \<open>Dashboard_Flow\<close>
  turns usage rows into paths through the visible stages and sums them up to nodes and
  links, with the node limit, selections, masks, highlights, shares and filter options.
  \<open>Flow_Conservation\<close> states once, in the locale \<open>tally\<close>, what a map of running sums promises,
  and interprets it for \<open>addNode\<close> and \<open>addLink\<close>; \<open>Flow_Graph\<close> shows that the later passes keep the
  sums; \<open>Flow_Properties\<close> shows conservation, totals and shares, the bound of the node
  limit, exact selections and that masking hides every sensitive label.  Sums are exact
  for integer usage up to \<open>2^53\<close> in total.

  \<^bold>\<open>Web client, usage audit\<close> (\<open>features/billing/lib/usage-audit.ts\<close>).  \<open>Usage_Audit\<close>
  has the form of the selection, the exact sum of amounts and the exported tables;
  \<open>Usage_Export\<close> shows that sums are exact, that a table is read back cell by cell with
  formulas neutralised, and that the column of price differences is exact.  The parser of
  dates and the text of a number are arguments; the two texts of a time are written out.

  \<^bold>\<open>Web client, billing expressions\<close> (\<open>features/pricing/lib/billing-expr.ts\<close>).
  \<open>Billing_Rules\<close> has the request rules: the reader, the editor that builds their text,
  and the split of a billing expression.  \<open>Billing_Text\<close> has the laws of the texts
  (parenthesis depth, splitting, literals), \<open>Billing_Conditions\<close> those of one condition, and
  \<open>Billing_Groups\<close> shows that built rules are read back, except those whose text is a
  conjunction, and that splitting undoes combining.

  \<^bold>\<open>Web client, playground\<close> (\<open>features/playground\<close>).  \<open>Playground_Messages\<close> is one
  message: reasoning tags, streaming chunks, completion; a streamed answer ends as the
  answer received at once.  \<open>Playground_Conversation\<close> is the list of messages, its turns,
  the payload, what is shown, and the repair after a reload.  \<open>Playground_Storage\<close> has the
  limits and repairs of stored conversations.  \<open>Playground_Stream\<close> is the stream controller
  of \<open>hooks/use-stream-request.ts\<close> with its generations as a transition system: ordered
  callbacks, silence after a stop, one open source.  \<open>Playground_Chat\<close> is
  \<open>hooks/use-chat-handler.ts\<close>: chunks are buffered, flushed by a timer, and applied by state
  updates that React runs later; a stream is delivered whole under every schedule.  The
  hook's state contains that of the stream controller: a stop closes the stream for good.
  \<open>Playground_Parameters\<close> has the sampling parameters in binary64 arithmetic.

  \<^bold>\<open>Mini-app.\<close>  \<open>Mini_Sse\<close> (\<open>api/sse.ts\<close>): the streaming UTF-8 decoder and event parser,
  independent of the chunks, with round trips.  \<open>Mini_Storage\<close>
  (\<open>playground/storage.ts\<close>): conversations in device storage whose calls may fail.
  \<open>Mini_Request\<close> (\<open>auth/session.ts\<close>, \<open>api/url.ts\<close>, \<open>api/request.ts\<close>): concurrent calls that
  share one rotation of the session.  \<open>Mini_Client\<close> (\<open>auth/client.ts\<close>): sign-in and
  sign-out.

  \<^bold>\<open>Correspondence.\<close>  A definition has the name of the function it translates; names in
  lower case with underscores are parts of a function (a loop, the code after an
  \<open>await\<close>) or the vocabulary of the specifications.  An \<open>async\<close> function is cut at its
  \<open>await\<close>s, and the pieces are the steps of a transition system or are composed in the
  statements.  Clock, random identifiers, translation function, network, device storage,
  zod and axios are arguments or the environment of a transition system.  Loops are
  recursive functions with termination proofs.

  \<^bold>\<open>Not modelled.\<close>  The Go server, the rendering components, routing, translations and
  generated code; API wrappers that are one HTTP call each; how zod combines the checks of
  single fields; the helpers of channel tables and actions; supplier reports, the other
  dashboard charts and the tiers of billing expressions; the calls of the browser that
  create a passkey or download a file.  A plain object that is indexed by a text is
  modelled by its own properties.  A text that is the name of a property of
  \<open>Object.prototype\<close>, such as \<open>constructor\<close>, finds that property instead of nothing:
  the table of error messages of \<open>Http_Client\<close>, which is indexed by a code of the server,
  represents this; elsewhere (a model, a channel or a setting of such a name, as a key of
  \<open>Ratio_Sync\<close> or \<open>Channel_Models\<close>) such names are outside the model.  The sign of zero is
  not represented.
\<close>

end
